(* ===== verification/Opm_Prelude.thy ===== *)
theory Opm_Prelude
  imports Main "HOL-Library.Word" "HOL-Library.Char_ord" "HOL-Library.List_Lexorder"
    "HOL-Library.Product_Lexorder" "HOL-Library.Multiset"
begin

text \<open>
  Shared vocabulary of the development: Go strings and integers, Go errors with their
  wrapping chains, the parts of the Go standard library (\<open>strings\<close>, \<open>sort\<close>,
  \<open>errors\<close>, \<open>fmt\<close>) that the controller uses, and the lemmas on them that the
  component theories share.

  Go strings are byte strings; a HOL \<open>string\<close> is a list of 8-bit characters, and the
  order of \<open>HOL-Library.List_Lexorder\<close> with \<open>Char_ord\<close> is Go's bytewise string order.
  A Go \<open>int64\<close> is a \<open>64 word\<close> read through \<open>sint\<close>; \<open>+\<close> wraps as in Go.
\<close>

named_theorems go_defs \<open>definitions of the Go runtime model\<close>
named_theorems status_simps \<open>field-wise effect of the status operations\<close>
named_theorems effect_simps \<open>effect log of the API wrappers\<close>

subsection \<open>Integers and time\<close>

type_synonym int64 = "64 word"

text \<open>Instants and durations are counted in nanoseconds (\<open>time.Duration\<close>).\<close>

type_synonym duration = int
type_synonym instant = int

abbreviation Second :: duration where "Second \<equiv> 1000000000"
abbreviation Minute :: duration where "Minute \<equiv> 60 * Second"

definition int64_max :: int where
  "int64_max = 9223372036854775807"

lemma sint_plus1_int64:
  fixes n :: int64
  assumes "sint n < int64_max"
  shows "sint (n + 1) = sint n + 1"
proof -
  have lo: "- (2 ^ 63) \<le> sint n" using sint_greater_eq [of n] by simp
  have hi: "sint n + 1 < 2 ^ 63" using assms by (simp add: int64_max_def)
  have "sint (n + 1) = signed_take_bit 63 (sint n + 1)"
    by (simp add: sint_word_ariths)
  also have "\<dots> = sint n + 1"
    using lo hi by (intro signed_take_bit_int_eq_self) simp_all
  finally show ?thesis .
qed

subsection \<open>The \<open>strings\<close> package\<close>

definition HasPrefix :: "string \<Rightarrow> string \<Rightarrow> bool" where
  "HasPrefix s p \<longleftrightarrow> take (length p) s = p"

fun Contains :: "string \<Rightarrow> string \<Rightarrow> bool" where
  "Contains [] sub = (sub = [])"
| "Contains (c # s) sub = (HasPrefix (c # s) sub \<or> Contains s sub)"

definition TrimPrefix :: "string \<Rightarrow> string \<Rightarrow> string" where
  "TrimPrefix s p = (if HasPrefix s p then drop (length p) s else s)"

lemma HasPrefix_append [simp]: "HasPrefix (p @ s) p"
  by (simp add: HasPrefix_def)

lemma HasPrefix_iff: "HasPrefix s p \<longleftrightarrow> (\<exists>t. s = p @ t)"
  by (metis HasPrefix_append HasPrefix_def append_take_drop_id)

lemma Contains_iff: "Contains s sub \<longleftrightarrow> (\<exists>a b. s = a @ sub @ b)"
proof (induction s)
  case Nil
  then show ?case by simp
next
  case (Cons c s)
  have "(\<exists>a b. c # s = a @ sub @ b) \<longleftrightarrow>
        (\<exists>b. c # s = sub @ b) \<or> (\<exists>a b. s = a @ sub @ b)"
    by (metis append_Cons append_Nil append_eq_Cons_conv)
  with Cons show ?case by (simp add: HasPrefix_iff)
qed

lemma Contains_appendI: "Contains t sub \<Longrightarrow> Contains (s @ t @ u) sub"
  by (metis Contains_iff append.assoc)

text \<open>Decimal formatting, \<open>%d\<close>.\<close>

definition digit_char :: "nat \<Rightarrow> char" where
  "digit_char d = char_of (48 + d)"

fun nat_str :: "nat \<Rightarrow> string" where
  "nat_str n = (if n < 10 then [digit_char n] else nat_str (n div 10) @ [digit_char (n mod 10)])"

declare nat_str.simps [simp del]

definition int_str :: "int \<Rightarrow> string" where
  "int_str i = (if i < 0 then CHR ''-'' # nat_str (nat (- i)) else nat_str (nat i))"

text \<open>
  Quoting, \<open>%q\<close> (\<open>strconv.Quote\<close>), exact on ASCII; bytes from 0x80 on are copied, as
  they are for printable UTF-8.
\<close>

definition lower_hex :: "nat \<Rightarrow> char" where
  "lower_hex d = (if d < 10 then char_of (48 + d) else char_of (87 + d))"

definition hex2 :: "nat \<Rightarrow> string" where
  "hex2 n = [lower_hex (n div 16), lower_hex (n mod 16)]"

lemma lower_hex_inj: "a < 16 \<Longrightarrow> b < 16 \<Longrightarrow> lower_hex a = lower_hex b \<Longrightarrow> a = b"
  by (auto simp: lower_hex_def char_of_eq_iff take_bit_eq_mod split: if_splits
        dest!: arg_cong [where f = "of_char :: char \<Rightarrow> nat"])

lemma hex2_inj:
  assumes "a < 256" and "b < 256" and "hex2 a = hex2 b"
  shows "a = b"
proof -
  have "a div 16 = b div 16" and "a mod 16 = b mod 16"
    using assms by (auto simp: hex2_def intro: lower_hex_inj)
  then show ?thesis by (metis div_mult_mod_eq)
qed

definition quote_char :: "char \<Rightarrow> string" where
  "quote_char c = (let n = of_char c :: nat in
     if n = 34 then [CHR 0x5C, CHR 0x22]
     else if n = 92 then [CHR 0x5C, CHR 0x5C]
     else if n = 7 then [CHR 0x5C, CHR ''a'']
     else if n = 8 then [CHR 0x5C, CHR ''b'']
     else if n = 12 then [CHR 0x5C, CHR ''f'']
     else if n = 10 then [CHR 0x5C, CHR ''n'']
     else if n = 13 then [CHR 0x5C, CHR ''r'']
     else if n = 9 then [CHR 0x5C, CHR ''t'']
     else if n = 11 then [CHR 0x5C, CHR ''v'']
     else if n < 32 \<or> n = 127 then [CHR 0x5C, CHR ''x''] @ hex2 n
     else [c])"

definition Quote :: "string \<Rightarrow> string" where
  "Quote s = [CHR 0x22] @ concat (map quote_char s) @ [CHR 0x22]"

subsection \<open>Errors: messages, identities and wrapping chains\<close>

text \<open>
  A Go error is its message, what \<open>errors.Is\<close> and \<open>errors.As\<close> can recognise it by,
  and the errors it wraps. \<open>Sentinel\<close> is a package-level \<open>errors.New\<close> value,
  \<open>StatusError\<close> an apimachinery \<open>*StatusError\<close> with its reason.
\<close>

datatype err_id = Anonymous | Sentinel string | StatusError string

datatype goerr = GoErr (err_msg: string) (err_id: err_id) (err_wrapped: "goerr list")

definition errors_New :: "string \<Rightarrow> goerr" where
  "errors_New m = GoErr m Anonymous []"

text \<open>\<open>fmt.Errorf (pre ++ "%w" ++ post)\<close>.\<close>

definition Errorf_w :: "string \<Rightarrow> goerr \<Rightarrow> string \<Rightarrow> goerr" where
  "Errorf_w pre e post = GoErr (pre @ err_msg e @ post) Anonymous [e]"

text \<open>The errors reachable by \<open>Unwrap\<close>, in the depth-first order of \<open>errors.Is/As\<close>.\<close>

fun err_chain :: "goerr \<Rightarrow> goerr list" where
  "err_chain (GoErr m i ws) = GoErr m i ws # concat (map err_chain ws)"

definition errors_Is :: "goerr \<Rightarrow> string \<Rightarrow> bool" where
  "errors_Is e name \<longleftrightarrow> list_ex (\<lambda>x. err_id x = Sentinel name) (err_chain e)"

fun is_status_error :: "goerr \<Rightarrow> bool" where
  "is_status_error (GoErr m (StatusError r) ws) = True"
| "is_status_error (GoErr m i ws) = False"

definition errors_As_StatusError :: "goerr \<Rightarrow> goerr option" where
  "errors_As_StatusError e = find is_status_error (err_chain e)"

fun join_lines :: "string list \<Rightarrow> string" where
  "join_lines [] = []"
| "join_lines [m] = m"
| "join_lines (m # ms) = m @ [CHR 0x0A] @ join_lines ms"

text \<open>\<open>errors.Join\<close>: \<open>nil\<close> for no errors.\<close>

definition errors_Join :: "goerr list \<Rightarrow> goerr option" where
  "errors_Join es =
     (if es = [] then None else Some (GoErr (join_lines (map err_msg es)) Anonymous es))"

lemma err_msg_Errorf_w [simp]: "err_msg (Errorf_w p e q) = p @ err_msg e @ q"
  by (simp add: Errorf_w_def)

lemma err_chain_Errorf_w [simp]: "err_chain (Errorf_w p e q) = Errorf_w p e q # err_chain e"
  by (simp add: Errorf_w_def)

lemma errors_Is_Errorf_w [simp]: "errors_Is (Errorf_w p e q) n = errors_Is e n"
  by (simp add: errors_Is_def) (simp add: Errorf_w_def)

lemma is_status_error_Errorf_w [simp]: "\<not> is_status_error (Errorf_w p e q)"
  by (simp add: Errorf_w_def)

lemma errors_As_Errorf_w [simp]:
  "errors_As_StatusError (Errorf_w p e q) = errors_As_StatusError e"
  by (simp add: errors_As_StatusError_def)

lemma errors_Join_None [simp]: "errors_Join es = None \<longleftrightarrow> es = []"
  by (simp add: errors_Join_def)

subsection \<open>The \<open>sort\<close> package\<close>

text \<open>
  \<open>sort.SliceStable\<close> with a comparison \<open>lt\<close>: the stable sorted permutation, computed
  here by insertion.
\<close>

fun insert_by :: "('a \<Rightarrow> 'a \<Rightarrow> bool) \<Rightarrow> 'a \<Rightarrow> 'a list \<Rightarrow> 'a list" where
  "insert_by lt x [] = [x]"
| "insert_by lt x (y # ys) = (if lt y x then y # insert_by lt x ys else x # y # ys)"

definition SliceStable :: "('a \<Rightarrow> 'a \<Rightarrow> bool) \<Rightarrow> 'a list \<Rightarrow> 'a list" where
  "SliceStable lt xs = foldr (insert_by lt) xs []"

definition sort_Strings :: "string list \<Rightarrow> string list" where
  "sort_Strings xs = SliceStable (<) xs"

text \<open>
  The contract of every comparison function the controller passes to \<open>sort\<close>: it compares
  a key in a linear order. Sorting by it is then HOL's stable \<open>sort_key\<close>.
\<close>

locale slice_order =
  fixes lt :: "'a \<Rightarrow> 'a \<Rightarrow> bool"
    and key :: "'a \<Rightarrow> 'k::linorder"
  assumes lt_key: "lt a b \<longleftrightarrow> key a < key b"
begin

lemma insert_by_eq: "insert_by lt x xs = insort_key key x xs"
  by (induction xs) (auto simp: lt_key not_less)

lemma SliceStable_eq: "SliceStable lt xs = sort_key key xs"
  by (simp add: SliceStable_def sort_key_def insert_by_eq [abs_def])

lemma mset_SliceStable: "mset (SliceStable lt xs) = mset xs"
  by (simp add: SliceStable_eq)

lemma set_SliceStable: "set (SliceStable lt xs) = set xs"
  by (simp add: SliceStable_eq)

lemma length_SliceStable: "length (SliceStable lt xs) = length xs"
  by (simp add: SliceStable_eq)

lemma sorted_SliceStable: "sorted (map key (SliceStable lt xs))"
  by (simp add: SliceStable_eq)

lemma stable_SliceStable:
  "filter (\<lambda>x. key x = k) (SliceStable lt xs) = filter (\<lambda>x. key x = k) xs"
  by (simp add: SliceStable_eq sort_key_stable)

lemma SliceStable_perm:
  assumes "inj_on key (set xs)" and "mset xs = mset ys"
  shows "SliceStable lt xs = SliceStable lt ys"
  using assms by (simp add: SliceStable_eq sort_key_inj_key_eq)

end

interpretation strings_order: slice_order "(<) :: string \<Rightarrow> string \<Rightarrow> bool" "\<lambda>s. s"
  by unfold_locales simp

lemma sort_Strings_eq: "sort_Strings xs = sort xs"
  by (simp add: sort_Strings_def strings_order.SliceStable_eq)

subsection \<open>Lists\<close>

lemma split_at_unique:
  assumes "pre @ y # post = A @ a # B" and "y \<notin> set A" and "y \<noteq> a"
  shows "a \<in> set pre \<and> (\<exists>pre'. pre = A @ a # pre')"
proof -
  have "\<exists>us. pre = A @ us \<and> us @ y # post = a # B"
    using assms(1,2) by (auto simp: append_eq_append_conv2 Cons_eq_append_conv)
  then obtain us where us: "pre = A @ us" "us @ y # post = a # B" by blast
  then obtain u us' where "us = a # us'" using assms(3) by (cases us) auto
  then show ?thesis using us by auto
qed

subsection \<open>Maps\<close>

text \<open>Indexing a Go \<open>map[string]string\<close>: a missing key reads as the empty string.\<close>

definition map_index :: "(string \<rightharpoonup> string) \<Rightarrow> string \<Rightarrow> string" where
  "map_index m k = (case m k of None \<Rightarrow> [] | Some v \<Rightarrow> v)"

lemma map_index_simps [simp]:
  "m k = None \<Longrightarrow> map_index m k = []"
  "m k = Some v \<Longrightarrow> map_index m k = v"
  by (simp_all add: map_index_def)

end
