(* ===== verification/Opm_Flags.thy ===== *)
theory Opm_Flags
  imports Opm_Prelude
begin

text \<open>
  The command line of \<open>cmd/main.go\<close>: the flags that \<open>main\<close> binds, with their defaults, and
  Go's \<open>flag.Parse\<close> over them. The flags that \<open>zap\<close> and controller-runtime bind are a
  parameter: for each name, whether the flag is boolean and which values it accepts.
\<close>

subsection \<open>Flags\<close>

record flags =
  catalogPath :: string
  providerName :: string
  registry :: string
  cueCacheDir :: string
  defaultServiceAccount :: string
  metricsAddr :: string
  metricsCertPath :: string
  metricsCertName :: string
  metricsCertKey :: string
  webhookCertPath :: string
  webhookCertName :: string
  webhookCertKey :: string
  enableLeaderElection :: bool
  probeAddr :: string
  secureMetrics :: bool
  enableHTTP2 :: bool

definition default_flags :: flags where
  "default_flags =
     \<lparr>catalogPath = ''/catalog'',
      providerName = ''kubernetes'',
      registry = ''testing.opmodel.dev=ghcr.io/open-platform-model,'' @
        ''opmodel.dev=ghcr.io/open-platform-model,registry.cue.works'',
      cueCacheDir = ''/tmp/cue-cache'',
      defaultServiceAccount = [],
      metricsAddr = ''0'',
      metricsCertPath = [], metricsCertName = ''tls.crt'', metricsCertKey = ''tls.key'',
      webhookCertPath = [], webhookCertName = ''tls.crt'', webhookCertKey = ''tls.key'',
      enableLeaderElection = False,
      probeAddr = '':8081'',
      secureMetrics = True,
      enableHTTP2 = False\<rparr>"

text \<open>A bound flag: how \<open>Set\<close> stores a string or a boolean value.\<close>

datatype flag_var = StringVar "string \<Rightarrow> flags \<Rightarrow> flags" | BoolVar "bool \<Rightarrow> flags \<Rightarrow> flags"

definition flag_vars :: "(string \<times> flag_var) list" where
  "flag_vars =
     [(''metrics-bind-address'', StringVar (\<lambda>v f. f\<lparr>metricsAddr := v\<rparr>)),
      (''health-probe-bind-address'', StringVar (\<lambda>v f. f\<lparr>probeAddr := v\<rparr>)),
      (''leader-elect'', BoolVar (\<lambda>v f. f\<lparr>enableLeaderElection := v\<rparr>)),
      (''metrics-secure'', BoolVar (\<lambda>v f. f\<lparr>secureMetrics := v\<rparr>)),
      (''webhook-cert-path'', StringVar (\<lambda>v f. f\<lparr>webhookCertPath := v\<rparr>)),
      (''webhook-cert-name'', StringVar (\<lambda>v f. f\<lparr>webhookCertName := v\<rparr>)),
      (''webhook-cert-key'', StringVar (\<lambda>v f. f\<lparr>webhookCertKey := v\<rparr>)),
      (''metrics-cert-path'', StringVar (\<lambda>v f. f\<lparr>metricsCertPath := v\<rparr>)),
      (''metrics-cert-name'', StringVar (\<lambda>v f. f\<lparr>metricsCertName := v\<rparr>)),
      (''metrics-cert-key'', StringVar (\<lambda>v f. f\<lparr>metricsCertKey := v\<rparr>)),
      (''catalog-path'', StringVar (\<lambda>v f. f\<lparr>catalogPath := v\<rparr>)),
      (''provider-name'', StringVar (\<lambda>v f. f\<lparr>providerName := v\<rparr>)),
      (''registry'', StringVar (\<lambda>v f. f\<lparr>registry := v\<rparr>)),
      (''cue-cache-dir'', StringVar (\<lambda>v f. f\<lparr>cueCacheDir := v\<rparr>)),
      (''default-service-account'', StringVar (\<lambda>v f. f\<lparr>defaultServiceAccount := v\<rparr>)),
      (''enable-http2'', BoolVar (\<lambda>v f. f\<lparr>enableHTTP2 := v\<rparr>))]"

subsection \<open>Go's \<open>flag.Parse\<close>\<close>

text \<open>\<open>strconv.ParseBool\<close>.\<close>

definition ParseBool :: "string \<Rightarrow> bool option" where
  "ParseBool v =
     (if v \<in> {''1'', ''t'', ''T'', ''true'', ''TRUE'', ''True''} then Some True
      else if v \<in> {''0'', ''f'', ''F'', ''false'', ''FALSE'', ''False''} then Some False
      else None)"

type_synonym library_flags = "string \<Rightarrow> (bool \<times> (string \<Rightarrow> bool)) option"

datatype parse_error = ErrHelp | BadSyntax | NotDefined string | InvalidValue string | NeedsArgument string

definition is_bool_flag :: "library_flags \<Rightarrow> string \<Rightarrow> bool option" where
  "is_bool_flag X name =
     (case map_of flag_vars name of
        Some (BoolVar _) \<Rightarrow> Some True
      | Some (StringVar _) \<Rightarrow> Some False
      | None \<Rightarrow> map_option fst (X name))"

definition set_flag :: "library_flags \<Rightarrow> string \<Rightarrow> string \<Rightarrow> flags \<Rightarrow> parse_error + flags" where
  "set_flag X name v f =
     (case map_of flag_vars name of
        Some (BoolVar upd) \<Rightarrow>
          (case ParseBool v of None \<Rightarrow> Inl (InvalidValue name) | Some b \<Rightarrow> Inr (upd b f))
      | Some (StringVar upd) \<Rightarrow> Inr (upd v f)
      | None \<Rightarrow>
          (case X name of
             Some (_, accepts) \<Rightarrow> if accepts v then Inr f else Inl (InvalidValue name)
           | None \<Rightarrow> Inl (NotDefined name)))"

text \<open>The argument without its dashes, split at the first equals sign.\<close>

definition strip_dashes :: "string \<Rightarrow> string" where
  "strip_dashes s = (if tl s \<noteq> [] \<and> hd (tl s) = CHR ''-'' then tl (tl s) else tl s)"

definition flag_name :: "string \<Rightarrow> string" where
  "flag_name arg = takeWhile (\<lambda>c. c \<noteq> CHR ''='') (strip_dashes arg)"

definition flag_value :: "string \<Rightarrow> string option" where
  "flag_value arg =
     (case dropWhile (\<lambda>c. c \<noteq> CHR ''='') (strip_dashes arg) of [] \<Rightarrow> None | _ # v \<Rightarrow> Some v)"

fun Parse :: "library_flags \<Rightarrow> string list \<Rightarrow> flags \<Rightarrow> parse_error + flags \<times> string list" where
  "Parse X [] f = Inr (f, [])"
| "Parse X (s # args) f =
     (if length s < 2 \<or> hd s \<noteq> CHR ''-'' then Inr (f, s # args)
      else if s = ''--'' then Inr (f, args)
      else if strip_dashes s = [] \<or> hd (strip_dashes s) = CHR ''-'' \<or> hd (strip_dashes s) = CHR ''=''
      then Inl BadSyntax
      else let name = flag_name s in
        case is_bool_flag X name of
          None \<Rightarrow> Inl (if name = ''help'' \<or> name = ''h'' then ErrHelp else NotDefined name)
        | Some True \<Rightarrow>
            (case set_flag X name (case flag_value s of Some v \<Rightarrow> v | None \<Rightarrow> ''true'') f of
               Inl e \<Rightarrow> Inl e
             | Inr f' \<Rightarrow> Parse X args f')
        | Some False \<Rightarrow>
            (case flag_value s of
               Some v \<Rightarrow>
                 (case set_flag X name v f of Inl e \<Rightarrow> Inl e | Inr f' \<Rightarrow> Parse X args f')
             | None \<Rightarrow>
                 (case args of
                    [] \<Rightarrow> Inl (NeedsArgument name)
                  | v # args' \<Rightarrow>
                      (case set_flag X name v f of Inl e \<Rightarrow> Inl e | Inr f' \<Rightarrow> Parse X args' f'))))"

subsection \<open>What a command line leaves alone\<close>

text \<open>
  A field that no given flag stores keeps its value: it is enough to look at the names of the
  arguments that could be flags.
\<close>

lemma Parse_step:
  assumes "Parse X (s # args) f = Inr (f', rest)"
  obtains (stop) "f' = f"
  | (flag) v g args' where "set_flag X (flag_name s) v f = Inr g" "Parse X args' g = Inr (f', rest)"
      "set args' \<subseteq> set args" "length args' \<le> length args"
  using assms
  by (auto simp: Let_def split: if_splits option.splits bool.splits sum.splits list.splits) fastforce+

lemma Parse_keeps:
  assumes keep: "\<And>name v g g'. Q name \<Longrightarrow> set_flag X name v g = Inr g' \<Longrightarrow> fld g' = fld g"
    and "Parse X args f = Inr (f', rest)" and "\<forall>a\<in>set args. Q (flag_name a)"
  shows "fld f' = fld f"
  using assms(2,3)
proof (induction args arbitrary: f rule: length_induct)
  case (1 args)
  show ?case
  proof (cases args)
    case Nil
    then show ?thesis using "1.prems" by simp
  next
    case (Cons s as)
    from "1.prems"(1) [unfolded Cons] show ?thesis
    proof (cases rule: Parse_step)
      case (flag v g args')
      have "fld f' = fld g" using "1.IH" flag(2-4) "1.prems"(2) by (force simp: Cons less_Suc_eq_le)
      then show ?thesis using keep [OF _ flag(1)] "1.prems"(2) by (simp add: Cons)
    qed simp
  qed
qed

lemma set_flag_other:
  assumes "set_flag X name v f = Inr f'"
  shows "name \<noteq> ''enable-http2'' \<Longrightarrow> enableHTTP2 f' = enableHTTP2 f"
    and "name \<noteq> ''metrics-secure'' \<Longrightarrow> secureMetrics f' = secureMetrics f"
    and "name \<noteq> ''registry'' \<Longrightarrow> registry f' = registry f"
  using assms
  by (auto simp: set_flag_def flag_vars_def split: option.splits if_splits)

lemma Parse_default:
  assumes "Parse X args f = Inr (f', rest)"
  shows "\<forall>a\<in>set args. flag_name a \<noteq> ''enable-http2'' \<Longrightarrow> enableHTTP2 f' = enableHTTP2 f"
    and "\<forall>a\<in>set args. flag_name a \<noteq> ''metrics-secure'' \<Longrightarrow> secureMetrics f' = secureMetrics f"
    and "\<forall>a\<in>set args. flag_name a \<noteq> ''registry'' \<Longrightarrow> registry f' = registry f"
  using Parse_keeps [where Q = "\<lambda>n. n \<noteq> ''enable-http2''" and fld = enableHTTP2, OF _ assms] set_flag_other(1) apply blast
  using Parse_keeps [where Q = "\<lambda>n. n \<noteq> ''metrics-secure''" and fld = secureMetrics, OF _ assms] set_flag_other(2) apply blast
  using Parse_keeps [where Q = "\<lambda>n. n \<noteq> ''registry''" and fld = registry, OF _ assms] set_flag_other(3) by blast

end
