(* ===== verification/Opm_Api.thy ===== *)
theory Opm_Api
  imports Opm_Prelude
begin

text \<open>
  The custom resources of \<open>api/v1alpha1\<close>: one record per Go struct, with the struct's
  fields in its order. A pointer field is an \<open>option\<close>. The fields that
  \<open>ModuleReleaseSpec\<close> and \<open>ReleaseSpec\<close> (and the two status structs) share are the
  base of an extensible record, so that code written for both is one definition here.

  \<open>ObjectMeta\<close>, \<open>Condition\<close> and \<open>SourceReference\<close> are apimachinery and Flux structs;
  the records hold the fields that the controller reads or writes.
\<close>

subsection \<open>Kubernetes metadata\<close>

datatype ConditionStatus = ConditionTrue | ConditionFalse | ConditionUnknown

record Condition =
  c_Type :: string
  c_Status :: ConditionStatus
  c_Reason :: string
  c_Message :: string

record ObjectMeta =
  om_Name :: string
  om_Namespace :: string
  om_Generation :: int64
  om_Finalizers :: "string list"
  om_DeletionTimestamp :: "instant option"
  om_Annotations :: "string \<rightharpoonup> string"

record NamespacedName =
  nn_Namespace :: string
  nn_Name :: string

record GroupVersionKind =
  gvk_Group :: string
  gvk_Version :: string
  gvk_Kind :: string

subsection \<open>Shared types (\<open>common_types.go\<close>)\<close>

definition AnnotationForceDeleteOrphan :: string where
  "AnnotationForceDeleteOrphan = ''opm.dev/force-delete-orphan''"

record SourceReference =
  sr_Kind :: string
  sr_Name :: string
  sr_Namespace :: string

record ModuleReference =
  mod_Path :: string
  mod_Version :: string

record RolloutSpec =
  ro_Strategy :: string
  ro_ForceConflicts :: bool

record SourceStatus =
  ss_Ref :: "SourceReference option"
  ss_ArtifactRevision :: string
  ss_ArtifactDigest :: string
  ss_ArtifactURL :: string

record FailureCounters =
  fc_Reconcile :: int64
  fc_Apply :: int64
  fc_Prune :: int64
  fc_Drift :: int64

record InventoryEntry =
  ie_Group :: string
  ie_Kind :: string
  ie_Namespace :: string
  ie_Name :: string
  ie_Version :: string
  ie_Component :: string

record Inventory =
  inv_Revision :: int64
  inv_Digest :: string
  inv_Count :: int64
  inv_Entries :: "InventoryEntry list"

record HistoryEntry =
  he_Sequence :: int64
  he_Action :: string
  he_Phase :: string
  he_StartedAt :: "instant option"
  he_FinishedAt :: "instant option"
  he_SourceDigest :: string
  he_ConfigDigest :: string
  he_RenderDigest :: string
  he_InventoryDigest :: string
  he_InventoryCount :: int64
  he_Message :: string

text \<open>\<open>Raw\<close> is a Go byte slice: \<open>None\<close> is the nil slice.\<close>

record RawValues =
  rv_Raw :: "string option"

subsection \<open>Specs\<close>

record CommonSpec =
  sp_Suspend :: bool
  sp_Prune :: bool
  sp_ServiceAccountName :: string
  sp_Rollout :: "RolloutSpec option"

record ModuleReleaseSpec = CommonSpec +
  sp_Module :: ModuleReference
  sp_Values :: "RawValues option"

record ReleaseSpec = CommonSpec +
  sp_SourceRef :: SourceReference
  sp_Path :: string
  sp_Interval :: duration
  sp_DependsOn :: "NamespacedName list"

subsection \<open>Statuses\<close>

record CommonStatus =
  st_ObservedGeneration :: int64
  st_Conditions :: "Condition list"
  st_LastAttemptedAction :: string
  st_LastAttemptedAt :: "instant option"
  st_LastAttemptedDuration :: "duration option"
  st_LastAttemptedSourceDigest :: string
  st_LastAttemptedConfigDigest :: string
  st_LastAttemptedRenderDigest :: string
  st_LastAppliedAt :: "instant option"
  st_LastAppliedSourceDigest :: string
  st_LastAppliedConfigDigest :: string
  st_LastAppliedRenderDigest :: string
  st_FailureCounters :: "FailureCounters option"
  st_Inventory :: "Inventory option"
  st_History :: "HistoryEntry list"
  st_NextRetryAt :: "instant option"

record ModuleReleaseStatus = CommonStatus +
  st_ReleaseUUID :: string

record ReleaseStatus = CommonStatus +
  st_Source :: "SourceStatus option"

subsection \<open>Custom resources\<close>

record ('sp, 'st) CustomResource =
  cr_Meta :: ObjectMeta
  cr_Spec :: 'sp
  cr_Status :: 'st

type_synonym ModuleRelease = "(ModuleReleaseSpec, ModuleReleaseStatus) CustomResource"
type_synonym Release = "(ReleaseSpec, ReleaseStatus) CustomResource"
type_synonym ('a, 'b) release_like = "('a CommonSpec_scheme, 'b CommonStatus_scheme) CustomResource"

abbreviation obj_name :: "('sp, 'st) CustomResource \<Rightarrow> string" where
  "obj_name o1 \<equiv> om_Name (cr_Meta o1)"

abbreviation obj_namespace :: "('sp, 'st) CustomResource \<Rightarrow> string" where
  "obj_namespace o1 \<equiv> om_Namespace (cr_Meta o1)"

definition map_status :: "('st \<Rightarrow> 'st) \<Rightarrow> ('sp, 'st) CustomResource \<Rightarrow> ('sp, 'st) CustomResource" where
  "map_status f o1 = o1\<lparr>cr_Status := f (cr_Status o1)\<rparr>"

text \<open>\<open>GetConditions\<close> and \<open>SetConditions\<close>, the setter interface of the condition helpers.\<close>

definition GetConditions :: "('sp, 'b CommonStatus_scheme) CustomResource \<Rightarrow> Condition list" where
  "GetConditions o1 = st_Conditions (cr_Status o1)"

definition SetConditions ::
  "Condition list \<Rightarrow> ('sp, 'b CommonStatus_scheme) CustomResource \<Rightarrow> ('sp, 'b CommonStatus_scheme) CustomResource" where
  "SetConditions cs o1 = o1\<lparr>cr_Status := (cr_Status o1)\<lparr>st_Conditions := cs\<rparr>\<rparr>"

definition on_conditions ::
  "(Condition list \<Rightarrow> Condition list) \<Rightarrow> ('sp, 'b CommonStatus_scheme) CustomResource
     \<Rightarrow> ('sp, 'b CommonStatus_scheme) CustomResource" where
  "on_conditions f o1 = SetConditions (f (GetConditions o1)) o1"

lemma map_status_simps [simp]:
  "cr_Meta (map_status f o1) = cr_Meta o1"
  "cr_Spec (map_status f o1) = cr_Spec o1"
  "cr_Status (map_status f o1) = f (cr_Status o1)"
  by (simp_all add: map_status_def)

lemma on_conditions_simps [simp]:
  "cr_Meta (on_conditions f o1) = cr_Meta o1"
  "cr_Spec (on_conditions f o1) = cr_Spec o1"
  "cr_Status (on_conditions f o1) =
     (cr_Status o1)\<lparr>st_Conditions := f (st_Conditions (cr_Status o1))\<rparr>"
  by (simp_all add: on_conditions_def SetConditions_def GetConditions_def)

text \<open>A status nothing has been recorded in yet.\<close>

definition empty_common :: CommonStatus where
  "empty_common = \<lparr>st_ObservedGeneration = 0, st_Conditions = [],
     st_LastAttemptedAction = [], st_LastAttemptedAt = None, st_LastAttemptedDuration = None,
     st_LastAttemptedSourceDigest = [], st_LastAttemptedConfigDigest = [],
     st_LastAttemptedRenderDigest = [], st_LastAppliedAt = None,
     st_LastAppliedSourceDigest = [], st_LastAppliedConfigDigest = [],
     st_LastAppliedRenderDigest = [], st_FailureCounters = None, st_Inventory = None,
     st_History = [], st_NextRetryAt = None\<rparr>"

definition empty_mr_status :: ModuleReleaseStatus where
  "empty_mr_status = CommonStatus.extend empty_common (ModuleReleaseStatus.fields [])"

definition empty_release_status :: ReleaseStatus where
  "empty_release_status = CommonStatus.extend empty_common (ReleaseStatus.fields None)"

end
