(* ===== verification/Opm_Kube.thy ===== *)
theory Opm_Kube
  imports Opm_Api
begin

text \<open>
  The interfaces the controller consumes and does not contain: apimachinery's error and
  condition helpers, controller-runtime's finalizer helpers and clients, Flux's condition
  and server-side-apply packages, and the API server behind them. Each is a record of
  functions that the component definitions take as a parameter; what the controller relies
  on is stated as the laws of a locale, from the documentation of the packages.

  The world behind the API server is a type variable \<open>'w\<close>: every call may observe and
  change it arbitrarily. The controller's own mutating calls and events are recorded in an
  effect log, in program order, so that ordering properties can be stated.
\<close>

subsection \<open>Pure library functions\<close>

record kube_lib =
  k_IsNotFound :: "goerr \<Rightarrow> bool"
  k_IsForbidden :: "goerr \<Rightarrow> bool"
  k_IgnoreNotFound :: "goerr \<Rightarrow> goerr option"
  k_ContainsFinalizer :: "string list \<Rightarrow> string \<Rightarrow> bool"
  k_AddFinalizer :: "string list \<Rightarrow> string \<Rightarrow> string list"
  k_RemoveFinalizer :: "string list \<Rightarrow> string \<Rightarrow> string list"
  k_FindStatusCondition :: "Condition list \<Rightarrow> string \<Rightarrow> Condition option"
  k_MarkTrue :: "string \<Rightarrow> string \<Rightarrow> string \<Rightarrow> Condition list \<Rightarrow> Condition list"
  k_MarkFalse :: "string \<Rightarrow> string \<Rightarrow> string \<Rightarrow> Condition list \<Rightarrow> Condition list"
  k_MarkUnknown :: "string \<Rightarrow> string \<Rightarrow> string \<Rightarrow> Condition list \<Rightarrow> Condition list"
  k_MarkReconciling :: "string \<Rightarrow> string \<Rightarrow> Condition list \<Rightarrow> Condition list"
  k_MarkStalled :: "string \<Rightarrow> string \<Rightarrow> Condition list \<Rightarrow> Condition list"
  k_Delete :: "string \<Rightarrow> Condition list \<Rightarrow> Condition list"

text \<open>\<open>apierrors\<close> and \<open>client\<close>: the predicates see through \<open>%w\<close> wrapping.\<close>

locale kube_errors =
  fixes K :: kube_lib
  assumes IsNotFound_wrap: "k_IsNotFound K (Errorf_w p e q) = k_IsNotFound K e"
    and IsForbidden_wrap: "k_IsForbidden K (Errorf_w p e q) = k_IsForbidden K e"
    and IgnoreNotFound: "k_IgnoreNotFound K e = (if k_IsNotFound K e then None else Some e)"
    and reasons_exclusive: "k_IsNotFound K e \<Longrightarrow> \<not> k_IsForbidden K e"

text \<open>\<open>controllerutil\<close>: finalizer lists.\<close>

locale kube_finalizers =
  fixes K :: kube_lib
  assumes ContainsFinalizer: "k_ContainsFinalizer K fs f \<longleftrightarrow> f \<in> set fs"
    and AddFinalizer: "set (k_AddFinalizer K fs f) = insert f (set fs)"
    and RemoveFinalizer: "set (k_RemoveFinalizer K fs f) = set fs - {f}"

text \<open>
  \<open>apimeta.FindStatusCondition\<close> and Flux's \<open>runtime/conditions\<close>. The CRDs declare the
  condition list as a map keyed by type, so the laws are stated for lists without duplicate
  types and say that this is kept.
\<close>

abbreviation conditions_ok :: "Condition list \<Rightarrow> bool" where
  "conditions_ok cs \<equiv> distinct (map c_Type cs)"

definition mk_condition :: "string \<Rightarrow> ConditionStatus \<Rightarrow> string \<Rightarrow> string \<Rightarrow> Condition" where
  "mk_condition t s r m = \<lparr>c_Type = t, c_Status = s, c_Reason = r, c_Message = m\<rparr>"

lemma mk_condition_simps [simp]:
  "c_Type (mk_condition t s r m) = t"
  "c_Status (mk_condition t s r m) = s"
  "c_Reason (mk_condition t s r m) = r"
  "c_Message (mk_condition t s r m) = m"
  by (simp_all add: mk_condition_def)

locale flux_conditions =
  fixes K :: kube_lib
  assumes Find_MarkTrue: "conditions_ok cs \<Longrightarrow>
      k_FindStatusCondition K (k_MarkTrue K t r m cs) =
        (k_FindStatusCondition K cs)(t \<mapsto> mk_condition t ConditionTrue r m)"
    and Find_MarkFalse: "conditions_ok cs \<Longrightarrow>
      k_FindStatusCondition K (k_MarkFalse K t r m cs) =
        (k_FindStatusCondition K cs)(t \<mapsto> mk_condition t ConditionFalse r m)"
    and Find_MarkUnknown: "conditions_ok cs \<Longrightarrow>
      k_FindStatusCondition K (k_MarkUnknown K t r m cs) =
        (k_FindStatusCondition K cs)(t \<mapsto> mk_condition t ConditionUnknown r m)"
    and Find_Delete: "conditions_ok cs \<Longrightarrow>
      k_FindStatusCondition K (k_Delete K t cs) = (k_FindStatusCondition K cs)(t := None)"
    and Find_MarkReconciling: "conditions_ok cs \<Longrightarrow>
      k_FindStatusCondition K (k_MarkReconciling K r m cs) =
        (k_FindStatusCondition K cs)(''Stalled'' := None,
           ''Reconciling'' \<mapsto> mk_condition ''Reconciling'' ConditionTrue r m)"
    and Find_MarkStalled: "conditions_ok cs \<Longrightarrow>
      k_FindStatusCondition K (k_MarkStalled K r m cs) =
        (k_FindStatusCondition K cs)(''Reconciling'' := None,
           ''Stalled'' \<mapsto> mk_condition ''Stalled'' ConditionTrue r m)"
    and ok_MarkTrue: "conditions_ok cs \<Longrightarrow> conditions_ok (k_MarkTrue K t r m cs)"
    and ok_MarkFalse: "conditions_ok cs \<Longrightarrow> conditions_ok (k_MarkFalse K t r m cs)"
    and ok_MarkUnknown: "conditions_ok cs \<Longrightarrow> conditions_ok (k_MarkUnknown K t r m cs)"
    and ok_Delete: "conditions_ok cs \<Longrightarrow> conditions_ok (k_Delete K t cs)"
    and ok_MarkReconciling: "conditions_ok cs \<Longrightarrow> conditions_ok (k_MarkReconciling K r m cs)"
    and ok_MarkStalled: "conditions_ok cs \<Longrightarrow> conditions_ok (k_MarkStalled K r m cs)"
begin

lemmas find_simps = Find_MarkTrue Find_MarkFalse Find_MarkUnknown Find_Delete
  Find_MarkReconciling Find_MarkStalled
lemmas ok_simps = ok_MarkTrue ok_MarkFalse ok_MarkUnknown ok_Delete ok_MarkReconciling
  ok_MarkStalled

end

locale kube_laws = kube_errors K + kube_finalizers K + flux_conditions K for K

subsection \<open>A reference instance of the pure laws\<close>

text \<open>
  Condition lists as association lists with one entry per type, and errors by the reason of
  the first \<open>StatusError\<close> of the chain: the instance shows that the laws are consistent
  and lets concrete runs be evaluated.
\<close>

fun std_find :: "Condition list \<Rightarrow> string \<Rightarrow> Condition option" where
  "std_find [] t = None"
| "std_find (c # cs) t = (if c_Type c = t then Some c else std_find cs t)"

fun std_set :: "Condition \<Rightarrow> Condition list \<Rightarrow> Condition list" where
  "std_set c [] = [c]"
| "std_set c (d # cs) = (if c_Type d = c_Type c then c # cs else d # std_set c cs)"

definition std_delete :: "string \<Rightarrow> Condition list \<Rightarrow> Condition list" where
  "std_delete t cs = filter (\<lambda>c. c_Type c \<noteq> t) cs"

definition std_reason :: "goerr \<Rightarrow> string option" where
  "std_reason e = (case errors_As_StatusError e of
      Some (GoErr m (StatusError r) ws) \<Rightarrow> Some r | _ \<Rightarrow> None)"

definition std_kube :: kube_lib where
  "std_kube = \<lparr>
     k_IsNotFound = (\<lambda>e. std_reason e = Some ''NotFound''),
     k_IsForbidden = (\<lambda>e. std_reason e = Some ''Forbidden''),
     k_IgnoreNotFound = (\<lambda>e. if std_reason e = Some ''NotFound'' then None else Some e),
     k_ContainsFinalizer = (\<lambda>fs f. List.member fs f),
     k_AddFinalizer = (\<lambda>fs f. if List.member fs f then fs else fs @ [f]),
     k_RemoveFinalizer = (\<lambda>fs f. filter (\<lambda>g. g \<noteq> f) fs),
     k_FindStatusCondition = std_find,
     k_MarkTrue = (\<lambda>t r m. std_set (mk_condition t ConditionTrue r m)),
     k_MarkFalse = (\<lambda>t r m. std_set (mk_condition t ConditionFalse r m)),
     k_MarkUnknown = (\<lambda>t r m. std_set (mk_condition t ConditionUnknown r m)),
     k_MarkReconciling = (\<lambda>r m cs.
        std_set (mk_condition ''Reconciling'' ConditionTrue r m) (std_delete ''Stalled'' cs)),
     k_MarkStalled = (\<lambda>r m cs.
        std_set (mk_condition ''Stalled'' ConditionTrue r m) (std_delete ''Reconciling'' cs)),
     k_Delete = std_delete\<rparr>"

lemma std_find_set: "std_find (std_set c cs) = (std_find cs)(c_Type c \<mapsto> c)"
  by (induction cs) auto

lemma std_find_delete: "std_find (std_delete t cs) = (std_find cs)(t := None)"
  by (induction cs) (auto simp: std_delete_def)

lemma types_std_set: "set (map c_Type (std_set c cs)) = insert (c_Type c) (set (map c_Type cs))"
  by (induction cs) auto

lemma ok_std_set: "conditions_ok cs \<Longrightarrow> conditions_ok (std_set c cs)"
proof (induction cs)
  case (Cons d cs)
  then show ?case using types_std_set [of c cs] by auto
qed simp

lemma ok_std_delete: "conditions_ok cs \<Longrightarrow> conditions_ok (std_delete t cs)"
  by (induction cs) (auto simp: std_delete_def)

lemma std_reason_wrap [simp]: "std_reason (Errorf_w p e q) = std_reason e"
  by (simp add: std_reason_def)

interpretation std: kube_laws std_kube
  by unfold_locales
    (auto simp: std_kube_def std_find_set std_find_delete ok_std_set ok_std_delete)

subsection \<open>Objects, clients and effects\<close>

text \<open>
  An \<open>unstructured.Unstructured\<close> object is what its accessors return, with its JSON
  content.
\<close>

record unstructured =
  u_GVK :: GroupVersionKind
  u_Namespace :: string
  u_Name :: string
  u_Labels :: "string \<rightharpoonup> string"
  u_Content :: string

text \<open>The identity an API client acts under: \<open>rest.ImpersonationConfig\<close>, or the controller's own.\<close>

record ImpersonationConfig =
  imp_UserName :: string
  imp_Groups :: "string list"

datatype kclient = ControllerClient | ImpersonatedClient ImpersonationConfig

text \<open>A Flux \<open>ssa.ResourceManager\<close>: the client it applies through and its owner.\<close>

record ResourceManager =
  rm_Client :: kclient
  rm_Field :: string
  rm_Group :: string

text \<open>The actions of a Flux change set entry.\<close>

datatype ssa_action = CreatedAction | ConfiguredAction | UnchangedAction | OtherAction

datatype event_type = EventTypeNormal | EventTypeWarning

text \<open>
  \<open>'o\<close> is the custom resource under reconciliation: \<open>PatchObject\<close> is a merge patch from
  the first to the second object, \<open>PatchStatus\<close> a serial-patcher call with its owned
  conditions and whether it carries \<open>WithStatusObservedGeneration\<close>.
\<close>

datatype 'o effect =
    PatchObject 'o 'o
  | PatchStatus 'o "string list" bool
  | ApplyAll ResourceManager "unstructured list" bool
  | DeleteObject kclient unstructured
  | Event event_type string string string

text \<open>Calls on live cluster objects.\<close>

record 'w live_api =
  la_Get :: "kclient \<Rightarrow> GroupVersionKind \<Rightarrow> NamespacedName \<Rightarrow> 'w \<Rightarrow> (goerr + unstructured) \<times> 'w"
  la_Delete :: "kclient \<Rightarrow> unstructured \<Rightarrow> 'w \<Rightarrow> goerr option \<times> 'w"

text \<open>Flux's \<open>ApplyAllStaged\<close> and \<open>Diff\<close>.\<close>

record 'w ssa_api =
  sa_ApplyAllStaged ::
    "ResourceManager \<Rightarrow> unstructured list \<Rightarrow> bool \<Rightarrow> 'w \<Rightarrow> (goerr + ssa_action list) \<times> 'w"
  sa_Diff :: "ResourceManager \<Rightarrow> unstructured \<Rightarrow> 'w \<Rightarrow> (goerr + ssa_action) \<times> 'w"

text \<open>The uncached ServiceAccount read and \<open>client.New\<close> (\<open>None\<close> is success).\<close>

record 'w auth_api =
  aa_GetServiceAccount :: "NamespacedName \<Rightarrow> 'w \<Rightarrow> goerr option \<times> 'w"
  aa_NewClient :: "ImpersonationConfig \<Rightarrow> 'w \<Rightarrow> goerr option \<times> 'w"

text \<open>Reads and patches of the custom resource itself.\<close>

record ('w, 'o) cr_api =
  ca_Get :: "NamespacedName \<Rightarrow> 'w \<Rightarrow> (goerr + 'o) \<times> 'w"
  ca_Patch :: "'o \<Rightarrow> 'o \<Rightarrow> 'w \<Rightarrow> goerr option \<times> 'w"
  ca_PatchStatus :: "'o \<Rightarrow> string list \<Rightarrow> bool \<Rightarrow> 'w \<Rightarrow> goerr option \<times> 'w"

text \<open>The controller's process state: the world, the effect log, and the metrics registry \<open>'m\<close>.\<close>

record ('w, 'o, 'm) proc =
  p_World :: 'w
  p_Log :: "'o effect list"
  p_Metrics :: 'm

definition call :: "('w \<Rightarrow> 'r \<times> 'w) \<Rightarrow> ('w, 'o, 'm) proc \<Rightarrow> 'r \<times> ('w, 'o, 'm) proc" where
  "call f s = (let (r, w) = f (p_World s) in (r, s\<lparr>p_World := w\<rparr>))"

definition emit :: "'o effect \<Rightarrow> ('w, 'o, 'm) proc \<Rightarrow> ('w, 'o, 'm) proc" where
  "emit e s = s\<lparr>p_Log := p_Log s @ [e]\<rparr>"

text \<open>A mutating call is logged, whatever it returns.\<close>

definition mcall ::
  "'o effect \<Rightarrow> ('w \<Rightarrow> 'r \<times> 'w) \<Rightarrow> ('w, 'o, 'm) proc \<Rightarrow> 'r \<times> ('w, 'o, 'm) proc" where
  "mcall e f s = call f (emit e s)"

definition Eventf ::
  "event_type \<Rightarrow> string \<Rightarrow> string \<Rightarrow> string \<Rightarrow> ('w, 'o, 'm) proc \<Rightarrow> ('w, 'o, 'm) proc" where
  "Eventf t reason action note = emit (Event t reason action note)"

definition metric :: "('m \<Rightarrow> 'm) \<Rightarrow> ('w, 'o, 'm) proc \<Rightarrow> ('w, 'o, 'm) proc" where
  "metric f s = s\<lparr>p_Metrics := f (p_Metrics s)\<rparr>"

lemma p_Log_call [effect_simps]: "p_Log (snd (call f s)) = p_Log s"
  by (simp add: call_def split: prod.splits)

lemma p_Log_emit [effect_simps]: "p_Log (emit e s) = p_Log s @ [e]"
  by (simp add: emit_def)

lemma p_Log_mcall [effect_simps]: "p_Log (snd (mcall e f s)) = p_Log s @ [e]"
  by (simp add: mcall_def effect_simps)

lemma p_Log_Eventf [effect_simps]:
  "p_Log (Eventf t r a n s) = p_Log s @ [Event t r a n]"
  by (simp add: Eventf_def effect_simps)

lemma p_Log_metric [effect_simps]: "p_Log (metric f s) = p_Log s"
  by (simp add: metric_def)

lemma p_Log_callD [effect_simps]: "call f s = (r, s') \<Longrightarrow> p_Log s' = p_Log s"
  by (metis p_Log_call snd_conv)

lemma p_Log_mcallD [effect_simps]: "mcall e f s = (r, s') \<Longrightarrow> p_Log s' = p_Log s @ [e]"
  by (metis p_Log_mcall snd_conv)

text \<open>Classes of effects the properties speak about.\<close>

fun is_apply :: "'o effect \<Rightarrow> bool" where
  "is_apply (ApplyAll rm rs f) = True"
| "is_apply _ = False"

fun is_delete :: "'o effect \<Rightarrow> bool" where
  "is_delete (DeleteObject c u) = True"
| "is_delete _ = False"

fun is_patch_object :: "'o effect \<Rightarrow> bool" where
  "is_patch_object (PatchObject a b) = True"
| "is_patch_object _ = False"

text \<open>A run from \<open>s\<close> to \<open>s'\<close> only appended effects satisfying \<open>P\<close>.\<close>

definition log_ext :: "('o effect \<Rightarrow> bool) \<Rightarrow> ('w, 'o, 'm) proc \<Rightarrow> ('w, 'o, 'm) proc \<Rightarrow> bool" where
  "log_ext P s s' \<longleftrightarrow> (\<exists>es. p_Log s' = p_Log s @ es \<and> list_all P es)"

lemma log_ext_refl [simp, intro]: "log_ext P s s"
  by (simp add: log_ext_def)

lemma log_ext_trans: "log_ext P s s' \<Longrightarrow> log_ext P s' s'' \<Longrightarrow> log_ext P s s''"
  by (auto simp: log_ext_def)

lemma log_ext_mono: "log_ext P s s' \<Longrightarrow> (\<And>e. P e \<Longrightarrow> Q e) \<Longrightarrow> log_ext Q s s'"
  by (auto simp: log_ext_def list_all_iff)

lemma log_ext_call: "call f s = (r, s') \<Longrightarrow> log_ext P s s'"
  by (auto simp: log_ext_def effect_simps)

lemma log_ext_mcall: "mcall e f s = (r, s') \<Longrightarrow> P e \<Longrightarrow> log_ext P s s'"
  by (auto simp: log_ext_def effect_simps)

lemma log_ext_emit: "P e \<Longrightarrow> log_ext P s (emit e s)"
  by (auto simp: log_ext_def effect_simps)

lemma log_ext_Eventf: "P (Event t r a n) \<Longrightarrow> log_ext P s (Eventf t r a n s)"
  by (auto simp: log_ext_def effect_simps)

lemma log_ext_metric: "log_ext P s (metric f s)"
  by (auto simp: log_ext_def effect_simps)

lemma log_ext_new:
  "log_ext P s s' \<Longrightarrow> e \<in> set (drop (length (p_Log s)) (p_Log s')) \<Longrightarrow> P e"
  by (auto simp: log_ext_def list_all_iff)

text \<open>The effects of a run.\<close>

definition new_effects :: "('w, 'o, 'm) proc \<Rightarrow> ('w, 'o, 'm) proc \<Rightarrow> 'o effect list" where
  "new_effects s s' = drop (length (p_Log s)) (p_Log s')"

lemma new_effects_append [simp]: "p_Log s' = p_Log s @ es \<Longrightarrow> new_effects s s' = es"
  by (simp add: new_effects_def)

lemma log_ext_new_effects: "log_ext P s s' \<Longrightarrow> list_all P (new_effects s s')"
  by (auto simp: log_ext_def)

end
