(* ===== verification/Opm_Core.thy ===== *)
theory Opm_Core
  imports Opm_Kube
begin

text \<open>
  \<open>pkg/core\<close>: the label vocabulary and the rendered resource. A resource wraps a CUE
  value; the CUE evaluator is not part of the repository, so the operations the controller
  performs on a value of type \<open>'v\<close> are the fields of a \<open>cue_lib\<close>.
\<close>

subsection \<open>Labels (\<open>labels.go\<close>)\<close>

definition LabelManagedBy :: string where
  "LabelManagedBy = ''app.kubernetes.io/managed-by''"

definition LabelManagedByValue :: string where
  "LabelManagedByValue = ''opm-cli''"

definition LabelManagedByControllerValue :: string where
  "LabelManagedByControllerValue = ''opm-controller''"

definition LabelManagedByLegacyValue :: string where
  "LabelManagedByLegacyValue = ''open-platform-model''"

definition LabelComponentName :: string where
  "LabelComponentName = ''component.opmodel.dev/name''"

definition LabelModuleReleaseUUID :: string where
  "LabelModuleReleaseUUID = ''module-release.opmodel.dev/uuid''"

definition IsOPMManagedBy :: "string \<Rightarrow> bool" where
  "IsOPMManagedBy v \<longleftrightarrow>
     v = LabelManagedByValue \<or> v = LabelManagedByControllerValue \<or> v = LabelManagedByLegacyValue"

lemma not_IsOPMManagedBy_Nil [simp]: "\<not> IsOPMManagedBy []"
  by (simp add: IsOPMManagedBy_def LabelManagedByValue_def LabelManagedByControllerValue_def
      LabelManagedByLegacyValue_def)

subsection \<open>The CUE operations in use\<close>

text \<open>
  \<open>cue_String\<close> returns the string together with the error, as Go does: callers that drop
  the error use the string. \<open>cue_DecodeMap\<close> is \<open>Decode\<close> into a \<open>map[string]string\<close>: what it
  leaves in the destination, with its error. \<open>cue_ToObject\<close> is \<open>json.Unmarshal\<close> into a Go map read
  through the \<open>Unstructured\<close> accessors.
\<close>

record 'v cue_lib =
  cue_LookupPath :: "string \<Rightarrow> 'v \<Rightarrow> 'v"
  cue_Exists :: "'v \<Rightarrow> bool"
  cue_String :: "'v \<Rightarrow> string \<times> goerr option"
  cue_Err :: "'v \<Rightarrow> goerr option"
  cue_MarshalJSON :: "'v \<Rightarrow> goerr + string"
  cue_DecodeMap :: "'v \<Rightarrow> (string \<rightharpoonup> string) \<times> goerr option"
  cue_ToObject :: "string \<Rightarrow> goerr + unstructured"

subsection \<open>Resources (\<open>resource.go\<close>, \<open>convert.go\<close>)\<close>

record 'v Resource =
  r_Value :: 'v
  r_Release :: string
  r_Component :: string
  r_Transformer :: string

definition Resource_path_string :: "'v cue_lib \<Rightarrow> string \<Rightarrow> 'v Resource \<Rightarrow> string" where
  "Resource_path_string C p r = fst (cue_String C (cue_LookupPath C p (r_Value r)))"

definition Resource_Kind :: "'v cue_lib \<Rightarrow> 'v Resource \<Rightarrow> string" where
  "Resource_Kind C r = Resource_path_string C ''kind'' r"

definition Resource_Name :: "'v cue_lib \<Rightarrow> 'v Resource \<Rightarrow> string" where
  "Resource_Name C r = Resource_path_string C ''metadata.name'' r"

definition Resource_Namespace :: "'v cue_lib \<Rightarrow> 'v Resource \<Rightarrow> string" where
  "Resource_Namespace C r = Resource_path_string C ''metadata.namespace'' r"

definition Resource_APIVersion :: "'v cue_lib \<Rightarrow> 'v Resource \<Rightarrow> string" where
  "Resource_APIVersion C r = Resource_path_string C ''apiVersion'' r"

text \<open>Splitting at the last slash (\<open>strings.LastIndex\<close>).\<close>

definition after_last_slash :: "string \<Rightarrow> string" where
  "after_last_slash s = rev (takeWhile (\<lambda>c. c \<noteq> CHR ''/'') (rev s))"

definition parseAPIVersion :: "string \<Rightarrow> string \<times> string" where
  "parseAPIVersion s =
     (if List.member s (CHR ''/'')
      then (take (length s - length (after_last_slash s) - 1) s, after_last_slash s)
      else ([], s))"

definition Resource_GVK :: "'v cue_lib \<Rightarrow> 'v Resource \<Rightarrow> GroupVersionKind" where
  "Resource_GVK C r =
     (let (group, version) = parseAPIVersion (Resource_APIVersion C r)
      in \<lparr>gvk_Group = group, gvk_Version = version, gvk_Kind = Resource_Kind C r\<rparr>)"

definition decodeStringMap :: "'v cue_lib \<Rightarrow> string \<Rightarrow> 'v Resource \<Rightarrow> (string \<rightharpoonup> string)" where
  "decodeStringMap C p r =
     (let v = cue_LookupPath C p (r_Value r) in
      if \<not> cue_Exists C v then Map.empty
      else case cue_DecodeMap C v of (_, Some _) \<Rightarrow> Map.empty | (m, None) \<Rightarrow> m)"

definition Resource_Labels :: "'v cue_lib \<Rightarrow> 'v Resource \<Rightarrow> (string \<rightharpoonup> string)" where
  "Resource_Labels C r = decodeStringMap C ''metadata.labels'' r"

definition Resource_Annotations :: "'v cue_lib \<Rightarrow> 'v Resource \<Rightarrow> (string \<rightharpoonup> string)" where
  "Resource_Annotations C r = decodeStringMap C ''metadata.annotations'' r"

definition Resource_String :: "'v cue_lib \<Rightarrow> 'v Resource \<Rightarrow> string" where
  "Resource_String C r =
     (let ns = Resource_Namespace C r in
      if ns \<noteq> [] then Resource_Kind C r @ ''/'' @ ns @ ''/'' @ Resource_Name C r
      else Resource_Kind C r @ ''/'' @ Resource_Name C r)"

definition Resource_MarshalJSON :: "'v cue_lib \<Rightarrow> 'v Resource \<Rightarrow> goerr + string" where
  "Resource_MarshalJSON C r =
     (case cue_Err C (r_Value r) of
        Some e \<Rightarrow> Inl (Errorf_w (''resource '' @ Resource_String C r @ '': cue value error: '') e [])
      | None \<Rightarrow>
          (case cue_MarshalJSON C (r_Value r) of
             Inl e \<Rightarrow> Inl (Errorf_w (''resource '' @ Resource_String C r @ '': marshal json: '') e [])
           | Inr b \<Rightarrow> Inr b))"

definition ToUnstructured :: "'v cue_lib \<Rightarrow> 'v Resource \<Rightarrow> goerr + unstructured" where
  "ToUnstructured C r =
     (case Resource_MarshalJSON C r of
        Inl e \<Rightarrow> Inl e
      | Inr j \<Rightarrow>
          (case cue_ToObject C j of
             Inl e \<Rightarrow> Inl (Errorf_w (''resource '' @ Resource_String C r @ '': unmarshal to map: '') e [])
           | Inr u \<Rightarrow> Inr u))"

subsection \<open>Parsing API versions\<close>

lemma parseAPIVersion_core: "CHR ''/'' \<notin> set s \<Longrightarrow> parseAPIVersion s = ([], s)"
  by (simp add: parseAPIVersion_def)

lemma parseAPIVersion_print:
  assumes "CHR ''/'' \<notin> set v"
  shows "parseAPIVersion (g @ ''/'' @ v) = (g, v)"
proof -
  have "takeWhile (\<lambda>c. c \<noteq> CHR ''/'') (rev v @ CHR ''/'' # rev g) = rev v"
    using assms by (subst takeWhile_append2) auto
  then have "after_last_slash (g @ ''/'' @ v) = v"
    by (simp add: after_last_slash_def)
  then show ?thesis by (simp add: parseAPIVersion_def)
qed

lemma parseAPIVersion_slash:
  assumes "CHR ''/'' \<in> set s" and "parseAPIVersion s = (g, v)"
  shows "s = g @ ''/'' @ v \<and> CHR ''/'' \<notin> set v"
proof -
  obtain ys zs where s: "s = ys @ ''/'' @ zs" and no: "CHR ''/'' \<notin> set zs"
    using split_list_last [OF assms(1)] by auto
  from assms(2) have "ys = g" and "zs = v"
    unfolding s parseAPIVersion_print [OF no] by simp_all
  with s no show ?thesis by simp
qed

subsection \<open>Properties\<close>

text \<open>
  C39: parsing an API version inverts printing it: a version without a slash is a core
  version with an empty group, and \<open>group/version\<close> is split at the last slash, so that
  printing the two parts gives the string back and the version part has no slash.
\<close>

lemma parseAPIVersion_roundtrip:
  "(CHR ''/'' \<notin> set v \<longrightarrow> parseAPIVersion v = ([], v) \<and> parseAPIVersion (g @ ''/'' @ v) = (g, v))
   \<and> (CHR ''/'' \<in> set s \<longrightarrow> (case parseAPIVersion s of (g', v') \<Rightarrow> s = g' @ ''/'' @ v' \<and> CHR ''/'' \<notin> set v'))"
  using parseAPIVersion_core [of v] parseAPIVersion_print [of v g] parseAPIVersion_slash [of s]
  by (auto split: prod.splits)

lemma parseAPIVersion_roundtrip_witness:
  "parseAPIVersion ''apps/v1'' = (''apps'', ''v1'') \<and> parseAPIVersion ''v1'' = ([], ''v1'')"
  using parseAPIVersion_roundtrip [of "''v1''" "''apps''" "''apps/v1''"] by simp

end
