(* ===== verification/Opm_Json.thy ===== *)
theory Opm_Json
  imports Opm_Api
begin

text \<open>
  The part of \<open>encoding/json\<close> that \<open>json.Marshal\<close> uses on inventory entries: string
  escaping (HTML-safe, with invalid UTF-8 replaced), struct fields with \<open>omitempty\<close>, and
  arrays. The main result is that encoding is injective on ASCII entries, which is what
  makes a digest of the encoding identify an inventory.
\<close>

subsection \<open>Strings\<close>

abbreviation backslash :: char where "backslash \<equiv> CHR 0x5C"
abbreviation dquote :: char where "dquote \<equiv> CHR 0x22"

definition json_u :: "nat \<Rightarrow> string" where
  "json_u n = [backslash, CHR ''u'', CHR ''0'', CHR ''0''] @ hex2 n"

definition json_ascii :: "char \<Rightarrow> string" where
  "json_ascii c =
     (if c = dquote then [backslash, dquote]
      else if c = backslash then [backslash, backslash]
      else if c = CHR 0x08 then [backslash, CHR ''b'']
      else if c = CHR 0x0C then [backslash, CHR ''f'']
      else if c = CHR 0x0A then [backslash, CHR ''n'']
      else if c = CHR 0x0D then [backslash, CHR ''r'']
      else if c = CHR 0x09 then [backslash, CHR ''t'']
      else if (of_char c :: nat) < 32 \<or> c = CHR ''<'' \<or> c = CHR ''>'' \<or> c = CHR ''&''
        then json_u (of_char c)
      else [c])"

text \<open>The length of the UTF-8 sequence at the head of a string, or 0 if it is malformed.\<close>

definition in_range :: "nat \<Rightarrow> nat \<Rightarrow> char \<Rightarrow> bool" where
  "in_range lo hi c \<longleftrightarrow> lo \<le> of_char c \<and> of_char c \<le> hi"

definition cont_byte :: "char \<Rightarrow> bool" where
  "cont_byte = in_range 0x80 0xBF"

fun utf8_len :: "string \<Rightarrow> nat" where
  "utf8_len (a # b # c # d # s) =
     (if in_range 0xC2 0xDF a \<and> cont_byte b then 2
      else if (a = CHR 0xE0 \<and> in_range 0xA0 0xBF b \<or> in_range 0xE1 0xEC a \<and> cont_byte b
        \<or> a = CHR 0xED \<and> in_range 0x80 0x9F b \<or> in_range 0xEE 0xEF a \<and> cont_byte b)
        \<and> cont_byte c then 3
      else if (a = CHR 0xF0 \<and> in_range 0x90 0xBF b \<or> in_range 0xF1 0xF3 a \<and> cont_byte b
        \<or> a = CHR 0xF4 \<and> in_range 0x80 0x8F b) \<and> cont_byte c \<and> cont_byte d then 4
      else 0)"
| "utf8_len [a, b, c] =
     (if in_range 0xC2 0xDF a \<and> cont_byte b then 2
      else if (a = CHR 0xE0 \<and> in_range 0xA0 0xBF b \<or> in_range 0xE1 0xEC a \<and> cont_byte b
        \<or> a = CHR 0xED \<and> in_range 0x80 0x9F b \<or> in_range 0xEE 0xEF a \<and> cont_byte b)
        \<and> cont_byte c then 3
      else 0)"
| "utf8_len [a, b] = (if in_range 0xC2 0xDF a \<and> cont_byte b then 2 else 0)"
| "utf8_len s = 0"

function json_chars :: "string \<Rightarrow> string" where
  "json_chars [] = []"
| "json_chars (c # s) =
     (if (of_char c :: nat) < 128 then json_ascii c @ json_chars s
      else let n = utf8_len (c # s); r = take n (c # s) in
        if n = 0 then [backslash] @ ''ufffd'' @ json_chars s
        else if r = [CHR 0xE2, CHR 0x80, CHR 0xA8] then [backslash] @ ''u2028'' @ json_chars (drop (n - 1) s)
        else if r = [CHR 0xE2, CHR 0x80, CHR 0xA9] then [backslash] @ ''u2029'' @ json_chars (drop (n - 1) s)
        else r @ json_chars (drop (n - 1) s))"
  by pat_completeness auto
termination
  by (relation "measure length") auto

definition json_string :: "string \<Rightarrow> string" where
  "json_string s = [dquote] @ json_chars s @ [dquote]"

subsection \<open>Inventory entries\<close>

definition json_field :: "string \<Rightarrow> string \<Rightarrow> string" where
  "json_field k v = json_string k @ '':'' @ json_string v"

text \<open>A field \<open>k\<close> tagged \<open>omitempty\<close> is left out when its value is the empty string.\<close>

definition json_opt :: "string \<Rightarrow> string \<Rightarrow> string list" where
  "json_opt k v = (if v = [] then [] else [json_field k v])"

fun comma_sep :: "string list \<Rightarrow> string" where
  "comma_sep [] = []"
| "comma_sep [x] = x"
| "comma_sep (x # xs) = x @ '','' @ comma_sep xs"

definition json_entry :: "InventoryEntry \<Rightarrow> string" where
  "json_entry e = ''{'' @ comma_sep
     (json_opt ''group'' (ie_Group e) @ [json_field ''kind'' (ie_Kind e)]
      @ json_opt ''namespace'' (ie_Namespace e) @ [json_field ''name'' (ie_Name e)]
      @ json_opt ''v'' (ie_Version e) @ json_opt ''component'' (ie_Component e)) @ ''}''"

definition json_entries :: "InventoryEntry list \<Rightarrow> string" where
  "json_entries es = ''['' @ comma_sep (map json_entry es) @ '']''"

subsection \<open>Injectivity on ASCII\<close>

definition ascii :: "string \<Rightarrow> bool" where
  "ascii s \<longleftrightarrow> list_all (\<lambda>c. (of_char c :: nat) < 128) s"

definition ascii_entry :: "InventoryEntry \<Rightarrow> bool" where
  "ascii_entry e \<longleftrightarrow> ascii (ie_Group e) \<and> ascii (ie_Kind e) \<and> ascii (ie_Namespace e)
     \<and> ascii (ie_Name e) \<and> ascii (ie_Version e) \<and> ascii (ie_Component e)"

lemma json_chars_ascii: "ascii s \<Longrightarrow> json_chars s = concat (map json_ascii s)"
  by (induction s) (auto simp: ascii_def)

lemma json_ascii_cases:
  obtains "json_ascii c = [c]" "c \<noteq> backslash" "c \<noteq> dquote"
  | x where "json_ascii c = [backslash, x]" "x \<noteq> CHR ''u''"
  | "json_ascii c = json_u (of_char c)"
  by (cases "json_ascii c = json_u (of_char c)") (auto simp: json_ascii_def split: if_splits)

lemma json_u_eq: "json_u (of_char c) @ r = json_u (of_char d) @ r' \<longleftrightarrow> c = d \<and> r = r'"
proof -
  have "hex2 (of_char c) = hex2 (of_char d) \<longleftrightarrow> c = d"
    by (auto dest: hex2_inj [OF nat_of_char_less_256 nat_of_char_less_256])
  then show ?thesis by (auto simp: json_u_def hex2_def)
qed

lemma json_escape_simple_inj:
  "json_ascii c = [backslash, x] \<Longrightarrow> json_ascii d = [backslash, x] \<Longrightarrow> c = d"
  by (auto simp: json_ascii_def json_u_def hex2_def split: if_splits)

lemma json_ascii_append_inj:
  assumes "json_ascii c @ r = json_ascii d @ r'"
  shows "c = d \<and> r = r'"
proof (cases c rule: json_ascii_cases)
  case c1: 1
  show ?thesis
    by (cases d rule: json_ascii_cases) (use assms c1 in \<open>auto simp: json_u_def\<close>)
next
  case c2: (2 x)
  show ?thesis
  proof (cases d rule: json_ascii_cases)
    case (2 y)
    with assms c2 have "x = y" "r = r'" by auto
    with c2 2 json_escape_simple_inj show ?thesis by metis
  qed (use assms c2 in \<open>auto simp: json_u_def\<close>)
next
  case c3: 3
  show ?thesis
  proof (cases d rule: json_ascii_cases)
    case 3
    with assms c3 show ?thesis by (simp add: json_u_eq)
  qed (use assms c3 in \<open>auto simp: json_u_def\<close>)
qed

lemma json_ascii_head: "json_ascii c = x # xs \<Longrightarrow> x \<noteq> dquote"
  by (cases c rule: json_ascii_cases) (auto simp: json_u_def)

lemma json_ascii_nonempty: "json_ascii c \<noteq> []"
  by (cases c rule: json_ascii_cases) (auto simp: json_u_def)

lemma json_chars_append_inj:
  assumes "concat (map json_ascii a) @ dquote # x = concat (map json_ascii b) @ dquote # y"
  shows "a = b \<and> x = y"
  using assms
proof (induction a arbitrary: b)
  case Nil
  then show ?case
    by (cases b; cases "json_ascii (hd b)")
      (auto simp: json_ascii_nonempty dest: json_ascii_head)
next
  case (Cons c a)
  show ?case
  proof (cases b)
    case Nil
    with Cons.prems show ?thesis
      by (cases "json_ascii c") (auto simp: json_ascii_nonempty dest: json_ascii_head)
  next
    case (Cons d b')
    with Cons.prems have "json_ascii c @ (concat (map json_ascii a) @ dquote # x) =
        json_ascii d @ (concat (map json_ascii b') @ dquote # y)" by simp
    then have "c = d" and "concat (map json_ascii a) @ dquote # x =
        concat (map json_ascii b') @ dquote # y"
      using json_ascii_append_inj by blast+
    with Cons.IH Cons show ?thesis by auto
  qed
qed

lemma json_string_append_inj:
  assumes "ascii a" and "ascii b" and "json_string a @ x = json_string b @ y"
  shows "a = b \<and> x = y"
  using assms json_chars_append_inj [of a x b y] by (simp add: json_string_def json_chars_ascii)

text \<open>
  An entry is read back field by field: after each position the next character tells which
  optional fields are present.
\<close>

definition js_group :: "string \<Rightarrow> string" where
  "js_group g = (if g = [] then [] else [dquote] @ ''group'' @ [dquote] @ '':'' @ json_string g @ '','')"

definition js_later :: "string \<Rightarrow> string \<Rightarrow> string" where
  "js_later k v = (if v = [] then [] else [CHR '','', dquote] @ k @ [dquote] @ '':'' @ json_string v)"

lemma json_string_keys:
  "json_string ''group'' = [dquote] @ ''group'' @ [dquote]"
  "json_string ''kind'' = [dquote] @ ''kind'' @ [dquote]"
  "json_string ''namespace'' = [dquote] @ ''namespace'' @ [dquote]"
  "json_string ''name'' = [dquote] @ ''name'' @ [dquote]"
  "json_string ''v'' = [dquote] @ ''v'' @ [dquote]"
  "json_string ''component'' = [dquote] @ ''component'' @ [dquote]"
  by (simp_all add: json_string_def json_chars_ascii ascii_def json_ascii_def)

lemma json_entry_layout:
  "json_entry e = ''{'' @ js_group (ie_Group e)
     @ [dquote] @ ''kind'' @ [dquote] @ '':'' @ json_string (ie_Kind e)
     @ js_later ''namespace'' (ie_Namespace e)
     @ [CHR '','', dquote] @ ''name'' @ [dquote] @ '':'' @ json_string (ie_Name e)
     @ js_later ''v'' (ie_Version e) @ js_later ''component'' (ie_Component e) @ ''}''"
  by (simp add: json_entry_def json_opt_def json_field_def json_string_keys js_group_def
      js_later_def)

lemma js_group_inj:
  assumes "ascii g" and "ascii g'"
    and "js_group g @ dquote # CHR ''k'' # x = js_group g' @ dquote # CHR ''k'' # y"
  shows "g = g' \<and> x = y"
  using assms
  by (cases "g = []"; cases "g' = []") (auto simp: js_group_def dest: json_string_append_inj)

lemma js_namespace_inj:
  assumes "ascii n" and "ascii n'"
    and "js_later ''namespace'' n @ [CHR '','', dquote] @ ''name'' @ dquote # x
       = js_later ''namespace'' n' @ [CHR '','', dquote] @ ''name'' @ dquote # y"
  shows "n = n' \<and> x = y"
  using assms
  by (cases "n = []"; cases "n' = []") (auto simp: js_later_def dest: json_string_append_inj)

lemma js_version_inj:
  assumes "ascii v" and "ascii v'"
    and "js_later ''v'' v @ js_later ''component'' c @ ''}'' @ x
       = js_later ''v'' v' @ js_later ''component'' c' @ ''}'' @ y"
  shows "v = v' \<and> js_later ''component'' c @ ''}'' @ x = js_later ''component'' c' @ ''}'' @ y"
  using assms
  by (cases "v = []"; cases "v' = []"; cases "c = []"; cases "c' = []")
    (auto simp: js_later_def dest: json_string_append_inj)

lemma js_component_inj:
  assumes "ascii c" and "ascii c'"
    and "js_later ''component'' c @ ''}'' @ x = js_later ''component'' c' @ ''}'' @ y"
  shows "c = c' \<and> x = y"
  using assms
  by (cases "c = []"; cases "c' = []") (auto simp: js_later_def dest: json_string_append_inj)

lemma json_entry_append_inj:
  assumes e: "ascii_entry e" and f: "ascii_entry f"
    and eq: "json_entry e @ x = json_entry f @ y"
  shows "e = f \<and> x = y"
proof -
  note asc = e [unfolded ascii_entry_def] f [unfolded ascii_entry_def]
  from eq have 1: "ie_Group e = ie_Group f \<and>
      ''ind'' @ [dquote] @ '':'' @ json_string (ie_Kind e)
        @ js_later ''namespace'' (ie_Namespace e)
        @ [CHR '','', dquote] @ ''name'' @ [dquote] @ '':'' @ json_string (ie_Name e)
        @ js_later ''v'' (ie_Version e) @ js_later ''component'' (ie_Component e) @ ''}'' @ x
    = ''ind'' @ [dquote] @ '':'' @ json_string (ie_Kind f)
        @ js_later ''namespace'' (ie_Namespace f)
        @ [CHR '','', dquote] @ ''name'' @ [dquote] @ '':'' @ json_string (ie_Name f)
        @ js_later ''v'' (ie_Version f) @ js_later ''component'' (ie_Component f) @ ''}'' @ y"
    using asc by (intro js_group_inj) (simp_all add: json_entry_layout)
  then have 2: "ie_Kind e = ie_Kind f \<and>
      js_later ''namespace'' (ie_Namespace e)
        @ [CHR '','', dquote] @ ''name'' @ dquote # '':'' @ json_string (ie_Name e)
        @ js_later ''v'' (ie_Version e) @ js_later ''component'' (ie_Component e) @ ''}'' @ x
    = js_later ''namespace'' (ie_Namespace f)
        @ [CHR '','', dquote] @ ''name'' @ dquote # '':'' @ json_string (ie_Name f)
        @ js_later ''v'' (ie_Version f) @ js_later ''component'' (ie_Component f) @ ''}'' @ y"
    using asc by (intro json_string_append_inj) simp_all
  then have 3: "ie_Namespace e = ie_Namespace f \<and>
      '':'' @ json_string (ie_Name e)
        @ js_later ''v'' (ie_Version e) @ js_later ''component'' (ie_Component e) @ ''}'' @ x
    = '':'' @ json_string (ie_Name f)
        @ js_later ''v'' (ie_Version f) @ js_later ''component'' (ie_Component f) @ ''}'' @ y"
    using asc js_namespace_inj by blast
  then have 4: "ie_Name e = ie_Name f \<and>
      js_later ''v'' (ie_Version e) @ js_later ''component'' (ie_Component e) @ ''}'' @ x
    = js_later ''v'' (ie_Version f) @ js_later ''component'' (ie_Component f) @ ''}'' @ y"
    using asc by (intro json_string_append_inj) simp_all
  then have 5: "ie_Version e = ie_Version f \<and> ie_Component e = ie_Component f \<and> x = y"
    using asc js_version_inj js_component_inj by blast
  from 1 2 3 4 5 show ?thesis by (simp add: InventoryEntry.equality)
qed

lemma json_entry_head: "\<exists>t. json_entry e = CHR ''{'' # t"
  by (simp add: json_entry_def)

lemma comma_sep_Cons: "comma_sep (x # xs) = x @ (if xs = [] then [] else '','' @ comma_sep xs)"
  by (cases xs) simp_all

lemma comma_sep_entries_inj:
  assumes "list_all ascii_entry es" and "list_all ascii_entry fs"
    and "comma_sep (map json_entry es) @ '']'' = comma_sep (map json_entry fs) @ '']''"
  shows "es = fs"
  using assms
proof (induction es arbitrary: fs)
  case Nil
  then show ?case using json_entry_head [of "hd fs"] by (cases fs) (auto simp: comma_sep_Cons)
next
  case (Cons e es)
  show ?case
  proof (cases fs)
    case Nil
    with Cons.prems show ?thesis using json_entry_head [of e] by (auto simp: comma_sep_Cons)
  next
    case fs: (Cons f fs')
    have asc: "ascii_entry e" "ascii_entry f" "list_all ascii_entry es" "list_all ascii_entry fs'"
      using Cons.prems(1,2) fs by simp_all
    from Cons.prems(3) fs have
      "json_entry e @ (if es = [] then [] else '','' @ comma_sep (map json_entry es)) @ '']'' =
       json_entry f @ (if fs' = [] then [] else '','' @ comma_sep (map json_entry fs')) @ '']''"
      by (simp add: comma_sep_Cons)
    then have ef: "e = f \<and>
      (if es = [] then [] else '','' @ comma_sep (map json_entry es)) @ '']'' =
      (if fs' = [] then [] else '','' @ comma_sep (map json_entry fs')) @ '']''"
      by (rule json_entry_append_inj [OF asc(1,2)])
    then have "es = fs'"
      using Cons.IH [OF asc(3,4)] by (cases "es = []"; cases "fs' = []") simp_all
    with ef fs show ?thesis by simp
  qed
qed

lemma json_entries_inj:
  "list_all ascii_entry es \<Longrightarrow> list_all ascii_entry fs \<Longrightarrow> json_entries es = json_entries fs \<Longrightarrow> es = fs"
  by (rule comma_sep_entries_inj) (simp_all add: json_entries_def)

lemma json_entries_nonempty [simp]: "json_entries es \<noteq> []" "[] \<noteq> json_entries es"
  by (simp_all add: json_entries_def)

end
