(* ===== verification/Opm_Sha256.thy ===== *)
theory Opm_Sha256
  imports Opm_Prelude
begin

text \<open>
  \<open>crypto/sha256\<close> of the Go standard library (FIPS 180-4) over byte strings, and the
  \<open>"sha256:%x"\<close> form in which the controller stores every digest. The function is
  executable; what the rest of the development uses of it is that it is a function, and
  the shape of its printed form.
\<close>

unbundle bit_operations_syntax

type_synonym u32 = "32 word"

definition rotr32 :: "nat \<Rightarrow> u32 \<Rightarrow> u32" where
  "rotr32 n w = (drop_bit n w OR push_bit (32 - n) w)"

definition big_sigma0 :: "u32 \<Rightarrow> u32" where
  "big_sigma0 x = rotr32 2 x XOR rotr32 13 x XOR rotr32 22 x"

definition big_sigma1 :: "u32 \<Rightarrow> u32" where
  "big_sigma1 x = rotr32 6 x XOR rotr32 11 x XOR rotr32 25 x"

definition small_sigma0 :: "u32 \<Rightarrow> u32" where
  "small_sigma0 x = rotr32 7 x XOR rotr32 18 x XOR drop_bit 3 x"

definition small_sigma1 :: "u32 \<Rightarrow> u32" where
  "small_sigma1 x = rotr32 17 x XOR rotr32 19 x XOR drop_bit 10 x"

definition sha_ch :: "u32 \<Rightarrow> u32 \<Rightarrow> u32 \<Rightarrow> u32" where
  "sha_ch x y z = (x AND y) XOR (NOT x AND z)"

definition sha_maj :: "u32 \<Rightarrow> u32 \<Rightarrow> u32 \<Rightarrow> u32" where
  "sha_maj x y z = (x AND y) XOR (x AND z) XOR (y AND z)"

definition sha_K :: "u32 list" where
  "sha_K = [
     1116352408, 1899447441, 3049323471, 3921009573, 961987163, 1508970993,
     2453635748, 2870763221, 3624381080, 310598401, 607225278, 1426881987,
     1925078388, 2162078206, 2614888103, 3248222580, 3835390401, 4022224774,
     264347078, 604807628, 770255983, 1249150122, 1555081692, 1996064986,
     2554220882, 2821834349, 2952996808, 3210313671, 3336571891, 3584528711,
     113926993, 338241895, 666307205, 773529912, 1294757372, 1396182291,
     1695183700, 1986661051, 2177026350, 2456956037, 2730485921, 2820302411,
     3259730800, 3345764771, 3516065817, 3600352804, 4094571909, 275423344,
     430227734, 506948616, 659060556, 883997877, 958139571, 1322822218,
     1537002063, 1747873779, 1955562222, 2024104815, 2227730452, 2361852424,
     2428436474, 2756734187, 3204031479, 3329325298]"

record sha_state =
  sA :: u32
  sB :: u32
  sC :: u32
  sD :: u32
  sE :: u32
  sF :: u32
  sG :: u32
  sH :: u32

definition sha_init :: sha_state where
  "sha_init = \<lparr>sA = 0x6a09e667, sB = 0xbb67ae85, sC = 0x3c6ef372, sD = 0xa54ff53a,
               sE = 0x510e527f, sF = 0x9b05688c, sG = 0x1f83d9ab, sH = 0x5be0cd19\<rparr>"

text \<open>The message schedule, from the sixteen words of a block.\<close>

fun sha_schedule :: "nat \<Rightarrow> u32 list \<Rightarrow> u32 list" where
  "sha_schedule 0 win = []"
| "sha_schedule (Suc n) win =
     hd win # sha_schedule n
       (tl win @ [small_sigma1 (win ! 14) + win ! 9 + small_sigma0 (win ! 1) + win ! 0])"

definition sha_round :: "u32 \<times> u32 \<Rightarrow> sha_state \<Rightarrow> sha_state" where
  "sha_round kw s =
     (let t1 = sH s + big_sigma1 (sE s) + sha_ch (sE s) (sF s) (sG s) + fst kw + snd kw;
          t2 = big_sigma0 (sA s) + sha_maj (sA s) (sB s) (sC s)
      in \<lparr>sA = t1 + t2, sB = sA s, sC = sB s, sD = sC s,
          sE = sD s + t1, sF = sE s, sG = sF s, sH = sG s\<rparr>)"

definition sha_block :: "u32 list \<Rightarrow> sha_state \<Rightarrow> sha_state" where
  "sha_block ws s =
     (let r = fold sha_round (zip sha_K (sha_schedule 64 ws)) s
      in \<lparr>sA = sA s + sA r, sB = sB s + sB r, sC = sC s + sC r, sD = sD s + sD r,
          sE = sE s + sE r, sF = sF s + sF r, sG = sG s + sG r, sH = sH s + sH r\<rparr>)"

definition be_bytes :: "nat \<Rightarrow> 'a::len word \<Rightarrow> u32 list" where
  "be_bytes n v = map (\<lambda>i. ucast (drop_bit (8 * i) v) AND 255) (rev [0..<n])"

definition sha_pad :: "u32 list \<Rightarrow> u32 list" where
  "sha_pad m = m @ [128] @ replicate ((119 - length m mod 64) mod 64) 0
     @ be_bytes 8 (word_of_nat (8 * length m) :: 64 word)"

fun be_words :: "u32 list \<Rightarrow> u32 list" where
  "be_words (a # b # c # d # bs) =
     (push_bit 24 a OR push_bit 16 b OR push_bit 8 c OR d) # be_words bs"
| "be_words bs = []"

fun sha_blocks :: "nat \<Rightarrow> u32 list \<Rightarrow> sha_state \<Rightarrow> sha_state" where
  "sha_blocks 0 ws s = s"
| "sha_blocks (Suc n) ws s = sha_blocks n (drop 16 ws) (sha_block (take 16 ws) s)"

definition Sum256 :: "string \<Rightarrow> string" where
  "Sum256 m =
     (let p = sha_pad (map (\<lambda>c. word_of_nat (of_char c)) m);
          s = sha_blocks (length p div 64) (be_words p) sha_init
      in concat (map (\<lambda>w. map (\<lambda>b. char_of (unat b)) (be_bytes 4 w))
           [sA s, sB s, sC s, sD s, sE s, sF s, sG s, sH s]))"

text \<open>\<open>fmt.Sprintf("sha256:%x", sum)\<close>.\<close>

definition sha_prefix :: string where
  "sha_prefix = ''sha256:''"

definition hex_str :: "string \<Rightarrow> string" where
  "hex_str bs = concat (map (\<lambda>c. hex2 (of_char c)) bs)"

definition digest_of :: "string \<Rightarrow> string" where
  "digest_of bs = sha_prefix @ hex_str (Sum256 bs)"

subsection \<open>Shape of a digest\<close>

lemma length_be_bytes [simp]: "length (be_bytes n v) = n"
  by (simp add: be_bytes_def)

lemma length_Sum256: "length (Sum256 m) = 32"
  by (simp add: Sum256_def Let_def)

lemma length_hex_str [simp]: "length (hex_str bs) = 2 * length bs"
  by (induction bs) (auto simp: hex_str_def hex2_def)

lemma length_digest_of [simp]: "length (digest_of bs) = 71"
  by (simp add: digest_of_def sha_prefix_def length_Sum256)

lemma digest_of_nonempty [simp]: "digest_of bs \<noteq> []"
  by (metis length_digest_of list.size(3) zero_neq_numeral)

lemma hex_str_inj:
  assumes "length a = length b" and "hex_str a = hex_str b"
  shows "a = b"
  using assms
proof (induction a b rule: list_induct2)
  case Nil
  then show ?case by simp
next
  case (Cons x xs y ys)
  from Cons.prems have "hex2 (of_char x) = hex2 (of_char y)" and "hex_str xs = hex_str ys"
    by (auto simp: hex_str_def hex2_def)
  with Cons.IH show ?case by (auto dest: hex2_inj [OF nat_of_char_less_256 nat_of_char_less_256])
qed

text \<open>Two digests agree exactly when the 256-bit sums agree: printing loses nothing.\<close>

lemma digest_of_eq_iff: "digest_of a = digest_of b \<longleftrightarrow> Sum256 a = Sum256 b"
  by (auto simp: digest_of_def length_Sum256 intro: hex_str_inj)

end
