(* ===== verification/Opm_Inventory.thy ===== *)
theory Opm_Inventory
  imports Opm_Core Opm_Json Opm_Sha256
begin

text \<open>
  \<open>internal/inventory\<close>: the ownership inventory. Entries are built from rendered objects,
  compared by Kubernetes identity to compute the stale set, and digested in a canonical
  order.
\<close>

subsection \<open>Entries (\<open>entry.go\<close>)\<close>

definition NewEntryFromResource :: "unstructured \<Rightarrow> InventoryEntry" where
  "NewEntryFromResource r =
     \<lparr>ie_Group = gvk_Group (u_GVK r), ie_Kind = gvk_Kind (u_GVK r),
      ie_Namespace = u_Namespace r, ie_Name = u_Name r,
      ie_Version = gvk_Version (u_GVK r),
      ie_Component = map_index (u_Labels r) LabelComponentName\<rparr>"

definition IdentityEqual :: "InventoryEntry \<Rightarrow> InventoryEntry \<Rightarrow> bool" where
  "IdentityEqual a b \<longleftrightarrow> ie_Group a = ie_Group b \<and> ie_Kind a = ie_Kind b
     \<and> ie_Namespace a = ie_Namespace b \<and> ie_Name a = ie_Name b
     \<and> ie_Component a = ie_Component b"

definition K8sIdentityEqual :: "InventoryEntry \<Rightarrow> InventoryEntry \<Rightarrow> bool" where
  "K8sIdentityEqual a b \<longleftrightarrow> ie_Group a = ie_Group b \<and> ie_Kind a = ie_Kind b
     \<and> ie_Namespace a = ie_Namespace b \<and> ie_Name a = ie_Name b"

subsection \<open>Stale set (\<open>stale.go\<close>)\<close>

text \<open>The inner loop: is there a current entry with the same identity?\<close>

fun found_in :: "InventoryEntry \<Rightarrow> InventoryEntry list \<Rightarrow> bool" where
  "found_in prev [] = False"
| "found_in prev (cur # rest) = (if K8sIdentityEqual prev cur then True else found_in prev rest)"

fun stale_loop :: "InventoryEntry list \<Rightarrow> InventoryEntry list \<Rightarrow> InventoryEntry list \<Rightarrow> InventoryEntry list" where
  "stale_loop [] current stale = stale"
| "stale_loop (prev # rest) current stale =
     (if \<not> found_in prev current then stale_loop rest current (stale @ [prev])
      else stale_loop rest current stale)"

definition ComputeStaleSet :: "InventoryEntry list \<Rightarrow> InventoryEntry list \<Rightarrow> InventoryEntry list" where
  "ComputeStaleSet previous current =
     (if previous = [] then [] else stale_loop previous current [])"

subsection \<open>Digest (\<open>digest.go\<close>)\<close>

definition entry_less :: "InventoryEntry \<Rightarrow> InventoryEntry \<Rightarrow> bool" where
  "entry_less a b =
     (if ie_Group a \<noteq> ie_Group b then ie_Group a < ie_Group b
      else if ie_Kind a \<noteq> ie_Kind b then ie_Kind a < ie_Kind b
      else if ie_Namespace a \<noteq> ie_Namespace b then ie_Namespace a < ie_Namespace b
      else if ie_Name a \<noteq> ie_Name b then ie_Name a < ie_Name b
      else if ie_Component a \<noteq> ie_Component b then ie_Component a < ie_Component b
      else ie_Version a < ie_Version b)"

text \<open>\<open>json.Marshal\<close> does not fail on string fields, so its error branch is not reachable.\<close>

definition ComputeDigest :: "InventoryEntry list \<Rightarrow> string" where
  "ComputeDigest entries =
     (if entries = [] then digest_of []
      else digest_of (json_entries (SliceStable entry_less entries)))"

subsection \<open>Identity is an equivalence, and coarser than component-aware identity\<close>

definition k8s_key :: "InventoryEntry \<Rightarrow> string \<times> string \<times> string \<times> string" where
  "k8s_key e = (ie_Group e, ie_Kind e, ie_Namespace e, ie_Name e)"

lemma K8sIdentityEqual_key: "K8sIdentityEqual a b \<longleftrightarrow> k8s_key a = k8s_key b"
  by (auto simp: K8sIdentityEqual_def k8s_key_def)

lemma IdentityEqual_imp_K8s: "IdentityEqual a b \<Longrightarrow> K8sIdentityEqual a b"
  by (simp add: IdentityEqual_def K8sIdentityEqual_def)

lemma found_in_iff: "found_in p cs \<longleftrightarrow> k8s_key p \<in> k8s_key ` set cs"
  by (induction cs) (auto simp: K8sIdentityEqual_key)

lemma stale_loop_eq:
  "stale_loop ps cs acc = acc @ filter (\<lambda>p. k8s_key p \<notin> k8s_key ` set cs) ps"
  by (induction ps arbitrary: acc) (auto simp: found_in_iff)

text \<open>The loops compute a filter on identities, in the order of the previous inventory.\<close>

lemma ComputeStaleSet_filter:
  "ComputeStaleSet ps cs = filter (\<lambda>p. k8s_key p \<notin> k8s_key ` set cs) ps"
  by (simp add: ComputeStaleSet_def stale_loop_eq)

subsection \<open>The digest order\<close>

definition entry_key :: "InventoryEntry \<Rightarrow> string \<times> string \<times> string \<times> string \<times> string \<times> string" where
  "entry_key e =
     (ie_Group e, ie_Kind e, ie_Namespace e, ie_Name e, ie_Component e, ie_Version e)"

lemma inj_entry_key: "inj_on entry_key A"
  by (auto simp: inj_on_def entry_key_def intro: InventoryEntry.equality)

interpretation entry_order: slice_order entry_less entry_key
  by unfold_locales (auto simp: entry_less_def entry_key_def)

definition inventory_bytes :: "InventoryEntry list \<Rightarrow> string" where
  "inventory_bytes es = (if es = [] then [] else json_entries (SliceStable entry_less es))"

lemma ComputeDigest_bytes: "ComputeDigest es = digest_of (inventory_bytes es)"
  by (simp add: ComputeDigest_def inventory_bytes_def)

lemma inventory_bytes_perm: "mset es = mset fs \<Longrightarrow> inventory_bytes es = inventory_bytes fs"
  using entry_order.SliceStable_perm [OF inj_entry_key, of es fs]
  by (auto simp: inventory_bytes_def)

lemma inventory_bytes_inj:
  assumes "list_all ascii_entry es" and "list_all ascii_entry fs"
    and "inventory_bytes es = inventory_bytes fs"
  shows "mset es = mset fs"
proof (cases "es = [] \<or> fs = []")
  case True
  with assms(3) show ?thesis by (auto simp: inventory_bytes_def split: if_splits)
next
  case False
  have "list_all ascii_entry (SliceStable entry_less es)"
    and "list_all ascii_entry (SliceStable entry_less fs)"
    using assms(1,2) by (simp_all add: list_all_iff entry_order.set_SliceStable)
  with False assms(3) have "SliceStable entry_less es = SliceStable entry_less fs"
    by (auto simp: inventory_bytes_def intro: json_entries_inj)
  then show ?thesis by (metis entry_order.mset_SliceStable)
qed

subsection \<open>Properties\<close>

text \<open>
  The stale set consists exactly of the previous entries that no current entry has the
  Kubernetes identity of (group, kind, namespace and name), in their previous order and
  with their multiplicity; changing only version or component does not make an entry stale.
\<close>

lemma stale_set_exact:
  "ComputeStaleSet previous current = [p\<leftarrow>previous. \<not> list_ex (K8sIdentityEqual p) current]
   \<and> (\<forall>p c v. p \<in> set previous \<longrightarrow> p\<lparr>ie_Version := v, ie_Component := c\<rparr> \<in> set current \<longrightarrow>
        p \<notin> set (ComputeStaleSet previous current))"
proof -
  have "k8s_key p \<notin> k8s_key ` set current \<longleftrightarrow> \<not> list_ex (K8sIdentityEqual p) current" for p
    by (auto simp: list_ex_iff K8sIdentityEqual_key)
  moreover have "p \<notin> set (ComputeStaleSet previous current)"
    if "p\<lparr>ie_Version := v, ie_Component := c\<rparr> \<in> set current" for p c v
    using imageI [OF that, of k8s_key] by (simp add: ComputeStaleSet_filter k8s_key_def)
  ultimately show ?thesis by (auto simp: ComputeStaleSet_filter)
qed

lemma stale_set_exact_witness:
  "let e = \<lparr>ie_Group = [], ie_Kind = ''ConfigMap'', ie_Namespace = ''prod'', ie_Name = ''a'',
         ie_Version = ''v1'', ie_Component = ''web''\<rparr>
   in e \<notin> set (ComputeStaleSet [e] [e\<lparr>ie_Version := ''v2'', ie_Component := ''db''\<rparr>])"
proof -
  have "e \<notin> set (ComputeStaleSet [e] [e\<lparr>ie_Version := ''v2'', ie_Component := ''db''\<rparr>])" for e
    using stale_set_exact [of "[e]" "[e\<lparr>ie_Version := ''v2'', ie_Component := ''db''\<rparr>]"]
    by (meson list.set_intros(1))
  then show ?thesis unfolding Let_def .
qed

text \<open>
  C36: the inventory digest is a faithful fingerprint of the inventory as a multiset: it does
  not depend on the order of the entries, and two inventories of ASCII entries
  have the same digest only if they have the same entries or their serialisations collide
  under SHA-256.
\<close>

lemma inventory_digest_fingerprint:
  assumes "list_all ascii_entry es" and "list_all ascii_entry fs"
  shows "(mset es = mset fs \<longrightarrow> ComputeDigest es = ComputeDigest fs)
    \<and> (ComputeDigest es = ComputeDigest fs \<longrightarrow> mset es = mset fs
        \<or> (inventory_bytes es \<noteq> inventory_bytes fs
           \<and> Sum256 (inventory_bytes es) = Sum256 (inventory_bytes fs)))"
  using inventory_bytes_perm [of es fs] inventory_bytes_inj [OF assms]
  by (auto simp: ComputeDigest_bytes digest_of_eq_iff)

lemma inventory_digest_fingerprint_witness:
  "let e = \<lparr>ie_Group = [], ie_Kind = ''ConfigMap'', ie_Namespace = ''prod'', ie_Name = ''a'',
         ie_Version = ''v1'', ie_Component = ''web''\<rparr>; f = e\<lparr>ie_Name := ''b''\<rparr>
   in ComputeDigest [e, f] = ComputeDigest [f, e]"
  using inventory_digest_fingerprint [of "[e, f]" "[f, e]" for e f]
  by (simp add: Let_def ascii_entry_def ascii_def)

end
