(* ===== verification/Opm_Apply.thy ===== *)
theory Opm_Apply
  imports Opm_Inventory
begin

text \<open>
  \<open>internal/apply\<close>: server-side apply, drift detection, ServiceAccount impersonation and
  pruning, over the API records of \<open>Opm_Kube\<close>.
\<close>

subsection \<open>Apply (\<open>apply.go\<close>, \<open>manager.go\<close>)\<close>

definition FieldManager :: string where
  "FieldManager = ''opm-controller''"

definition NewResourceManager :: "kclient \<Rightarrow> string \<Rightarrow> ResourceManager" where
  "NewResourceManager c owner = \<lparr>rm_Client = c, rm_Field = FieldManager, rm_Group = owner\<rparr>"

record ApplyResult =
  ar_Created :: nat
  ar_Updated :: nat
  ar_Unchanged :: nat

fun tally_changes :: "ssa_action list \<Rightarrow> ApplyResult \<Rightarrow> ApplyResult" where
  "tally_changes [] r = r"
| "tally_changes (a # as) r = tally_changes as
     (case a of
        CreatedAction \<Rightarrow> r\<lparr>ar_Created := ar_Created r + 1\<rparr>
      | ConfiguredAction \<Rightarrow> r\<lparr>ar_Updated := ar_Updated r + 1\<rparr>
      | UnchangedAction \<Rightarrow> r\<lparr>ar_Unchanged := ar_Unchanged r + 1\<rparr>
      | OtherAction \<Rightarrow> r)"

definition Apply ::
  "'w ssa_api \<Rightarrow> ResourceManager \<Rightarrow> unstructured list \<Rightarrow> bool \<Rightarrow> ('w, 'o, 'm) proc
     \<Rightarrow> (goerr + ApplyResult) \<times> ('w, 'o, 'm) proc" where
  "Apply S rm resources force s =
     (case mcall (ApplyAll rm resources force) (sa_ApplyAllStaged S rm resources force) s of
        (Inl e, s1) \<Rightarrow> (Inl (Errorf_w ''failed to apply resources: '' e []), s1)
      | (Inr changeSet, s1) \<Rightarrow>
          (Inr (tally_changes changeSet \<lparr>ar_Created = 0, ar_Updated = 0, ar_Unchanged = 0\<rparr>), s1))"

subsection \<open>Drift (\<open>drift.go\<close>)\<close>

record DriftedResource =
  dr_Group :: string
  dr_Kind :: string
  dr_Namespace :: string
  dr_Name :: string

record DriftResult =
  drift_Drifted :: bool
  drift_Resources :: "DriftedResource list"

definition drifted_of :: "unstructured \<Rightarrow> DriftedResource" where
  "drifted_of r = \<lparr>dr_Group = gvk_Group (u_GVK r), dr_Kind = gvk_Kind (u_GVK r),
     dr_Namespace = u_Namespace r, dr_Name = u_Name r\<rparr>"

fun drift_loop ::
  "'w ssa_api \<Rightarrow> ResourceManager \<Rightarrow> unstructured list \<Rightarrow> DriftedResource list
     \<Rightarrow> ('w, 'o, 'm) proc \<Rightarrow> (goerr + DriftedResource list) \<times> ('w, 'o, 'm) proc" where
  "drift_loop S rm [] acc s = (Inr acc, s)"
| "drift_loop S rm (r # rs) acc s =
     (case call (sa_Diff S rm r) s of
        (Inl e, s1) \<Rightarrow>
          (Inl (Errorf_w (''dry-run diff for '' @ u_Namespace r @ ''/'' @ u_Name r @ '' ''
             @ gvk_Kind (u_GVK r) @ '': '') e []), s1)
      | (Inr a, s1) \<Rightarrow>
          drift_loop S rm rs (if a = ConfiguredAction then acc @ [drifted_of r] else acc) s1)"

definition DetectDrift ::
  "'w ssa_api \<Rightarrow> ResourceManager \<Rightarrow> unstructured list \<Rightarrow> ('w, 'o, 'm) proc
     \<Rightarrow> (goerr + DriftResult) \<times> ('w, 'o, 'm) proc" where
  "DetectDrift S rm resources s =
     (case drift_loop S rm resources [] s of
        (Inl e, s1) \<Rightarrow> (Inl e, s1)
      | (Inr rs, s1) \<Rightarrow> (Inr \<lparr>drift_Drifted = (length rs > 0), drift_Resources = rs\<rparr>, s1))"

subsection \<open>Impersonation (\<open>impersonate.go\<close>)\<close>

definition IsServiceAccountNotFound :: "kube_lib \<Rightarrow> goerr \<Rightarrow> bool" where
  "IsServiceAccountNotFound K e = k_IsNotFound K e"

definition buildImpersonationConfig :: "string \<Rightarrow> string \<Rightarrow> ImpersonationConfig" where
  "buildImpersonationConfig namespace saName =
     \<lparr>imp_UserName = ''system:serviceaccount:'' @ namespace @ '':'' @ saName,
      imp_Groups = [''system:serviceaccounts'', ''system:serviceaccounts:'' @ namespace,
        ''system:authenticated'']\<rparr>"

text \<open>
  \<open>cfg\<close> says whether the rest config pointer is non-nil; \<open>rest.CopyConfig\<close> of a nil
  pointer panics, which is the result \<open>None\<close>.
\<close>

definition NewImpersonatedClient ::
  "kube_lib \<Rightarrow> 'w auth_api \<Rightarrow> bool \<Rightarrow> string \<Rightarrow> string \<Rightarrow> ('w, 'o, 'm) proc
     \<Rightarrow> (goerr + kclient) option \<times> ('w, 'o, 'm) proc" where
  "NewImpersonatedClient K A cfg namespace saName s =
     (case call (aa_GetServiceAccount A \<lparr>nn_Namespace = namespace, nn_Name = saName\<rparr>) s of
        (Some e, s1) \<Rightarrow>
          (if k_IsNotFound K e
           then (Some (Inl (Errorf_w (''serviceAccount '' @ namespace @ ''/'' @ saName
                  @ '' not found: '') e [])), s1)
           else (Some (Inl (Errorf_w (''checking serviceAccount '' @ namespace @ ''/'' @ saName
                  @ '': '') e [])), s1))
      | (None, s1) \<Rightarrow>
          if \<not> cfg then (None, s1)
          else let impCfg = buildImpersonationConfig namespace saName in
            (case call (aa_NewClient A impCfg) s1 of
               (Some e, s2) \<Rightarrow>
                 (Some (Inl (Errorf_w (''building impersonated client for '' @ namespace @ ''/''
                    @ saName @ '': '') e [])), s2)
             | (None, s2) \<Rightarrow> (Some (Inr (ImpersonatedClient impCfg)), s2)))"

subsection \<open>Prune (\<open>prune.go\<close>)\<close>

record PruneResult =
  pr_Deleted :: nat
  pr_Skipped :: nat

definition isSafeToDelete :: "InventoryEntry \<Rightarrow> bool" where
  "isSafeToDelete e \<longleftrightarrow> \<not> (ie_Kind e = ''Namespace'' \<or> ie_Kind e = ''CustomResourceDefinition'')"

definition entry_gvk :: "InventoryEntry \<Rightarrow> GroupVersionKind" where
  "entry_gvk e = \<lparr>gvk_Group = ie_Group e, gvk_Version = ie_Version e, gvk_Kind = ie_Kind e\<rparr>"

definition entry_nn :: "InventoryEntry \<Rightarrow> NamespacedName" where
  "entry_nn e = \<lparr>nn_Namespace = ie_Namespace e, nn_Name = ie_Name e\<rparr>"

definition prune_msg :: "string \<Rightarrow> InventoryEntry \<Rightarrow> string" where
  "prune_msg verb e = ''failed to '' @ verb @ '' '' @ ie_Namespace e @ ''/'' @ ie_Name e @ '' ''
     @ ie_Kind e @ '': ''"

type_synonym ('w, 'o, 'm) prune_state = "PruneResult \<times> goerr list \<times> ('w, 'o, 'm) proc"

text \<open>One iteration of the loop over the stale set.\<close>

definition prune_entry ::
  "kube_lib \<Rightarrow> 'w live_api \<Rightarrow> kclient \<Rightarrow> string \<Rightarrow> InventoryEntry \<Rightarrow> ('w, 'o, 'm) prune_state
     \<Rightarrow> ('w, 'o, 'm) prune_state" where
  "prune_entry K L c ownerUUID entry st =
     (case st of (res, errs, s) \<Rightarrow>
        if \<not> isSafeToDelete entry then (res\<lparr>pr_Skipped := pr_Skipped res + 1\<rparr>, errs, s)
        else case call (la_Get L c (entry_gvk entry) (entry_nn entry)) s of
          (Inl e, s1) \<Rightarrow>
            (if k_IsNotFound K e then (res, errs, s1)
             else (res, errs @ [Errorf_w (prune_msg ''get'' entry) e []], s1))
        | (Inr live, s1) \<Rightarrow>
            (let liveUUID = map_index (u_Labels live) LabelModuleReleaseUUID in
             if \<not> IsOPMManagedBy (map_index (u_Labels live) LabelManagedBy)
             then (res\<lparr>pr_Skipped := pr_Skipped res + 1\<rparr>, errs, s1)
             else if ownerUUID \<noteq> [] \<and> liveUUID \<noteq> [] \<and> liveUUID \<noteq> ownerUUID
             then (res\<lparr>pr_Skipped := pr_Skipped res + 1\<rparr>, errs, s1)
             else case mcall (DeleteObject c live) (la_Delete L c live) s1 of
               (Some e, s2) \<Rightarrow>
                 (if k_IsNotFound K e then (res, errs, s2)
                  else (res, errs @ [Errorf_w (prune_msg ''delete'' entry) e []], s2))
             | (None, s2) \<Rightarrow> (res\<lparr>pr_Deleted := pr_Deleted res + 1\<rparr>, errs, s2)))"

fun prune_loop ::
  "kube_lib \<Rightarrow> 'w live_api \<Rightarrow> kclient \<Rightarrow> string \<Rightarrow> InventoryEntry list \<Rightarrow> ('w, 'o, 'm) prune_state
     \<Rightarrow> ('w, 'o, 'm) prune_state" where
  "prune_loop K L c ownerUUID [] st = st"
| "prune_loop K L c ownerUUID (e # es) st =
     prune_loop K L c ownerUUID es (prune_entry K L c ownerUUID e st)"

definition Prune ::
  "kube_lib \<Rightarrow> 'w live_api \<Rightarrow> kclient \<Rightarrow> string \<Rightarrow> InventoryEntry list \<Rightarrow> ('w, 'o, 'm) proc
     \<Rightarrow> PruneResult \<times> goerr option \<times> ('w, 'o, 'm) proc" where
  "Prune K L c ownerUUID stale s =
     (case prune_loop K L c ownerUUID stale (\<lparr>pr_Deleted = 0, pr_Skipped = 0\<rparr>, [], s) of
        (res, errs, s1) \<Rightarrow> (res, errors_Join errs, s1))"

subsection \<open>Lemmas: apply and drift\<close>

lemma tally_changes_counts:
  "ar_Created (tally_changes as r) = ar_Created r + count_list as CreatedAction"
  "ar_Updated (tally_changes as r) = ar_Updated r + count_list as ConfiguredAction"
  "ar_Unchanged (tally_changes as r) = ar_Unchanged r + count_list as UnchangedAction"
  by (induction as arbitrary: r) (auto split: ssa_action.splits)

lemma Apply_log: "Apply S rm rs f s = (r, s') \<Longrightarrow> p_Log s' = p_Log s @ [ApplyAll rm rs f]"
  by (auto simp: Apply_def effect_simps split: prod.splits sum.splits)

lemma drift_loop_log: "drift_loop S rm rs acc s = (r, s') \<Longrightarrow> p_Log s' = p_Log s"
proof (induction rs arbitrary: acc s)
  case (Cons x rs)
  then show ?case
    by (auto split: prod.splits sum.splits simp: effect_simps)
qed simp

lemma DetectDrift_log: "DetectDrift S rm rs s = (r, s') \<Longrightarrow> p_Log s' = p_Log s"
  by (auto simp: DetectDrift_def split: prod.splits sum.splits dest: drift_loop_log)

lemma NewImpersonatedClient_log:
  "NewImpersonatedClient K A cfg ns sa s = (r, s') \<Longrightarrow> p_Log s' = p_Log s"
  by (auto simp: NewImpersonatedClient_def Let_def effect_simps
      split: prod.splits option.splits if_splits)

lemma NewImpersonatedClient_client:
  "NewImpersonatedClient K A cfg ns sa s = (Some (Inr c), s') \<Longrightarrow>
     c = ImpersonatedClient (buildImpersonationConfig ns sa)"
  by (auto simp: NewImpersonatedClient_def Let_def split: prod.splits option.splits if_splits)

subsection \<open>Lemmas: the prune guard\<close>

text \<open>The live-state ownership test, on the labels of the live object.\<close>

definition prunable_labels :: "string \<Rightarrow> (string \<rightharpoonup> string) \<Rightarrow> bool" where
  "prunable_labels ownerUUID labels \<longleftrightarrow>
     IsOPMManagedBy (map_index labels LabelManagedBy)
     \<and> (ownerUUID = [] \<or> map_index labels LabelModuleReleaseUUID = []
         \<or> map_index labels LabelModuleReleaseUUID = ownerUUID)"

text \<open>A delete call that the guard allows: from a stale entry of a deletable kind, on the
  object read for it, with owned labels.\<close>

definition guarded_delete ::
  "'w live_api \<Rightarrow> kclient \<Rightarrow> string \<Rightarrow> InventoryEntry list \<Rightarrow> 'o effect \<Rightarrow> bool" where
  "guarded_delete L c ownerUUID stale x \<longleftrightarrow>
     (\<exists>live entry w w'. x = DeleteObject c live \<and> entry \<in> set stale \<and> isSafeToDelete entry
        \<and> la_Get L c (entry_gvk entry) (entry_nn entry) w = (Inr live, w')
        \<and> prunable_labels ownerUUID (u_Labels live))"

lemma guarded_delete_mono:
  "guarded_delete L c u es x \<Longrightarrow> set es \<subseteq> set fs \<Longrightarrow> guarded_delete L c u fs x"
  by (auto simp: guarded_delete_def)

lemma call_ResultD: "call f s = (r, s') \<Longrightarrow> \<exists>w w'. f w = (r, w')"
  by (auto simp: call_def split: prod.splits)

lemma prune_entry_guarded:
  assumes "prune_entry K L c u e (res, errs, s) = (res', errs', s')"
  shows "log_ext (guarded_delete L c u [e]) s s'"
proof (cases "isSafeToDelete e")
  case True
  obtain g s1 where g: "call (la_Get L c (entry_gvk e) (entry_nn e)) s = (g, s1)"
    by fastforce
  note ext1 = log_ext_call [OF g]
  show ?thesis
  proof (cases "\<exists>live. g = Inr live \<and> prunable_labels u (u_Labels live)")
    case False
    then have "s' = s1"
      using assms True g
      by (cases g) (auto simp: prune_entry_def Let_def prunable_labels_def split: if_splits)
    with ext1 show ?thesis by simp
  next
    case live: True
    then obtain live where gl: "g = Inr live" and p: "prunable_labels u (u_Labels live)" by blast
    obtain d s2 where d: "mcall (DeleteObject c live) (la_Delete L c live) s1 = (d, s2)"
      by fastforce
    have "s' = s2"
      using assms True g gl p d
      by (cases d) (auto simp: prune_entry_def Let_def prunable_labels_def split: if_splits)
    moreover have "guarded_delete L c u [e] (DeleteObject c live)"
      using True p gl call_ResultD [OF g] by (auto simp: guarded_delete_def)
    ultimately show ?thesis
      using ext1 log_ext_mcall [OF d] log_ext_trans by blast
  qed
qed (use assms in \<open>auto simp: prune_entry_def\<close>)

lemma prune_loop_guarded:
  assumes "prune_loop K L c u es (res, errs, s) = (res', errs', s')"
  shows "log_ext (guarded_delete L c u es) s s'"
  using assms
proof (induction es arbitrary: res errs s)
  case (Cons e es)
  obtain r1 e1 s1 where 1: "prune_entry K L c u e (res, errs, s) = (r1, e1, s1)"
    by (metis prod_cases3)
  have "log_ext (guarded_delete L c u (e # es)) s s1"
    using prune_entry_guarded [OF 1] by (rule log_ext_mono) (erule guarded_delete_mono, simp)
  moreover have "log_ext (guarded_delete L c u es) s1 s'"
    using Cons.IH [of r1 e1 s1] Cons.prems 1 by simp
  then have "log_ext (guarded_delete L c u (e # es)) s1 s'"
    by (rule log_ext_mono) (erule guarded_delete_mono, auto)
  ultimately show ?case by (rule log_ext_trans)
qed simp

lemma Prune_guarded:
  "Prune K L c u stale s = (res, err, s') \<Longrightarrow> log_ext (guarded_delete L c u stale) s s'"
  by (auto simp: Prune_def split: prod.splits dest: prune_loop_guarded)

end
