(* ===== verification/Opm_Status.thy ===== *)
theory Opm_Status
  imports Opm_Inventory
begin

text \<open>
  \<open>internal/status\<close>: condition transitions, failure counters, reconcile digests with the
  no-op test, and the bounded history.
\<close>

subsection \<open>Conditions (\<open>conditions.go\<close>)\<close>

definition ReadyCondition :: string where "ReadyCondition = ''Ready''"
definition ReconcilingCondition :: string where "ReconcilingCondition = ''Reconciling''"
definition StalledCondition :: string where "StalledCondition = ''Stalled''"
definition ModuleResolvedCondition :: string where "ModuleResolvedCondition = ''ModuleResolved''"
definition DriftedCondition :: string where "DriftedCondition = ''Drifted''"

lemmas condition_types = ReadyCondition_def ReconcilingCondition_def StalledCondition_def
  ModuleResolvedCondition_def DriftedCondition_def

definition SuspendedReason :: string where "SuspendedReason = ''Suspended''"
definition ResolutionFailedReason :: string where "ResolutionFailedReason = ''ResolutionFailed''"
definition RenderFailedReason :: string where "RenderFailedReason = ''RenderFailed''"
definition ApplyFailedReason :: string where "ApplyFailedReason = ''ApplyFailed''"
definition PruneFailedReason :: string where "PruneFailedReason = ''PruneFailed''"
definition ImpersonationFailedReason :: string where "ImpersonationFailedReason = ''ImpersonationFailed''"
definition DeletionSAMissingReason :: string where "DeletionSAMissingReason = ''DeletionSAMissing''"
definition OrphanedOnDeletionReason :: string where "OrphanedOnDeletionReason = ''OrphanedOnDeletion''"
definition ReconciliationSucceededReason :: string where
  "ReconciliationSucceededReason = ''ReconciliationSucceeded''"
definition DriftDetectedReason :: string where "DriftDetectedReason = ''DriftDetected''"
definition SourceNotReadyReason :: string where "SourceNotReadyReason = ''SourceNotReady''"
definition FetchFailedReason :: string where "FetchFailedReason = ''FetchFailed''"
definition PathNotFoundReason :: string where "PathNotFoundReason = ''PathNotFound''"
definition ReleaseFileNotFoundReason :: string where "ReleaseFileNotFoundReason = ''ReleaseFileNotFound''"
definition UnsupportedKindReason :: string where "UnsupportedKindReason = ''UnsupportedKind''"
definition DependenciesNotReadyReason :: string where "DependenciesNotReadyReason = ''DependenciesNotReady''"
definition AppliedReason :: string where "AppliedReason = ''Applied''"
definition PrunedReason :: string where "PrunedReason = ''Pruned''"
definition ResumedReason :: string where "ResumedReason = ''Resumed''"
definition NoOpReason :: string where "NoOpReason = ''NoOp''"

text \<open>The helpers act on the condition list of the object; messages are already formatted.\<close>

definition MarkReconciling :: "kube_lib \<Rightarrow> string \<Rightarrow> string \<Rightarrow> Condition list \<Rightarrow> Condition list" where
  "MarkReconciling K reason msg cs =
     k_MarkUnknown K ReadyCondition reason msg (k_MarkReconciling K reason msg cs)"

definition MarkStalled :: "kube_lib \<Rightarrow> string \<Rightarrow> string \<Rightarrow> Condition list \<Rightarrow> Condition list" where
  "MarkStalled K reason msg cs =
     k_MarkFalse K ReadyCondition reason msg (k_MarkStalled K reason msg cs)"

definition MarkReady :: "kube_lib \<Rightarrow> string \<Rightarrow> Condition list \<Rightarrow> Condition list" where
  "MarkReady K msg cs =
     k_MarkTrue K ReadyCondition ReconciliationSucceededReason msg
       (k_Delete K StalledCondition (k_Delete K ReconcilingCondition cs))"

definition MarkSuspended :: "kube_lib \<Rightarrow> Condition list \<Rightarrow> Condition list" where
  "MarkSuspended K cs =
     k_MarkFalse K ReadyCondition SuspendedReason ''Reconciliation is suspended''
       (k_Delete K StalledCondition (k_Delete K ReconcilingCondition cs))"

definition MarkNotReady :: "kube_lib \<Rightarrow> string \<Rightarrow> string \<Rightarrow> Condition list \<Rightarrow> Condition list" where
  "MarkNotReady K reason msg cs = k_MarkFalse K ReadyCondition reason msg cs"

definition MarkDrifted :: "kube_lib \<Rightarrow> nat \<Rightarrow> Condition list \<Rightarrow> Condition list" where
  "MarkDrifted K n cs =
     k_MarkTrue K DriftedCondition DriftDetectedReason
       (nat_str n @ '' resource(s) drifted from desired state'') cs"

definition ClearDrifted :: "kube_lib \<Rightarrow> Condition list \<Rightarrow> Condition list" where
  "ClearDrifted K cs = k_Delete K DriftedCondition cs"

definition MarkModuleResolved :: "kube_lib \<Rightarrow> string \<Rightarrow> Condition list \<Rightarrow> Condition list" where
  "MarkModuleResolved K ref cs =
     k_MarkTrue K ModuleResolvedCondition ''ModuleResolved'' (''module resolved: '' @ ref) cs"

lemmas mark_defs = MarkReconciling_def MarkStalled_def MarkReady_def MarkSuspended_def
  MarkNotReady_def MarkDrifted_def ClearDrifted_def MarkModuleResolved_def

context flux_conditions
begin

lemma ok_marks:
  assumes "conditions_ok cs"
  shows "conditions_ok (MarkReconciling K r m cs)" "conditions_ok (MarkStalled K r m cs)"
    "conditions_ok (MarkReady K m cs)" "conditions_ok (MarkSuspended K cs)"
    "conditions_ok (MarkNotReady K r m cs)" "conditions_ok (MarkDrifted K n cs)"
    "conditions_ok (ClearDrifted K cs)" "conditions_ok (MarkModuleResolved K m cs)"
  using assms by (simp_all add: mark_defs ok_simps)

lemma find_MarkReconciling:
  "conditions_ok cs \<Longrightarrow> k_FindStatusCondition K (MarkReconciling K r m cs) =
     (k_FindStatusCondition K cs)(''Stalled'' := None,
        ''Reconciling'' \<mapsto> mk_condition ''Reconciling'' ConditionTrue r m,
        ''Ready'' \<mapsto> mk_condition ''Ready'' ConditionUnknown r m)"
  by (simp add: mark_defs find_simps ok_simps condition_types)

lemma find_MarkStalled:
  "conditions_ok cs \<Longrightarrow> k_FindStatusCondition K (MarkStalled K r m cs) =
     (k_FindStatusCondition K cs)(''Reconciling'' := None,
        ''Stalled'' \<mapsto> mk_condition ''Stalled'' ConditionTrue r m,
        ''Ready'' \<mapsto> mk_condition ''Ready'' ConditionFalse r m)"
  by (simp add: mark_defs find_simps ok_simps condition_types)

lemma find_MarkReady:
  "conditions_ok cs \<Longrightarrow> k_FindStatusCondition K (MarkReady K m cs) =
     (k_FindStatusCondition K cs)(''Reconciling'' := None, ''Stalled'' := None,
        ''Ready'' \<mapsto> mk_condition ''Ready'' ConditionTrue ReconciliationSucceededReason m)"
  by (simp add: mark_defs find_simps ok_simps condition_types)

lemma find_MarkSuspended:
  "conditions_ok cs \<Longrightarrow> k_FindStatusCondition K (MarkSuspended K cs) =
     (k_FindStatusCondition K cs)(''Reconciling'' := None, ''Stalled'' := None,
        ''Ready'' \<mapsto> mk_condition ''Ready'' ConditionFalse SuspendedReason
          ''Reconciliation is suspended'')"
  by (simp add: mark_defs find_simps ok_simps condition_types)

lemma find_MarkNotReady:
  "conditions_ok cs \<Longrightarrow> k_FindStatusCondition K (MarkNotReady K r m cs) =
     (k_FindStatusCondition K cs)(''Ready'' \<mapsto> mk_condition ''Ready'' ConditionFalse r m)"
  by (simp add: mark_defs find_simps condition_types)

lemma find_MarkDrifted:
  "conditions_ok cs \<Longrightarrow> k_FindStatusCondition K (MarkDrifted K n cs) =
     (k_FindStatusCondition K cs)(''Drifted'' \<mapsto> mk_condition ''Drifted'' ConditionTrue
        DriftDetectedReason (nat_str n @ '' resource(s) drifted from desired state''))"
  by (simp add: mark_defs find_simps condition_types)

lemma find_ClearDrifted:
  "conditions_ok cs \<Longrightarrow> k_FindStatusCondition K (ClearDrifted K cs) =
     (k_FindStatusCondition K cs)(''Drifted'' := None)"
  by (simp add: mark_defs find_simps condition_types)

lemma find_MarkModuleResolved:
  "conditions_ok cs \<Longrightarrow> k_FindStatusCondition K (MarkModuleResolved K r cs) =
     (k_FindStatusCondition K cs)(''ModuleResolved'' \<mapsto> mk_condition ''ModuleResolved''
        ConditionTrue ''ModuleResolved'' (''module resolved: '' @ r))"
  by (simp add: mark_defs find_simps condition_types)

lemmas find_marks = find_MarkReconciling find_MarkStalled find_MarkReady find_MarkSuspended
  find_MarkNotReady find_MarkDrifted find_ClearDrifted find_MarkModuleResolved

end

subsection \<open>Failure counters (\<open>counters.go\<close>)\<close>

definition CounterReconcile :: string where "CounterReconcile = ''reconcile''"
definition CounterApply :: string where "CounterApply = ''apply''"
definition CounterPrune :: string where "CounterPrune = ''prune''"
definition CounterDrift :: string where "CounterDrift = ''drift''"

lemmas counter_names = CounterReconcile_def CounterApply_def CounterPrune_def CounterDrift_def

definition ensureCountersField :: "FailureCounters option \<Rightarrow> FailureCounters" where
  "ensureCountersField c =
     (case c of None \<Rightarrow> \<lparr>fc_Reconcile = 0, fc_Apply = 0, fc_Prune = 0, fc_Drift = 0\<rparr> | Some c \<Rightarrow> c)"

definition IncrementCounter :: "string \<Rightarrow> FailureCounters \<Rightarrow> FailureCounters" where
  "IncrementCounter field c =
     (if field = CounterReconcile then c\<lparr>fc_Reconcile := fc_Reconcile c + 1\<rparr>
      else if field = CounterApply then c\<lparr>fc_Apply := fc_Apply c + 1\<rparr>
      else if field = CounterPrune then c\<lparr>fc_Prune := fc_Prune c + 1\<rparr>
      else if field = CounterDrift then c\<lparr>fc_Drift := fc_Drift c + 1\<rparr>
      else c)"

definition ResetCounter :: "string \<Rightarrow> FailureCounters \<Rightarrow> FailureCounters" where
  "ResetCounter field c =
     (if field = CounterReconcile then c\<lparr>fc_Reconcile := 0\<rparr>
      else if field = CounterApply then c\<lparr>fc_Apply := 0\<rparr>
      else if field = CounterPrune then c\<lparr>fc_Prune := 0\<rparr>
      else if field = CounterDrift then c\<lparr>fc_Drift := 0\<rparr>
      else c)"

lemma counter_simps [simp]:
  "IncrementCounter CounterReconcile c = c\<lparr>fc_Reconcile := fc_Reconcile c + 1\<rparr>"
  "IncrementCounter CounterApply c = c\<lparr>fc_Apply := fc_Apply c + 1\<rparr>"
  "IncrementCounter CounterPrune c = c\<lparr>fc_Prune := fc_Prune c + 1\<rparr>"
  "IncrementCounter CounterDrift c = c\<lparr>fc_Drift := fc_Drift c + 1\<rparr>"
  "ResetCounter CounterReconcile c = c\<lparr>fc_Reconcile := 0\<rparr>"
  "ResetCounter CounterApply c = c\<lparr>fc_Apply := 0\<rparr>"
  "ResetCounter CounterPrune c = c\<lparr>fc_Prune := 0\<rparr>"
  "ResetCounter CounterDrift c = c\<lparr>fc_Drift := 0\<rparr>"
  by (simp_all add: IncrementCounter_def ResetCounter_def counter_names)

subsection \<open>Digests (\<open>digests.go\<close>)\<close>

record DigestSet =
  ds_Source :: string
  ds_Config :: string
  ds_Render :: string
  ds_Inventory :: string

definition ModuleSourceDigest :: "string \<Rightarrow> string \<Rightarrow> string" where
  "ModuleSourceDigest path version = digest_of (path @ ''@'' @ version)"

text \<open>
  \<open>canon\<close> is \<open>json.Unmarshal\<close> into \<open>any\<close> followed by \<open>json.Marshal\<close>: the canonical form,
  or \<open>None\<close> if either fails, in which case the raw bytes are hashed.
\<close>

definition ConfigDigest :: "(string \<Rightarrow> string option) \<Rightarrow> RawValues option \<Rightarrow> string" where
  "ConfigDigest canon values =
     (case values of
        None \<Rightarrow> digest_of []
      | Some v \<Rightarrow>
          (case rv_Raw v of
             None \<Rightarrow> digest_of []
           | Some raw \<Rightarrow>
               if raw = [] then digest_of []
               else case canon raw of None \<Rightarrow> digest_of raw | Some c \<Rightarrow> digest_of c))"

definition resource_less :: "'v cue_lib \<Rightarrow> 'v Resource \<Rightarrow> 'v Resource \<Rightarrow> bool" where
  "resource_less C a b =
     (let ga = Resource_GVK C a; gb = Resource_GVK C b in
      if gvk_Group ga \<noteq> gvk_Group gb then gvk_Group ga < gvk_Group gb
      else if gvk_Kind ga \<noteq> gvk_Kind gb then gvk_Kind ga < gvk_Kind gb
      else if Resource_Namespace C a \<noteq> Resource_Namespace C b
        then Resource_Namespace C a < Resource_Namespace C b
      else Resource_Name C a < Resource_Name C b)"

text \<open>The loop that feeds the serialised resources to the hasher.\<close>

fun render_bytes :: "'v cue_lib \<Rightarrow> 'v Resource list \<Rightarrow> string \<Rightarrow> goerr + string" where
  "render_bytes C [] h = Inr h"
| "render_bytes C (r # rs) h =
     (case Resource_MarshalJSON C r of
        Inl e \<Rightarrow> Inl (Errorf_w ''render digest: '' e [])
      | Inr b \<Rightarrow> render_bytes C rs (h @ b))"

definition RenderDigest :: "'v cue_lib \<Rightarrow> 'v Resource list \<Rightarrow> goerr + string" where
  "RenderDigest C resources =
     (case render_bytes C (SliceStable (resource_less C) resources) [] of
        Inl e \<Rightarrow> Inl e | Inr h \<Rightarrow> Inr (digest_of h))"

definition IsNoOp :: "DigestSet \<Rightarrow> DigestSet \<Rightarrow> bool" where
  "IsNoOp current lastApplied =
     (if ds_Source lastApplied = [] \<or> ds_Config lastApplied = []
         \<or> ds_Render lastApplied = [] \<or> ds_Inventory lastApplied = [] then False
      else ds_Source current = ds_Source lastApplied \<and> ds_Config current = ds_Config lastApplied
         \<and> ds_Render current = ds_Render lastApplied
         \<and> ds_Inventory current = ds_Inventory lastApplied)"

definition resource_key :: "'v cue_lib \<Rightarrow> 'v Resource \<Rightarrow> string \<times> string \<times> string \<times> string" where
  "resource_key C r = (gvk_Group (Resource_GVK C r), gvk_Kind (Resource_GVK C r),
     Resource_Namespace C r, Resource_Name C r)"

interpretation resource_order: slice_order "resource_less C" "resource_key C" for C
  by unfold_locales (auto simp: resource_less_def resource_key_def Let_def)

lemma IsNoOp_iff:
  "IsNoOp c l \<longleftrightarrow> c = l \<and> ds_Source l \<noteq> [] \<and> ds_Config l \<noteq> [] \<and> ds_Render l \<noteq> []
     \<and> ds_Inventory l \<noteq> []"
  by (auto simp: IsNoOp_def intro: DigestSet.equality)

lemma digests_nonempty [simp]:
  "ModuleSourceDigest p v \<noteq> []" "ConfigDigest canon vs \<noteq> []" "ComputeDigest es \<noteq> []"
  by (simp_all add: ModuleSourceDigest_def ConfigDigest_def ComputeDigest_bytes split: option.splits)

lemma RenderDigest_nonempty: "RenderDigest C rs = Inr d \<Longrightarrow> d \<noteq> []"
  by (auto simp: RenderDigest_def split: sum.splits)

subsection \<open>History (\<open>history.go\<close>)\<close>

definition MaxHistoryEntries :: nat where
  "MaxHistoryEntries = 10"

definition NewSuccessEntry :: "string \<Rightarrow> string \<Rightarrow> DigestSet \<Rightarrow> int64 \<Rightarrow> instant \<Rightarrow> HistoryEntry" where
  "NewSuccessEntry action phase digests inventoryCount now =
     \<lparr>he_Sequence = 0, he_Action = action, he_Phase = phase, he_StartedAt = Some now,
      he_FinishedAt = Some now, he_SourceDigest = ds_Source digests,
      he_ConfigDigest = ds_Config digests, he_RenderDigest = ds_Render digests,
      he_InventoryDigest = ds_Inventory digests, he_InventoryCount = inventoryCount,
      he_Message = []\<rparr>"

definition NewFailureEntry :: "string \<Rightarrow> string \<Rightarrow> DigestSet \<Rightarrow> instant \<Rightarrow> HistoryEntry" where
  "NewFailureEntry action message digests now =
     \<lparr>he_Sequence = 0, he_Action = action, he_Phase = [], he_StartedAt = Some now,
      he_FinishedAt = Some now, he_SourceDigest = ds_Source digests,
      he_ConfigDigest = ds_Config digests, he_RenderDigest = ds_Render digests,
      he_InventoryDigest = ds_Inventory digests, he_InventoryCount = 0,
      he_Message = message\<rparr>"

fun max_sequence :: "HistoryEntry list \<Rightarrow> int64 \<Rightarrow> int64" where
  "max_sequence [] m = m"
| "max_sequence (e # es) m =
     max_sequence es (if sint m < sint (he_Sequence e) then he_Sequence e else m)"

definition nextSequence :: "HistoryEntry list \<Rightarrow> int64" where
  "nextSequence history = (if history = [] then 1 else max_sequence history 0 + 1)"

definition recordHistoryEntry :: "HistoryEntry \<Rightarrow> HistoryEntry list \<Rightarrow> HistoryEntry list" where
  "recordHistoryEntry entry history =
     (let h = entry\<lparr>he_Sequence := nextSequence history\<rparr> # history in
      if length h > MaxHistoryEntries then take MaxHistoryEntries h else h)"

definition RecordHistory :: "HistoryEntry \<Rightarrow> 'b CommonStatus_scheme \<Rightarrow> 'b CommonStatus_scheme" where
  "RecordHistory entry st = st\<lparr>st_History := recordHistoryEntry entry (st_History st)\<rparr>"

text \<open>
  The invariant of a history: at most ten entries, positive sequence numbers, newest first
  with strictly decreasing sequence numbers.
\<close>

definition history_ok :: "HistoryEntry list \<Rightarrow> bool" where
  "history_ok h \<longleftrightarrow> length h \<le> MaxHistoryEntries
     \<and> sorted_wrt (\<lambda>a b. sint (he_Sequence b) < sint (he_Sequence a)) h
     \<and> list_all (\<lambda>e. 0 < sint (he_Sequence e)) h"

lemma max_sequence_ge:
  "sint m \<le> sint (max_sequence es m) \<and> (\<forall>e\<in>set es. sint (he_Sequence e) \<le> sint (max_sequence es m))"
proof (induction es arbitrary: m)
  case (Cons e es)
  show ?case
    using Cons.IH [of "he_Sequence e"] Cons.IH [of m] by auto
qed simp

lemma max_sequence_mem: "max_sequence es m = m \<or> max_sequence es m \<in> he_Sequence ` set es"
proof (induction es arbitrary: m)
  case (Cons e es)
  show ?case using Cons.IH [of "he_Sequence e"] Cons.IH [of m] by auto
qed simp

lemma nextSequence_gt:
  assumes "\<forall>e\<in>set h. sint (he_Sequence e) < int64_max"
  shows "0 < sint (nextSequence h) \<and> (\<forall>e\<in>set h. sint (he_Sequence e) < sint (nextSequence h))"
proof (cases "h = []")
  case True
  then show ?thesis by (simp add: nextSequence_def)
next
  case False
  have "sint (max_sequence h 0) < int64_max"
    using max_sequence_mem [of h 0] assms by (auto simp: int64_max_def)
  then have "sint (nextSequence h) = sint (max_sequence h 0) + 1"
    using False by (simp add: nextSequence_def sint_plus1_int64)
  then show ?thesis using max_sequence_ge [of 0 h] by fastforce
qed

lemma nextSequence_head:
  assumes "history_ok (e # h)" and "sint (he_Sequence e) < int64_max"
  shows "nextSequence (e # h) = he_Sequence e + 1"
proof -
  have up: "\<forall>x\<in>set (e # h). sint (he_Sequence x) \<le> sint (he_Sequence e)"
    and pos: "0 < sint (he_Sequence e)"
    using assms(1) by (auto simp: history_ok_def order_le_less)
  have "sint (max_sequence (e # h) 0) = sint (he_Sequence e)"
  proof (rule order_antisym)
    show "sint (max_sequence (e # h) 0) \<le> sint (he_Sequence e)"
      using max_sequence_mem [of "e # h" 0] up pos by auto
    show "sint (he_Sequence e) \<le> sint (max_sequence (e # h) 0)"
      using max_sequence_ge [of 0 "e # h"] by simp
  qed
  then show ?thesis by (simp add: nextSequence_def signed_word_eqI)
qed

lemma recordHistoryEntry_take:
  "recordHistoryEntry e h = take MaxHistoryEntries (e\<lparr>he_Sequence := nextSequence h\<rparr> # h)"
  by (simp add: recordHistoryEntry_def Let_def)

lemma history_ok_record:
  assumes "history_ok h" and "\<forall>e\<in>set h. sint (he_Sequence e) < int64_max"
  shows "history_ok (recordHistoryEntry e h)"
proof -
  let ?h = "e\<lparr>he_Sequence := nextSequence h\<rparr> # h"
  have s: "sorted_wrt (\<lambda>a b. sint (he_Sequence b) < sint (he_Sequence a)) ?h"
    and "list_all (\<lambda>e. 0 < sint (he_Sequence e)) ?h"
    using assms nextSequence_gt [OF assms(2)] by (auto simp: history_ok_def)
  then have "list_all (\<lambda>e. 0 < sint (he_Sequence e)) (take MaxHistoryEntries ?h)"
    by (metis append_take_drop_id list_all_append)
  with sorted_wrt_take [OF s] show ?thesis
    by (simp only: history_ok_def recordHistoryEntry_take) simp
qed

subsection \<open>Properties\<close>

text \<open>
  The render digest does not depend on the order in which the resources were rendered,
  as long as no two of them share group, kind, namespace and name.
\<close>

lemma RenderDigest_order_independent:
  assumes "inj_on (resource_key C) (set rs)" and "mset rs = mset rs'"
  shows "RenderDigest C rs = RenderDigest C rs'"
  using resource_order.SliceStable_perm [OF assms] by (simp add: RenderDigest_def)

text \<open>
  Recording a history entry keeps the history well formed: at most ten entries, newest
  first, positive and strictly decreasing sequence numbers. The new entry comes first, with
  a sequence number one above the previous newest, and the older entries follow unchanged,
  the oldest being dropped only beyond ten.
\<close>

lemma RecordHistory_invariant:
  assumes "history_ok (st_History st)"
    and "\<forall>e\<in>set (st_History st). sint (he_Sequence e) < int64_max"
  shows "history_ok (st_History (RecordHistory entry st))
    \<and> (\<exists>n. st_History (RecordHistory entry st) =
          entry\<lparr>he_Sequence := n\<rparr> # take 9 (st_History st)
        \<and> (case st_History st of [] \<Rightarrow> n = 1 | e # _ \<Rightarrow> n = he_Sequence e + 1))"
proof -
  have "st_History (RecordHistory entry st) =
      entry\<lparr>he_Sequence := nextSequence (st_History st)\<rparr> # take 9 (st_History st)"
    by (simp add: RecordHistory_def recordHistoryEntry_take MaxHistoryEntries_def)
  moreover have "case st_History st of [] \<Rightarrow> nextSequence (st_History st) = 1
      | e # _ \<Rightarrow> nextSequence (st_History st) = he_Sequence e + 1"
    using assms by (auto simp: nextSequence_head split: list.splits) (simp add: nextSequence_def)
  moreover have "history_ok (st_History (RecordHistory entry st))"
    using history_ok_record [OF assms] by (simp add: RecordHistory_def)
  ultimately show ?thesis by blast
qed

lemma RecordHistory_invariant_witness:
  "let d = \<lparr>ds_Source = ''s'', ds_Config = ''c'', ds_Render = ''r'', ds_Inventory = ''i''\<rparr>;
       st = RecordHistory (NewFailureEntry ''reconcile'' ''boom'' d 7) empty_mr_status
   in history_ok (st_History st) \<and> length (st_History st) = 1 \<and> he_Sequence (hd (st_History st)) = 1"
proof -
  have "st_History empty_mr_status = []"
    by (simp add: empty_mr_status_def empty_common_def CommonStatus.defs)
  then show ?thesis
    using RecordHistory_invariant [of empty_mr_status "NewFailureEntry ''reconcile'' ''boom''
      \<lparr>ds_Source = ''s'', ds_Config = ''c'', ds_Render = ''r'', ds_Inventory = ''i''\<rparr> 7"]
    by (auto simp: Let_def history_ok_def)
qed

lemma RenderDigest_order_independent_witness:
  "let C = \<lparr>cue_LookupPath = (\<lambda>p v. v), cue_Exists = (\<lambda>v. True), cue_String = (\<lambda>v. (v, None)),
         cue_Err = (\<lambda>v. None), cue_MarshalJSON = (\<lambda>v. Inr v), cue_DecodeMap = (\<lambda>v. (Map.empty, None)),
         cue_ToObject = (\<lambda>j. Inl (errors_New j))\<rparr>;
       r = (\<lambda>n. \<lparr>r_Value = n, r_Release = [], r_Component = [], r_Transformer = []\<rparr>)
   in RenderDigest C [r ''a'', r ''b''] = RenderDigest C [r ''b'', r ''a'']"
proof -
  let ?C = "\<lparr>cue_LookupPath = (\<lambda>p v. v), cue_Exists = (\<lambda>v. True), cue_String = (\<lambda>v. (v, None)),
      cue_Err = (\<lambda>v. None), cue_MarshalJSON = (\<lambda>v. Inr v), cue_DecodeMap = (\<lambda>v. (Map.empty, None)),
      cue_ToObject = (\<lambda>j. Inl (errors_New j))\<rparr>"
  let ?r = "\<lambda>n. \<lparr>r_Value = n, r_Release = [], r_Component = [], r_Transformer = []\<rparr>"
  have "resource_key ?C (?r ''a'') \<noteq> resource_key ?C (?r ''b'')"
    by (simp add: resource_key_def Resource_Name_def Resource_path_string_def)
  then have "inj_on (resource_key ?C) (set [?r ''a'', ?r ''b''])" by simp
  from RenderDigest_order_independent [OF this, of "[?r ''b'', ?r ''a'']"] show ?thesis
    by (simp add: Let_def add_mset_commute)
qed

end
