(* ===== verification/Opm_Outcome.thy ===== *)
theory Opm_Outcome
  imports Opm_Status
begin

text \<open>
  \<open>internal/reconcile/outcome.go\<close> and \<open>backoff.go\<close>: how a reconcile attempt is
  classified, and when a failed one is tried again.
\<close>

subsection \<open>Outcomes\<close>

datatype Outcome = NoOp | Applied | AppliedAndPruned | FailedTransient | FailedStalled

fun MetricLabel :: "Outcome \<Rightarrow> string" where
  "MetricLabel NoOp = ''no_op''"
| "MetricLabel Applied = ''applied''"
| "MetricLabel AppliedAndPruned = ''applied_and_pruned''"
| "MetricLabel FailedTransient = ''failed_transient''"
| "MetricLabel FailedStalled = ''failed_stalled''"

fun Outcome_String :: "Outcome \<Rightarrow> string" where
  "Outcome_String NoOp = ''NoOp''"
| "Outcome_String Applied = ''Applied''"
| "Outcome_String AppliedAndPruned = ''AppliedAndPruned''"
| "Outcome_String FailedTransient = ''FailedTransient''"
| "Outcome_String FailedStalled = ''FailedStalled''"

lemma MetricLabel_inj: "MetricLabel a = MetricLabel b \<longleftrightarrow> a = b"
  by (cases a; cases b) simp_all

subsection \<open>Backoff\<close>

definition BackoffBaseDelay :: duration where "BackoffBaseDelay = 5 * Second"
definition BackoffMaxDelay :: duration where "BackoffMaxDelay = 5 * Minute"
definition StalledRecheckInterval :: duration where "StalledRecheckInterval = 30 * Minute"

text \<open>
  The float64 values that occur are non-negative integers, exactly represented (a power of
  two, or five billion times one), or \<open>+Inf\<close>, written \<open>None\<close>: \<open>math.Pow(2, x)\<close> and
  the product overflow at \<open>2 ^ 1024\<close>.
\<close>

definition float_overflow :: "int \<Rightarrow> int option" where
  "float_overflow x = (if x < 2 ^ 1024 then Some x else None)"

definition Pow2 :: "int \<Rightarrow> int option" where
  "Pow2 x = (if x < 1024 then Some (2 ^ nat x) else None)"

definition float_mult :: "int \<Rightarrow> int option \<Rightarrow> int option" where
  "float_mult a y = (case y of None \<Rightarrow> None | Some b \<Rightarrow> float_overflow (a * b))"

definition ComputeBackoff :: "int64 \<Rightarrow> duration" where
  "ComputeBackoff failureCount =
     (if sint failureCount \<le> 1 then BackoffBaseDelay
      else case float_mult BackoffBaseDelay (Pow2 (sint (failureCount - 1))) of
          None \<Rightarrow> BackoffMaxDelay
        | Some delay \<Rightarrow> if delay > BackoffMaxDelay then BackoffMaxDelay else delay)"

text \<open>The formula of the doc comment, over the integers.\<close>

definition backoff_spec :: "int \<Rightarrow> duration" where
  "backoff_spec n = (if n \<le> 1 then BackoffBaseDelay
     else min (BackoffBaseDelay * 2 ^ nat (n - 1)) BackoffMaxDelay)"

lemmas delay_defs = BackoffBaseDelay_def BackoffMaxDelay_def StalledRecheckInterval_def

lemma sint_minus1_int64:
  fixes n :: int64
  assumes "1 < sint n"
  shows "sint (n - 1) = sint n - 1"
proof -
  have hi: "sint n < 2 ^ 63" using sint_less [of n] by simp
  have "sint (n - 1) = signed_take_bit 63 (sint n - 1)"
    by (simp add: sint_word_ariths)
  also have "\<dots> = sint n - 1"
    using assms hi by (intro signed_take_bit_int_eq_self) simp_all
  finally show ?thesis .
qed

lemma pow2_ge_64: "6 \<le> k \<Longrightarrow> (64::int) \<le> 2 ^ k"
  using power_increasing [of 6 k "2::int"] by simp

lemma backoff_spec_large: "7 \<le> n \<Longrightarrow> backoff_spec n = BackoffMaxDelay"
proof -
  assume "7 \<le> n"
  then have "(64::int) \<le> 2 ^ nat (n - 1)" by (intro pow2_ge_64) linarith
  with \<open>7 \<le> n\<close> show ?thesis by (simp add: backoff_spec_def delay_defs)
qed

lemma backoff_spec_small:
  "n \<le> 1 \<Longrightarrow> backoff_spec n = 5 * Second" "backoff_spec 2 = 10 * Second"
  "backoff_spec 3 = 20 * Second" "backoff_spec 4 = 40 * Second"
  "backoff_spec 5 = 80 * Second" "backoff_spec 6 = 160 * Second"
  by (simp_all add: backoff_spec_def delay_defs)

lemma small_cases: "n < (7::int) \<Longrightarrow> n \<le> 1 \<or> n = 2 \<or> n = 3 \<or> n = 4 \<or> n = 5 \<or> n = 6"
  by linarith

lemma ComputeBackoff_eq: "ComputeBackoff n = backoff_spec (sint n)"
proof (cases "sint n \<le> 1")
  case True
  then show ?thesis by (simp add: ComputeBackoff_def backoff_spec_def)
next
  case False
  then have s: "sint (n - 1) = sint n - 1" by (simp add: sint_minus1_int64)
  show ?thesis
  proof (cases "sint n < 7")
    case True
    with False consider "sint n = 2" | "sint n = 3" | "sint n = 4" | "sint n = 5" | "sint n = 6"
      by linarith
    then show ?thesis
      by cases (simp_all add: ComputeBackoff_def s Pow2_def float_mult_def float_overflow_def
          delay_defs backoff_spec_small)
  next
    case large: False
    have "64 \<le> (2::int) ^ nat (sint n - 1)" using large by (intro pow2_ge_64) linarith
    then have "BackoffBaseDelay * 2 ^ nat (sint n - 1) > BackoffMaxDelay"
      by (simp add: delay_defs)
    then have "ComputeBackoff n = BackoffMaxDelay"
      using False
      by (simp add: ComputeBackoff_def s Pow2_def float_mult_def float_overflow_def)
    then show ?thesis using large backoff_spec_large [of "sint n"] by simp
  qed
qed

lemma backoff_spec_bounds: "BackoffBaseDelay \<le> backoff_spec n \<and> backoff_spec n \<le> BackoffMaxDelay"
proof (cases "n < 7")
  case True
  then show ?thesis
    using small_cases [OF True] by (auto simp: backoff_spec_small delay_defs)
qed (simp add: backoff_spec_large, simp add: delay_defs)

lemma backoff_spec_mono: "m \<le> n \<Longrightarrow> backoff_spec m \<le> backoff_spec n"
proof (cases "n < 7")
  case True
  assume le: "m \<le> n"
  then have "m < 7" using True by simp
  from small_cases [OF True] small_cases [OF this] le show ?thesis
    by (auto simp: backoff_spec_small)
qed (use backoff_spec_bounds backoff_spec_large in simp)

lemma ComputeBackoff_pos: "0 < ComputeBackoff n"
  using backoff_spec_bounds [of "sint n"] by (simp add: ComputeBackoff_eq delay_defs)

subsection \<open>Properties\<close>

text \<open>
  C37: the backoff delay computed with 64-bit floating point is the documented
  \<open>min(base * 2^(failures-1), max)\<close> for every 64-bit failure count, also where the power
  overflows; it lies between the base and the maximal delay, never decreases with the
  failure count, and has reached the maximum from the seventh failure on.
\<close>

lemma ComputeBackoff_formula:
  "ComputeBackoff n = (if sint n \<le> 1 then 5 * Second else min (5 * Second * 2 ^ nat (sint n - 1)) (5 * Minute))
   \<and> 5 * Second \<le> ComputeBackoff n \<and> ComputeBackoff n \<le> 5 * Minute
   \<and> (sint m \<le> sint n \<longrightarrow> ComputeBackoff m \<le> ComputeBackoff n)
   \<and> (7 \<le> sint n \<longrightarrow> ComputeBackoff n = 5 * Minute)"
  using backoff_spec_bounds [of "sint n"] backoff_spec_mono [of "sint m" "sint n"]
    backoff_spec_large [of "sint n"]
  by (simp add: ComputeBackoff_eq) (simp add: backoff_spec_def delay_defs)

lemma ComputeBackoff_formula_witness:
  "ComputeBackoff 3 = 20 * Second \<and> ComputeBackoff 2 \<le> ComputeBackoff 3 \<and> ComputeBackoff 7 = 5 * Minute"
  using ComputeBackoff_formula [of 3 2] ComputeBackoff_formula [of 7 3] by simp

end
