(* ===== verification/Opm_Metrics.thy ===== *)
theory Opm_Metrics
  imports Opm_Kube
begin

text \<open>
  \<open>internal/metrics\<close>: the controller's Prometheus collectors. A counter or gauge vector is
  a function from label values to its value, a histogram vector a function to the list of
  its observations (kept as durations; Prometheus reads them in seconds).
\<close>

record Registry =
  ReconcileTotal :: "string \<times> string \<times> string \<Rightarrow> nat"
  ReconcileDuration :: "string \<times> string \<Rightarrow> duration list"
  ApplyResourcesTotal :: "string \<times> string \<times> string \<Rightarrow> nat"
  PruneResourcesTotal :: "string \<times> string \<Rightarrow> nat"
  InventorySize :: "string \<times> string \<Rightarrow> nat"

definition vec_Add :: "'k \<Rightarrow> nat \<Rightarrow> ('k \<Rightarrow> nat) \<Rightarrow> ('k \<Rightarrow> nat)" where
  "vec_Add k n v = v(k := v k + n)"

definition Observe :: "string \<Rightarrow> string \<Rightarrow> duration \<Rightarrow> Registry \<Rightarrow> Registry" where
  "Observe name namespace d m = m\<lparr>ReconcileDuration :=
     (ReconcileDuration m)((name, namespace) := ReconcileDuration m (name, namespace) @ [d])\<rparr>"

definition RecordReconcile ::
  "string \<Rightarrow> string \<Rightarrow> string \<Rightarrow> duration \<Rightarrow> Registry \<Rightarrow> Registry" where
  "RecordReconcile name namespace outcome d m =
     Observe name namespace d
       (m\<lparr>ReconcileTotal := vec_Add (name, namespace, outcome) 1 (ReconcileTotal m)\<rparr>)"

definition RecordApply :: "string \<Rightarrow> string \<Rightarrow> nat \<Rightarrow> nat \<Rightarrow> nat \<Rightarrow> Registry \<Rightarrow> Registry" where
  "RecordApply name namespace created updated unchanged m =
     m\<lparr>ApplyResourcesTotal :=
        vec_Add (name, namespace, ''unchanged'') unchanged
          (vec_Add (name, namespace, ''updated'') updated
            (vec_Add (name, namespace, ''created'') created (ApplyResourcesTotal m)))\<rparr>"

definition RecordPrune :: "string \<Rightarrow> string \<Rightarrow> nat \<Rightarrow> Registry \<Rightarrow> Registry" where
  "RecordPrune name namespace deleted m =
     m\<lparr>PruneResourcesTotal := vec_Add (name, namespace) deleted (PruneResourcesTotal m)\<rparr>"

definition RecordDuration :: "string \<Rightarrow> string \<Rightarrow> duration \<Rightarrow> Registry \<Rightarrow> Registry" where
  "RecordDuration name namespace d m = Observe name namespace d m"

definition SetInventorySize :: "string \<Rightarrow> string \<Rightarrow> nat \<Rightarrow> Registry \<Rightarrow> Registry" where
  "SetInventorySize name namespace n m =
     m\<lparr>InventorySize := (InventorySize m)((name, namespace) := n)\<rparr>"

definition empty_registry :: Registry where
  "empty_registry = \<lparr>ReconcileTotal = (\<lambda>_. 0), ReconcileDuration = (\<lambda>_. []),
     ApplyResourcesTotal = (\<lambda>_. 0), PruneResourcesTotal = (\<lambda>_. 0), InventorySize = (\<lambda>_. 0)\<rparr>"

lemma vec_Add_apply: "vec_Add k n v j = (if j = k then v j + n else v j)"
  by (simp add: vec_Add_def)

text \<open>Recording an apply adds exactly the three counts, whatever the counters held.\<close>

lemma RecordApply_total:
  "ApplyResourcesTotal (RecordApply n ns c u k m) l =
     ApplyResourcesTotal m l
     + (if l = (n, ns, ''created'') then c else 0)
     + (if l = (n, ns, ''updated'') then u else 0)
     + (if l = (n, ns, ''unchanged'') then k else 0)"
  by (auto simp: RecordApply_def vec_Add_apply)

end
