(* ===== verification/Opm_Reconcile.thy ===== *)
theory Opm_Reconcile
  imports Opm_Apply Opm_Outcome Opm_Metrics
begin

text \<open>
  What the two reconcile loops of \<open>internal/reconcile\<close> share: their dependencies, the
  local variables and the deferred status commit, the choice of the apply identity,
  finalizer handling and the deletion cleanup.

  A handler takes the process state and returns an \<open>exit\<close> with the new state. A Go panic
  (only a nil rest config can cause one here) is the exit \<open>Panicked\<close>; deferred
  functions run before it propagates. The exit \<open>Diverged\<close> stands for a handler that never
  returns, because a call it makes does not: its recursion grows the stack until the runtime
  kills the process, and no deferred function runs.
\<close>

subsection \<open>Dependencies and results\<close>

record Result =
  res_Requeue :: bool
  res_RequeueAfter :: duration

definition no_requeue :: Result where
  "no_requeue = \<lparr>res_Requeue = False, res_RequeueAfter = 0\<rparr>"

definition requeue_after :: "duration \<Rightarrow> Result" where
  "requeue_after d = \<lparr>res_Requeue = False, res_RequeueAfter = d\<rparr>"

datatype exit = Returned Result "goerr option" | Panicked | Diverged

text \<open>A call that may not return.\<close>

definition call_partial ::
  "('w \<Rightarrow> ('r \<times> 'w) option) \<Rightarrow> ('w, 'o, 'm) proc \<Rightarrow> ('r \<times> ('w, 'o, 'm) proc) option" where
  "call_partial f s = map_option (\<lambda>(r, w). (r, s\<lparr>p_World := w\<rparr>)) (f (p_World s))"

lemma call_partial_None [simp]: "call_partial f s = None \<longleftrightarrow> f (p_World s) = None"
  by (simp add: call_partial_def)

lemma call_partial_Some: "call_partial f s = Some (r, s') \<longleftrightarrow> f (p_World s) = Some (r, p_World s') \<and> s' = s\<lparr>p_World := p_World s'\<rparr>"
  by (auto simp: call_partial_def)

lemma p_Log_call_partial: "call_partial f s = Some (r, s') \<Longrightarrow> p_Log s' = p_Log s"
  by (auto simp: call_partial_def)

text \<open>
  The injected dependencies. \<open>pa_RestConfig\<close> says whether the rest config pointer is
  set; \<open>pa_Now\<close> is \<open>time.Now\<close>, a read of the world.
\<close>

record ('w, 'o, 'v) ReconcileParams =
  pa_Kube :: kube_lib
  pa_Cue :: "'v cue_lib"
  pa_CR :: "('w, 'o) cr_api"
  pa_Live :: "'w live_api"
  pa_Ssa :: "'w ssa_api"
  pa_Auth :: "'w auth_api"
  pa_Now :: "'w \<Rightarrow> instant \<times> 'w"
  pa_RestConfig :: bool
  pa_ResourceManager :: ResourceManager
  pa_DefaultServiceAccount :: string

type_synonym ('w, 'o) pstate = "('w, 'o, Registry) proc"

record 'v RenderResult =
  rr_Resources :: "'v Resource list"
  rr_InventoryEntries :: "InventoryEntry list"
  rr_Warnings :: "string list"

definition FinalizerName :: string where
  "FinalizerName = ''releases.opmodel.dev/cleanup''"

definition patch_status ::
  "string list \<Rightarrow> bool \<Rightarrow> ('w, 'o, 'v, 'x) ReconcileParams_scheme \<Rightarrow> 'o \<Rightarrow> ('w, 'o) pstate
     \<Rightarrow> goerr option \<times> ('w, 'o) pstate" where
  "patch_status owned obsgen P o1 s =
     mcall (PatchStatus o1 owned obsgen) (ca_PatchStatus (pa_CR P) o1 owned obsgen) s"

subsection \<open>Pure helpers\<close>

definition resolveEffectiveSA :: "string \<Rightarrow> string \<Rightarrow> string \<times> string" where
  "resolveEffectiveSA specSA defaultSA =
     (if specSA \<noteq> [] then (specSA, ''spec'')
      else if defaultSA \<noteq> [] then (defaultSA, ''default'')
      else ([], []))"

definition isForbidden :: "kube_lib \<Rightarrow> goerr \<Rightarrow> bool" where
  "isForbidden K e = (case errors_As_StatusError e of None \<Rightarrow> False | Some se \<Rightarrow> k_IsForbidden K se)"

definition isResolutionError :: "goerr \<Rightarrow> bool" where
  "isResolutionError e \<longleftrightarrow> Contains (err_msg e) ''loading synthesized release''
     \<or> Contains (err_msg e) ''synthesizing release''"

definition readyAlreadyStalledWith :: "kube_lib \<Rightarrow> Condition list \<Rightarrow> string \<Rightarrow> bool" where
  "readyAlreadyStalledWith K conds reason =
     (case k_FindStatusCondition K conds ReadyCondition of
        None \<Rightarrow> False
      | Some ready \<Rightarrow> c_Status ready = ConditionFalse \<and> c_Reason ready = reason)"

definition deletionSAMissingMessage :: "string \<Rightarrow> string \<Rightarrow> string" where
  "deletionSAMissingMessage namespace saName =
     ''ServiceAccount '' @ Quote (namespace @ ''/'' @ saName)
     @ '' not found; cannot prune owned resources during deletion. ''
     @ ''Recovery options: ''
     @ ''(1) Restore the ServiceAccount and its RBAC; ''
     @ ''(2) Set spec.prune=false on the release and delete again to orphan resources without prune; ''
     @ ''(3) Add annotation '' @ Quote AnnotationForceDeleteOrphan @ ''='' @ Quote ''true''
     @ '' to the release to remove the finalizer and leave resources behind ''
     @ ''(operator is responsible for cleanup).''"

definition reconcileFailureCount :: "FailureCounters option \<Rightarrow> int64" where
  "reconcileFailureCount c = (case c of None \<Rightarrow> 0 | Some c \<Rightarrow> fc_Reconcile c)"

definition inventoryDigest :: "Inventory option \<Rightarrow> string" where
  "inventoryDigest inven = (case inven of None \<Rightarrow> [] | Some i \<Rightarrow> inv_Digest i)"

definition lastApplied :: "'b CommonStatus_scheme \<Rightarrow> DigestSet" where
  "lastApplied st = \<lparr>ds_Source = st_LastAppliedSourceDigest st,
     ds_Config = st_LastAppliedConfigDigest st, ds_Render = st_LastAppliedRenderDigest st,
     ds_Inventory = inventoryDigest (st_Inventory st)\<rparr>"

definition previousEntries :: "'b CommonStatus_scheme \<Rightarrow> InventoryEntry list" where
  "previousEntries st = (case st_Inventory st of None \<Rightarrow> [] | Some i \<Rightarrow> inv_Entries i)"

definition forceConflicts :: "'a CommonSpec_scheme \<Rightarrow> bool" where
  "forceConflicts sp = (case sp_Rollout sp of None \<Rightarrow> False | Some r \<Rightarrow> ro_ForceConflicts r)"

fun extractReleaseUUID :: "unstructured list \<Rightarrow> string" where
  "extractReleaseUUID [] = []"
| "extractReleaseUUID (r # rs) =
     (let uuid = map_index (u_Labels r) LabelModuleReleaseUUID in
      if uuid \<noteq> [] then uuid else extractReleaseUUID rs)"

fun to_unstructured_loop ::
  "'v cue_lib \<Rightarrow> 'v Resource list \<Rightarrow> unstructured list \<Rightarrow> goerr + unstructured list" where
  "to_unstructured_loop C [] acc = Inr acc"
| "to_unstructured_loop C (r # rs) acc =
     (case ToUnstructured C r of
        Inl e \<Rightarrow> Inl (Errorf_w (''converting '' @ Resource_String C r @ '' to unstructured: '') e [])
      | Inr u \<Rightarrow> to_unstructured_loop C rs (acc @ [u]))"

definition toUnstructuredSlice :: "'v cue_lib \<Rightarrow> 'v Resource list \<Rightarrow> goerr + unstructured list" where
  "toUnstructuredSlice C resources = to_unstructured_loop C resources []"

subsection \<open>Phase outcomes and failure counters\<close>

record phaseOutcomes =
  driftRan :: bool
  driftFailed :: bool
  applyRan :: bool
  applyFailed :: bool
  pruneRan :: bool
  pruneFailed :: bool

definition no_phases :: phaseOutcomes where
  "no_phases = \<lparr>driftRan = False, driftFailed = False, applyRan = False, applyFailed = False,
     pruneRan = False, pruneFailed = False\<rparr>"

definition phase_counter :: "bool \<Rightarrow> bool \<Rightarrow> string \<Rightarrow> FailureCounters \<Rightarrow> FailureCounters" where
  "phase_counter did_run failed field c =
     (if did_run then if failed then IncrementCounter field c else ResetCounter field c else c)"

definition outcome_counter :: "Outcome \<Rightarrow> FailureCounters \<Rightarrow> FailureCounters" where
  "outcome_counter outcome c =
     (case outcome of
        FailedTransient \<Rightarrow> IncrementCounter CounterReconcile c
      | FailedStalled \<Rightarrow> IncrementCounter CounterReconcile c
      | Applied \<Rightarrow> ResetCounter CounterReconcile c
      | AppliedAndPruned \<Rightarrow> ResetCounter CounterReconcile c
      | NoOp \<Rightarrow> ResetCounter CounterReconcile c)"

definition updateFailureCounters ::
  "Outcome \<Rightarrow> phaseOutcomes \<Rightarrow> 'b CommonStatus_scheme \<Rightarrow> 'b CommonStatus_scheme" where
  "updateFailureCounters outcome phases st =
     (let c0 = ensureCountersField (st_FailureCounters st);
          c1 = phase_counter (driftRan phases) (driftFailed phases) CounterDrift c0;
          c2 = phase_counter (applyRan phases) (applyFailed phases) CounterApply c1;
          c3 = phase_counter (pruneRan phases) (pruneFailed phases) CounterPrune c2
      in st\<lparr>st_FailureCounters := Some (outcome_counter outcome c3)\<rparr>)"

definition updateReleaseFailureCounters ::
  "Outcome \<Rightarrow> phaseOutcomes \<Rightarrow> 'b CommonStatus_scheme \<Rightarrow> 'b CommonStatus_scheme" where
  "updateReleaseFailureCounters outcome phases st =
     (let c0 = ensureCountersField (st_FailureCounters st);
          c1 = phase_counter (applyRan phases) (applyFailed phases) CounterApply c0;
          c2 = phase_counter (pruneRan phases) (pruneFailed phases) CounterPrune c1
      in st\<lparr>st_FailureCounters := Some (outcome_counter outcome c2)\<rparr>)"

subsection \<open>Local variables and the status commit\<close>

record 'o Locals =
  l_obj :: 'o
  l_outcome :: Outcome
  l_digests :: DigestSet
  l_reconciled :: bool
  l_newEntries :: "InventoryEntry list"
  l_errMsg :: string
  l_retryAfter :: duration
  l_phases :: phaseOutcomes

text \<open>The Go zero values.\<close>

definition init_locals :: "'o \<Rightarrow> 'o Locals" where
  "init_locals o1 = \<lparr>l_obj = o1, l_outcome = NoOp,
     l_digests = \<lparr>ds_Source = [], ds_Config = [], ds_Render = [], ds_Inventory = []\<rparr>,
     l_reconciled = False, l_newEntries = [], l_errMsg = [], l_retryAfter = 0,
     l_phases = no_phases\<rparr>"

definition mark :: "(Condition list \<Rightarrow> Condition list)
  \<Rightarrow> ('sp, 'b CommonStatus_scheme) CustomResource Locals
  \<Rightarrow> ('sp, 'b CommonStatus_scheme) CustomResource Locals" where
  "mark f L = L\<lparr>l_obj := on_conditions f (l_obj L)\<rparr>"

definition update_status :: "('st \<Rightarrow> 'st) \<Rightarrow> ('sp, 'st) CustomResource Locals
  \<Rightarrow> ('sp, 'st) CustomResource Locals" where
  "update_status f L = L\<lparr>l_obj := map_status f (l_obj L)\<rparr>"

text \<open>A failed phase: outcome, message and retry delay.\<close>

definition fail_with :: "Outcome \<Rightarrow> string \<Rightarrow> duration \<Rightarrow> 'o Locals \<Rightarrow> 'o Locals" where
  "fail_with outcome msg d L = L\<lparr>l_outcome := outcome, l_errMsg := msg, l_retryAfter := d\<rparr>"

definition record_attempt ::
  "instant \<Rightarrow> duration \<Rightarrow> DigestSet \<Rightarrow> 'b CommonStatus_scheme \<Rightarrow> 'b CommonStatus_scheme" where
  "record_attempt now d digests st = st\<lparr>
     st_LastAttemptedAction := ''reconcile'',
     st_LastAttemptedAt := Some now,
     st_LastAttemptedDuration := Some d,
     st_LastAttemptedSourceDigest := ds_Source digests,
     st_LastAttemptedConfigDigest := ds_Config digests,
     st_LastAttemptedRenderDigest := ds_Render digests\<rparr>"

definition next_inventory :: "InventoryEntry list \<Rightarrow> Inventory option \<Rightarrow> Inventory" where
  "next_inventory newEntries old =
     \<lparr>inv_Revision = (case old of None \<Rightarrow> 1 | Some i \<Rightarrow> inv_Revision i + 1),
      inv_Digest = ComputeDigest newEntries, inv_Count = of_nat (length newEntries),
      inv_Entries = newEntries\<rparr>"

definition record_applied ::
  "instant \<Rightarrow> DigestSet \<Rightarrow> InventoryEntry list \<Rightarrow> 'b CommonStatus_scheme \<Rightarrow> 'b CommonStatus_scheme" where
  "record_applied now digests newEntries st = st\<lparr>
     st_LastAppliedAt := Some now,
     st_LastAppliedSourceDigest := ds_Source digests,
     st_LastAppliedConfigDigest := ds_Config digests,
     st_LastAppliedRenderDigest := ds_Render digests,
     st_Inventory := Some (next_inventory newEntries (st_Inventory st))\<rparr>"

text \<open>The history entry of an attempt, from the local variables and the time it is created at.\<close>

definition record_outcome ::
  "'o Locals \<Rightarrow> instant \<Rightarrow> instant \<Rightarrow> 'b CommonStatus_scheme \<Rightarrow> 'b CommonStatus_scheme" where
  "record_outcome L now t st =
     (let digests = l_digests L; n = l_newEntries L in
      if l_reconciled L then
        RecordHistory (NewSuccessEntry ''reconcile'' ''complete''
            (digests\<lparr>ds_Inventory := ComputeDigest n\<rparr>) (of_nat (length n)) t)
          (record_applied now digests n st)
      else if l_errMsg L \<noteq> [] then
        RecordHistory (NewFailureEntry ''reconcile'' (l_errMsg L) digests t) st
      else st)"

text \<open>\<open>time.Now\<close> is read for the history entry only when one is made.\<close>

definition history_time ::
  "'o Locals \<Rightarrow> ('w, 'o, 'v, 'x) ReconcileParams_scheme \<Rightarrow> ('w, 'o) pstate \<Rightarrow> instant \<times> ('w, 'o) pstate" where
  "history_time L P s =
     (if l_reconciled L \<or> l_errMsg L \<noteq> [] then call (pa_Now P) s else (0, s))"

definition next_retry ::
  "'o Locals \<Rightarrow> ('w, 'o, 'v, 'x) ReconcileParams_scheme \<Rightarrow> ('w, 'o) pstate
     \<Rightarrow> instant option \<times> ('w, 'o) pstate" where
  "next_retry L P s =
     (if l_retryAfter L > 0 then
        (case call (pa_Now P) s of (t, s1) \<Rightarrow> (Some (t + l_retryAfter L), s1))
      else (None, s))"

definition recordReconcileMetrics ::
  "string \<Rightarrow> string \<Rightarrow> Outcome \<Rightarrow> duration \<Rightarrow> bool \<Rightarrow> nat \<Rightarrow> Registry \<Rightarrow> Registry" where
  "recordReconcileMetrics name namespace outcome d reconciled inventoryCount m =
     (let m1 = RecordReconcile name namespace (MetricLabel outcome) d m in
      if reconciled then SetInventorySize name namespace inventoryCount m1 else m1)"

subsection \<open>Finalizers\<close>

definition with_finalizers ::
  "(string list \<Rightarrow> string list) \<Rightarrow> ('sp, 'st) CustomResource \<Rightarrow> ('sp, 'st) CustomResource" where
  "with_finalizers f o1 = o1\<lparr>cr_Meta := (cr_Meta o1)\<lparr>om_Finalizers := f (om_Finalizers (cr_Meta o1))\<rparr>\<rparr>"

definition addFinalizer ::
  "('w, ('sp, 'st) CustomResource, 'v, 'x) ReconcileParams_scheme \<Rightarrow> ('sp, 'st) CustomResource
     \<Rightarrow> ('w, ('sp, 'st) CustomResource) pstate \<Rightarrow> goerr option \<times> ('w, ('sp, 'st) CustomResource) pstate" where
  "addFinalizer P o1 s =
     (let o2 = with_finalizers (\<lambda>fs. k_AddFinalizer (pa_Kube P) fs FinalizerName) o1
      in mcall (PatchObject o1 o2) (ca_Patch (pa_CR P) o1 o2) s)"

definition removeFinalizer ::
  "('w, ('sp, 'st) CustomResource, 'v, 'x) ReconcileParams_scheme \<Rightarrow> ('sp, 'st) CustomResource
     \<Rightarrow> ('w, ('sp, 'st) CustomResource) pstate \<Rightarrow> goerr option \<times> ('w, ('sp, 'st) CustomResource) pstate" where
  "removeFinalizer P o1 s =
     (let o2 = with_finalizers (\<lambda>fs. k_RemoveFinalizer (pa_Kube P) fs FinalizerName) o1
      in mcall (PatchObject o1 o2) (ca_Patch (pa_CR P) o1 o2) s)"

definition finish_deletion ::
  "('w, ('sp, 'st) CustomResource, 'v, 'x) ReconcileParams_scheme \<Rightarrow> ('sp, 'st) CustomResource
     \<Rightarrow> ('w, ('sp, 'st) CustomResource) pstate \<Rightarrow> exit \<times> ('w, ('sp, 'st) CustomResource) pstate" where
  "finish_deletion P o1 s =
     (case removeFinalizer P o1 s of
        (Some e, s1) \<Rightarrow> (Returned no_requeue (Some (Errorf_w ''removing finalizer: '' e [])), s1)
      | (None, s1) \<Rightarrow> (Returned no_requeue None, s1))"

subsection \<open>The apply identity\<close>

text \<open>\<open>None\<close> is the panic on a nil rest config.\<close>

definition buildApplyClient ::
  "('w, ('a, 'b) release_like, 'v, 'x) ReconcileParams_scheme \<Rightarrow> ('a, 'b) release_like
     \<Rightarrow> ('w, ('a, 'b) release_like) pstate
     \<Rightarrow> (goerr + ResourceManager \<times> kclient) option \<times> ('w, ('a, 'b) release_like) pstate" where
  "buildApplyClient P o1 s =
     (case resolveEffectiveSA (sp_ServiceAccountName (cr_Spec o1)) (pa_DefaultServiceAccount P) of
        (effectiveSA, source) \<Rightarrow>
          if effectiveSA = [] then (Some (Inr (pa_ResourceManager P, ControllerClient)), s)
          else case NewImpersonatedClient (pa_Kube P) (pa_Auth P) (pa_RestConfig P)
                  (obj_namespace o1) effectiveSA s of
              (None, s1) \<Rightarrow> (None, s1)
            | (Some (Inl e), s1) \<Rightarrow> (Some (Inl e), s1)
            | (Some (Inr c), s1) \<Rightarrow> (Some (Inr (NewResourceManager c ''opm-controller'', c)), s1))"

subsection \<open>Deletion cleanup\<close>

text \<open>
  The event/mark/patch/requeue sequence of the stall branches: the event is suppressed when
  Ready already reports the same stall, and a failed status patch is only logged.
\<close>

definition stall_deletion ::
  "string list \<Rightarrow> string \<Rightarrow> string \<Rightarrow> ('w, ('a, 'b) release_like, 'v, 'x) ReconcileParams_scheme
     \<Rightarrow> ('a, 'b) release_like \<Rightarrow> ('w, ('a, 'b) release_like) pstate
     \<Rightarrow> exit \<times> ('w, ('a, 'b) release_like) pstate" where
  "stall_deletion owned reason msg P o1 s =
     (let K = pa_Kube P;
          o2 = on_conditions (MarkStalled K reason msg) o1;
          s1 = (if readyAlreadyStalledWith K (st_Conditions (cr_Status o1)) reason then s
                else Eventf EventTypeWarning reason ''Delete'' msg s);
          (_, s2) = patch_status owned False P o2 s1
      in (Returned (requeue_after StalledRecheckInterval) None, s2))"

definition deletion_impersonation_failure ::
  "string list \<Rightarrow> ('w, ('a, 'b) release_like, 'v, 'x) ReconcileParams_scheme
     \<Rightarrow> ('a, 'b) release_like \<Rightarrow> Inventory \<Rightarrow> string \<Rightarrow> goerr \<Rightarrow> ('w, ('a, 'b) release_like) pstate
     \<Rightarrow> exit \<times> ('w, ('a, 'b) release_like) pstate" where
  "deletion_impersonation_failure owned P o1 inven effectiveSA impErr s =
     (if IsServiceAccountNotFound (pa_Kube P) impErr then
        (if map_index (om_Annotations (cr_Meta o1)) AnnotationForceDeleteOrphan = ''true'' then
           (let s1 = Eventf EventTypeWarning OrphanedOnDeletionReason ''Delete''
                  (''Orphaned '' @ nat_str (length (inv_Entries inven))
                   @ '' managed resources; ServiceAccount '' @ Quote effectiveSA
                   @ '' missing and '' @ AnnotationForceDeleteOrphan @ '' annotation set'') s;
                o2 = map_status (\<lambda>st. st\<lparr>st_Inventory := None\<rparr>) o1;
                (_, s2) = patch_status owned False P o2 s1
            in finish_deletion P o2 s2)
         else stall_deletion owned DeletionSAMissingReason
                (deletionSAMissingMessage (obj_namespace o1) effectiveSA) P o1 s)
      else stall_deletion owned ImpersonationFailedReason (err_msg impErr) P o1 s)"

text \<open>The client the cleanup deletes with, or the exit of the impersonation-failure branch.\<close>

definition deletion_client ::
  "string list \<Rightarrow> ('w, ('a, 'b) release_like, 'v, 'x) ReconcileParams_scheme
     \<Rightarrow> ('a, 'b) release_like \<Rightarrow> Inventory \<Rightarrow> string \<Rightarrow> ('w, ('a, 'b) release_like) pstate
     \<Rightarrow> (exit + kclient) \<times> ('w, ('a, 'b) release_like) pstate" where
  "deletion_client owned P o1 inven effectiveSA s =
     (if effectiveSA \<noteq> [] \<and> pa_RestConfig P then
        (case NewImpersonatedClient (pa_Kube P) (pa_Auth P) (pa_RestConfig P)
                (obj_namespace o1) effectiveSA s of
           (None, s1) \<Rightarrow> (Inl Panicked, s1)
         | (Some (Inl e), s1) \<Rightarrow>
             (case deletion_impersonation_failure owned P o1 inven effectiveSA e s1 of
                (x, s2) \<Rightarrow> (Inl x, s2))
         | (Some (Inr c), s1) \<Rightarrow> (Inr c, s1))
      else (Inr ControllerClient, s))"

definition deletion_cleanup ::
  "string list \<Rightarrow> string \<Rightarrow> ('w, ('a, 'b) release_like, 'v, 'x) ReconcileParams_scheme
     \<Rightarrow> ('a, 'b) release_like \<Rightarrow> ('w, ('a, 'b) release_like) pstate
     \<Rightarrow> exit \<times> ('w, ('a, 'b) release_like) pstate" where
  "deletion_cleanup owned ownerUUID P o1 s =
     (case (sp_Prune (cr_Spec o1), st_Inventory (cr_Status o1)) of
        (False, _) \<Rightarrow> finish_deletion P o1 s
      | (True, None) \<Rightarrow> finish_deletion P o1 s
      | (True, Some inven) \<Rightarrow>
          if inv_Entries inven = [] then finish_deletion P o1 s
          else let (effectiveSA, source) = resolveEffectiveSA (sp_ServiceAccountName (cr_Spec o1))
                      (pa_DefaultServiceAccount P)
            in (case deletion_client owned P o1 inven effectiveSA s of
                  (Inl x, s1) \<Rightarrow> (x, s1)
                | (Inr c, s1) \<Rightarrow>
                    (case Prune (pa_Kube P) (pa_Live P) c ownerUUID (inv_Entries inven) s1 of
                       (res, Some e, s2) \<Rightarrow>
                         if effectiveSA \<noteq> [] \<and> isForbidden (pa_Kube P) e
                         then stall_deletion owned ImpersonationFailedReason (err_msg e) P o1 s2
                         else (Returned no_requeue (Some e), s2)
                     | (res, None, s2) \<Rightarrow> finish_deletion P o1 s2)))"

subsection \<open>Lemmas: effects\<close>

text \<open>Effects that only report: events and status patches.\<close>

fun is_report :: "'o effect \<Rightarrow> bool" where
  "is_report (Event t r a n) = True"
| "is_report (PatchStatus o1 owned g) = True"
| "is_report _ = False"

fun is_event :: "'o effect \<Rightarrow> bool" where
  "is_event (Event t r a n) = True"
| "is_event _ = False"

lemma is_event_facts [simp]:
  "is_event x \<Longrightarrow> \<not> is_apply x" "is_event x \<Longrightarrow> \<not> is_delete x"
  "is_event x \<Longrightarrow> \<not> is_patch_object x" "is_event x \<Longrightarrow> is_report x"
  by (cases x; simp)+

lemma effect_kinds [simp]: "\<not> is_event (DeleteObject c u)" "\<not> is_event (PatchStatus o1 ow g)"
  "\<not> is_event (ApplyAll rm rs f)" "\<not> is_event (PatchObject a b)"
  by simp_all

lemma is_report_facts [simp]:
  "is_report x \<Longrightarrow> \<not> is_apply x" "is_report x \<Longrightarrow> \<not> is_delete x"
  "is_report x \<Longrightarrow> \<not> is_patch_object x"
  by (cases x; simp)+

lemma resolveEffectiveSA_eq:
  "fst (resolveEffectiveSA spec def) = (if spec \<noteq> [] then spec else def)"
  by (simp add: resolveEffectiveSA_def)

lemma patch_status_log:
  "patch_status owned g P o1 s = (e, s') \<Longrightarrow> p_Log s' = p_Log s @ [PatchStatus o1 owned g]"
  by (simp add: patch_status_def effect_simps)

lemma buildApplyClient_log: "buildApplyClient P o1 s = (r, s') \<Longrightarrow> p_Log s' = p_Log s"
  by (auto simp: buildApplyClient_def split: prod.splits if_splits option.splits sum.splits
      dest: NewImpersonatedClient_log)

text \<open>
  The client to apply and prune with: the controller's own when no ServiceAccount is in
  effect, and otherwise one impersonating the effective ServiceAccount in the release's own
  namespace.
\<close>

definition expected_client :: "string \<Rightarrow> ('a, 'b) release_like \<Rightarrow> kclient" where
  "expected_client defaultSA o1 =
     (let sa = fst (resolveEffectiveSA (sp_ServiceAccountName (cr_Spec o1)) defaultSA) in
      if sa = [] then ControllerClient
      else ImpersonatedClient (buildImpersonationConfig (obj_namespace o1) sa))"

definition expected_rm :: "ResourceManager \<Rightarrow> string \<Rightarrow> ('a, 'b) release_like \<Rightarrow> ResourceManager" where
  "expected_rm rm defaultSA o1 =
     (if fst (resolveEffectiveSA (sp_ServiceAccountName (cr_Spec o1)) defaultSA) = [] then rm
      else NewResourceManager (expected_client defaultSA o1) ''opm-controller'')"

lemma buildApplyClient_client:
  assumes "buildApplyClient P o1 s = (Some (Inr (rm, c)), s')"
  shows "c = expected_client (pa_DefaultServiceAccount P) o1
    \<and> rm = expected_rm (pa_ResourceManager P) (pa_DefaultServiceAccount P) o1"
  using assms
  by (auto simp: buildApplyClient_def expected_client_def expected_rm_def
      split: prod.splits if_splits option.splits sum.splits dest: NewImpersonatedClient_client)

lemma NewImpersonatedClient_no_panic:
  "NewImpersonatedClient K A True ns sa s \<noteq> (None, s')"
  by (auto simp: NewImpersonatedClient_def Let_def split: prod.splits option.splits)

lemma buildApplyClient_no_panic: "pa_RestConfig P \<Longrightarrow> buildApplyClient P o1 s \<noteq> (None, s')"
  by (auto simp: buildApplyClient_def NewImpersonatedClient_no_panic
      split: prod.splits if_splits option.splits sum.splits)

subsection \<open>Lemmas: deletion cleanup\<close>

definition without_finalizer :: "kube_lib \<Rightarrow> ('sp, 'st) CustomResource \<Rightarrow> ('sp, 'st) CustomResource" where
  "without_finalizer K o1 = with_finalizers (\<lambda>fs. k_RemoveFinalizer K fs FinalizerName) o1"

lemma finish_deletion_log:
  "finish_deletion P o1 s = (x, s') \<Longrightarrow>
     p_Log s' = p_Log s @ [PatchObject o1 (without_finalizer (pa_Kube P) o1)]"
  by (auto simp: finish_deletion_def removeFinalizer_def without_finalizer_def Let_def effect_simps
      split: prod.splits option.splits)

lemma stall_deletion_log:
  "stall_deletion owned r m P o1 s = (x, s') \<Longrightarrow> log_ext is_report s s'"
  by (auto simp: stall_deletion_def Let_def log_ext_def effect_simps
      split: prod.splits if_splits dest!: patch_status_log)

lemma stall_deletion_exit:
  "stall_deletion owned r m P o1 s = (x, s') \<Longrightarrow>
     x = Returned (requeue_after StalledRecheckInterval) None"
  by (auto simp: stall_deletion_def Let_def split: prod.splits)

text \<open>The operator asked to orphan the resources and the ServiceAccount is gone.\<close>

definition orphan_requested :: "kube_lib \<Rightarrow> ('a, 'b) release_like \<Rightarrow> goerr \<Rightarrow> bool" where
  "orphan_requested K o1 impErr \<longleftrightarrow> k_IsNotFound K impErr
     \<and> map_index (om_Annotations (cr_Meta o1)) AnnotationForceDeleteOrphan = ''true''"

lemma deletion_impersonation_failure_orphan:
  assumes "deletion_impersonation_failure owned P o1 inven sa e s = (x, s')"
    and "orphan_requested (pa_Kube P) o1 e"
  shows "\<exists>note. p_Log s' = p_Log s @
    (let o2 = map_status (\<lambda>st. st\<lparr>st_Inventory := None\<rparr>) o1 in
     [Event EventTypeWarning OrphanedOnDeletionReason ''Delete'' note, PatchStatus o2 owned False,
      PatchObject o2 (without_finalizer (pa_Kube P) o2)])"
  using assms
  by (auto simp: deletion_impersonation_failure_def orphan_requested_def
      IsServiceAccountNotFound_def Let_def effect_simps
      split: prod.splits dest!: finish_deletion_log patch_status_log)

lemma deletion_impersonation_failure_stall:
  assumes "deletion_impersonation_failure owned P o1 inven sa e s = (x, s')"
    and "\<not> orphan_requested (pa_Kube P) o1 e"
  shows "log_ext is_report s s' \<and> x = Returned (requeue_after StalledRecheckInterval) None"
  using assms
  by (auto simp: deletion_impersonation_failure_def orphan_requested_def
      IsServiceAccountNotFound_def Let_def
      split: prod.splits if_splits dest: stall_deletion_log stall_deletion_exit)

text \<open>
  The five ways the cleanup ends. \<open>skip\<close>: nothing to prune; \<open>imp_fail\<close>: no
  impersonated client; \<open>denied\<close> and \<open>failed\<close>: the prune reported an error; \<open>pruned\<close>:
  the prune reported none.
\<close>

text \<open>The identity the cleanup deletes with.\<close>

definition deletion_identity ::
  "('w, ('a, 'b) release_like, 'v, 'x) ReconcileParams_scheme \<Rightarrow> ('a, 'b) release_like \<Rightarrow> kclient" where
  "deletion_identity P o1 =
     (if pa_RestConfig P then expected_client (pa_DefaultServiceAccount P) o1 else ControllerClient)"

definition skip_prune :: "('a, 'b) release_like \<Rightarrow> bool" where
  "skip_prune o1 \<longleftrightarrow> \<not> sp_Prune (cr_Spec o1) \<or> previousEntries (cr_Status o1) = []"

lemma deletion_client_ok:
  assumes "deletion_client owned P o1 inven sa s = (Inr c, s')"
  shows "p_Log s' = p_Log s \<and> c = (if sa \<noteq> [] \<and> pa_RestConfig P
    then ImpersonatedClient (buildImpersonationConfig (obj_namespace o1) sa) else ControllerClient)"
  using assms
  by (auto simp: deletion_client_def split: prod.splits if_splits option.splits sum.splits
      dest: NewImpersonatedClient_client NewImpersonatedClient_log)

lemma deletion_client_fail:
  assumes "deletion_client owned P o1 inven sa s = (Inl x, s')"
  obtains e s1 where "sa \<noteq> []" "pa_RestConfig P"
    "NewImpersonatedClient (pa_Kube P) (pa_Auth P) True (obj_namespace o1) sa s = (Some (Inl e), s1)"
    "deletion_impersonation_failure owned P o1 inven sa e s1 = (x, s')"
  using assms
  by (auto simp: deletion_client_def NewImpersonatedClient_no_panic
      split: prod.splits if_splits option.splits sum.splits)

lemma deletion_cleanup_cases:
  assumes "deletion_cleanup owned u P o1 s = (x, s')"
  obtains
    (skip) "skip_prune o1" "finish_deletion P o1 s = (x, s')"
  | (imp_fail) inven sa e s1 where "\<not> skip_prune o1" "pa_RestConfig P"
      "sa = fst (resolveEffectiveSA (sp_ServiceAccountName (cr_Spec o1)) (pa_DefaultServiceAccount P))"
      "NewImpersonatedClient (pa_Kube P) (pa_Auth P) True (obj_namespace o1) sa s = (Some (Inl e), s1)"
      "deletion_impersonation_failure owned P o1 inven sa e s1 = (x, s')"
  | (denied) res e s1 s2 where "\<not> skip_prune o1" "p_Log s1 = p_Log s"
      "Prune (pa_Kube P) (pa_Live P) (deletion_identity P o1) u (previousEntries (cr_Status o1)) s1 = (res, Some e, s2)"
      "stall_deletion owned ImpersonationFailedReason (err_msg e) P o1 s2 = (x, s')"
      "\<exists>inven sa. deletion_client owned P o1 inven sa s = (Inr (deletion_identity P o1), s1)"
  | (failed) res e s1 where "\<not> skip_prune o1" "p_Log s1 = p_Log s"
      "Prune (pa_Kube P) (pa_Live P) (deletion_identity P o1) u (previousEntries (cr_Status o1)) s1 = (res, Some e, s')"
      "x = Returned no_requeue (Some e)"
      "\<exists>inven sa. deletion_client owned P o1 inven sa s = (Inr (deletion_identity P o1), s1)"
  | (pruned) res s1 s2 where "\<not> skip_prune o1" "p_Log s1 = p_Log s"
      "Prune (pa_Kube P) (pa_Live P) (deletion_identity P o1) u (previousEntries (cr_Status o1)) s1 = (res, None, s2)"
      "finish_deletion P o1 s2 = (x, s')"
      "\<exists>inven sa. deletion_client owned P o1 inven sa s = (Inr (deletion_identity P o1), s1)"
proof (cases "skip_prune o1")
  case True
  with assms show ?thesis
    by (intro skip) (auto simp: deletion_cleanup_def skip_prune_def previousEntries_def
        split: option.splits bool.splits)
next
  case False
  then obtain inven where i: "sp_Prune (cr_Spec o1)" "st_Inventory (cr_Status o1) = Some inven"
    "inv_Entries inven \<noteq> []" "previousEntries (cr_Status o1) = inv_Entries inven"
    by (auto simp: skip_prune_def previousEntries_def split: option.splits)
  let ?sa = "fst (resolveEffectiveSA (sp_ServiceAccountName (cr_Spec o1)) (pa_DefaultServiceAccount P))"
  obtain r s1 where r: "deletion_client owned P o1 inven ?sa s = (r, s1)" by fastforce
  show ?thesis
  proof (cases r)
    case (Inl y)
    with r i assms have "y = x" "s1 = s'"
      by (auto simp: deletion_cleanup_def Let_def split: prod.splits)
    with Inl r show ?thesis using False imp_fail by (metis deletion_client_fail)
  next
    case (Inr c)
    with r have log: "p_Log s1 = p_Log s" and c: "c = deletion_identity P o1"
      using deletion_client_ok [of owned P o1 inven ?sa s c s1]
      by (simp_all add: deletion_identity_def expected_client_def Let_def split: if_splits)
    obtain res err s2 where p: "Prune (pa_Kube P) (pa_Live P) c u (inv_Entries inven) s1 = (res, err, s2)"
      by (metis prod_cases3)
    have fin: "(case err of None \<Rightarrow> finish_deletion P o1 s2 | Some e \<Rightarrow>
        if ?sa \<noteq> [] \<and> isForbidden (pa_Kube P) e
        then stall_deletion owned ImpersonationFailedReason (err_msg e) P o1 s2
        else (Returned no_requeue (Some e), s2)) = (x, s')"
      using assms i r Inr p by (auto simp: deletion_cleanup_def Let_def split: prod.splits option.splits)
    have ex: "\<exists>inven sa. deletion_client owned P o1 inven sa s = (Inr (deletion_identity P o1), s1)"
      using r Inr c by blast
    have p': "Prune (pa_Kube P) (pa_Live P) (deletion_identity P o1) u (previousEntries (cr_Status o1)) s1
        = (res, err, s2)"
      using p c i(4) by simp
    show ?thesis
    proof (cases err)
      case None
      with fin p' show ?thesis by (intro pruned [OF False log _ _ ex]) simp_all
    next
      case (Some e)
      show ?thesis
      proof (cases "?sa \<noteq> [] \<and> isForbidden (pa_Kube P) e")
        case True
        with fin p' Some show ?thesis by (intro denied [OF False log _ _ ex]) simp_all
      next
        case nf: False
        then have "x = Returned no_requeue (Some e)" "s2 = s'" using fin Some by auto
        with p' Some show ?thesis by (intro failed [OF False log _ _ ex]) simp_all
      qed
    qed
  qed
qed

text \<open>Every delete of the cleanup is guarded, and the finalizer patch comes after them.\<close>

lemma deletion_cleanup_guarded:
  assumes "deletion_cleanup owned u P o1 s = (x, s')"
  shows "log_ext (\<lambda>y. is_delete y \<longrightarrow> guarded_delete (pa_Live P) (deletion_identity P o1) u
    (previousEntries (cr_Status o1)) y) s s'" (is "log_ext ?G s s'")
  using assms
proof (cases rule: deletion_cleanup_cases)
  case skip
  then show ?thesis by (auto simp: log_ext_def dest!: finish_deletion_log)
next
  case (imp_fail inven sa e s1)
  have 1: "p_Log s1 = p_Log s" using imp_fail(4) by (rule NewImpersonatedClient_log)
  show ?thesis
  proof (cases "orphan_requested (pa_Kube P) o1 e")
    case True
    show ?thesis
      using deletion_impersonation_failure_orphan [OF imp_fail(5) True] 1
      by (auto simp: log_ext_def Let_def)
  next
    case False
    then have "log_ext is_report s1 s'"
      using deletion_impersonation_failure_stall imp_fail(5) by blast
    then show ?thesis using 1 by (auto simp: log_ext_def list_all_iff)
  qed
next
  case (denied res e s1 s2)
  have "log_ext ?G s1 s2" using Prune_guarded [OF denied(3)] by (rule log_ext_mono) simp
  moreover have "log_ext ?G s2 s'" using stall_deletion_log [OF denied(4)] by (rule log_ext_mono) simp
  ultimately show ?thesis using denied(2) log_ext_trans by (fastforce simp: log_ext_def)
next
  case (failed res e s1)
  have "log_ext ?G s1 s'" using Prune_guarded [OF failed(3)] by (rule log_ext_mono) simp
  then show ?thesis using failed(2) by (simp add: log_ext_def)
next
  case (pruned res s1 s2)
  have "log_ext ?G s1 s2" using Prune_guarded [OF pruned(3)] by (rule log_ext_mono) simp
  moreover have "log_ext ?G s2 s'" using finish_deletion_log [OF pruned(4)] by (auto simp: log_ext_def)
  ultimately show ?thesis using pruned(2) log_ext_trans by (fastforce simp: log_ext_def)
qed

lemma deletion_cleanup_no_panic: "deletion_cleanup owned u P o1 s \<noteq> (Panicked, s')"
proof
  assume "deletion_cleanup owned u P o1 s = (Panicked, s')"
  then show False
  proof (cases rule: deletion_cleanup_cases)
    case (imp_fail inven sa e s1)
    then show False
      by (auto simp: deletion_impersonation_failure_def finish_deletion_def stall_deletion_def Let_def
          split: prod.splits if_splits option.splits)
  qed (auto simp: finish_deletion_def stall_deletion_def Let_def split: prod.splits option.splits)
qed

text \<open>When the finalizer patch is issued, and that nothing follows it.\<close>

definition may_release ::
  "('w, ('a, 'b) release_like, 'v, 'x) ReconcileParams_scheme \<Rightarrow> string \<Rightarrow> ('a, 'b) release_like \<Rightarrow> bool" where
  "may_release P u o1 \<longleftrightarrow>
     skip_prune o1
     \<or> (\<exists>res (s1 :: ('w, ('a, 'b) release_like) pstate) s2.
          Prune (pa_Kube P) (pa_Live P) (deletion_identity P o1) u (previousEntries (cr_Status o1)) s1 = (res, None, s2))
     \<or> (\<exists>sa e (s1 :: ('w, ('a, 'b) release_like) pstate) s2.
          NewImpersonatedClient (pa_Kube P) (pa_Auth P) True (obj_namespace o1) sa s1 = (Some (Inl e), s2)
          \<and> orphan_requested (pa_Kube P) o1 e)"

lemma no_patch_object_ext:
  assumes "log_ext P s s'" and "\<And>e. P e \<Longrightarrow> \<not> is_patch_object e"
  shows "PatchObject a b \<notin> set (drop (length (p_Log s)) (p_Log s'))"
  using assms log_ext_new by fastforce

lemma guarded_not_patch [simp]: "guarded_delete L c u es (PatchObject a b) = False"
  by (simp add: guarded_delete_def)

lemma deletion_cleanup_finalizer:
  assumes "deletion_cleanup owned u P o1 s = (x, s')"
    and new: "PatchObject a b \<in> set (drop (length (p_Log s)) (p_Log s'))"
  shows "may_release P u o1 \<and> last (p_Log s') = PatchObject a b
    \<and> cr_Meta a = cr_Meta o1 \<and> b = without_finalizer (pa_Kube P) a"
  using assms(1)
proof (cases rule: deletion_cleanup_cases)
  case skip
  then show ?thesis using new by (auto simp: may_release_def dest!: finish_deletion_log)
next
  case (imp_fail inven sa e s1)
  have 1: "p_Log s1 = p_Log s" using imp_fail(4) by (rule NewImpersonatedClient_log)
  show ?thesis
  proof (cases "orphan_requested (pa_Kube P) o1 e")
    case True
    then have "may_release P u o1" unfolding may_release_def using imp_fail(4) by blast
    then show ?thesis
      using deletion_impersonation_failure_orphan [OF imp_fail(5) True] 1 new by (auto simp: Let_def)
  next
    case False
    then have "log_ext is_report s1 s'"
      using deletion_impersonation_failure_stall imp_fail(5) by blast
    then have "PatchObject a b \<notin> set (drop (length (p_Log s1)) (p_Log s'))"
      by (rule no_patch_object_ext) simp
    with 1 new show ?thesis by simp
  qed
next
  case (denied res e s1 s2)
  have "log_ext (\<lambda>y. \<not> is_patch_object y) s1 s'"
    by (rule log_ext_trans [OF log_ext_mono [OF Prune_guarded [OF denied(3)]]
          log_ext_mono [OF stall_deletion_log [OF denied(4)]]])
      (auto simp: guarded_delete_def)
  then have "PatchObject a b \<notin> set (drop (length (p_Log s1)) (p_Log s'))"
    by (rule no_patch_object_ext) simp
  with denied(2) new show ?thesis by simp
next
  case (failed res e s1)
  have "PatchObject a b \<notin> set (drop (length (p_Log s1)) (p_Log s'))"
    by (rule no_patch_object_ext [OF Prune_guarded [OF failed(3)]]) (auto simp: guarded_delete_def)
  with failed(2) new show ?thesis by simp
next
  case (pruned res s1 s2)
  have m: "may_release P u o1" unfolding may_release_def using pruned(3) by blast
  obtain es where es: "p_Log s2 = p_Log s1 @ es"
    and g: "list_all (guarded_delete (pa_Live P) (deletion_identity P o1) u (previousEntries (cr_Status o1))) es"
    using Prune_guarded [OF pruned(3)] by (auto simp: log_ext_def)
  have "PatchObject a b \<notin> set es" using g by (auto simp: list_all_iff)
  then show ?thesis using m new es pruned(2) finish_deletion_log [OF pruned(4)] by auto
qed

text \<open>The status objects the cleanup writes: a stall, or the cleared inventory of an orphan exit.\<close>

definition deletion_status_of :: "kube_lib \<Rightarrow> ('a, 'b) release_like \<Rightarrow> ('a, 'b) release_like \<Rightarrow> bool" where
  "deletion_status_of K o1 o2 \<longleftrightarrow> (\<exists>r m. o2 = on_conditions (MarkStalled K r m) o1)
     \<or> o2 = map_status (\<lambda>st. st\<lparr>st_Inventory := None\<rparr>) o1"

lemma deletion_status_intros [simp]:
  "deletion_status_of K o1 (on_conditions (MarkStalled K r m) o1)"
  "deletion_status_of K o1 (map_status (\<lambda>st. st\<lparr>st_Inventory := None\<rparr>) o1)"
  unfolding deletion_status_of_def by blast+

definition deletion_effect :: "kube_lib \<Rightarrow> ('a, 'b) release_like \<Rightarrow> ('a, 'b) release_like effect \<Rightarrow> bool" where
  "deletion_effect K o1 e = (case e of PatchStatus o2 ow g \<Rightarrow> deletion_status_of K o1 o2 | _ \<Rightarrow> True)"

lemma stall_deletion_effects:
  "stall_deletion owned r m P o1 s = (x, s') \<Longrightarrow> log_ext (deletion_effect (pa_Kube P) o1) s s'"
  by (auto simp: stall_deletion_def Let_def log_ext_def effect_simps deletion_effect_def
      split: prod.splits if_splits dest!: patch_status_log)

lemma finish_deletion_effects:
  "finish_deletion P o2 s = (x, s') \<Longrightarrow> log_ext (deletion_effect K o1) s s'"
  by (auto simp: log_ext_def deletion_effect_def dest!: finish_deletion_log)

lemma Prune_effects:
  assumes "Prune K L c u es s = (res, err, s')"
  shows "log_ext (deletion_effect K' o1) s s'"
  using Prune_guarded [OF assms]
  by (rule log_ext_mono) (auto simp: guarded_delete_def deletion_effect_def)

lemma deletion_impersonation_failure_effects:
  assumes "deletion_impersonation_failure owned P o1 inven sa e s = (x, s')"
  shows "log_ext (deletion_effect (pa_Kube P) o1) s s'"
proof (cases "orphan_requested (pa_Kube P) o1 e")
  case True
  from deletion_impersonation_failure_orphan [OF assms this] show ?thesis
    by (auto simp: log_ext_def Let_def deletion_effect_def)
next
  case False
  then show ?thesis
    using assms
    by (auto simp: deletion_impersonation_failure_def orphan_requested_def
        IsServiceAccountNotFound_def Let_def split: if_splits dest: stall_deletion_effects)
qed

lemma deletion_cleanup_effects:
  assumes "deletion_cleanup owned u P o1 s = (x, s')"
  shows "list_all (deletion_effect (pa_Kube P) o1) (new_effects s s')"
proof -
  have "log_ext (deletion_effect (pa_Kube P) o1) s s'"
    using assms
  proof (cases rule: deletion_cleanup_cases)
    case (imp_fail inven sa e s1)
    then have "log_ext (deletion_effect (pa_Kube P) o1) s1 s'"
      using deletion_impersonation_failure_effects by blast
    then show ?thesis using NewImpersonatedClient_log [OF imp_fail(4)] by (simp add: log_ext_def)
  next
    case (denied res e s1 s2)
    from log_ext_trans [OF Prune_effects [OF denied(3)] stall_deletion_effects [OF denied(4)]]
    show ?thesis using denied(2) by (simp add: log_ext_def)
  next
    case (failed res e s1)
    from Prune_effects [OF failed(3), of "pa_Kube P" o1] show ?thesis
      using failed(2) by (simp add: log_ext_def)
  next
    case (pruned res s1 s2)
    from log_ext_trans [OF Prune_effects [OF pruned(3)] finish_deletion_effects [OF pruned(4)]]
    show ?thesis using pruned(2) by (simp add: log_ext_def)
  qed (rule finish_deletion_effects)
  then show ?thesis by (rule log_ext_new_effects)
qed

end
