(* ===== verification/Opm_Bundle.thy ===== *)
theory Opm_Bundle
  imports Opm_Reconcile
begin

text \<open>
  The BundleRelease resource (\<open>bundlerelease_types.go\<close>), the registration of the API types
  with the scheme (\<open>groupversion_info.go\<close> and the \<open>init\<close> functions) and the BundleRelease
  controller, whose \<open>Reconcile\<close> is a stub that logs and returns.
\<close>

subsection \<open>Types\<close>

record ModuleStatusSummary =
  mss_Name :: string
  mss_ReleaseRef :: NamespacedName
  mss_Ready :: bool
  mss_SourceDigest :: string
  mss_ConfigDigest :: string
  mss_RenderDigest :: string
  mss_InventoryCount :: int64

record BundleReleaseSpec =
  bsp_Suspend :: bool
  bsp_SourceRef :: SourceReference
  bsp_Values :: "RawValues option"
  bsp_Prune :: bool
  bsp_ServiceAccountName :: string

record BundleReleaseStatus =
  bst_ObservedGeneration :: int64
  bst_Conditions :: "Condition list"
  bst_Source :: "SourceStatus option"
  bst_LastAttemptedAction :: string
  bst_LastAttemptedAt :: "instant option"
  bst_LastAttemptedSourceDigest :: string
  bst_LastAttemptedConfigDigest :: string
  bst_LastAttemptedRenderDigest :: string
  bst_LastAppliedAt :: "instant option"
  bst_LastAppliedSourceDigest :: string
  bst_LastAppliedConfigDigest :: string
  bst_LastAppliedRenderDigest :: string
  bst_Inventory :: "Inventory option"
  bst_Modules :: "ModuleStatusSummary list"
  bst_History :: "HistoryEntry list"

type_synonym BundleRelease = "(BundleReleaseSpec, BundleReleaseStatus) CustomResource"

record BundleReleaseList =
  bl_Items :: "BundleRelease list"

subsection \<open>Scheme registration\<close>

definition GroupVersion :: "string \<times> string" where
  "GroupVersion = (''releases.opmodel.dev'', ''v1alpha1'')"

text \<open>The \<open>init\<close> functions run in the order of the file names.\<close>

definition bundlerelease_init :: "string list \<Rightarrow> string list" where
  "bundlerelease_init builder = builder @ [''BundleRelease'', ''BundleReleaseList'']"

definition modulerelease_init :: "string list \<Rightarrow> string list" where
  "modulerelease_init builder = builder @ [''ModuleRelease'', ''ModuleReleaseList'']"

definition release_init :: "string list \<Rightarrow> string list" where
  "release_init builder = builder @ [''Release'', ''ReleaseList'']"

definition SchemeBuilder :: "string list" where
  "SchemeBuilder = release_init (modulerelease_init (bundlerelease_init []))"

subsection \<open>Controller\<close>

text \<open>
  The embedded client and the scheme are the manager's. The stub makes no call on either:
  it returns an empty result and leaves the process state as it was.
\<close>

record BundleReleaseReconciler =
  bc_Client :: kclient

definition BundleReleaseReconciler_Reconcile ::
  "BundleReleaseReconciler \<Rightarrow> NamespacedName \<Rightarrow> ('w, BundleRelease) pstate
     \<Rightarrow> exit \<times> ('w, BundleRelease) pstate" where
  "BundleReleaseReconciler_Reconcile r req s = (Returned no_requeue None, s)"

end
