(* ===== verification/Opm_ModuleRelease.thy ===== *)
theory Opm_ModuleRelease
  imports Opm_Reconcile
begin

text \<open>
  \<open>internal/reconcile/modulerelease.go\<close>: the ModuleRelease reconcile loop. The body of
  \<open>ReconcileModuleRelease\<close> after the deferred commit is installed is cut at its phase
  comments into \<open>mr_render\<close>, \<open>mr_plan\<close>, \<open>mr_apply\<close> and \<open>mr_prune\<close>; the
  variables the deferred closure captures are the record \<open>Locals\<close>.
\<close>

subsection \<open>Dependencies\<close>

text \<open>
  The renderer sees name, namespace, module path, module version and values, and may not
  return (\<open>None\<close>); \<open>pa_Canon\<close> is the JSON canonicalisation of \<open>ConfigDigest\<close>.
\<close>

record ('w, 'o, 'v) ModuleReleaseParams = "('w, 'o, 'v) ReconcileParams" +
  pa_Renderer :: "string \<Rightarrow> string \<Rightarrow> string \<Rightarrow> string \<Rightarrow> RawValues option \<Rightarrow> 'w
    \<Rightarrow> ((goerr + 'v RenderResult) \<times> 'w) option"
  pa_Canon :: "string \<Rightarrow> string option"

type_synonym ('w, 'v) mr_params = "('w, ModuleRelease, 'v) ModuleReleaseParams"
type_synonym 'w mr_state = "('w, ModuleRelease) pstate"
type_synonym mr_locals = "ModuleRelease Locals"

definition mr_owned :: "string list" where
  "mr_owned = [ReadyCondition, ReconcilingCondition, StalledCondition, ModuleResolvedCondition,
     DriftedCondition]"

text \<open>A phase returns from the handler or hands values to the next phase.\<close>

datatype 'a flow = Stop exit | Continue 'a

definition stop_retry :: "'o Locals \<Rightarrow> 's \<Rightarrow> 'a flow \<times> 'o Locals \<times> 's" where
  "stop_retry L s = (Stop (Returned (requeue_after (l_retryAfter L)) None), L, s)"

subsection \<open>Phase 1: render\<close>

definition mr_render ::
  "('w, 'v) mr_params \<Rightarrow> mr_locals \<Rightarrow> 'w mr_state
     \<Rightarrow> 'v RenderResult flow \<times> mr_locals \<times> 'w mr_state" where
  "mr_render P L s =
     (let K = pa_Kube P; C = pa_Cue P; mr = l_obj L; md = sp_Module (cr_Spec mr);
          L1 = mark (MarkReconciling K ''Progressing'' ''Reconciliation in progress'') L;
          L2 = L1\<lparr>l_digests := (l_digests L1)\<lparr>
                 ds_Source := ModuleSourceDigest (mod_Path md) (mod_Version md),
                 ds_Config := ConfigDigest (pa_Canon P) (sp_Values (cr_Spec mr))\<rparr>\<rparr>
      in case call_partial (pa_Renderer P (obj_name mr) (obj_namespace mr) (mod_Path md) (mod_Version md)
                 (sp_Values (cr_Spec mr))) s of
           None \<Rightarrow> (Stop Diverged, L2, s)
         | Some (Inl e, s1) \<Rightarrow>
             (let reason = (if isResolutionError e then ResolutionFailedReason else RenderFailedReason)
              in stop_retry
                   (fail_with FailedStalled (err_msg e) StalledRecheckInterval
                     (mark (MarkStalled K reason (err_msg e)) L2))
                   (Eventf EventTypeWarning reason ''Render'' (err_msg e) s1))
         | Some (Inr rr, s1) \<Rightarrow>
             (let L3 = mark (MarkModuleResolved K (mod_Path md @ ''@'' @ mod_Version md)) L2
              in case RenderDigest C (rr_Resources rr) of
                   Inl e \<Rightarrow>
                     (let msg = ''computing render digest: '' @ err_msg e
                      in stop_retry
                           (fail_with FailedStalled msg StalledRecheckInterval
                             (mark (MarkStalled K RenderFailedReason msg) L3)) s1)
                 | Inr d \<Rightarrow>
                     (Continue rr,
                      L3\<lparr>l_digests := (l_digests L3)\<lparr>ds_Render := d,
                          ds_Inventory := ComputeDigest (rr_InventoryEntries rr)\<rparr>\<rparr>, s1)))"

subsection \<open>Phase 4: plan\<close>

definition detectDrift ::
  "('w, 'v) mr_params \<Rightarrow> unstructured list \<Rightarrow> mr_locals \<Rightarrow> 'w mr_state
     \<Rightarrow> bool \<times> mr_locals \<times> 'w mr_state" where
  "detectDrift P resources L s =
     (case DetectDrift (pa_Ssa P) (pa_ResourceManager P) resources s of
        (Inl e, s1) \<Rightarrow> (True, L, s1)
      | (Inr d, s1) \<Rightarrow>
          (False,
           mark (if drift_Drifted d then MarkDrifted (pa_Kube P) (length (drift_Resources d))
                 else ClearDrifted (pa_Kube P)) L, s1))"

definition mr_plan ::
  "('w, 'v) mr_params \<Rightarrow> 'v RenderResult \<Rightarrow> mr_locals \<Rightarrow> 'w mr_state
     \<Rightarrow> (unstructured list \<times> InventoryEntry list) flow \<times> mr_locals \<times> 'w mr_state" where
  "mr_plan P rr L s =
     (case toUnstructuredSlice (pa_Cue P) (rr_Resources rr) of
        Inl e \<Rightarrow>
          (let msg = ''converting resources: '' @ err_msg e
           in stop_retry
                (fail_with FailedStalled msg StalledRecheckInterval
                  (mark (MarkStalled (pa_Kube P) ApplyFailedReason msg) L)) s)
      | Inr resources \<Rightarrow>
          (let uuid = extractReleaseUUID resources;
               L1 = (if uuid \<noteq> [] then update_status (\<lambda>st. st\<lparr>st_ReleaseUUID := uuid\<rparr>) L else L);
               isNoOp = IsNoOp (l_digests L1) (lastApplied (cr_Status (l_obj L1)));
               (failed, L2, s1) = detectDrift P resources
                  (L1\<lparr>l_phases := (l_phases L1)\<lparr>driftRan := True\<rparr>\<rparr>) s;
               L3 = L2\<lparr>l_phases := (l_phases L2)\<lparr>driftFailed := failed\<rparr>\<rparr>
           in if isNoOp then
                (Stop (Returned no_requeue None), L3\<lparr>l_outcome := NoOp\<rparr>,
                 Eventf EventTypeNormal NoOpReason ''Reconcile'' ''No changes detected'' s1)
              else
                (Continue (resources, ComputeStaleSet (previousEntries (cr_Status (l_obj L3)))
                   (rr_InventoryEntries rr)), L3, s1)))"

subsection \<open>Phase 5: apply\<close>

definition applied_note :: "ApplyResult \<Rightarrow> string" where
  "applied_note r = ''Applied '' @ nat_str (ar_Created r + ar_Updated r + ar_Unchanged r)
     @ '' resources ('' @ nat_str (ar_Created r) @ '' created, '' @ nat_str (ar_Updated r)
     @ '' updated, '' @ nat_str (ar_Unchanged r) @ '' unchanged)''"

definition mr_apply ::
  "('w, 'v) mr_params \<Rightarrow> 'v RenderResult \<Rightarrow> unstructured list \<Rightarrow> mr_locals \<Rightarrow> 'w mr_state
     \<Rightarrow> (kclient \<times> string) flow \<times> mr_locals \<times> 'w mr_state" where
  "mr_apply P rr resources L s =
     (let K = pa_Kube P; mr = l_obj L in
      case buildApplyClient P mr s of
        (None, s1) \<Rightarrow> (Stop Panicked, L, s1)
      | (Some (Inl impErr), s1) \<Rightarrow>
          stop_retry
            (fail_with FailedStalled (err_msg impErr) StalledRecheckInterval
              (mark (MarkStalled K ImpersonationFailedReason (err_msg impErr)) L)) s1
      | (Some (Inr (applyRM, applyClient)), s1) \<Rightarrow>
          (let L1 = L\<lparr>l_phases := (l_phases L)\<lparr>applyRan := True\<rparr>\<rparr>;
               (effectiveSA, _) = resolveEffectiveSA (sp_ServiceAccountName (cr_Spec mr))
                  (pa_DefaultServiceAccount P)
           in case Apply (pa_Ssa P) applyRM resources (forceConflicts (cr_Spec mr)) s1 of
                (Inl e, s2) \<Rightarrow>
                  (let L2 = L1\<lparr>l_phases := (l_phases L1)\<lparr>applyFailed := True\<rparr>\<rparr>;
                       s3 = Eventf EventTypeWarning ApplyFailedReason ''Apply'' (err_msg e) s2
                   in if effectiveSA \<noteq> [] \<and> isForbidden K e
                      then stop_retry
                        (fail_with FailedStalled (err_msg e) StalledRecheckInterval
                          (mark (MarkStalled K ImpersonationFailedReason (err_msg e)) L2)) s3
                      else stop_retry
                        (fail_with FailedTransient (err_msg e)
                          (ComputeBackoff (reconcileFailureCount
                             (st_FailureCounters (cr_Status (l_obj L2))) + 1))
                          (mark (MarkNotReady K ApplyFailedReason (err_msg e)) L2)) s3)
              | (Inr r, s2) \<Rightarrow>
                  (let s3 = Eventf EventTypeNormal AppliedReason ''Apply'' (applied_note r) s2;
                       s4 = metric (RecordApply (obj_name mr) (obj_namespace mr)
                              (ar_Created r) (ar_Updated r) (ar_Unchanged r)) s3;
                       L2 = mark (ClearDrifted K) L1
                   in (Continue (applyClient, effectiveSA),
                       L2\<lparr>l_newEntries := rr_InventoryEntries rr\<rparr>, s4))))"

subsection \<open>Phase 6: prune\<close>

definition pruneStaleResources ::
  "('w, 'v) mr_params \<Rightarrow> kclient \<Rightarrow> InventoryEntry list \<Rightarrow> string \<Rightarrow> mr_locals \<Rightarrow> 'w mr_state
     \<Rightarrow> (Outcome \<times> bool \<times> nat \<times> goerr option) \<times> mr_locals \<times> 'w mr_state" where
  "pruneStaleResources P c staleSet effectiveSA L s =
     (let K = pa_Kube P; mr = l_obj L in
      if \<not> sp_Prune (cr_Spec mr) \<or> staleSet = [] then ((Applied, True, 0, None), L, s)
      else case Prune K (pa_Live P) c (st_ReleaseUUID (cr_Status mr)) staleSet s of
          (res, Some e, s1) \<Rightarrow>
            (let s2 = Eventf EventTypeWarning PruneFailedReason ''Prune'' (err_msg e) s1
             in if effectiveSA \<noteq> [] \<and> isForbidden K e
                then ((FailedStalled, False, 0, None),
                      mark (MarkStalled K ImpersonationFailedReason (err_msg e)) L, s2)
                else ((FailedTransient, False, 0, Some e),
                      mark (MarkNotReady K PruneFailedReason (err_msg e)) L, s2))
        | (res, None, s1) \<Rightarrow>
            ((AppliedAndPruned, True, pr_Deleted res, None), L,
             if pr_Deleted res > 0
             then Eventf EventTypeNormal PrunedReason ''Prune''
                    (''Pruned '' @ nat_str (pr_Deleted res) @ '' stale resources'') s1
             else s1))"

definition mr_prune ::
  "('w, 'v) mr_params \<Rightarrow> kclient \<Rightarrow> InventoryEntry list \<Rightarrow> string \<Rightarrow> mr_locals \<Rightarrow> 'w mr_state
     \<Rightarrow> exit \<times> mr_locals \<times> 'w mr_state" where
  "mr_prune P c staleSet effectiveSA L s =
     (let L1 = L\<lparr>l_phases := (l_phases L)\<lparr>pruneRan := True\<rparr>\<rparr> in
      case pruneStaleResources P c staleSet effectiveSA L1 s of
        ((outcome, reconciled, deleted, err), L2, s1) \<Rightarrow>
          (let L3 = L2\<lparr>l_outcome := outcome, l_reconciled := reconciled\<rparr>;
               Lf = L3\<lparr>l_phases := (l_phases L3)\<lparr>pruneFailed := True\<rparr>\<rparr>
           in case err of
                Some e \<Rightarrow>
                  (let d = ComputeBackoff (reconcileFailureCount
                         (st_FailureCounters (cr_Status (l_obj L3))) + 1)
                   in (Returned (requeue_after d) None,
                       Lf\<lparr>l_errMsg := err_msg e, l_retryAfter := d\<rparr>, s1))
              | None \<Rightarrow>
                  if \<not> reconciled
                  then (Returned (requeue_after StalledRecheckInterval) None,
                        Lf\<lparr>l_retryAfter := StalledRecheckInterval\<rparr>, s1)
                  else
                    (let mr = l_obj L3;
                         s2 = metric (RecordPrune (obj_name mr) (obj_namespace mr) deleted) s1;
                         L4 = mark (MarkReady (pa_Kube P) ''Reconciliation succeeded'') L3
                     in (Returned no_requeue None, L4,
                         Eventf EventTypeNormal ReconciliationSucceededReason ''Reconcile''
                           ''Reconciliation succeeded'' s2))))"

subsection \<open>The body and the deferred commit\<close>

definition mr_body ::
  "('w, 'v) mr_params \<Rightarrow> mr_locals \<Rightarrow> 'w mr_state \<Rightarrow> exit \<times> mr_locals \<times> 'w mr_state" where
  "mr_body P L s =
     (case mr_render P L s of
        (Stop x, L1, s1) \<Rightarrow> (x, L1, s1)
      | (Continue rr, L1, s1) \<Rightarrow>
          (case mr_plan P rr L1 s1 of
             (Stop x, L2, s2) \<Rightarrow> (x, L2, s2)
           | (Continue (resources, staleSet), L2, s2) \<Rightarrow>
               (case mr_apply P rr resources L2 s2 of
                  (Stop x, L3, s3) \<Rightarrow> (x, L3, s3)
                | (Continue (applyClient, effectiveSA), L3, s3) \<Rightarrow>
                    mr_prune P applyClient staleSet effectiveSA L3 s3)))"

definition since ::
  "('w, 'o, 'v, 'x) ReconcileParams_scheme \<Rightarrow> instant \<Rightarrow> ('w, 'o) pstate \<Rightarrow> duration \<times> ('w, 'o) pstate" where
  "since P start s = (case call (pa_Now P) s of (t, s1) \<Rightarrow> (t - start, s1))"

definition mr_commit_noop ::
  "('w, 'v) mr_params \<Rightarrow> instant \<Rightarrow> mr_locals \<Rightarrow> 'w mr_state \<Rightarrow> 'w mr_state" where
  "mr_commit_noop P start L s =
     (let L1 = mark (MarkReady (pa_Kube P) ''Reconciliation succeeded'') L;
          L2 = update_status (\<lambda>st. (updateFailureCounters (l_outcome L) (l_phases L) st)
                 \<lparr>st_NextRetryAt := None\<rparr>) L1;
          mr = l_obj L2;
          (_, s1) = patch_status mr_owned True P mr s;
          (d1, s2) = since P start s1;
          s3 = metric (recordReconcileMetrics (obj_name mr) (obj_namespace mr) (l_outcome L) d1
                 False 0) s2;
          (d2, s4) = since P start s3
      in metric (RecordDuration (obj_name mr) (obj_namespace mr) d2) s4)"

definition mr_commit ::
  "('w, 'v) mr_params \<Rightarrow> instant \<Rightarrow> mr_locals \<Rightarrow> 'w mr_state \<Rightarrow> 'w mr_state" where
  "mr_commit P start L s =
     (if l_outcome L = NoOp then mr_commit_noop P start L s
      else
        (let (now, s1) = call (pa_Now P) s;
             (d, s2) = since P start s1;
             (t, s3) = history_time L P s2;
             L1 = update_status (\<lambda>st. record_outcome L now t
                    (record_attempt now d (l_digests L)
                      (st\<lparr>st_ObservedGeneration := om_Generation (cr_Meta (l_obj L))\<rparr>))) L;
             L2 = update_status (updateFailureCounters (l_outcome L) (l_phases L)) L1;
             (retryAt, s4) = next_retry L P s3;
             mr = l_obj (update_status (\<lambda>st. st\<lparr>st_NextRetryAt := retryAt\<rparr>) L2);
             (d2, s5) = since P start s4;
             s6 = metric (recordReconcileMetrics (obj_name mr) (obj_namespace mr) (l_outcome L) d2
                    (l_reconciled L) (length (l_newEntries L))) s5;
             (_, s7) = patch_status mr_owned True P mr s6
         in s7))"

subsection \<open>Deletion and suspension\<close>

definition handleDeletion ::
  "('w, 'v) mr_params \<Rightarrow> ModuleRelease \<Rightarrow> 'w mr_state \<Rightarrow> exit \<times> 'w mr_state" where
  "handleDeletion P mr s = deletion_cleanup mr_owned (st_ReleaseUUID (cr_Status mr)) P mr s"

definition mr_suspend ::
  "('w, 'v) mr_params \<Rightarrow> instant \<Rightarrow> ModuleRelease \<Rightarrow> 'w mr_state \<Rightarrow> exit \<times> 'w mr_state" where
  "mr_suspend P start mr s =
     (let mr1 = map_status (\<lambda>st. st\<lparr>st_ObservedGeneration := om_Generation (cr_Meta mr)\<rparr>)
                  (on_conditions (MarkSuspended (pa_Kube P)) mr);
          s1 = Eventf EventTypeNormal SuspendedReason ''Suspend'' ''Reconciliation is suspended'' s
      in case patch_status mr_owned True P mr1 s1 of
           (Some e, s2) \<Rightarrow> (Returned no_requeue (Some e), s2)
         | (None, s2) \<Rightarrow>
             (case since P start s2 of
                (d, s3) \<Rightarrow>
                  (Returned no_requeue None,
                   metric (RecordDuration (obj_name mr) (obj_namespace mr) d) s3)))"

definition resume_event ::
  "('w, 'o, 'v, 'x) ReconcileParams_scheme \<Rightarrow> Condition list \<Rightarrow> ('w, 'o) pstate \<Rightarrow> ('w, 'o) pstate" where
  "resume_event P conds s =
     (case k_FindStatusCondition (pa_Kube P) conds ReadyCondition of
        None \<Rightarrow> s
      | Some ready \<Rightarrow>
          if c_Reason ready = SuspendedReason
          then Eventf EventTypeNormal ResumedReason ''Resume'' ''Reconciliation resumed'' s else s)"

subsection \<open>The handler\<close>

definition ReconcileModuleRelease ::
  "('w, 'v) mr_params \<Rightarrow> NamespacedName \<Rightarrow> 'w mr_state \<Rightarrow> exit \<times> 'w mr_state" where
  "ReconcileModuleRelease P req s =
     (case call (ca_Get (pa_CR P) req) s of
        (Inl e, s1) \<Rightarrow> (Returned no_requeue (k_IgnoreNotFound (pa_Kube P) e), s1)
      | (Inr mr, s1) \<Rightarrow>
          (case call (pa_Now P) s1 of (start, s2) \<Rightarrow>
             if \<not> k_ContainsFinalizer (pa_Kube P) (om_Finalizers (cr_Meta mr)) FinalizerName then
               (case addFinalizer P mr s2 of
                  (Some e, s3) \<Rightarrow>
                    (Returned no_requeue (Some (Errorf_w ''adding finalizer: '' e [])), s3)
                | (None, s3) \<Rightarrow>
                    (Returned \<lparr>res_Requeue = True, res_RequeueAfter = 0\<rparr> None, s3))
             else if om_DeletionTimestamp (cr_Meta mr) \<noteq> None then
               (case handleDeletion P mr s2 of
                  (Returned r e, s3) \<Rightarrow>
                    (case since P start s3 of
                       (d, s4) \<Rightarrow>
                         (Returned r e,
                          metric (RecordDuration (obj_name mr) (obj_namespace mr) d) s4))
                | (x, s3) \<Rightarrow> (x, s3))
             else if sp_Suspend (cr_Spec mr) then mr_suspend P start mr s2
             else
               (case mr_body P (init_locals mr)
                       (resume_event P (st_Conditions (cr_Status mr)) s2) of
                  (x, L, s3) \<Rightarrow> (x, if x = Diverged then s3 else mr_commit P start L s3))))"

subsection \<open>Phase contracts\<close>

text \<open>
  The phases keep metadata, spec and every status field but the conditions and the release
  UUID.
\<close>

definition ledger :: "ModuleReleaseStatus \<Rightarrow> ModuleReleaseStatus" where
  "ledger st = st\<lparr>st_Conditions := [], st_ReleaseUUID := []\<rparr>"

definition same_ledger :: "ModuleRelease \<Rightarrow> ModuleRelease \<Rightarrow> bool" where
  "same_ledger a b \<longleftrightarrow> cr_Meta b = cr_Meta a \<and> cr_Spec b = cr_Spec a
     \<and> ledger (cr_Status b) = ledger (cr_Status a)"

lemma ledger_simps [simp]:
  "ledger (st\<lparr>st_Conditions := cs\<rparr>) = ledger st"
  "ledger (st\<lparr>st_ReleaseUUID := u\<rparr>) = ledger st"
  by (simp_all add: ledger_def)

lemma same_ledger_refl [simp]: "same_ledger a a"
  by (simp add: same_ledger_def)

lemma same_ledger_trans: "same_ledger a b \<Longrightarrow> same_ledger b c \<Longrightarrow> same_ledger a c"
  by (simp add: same_ledger_def)

lemma mark_simps [simp]:
  "l_outcome (mark f L) = l_outcome L" "l_digests (mark f L) = l_digests L"
  "l_reconciled (mark f L) = l_reconciled L" "l_newEntries (mark f L) = l_newEntries L"
  "l_errMsg (mark f L) = l_errMsg L" "l_retryAfter (mark f L) = l_retryAfter L"
  "l_phases (mark f L) = l_phases L"
  "l_obj (mark f L) = on_conditions f (l_obj L)"
  by (simp_all add: mark_def)

lemma update_status_simps [simp]:
  "l_outcome (update_status g L) = l_outcome L" "l_digests (update_status g L) = l_digests L"
  "l_reconciled (update_status g L) = l_reconciled L" "l_newEntries (update_status g L) = l_newEntries L"
  "l_errMsg (update_status g L) = l_errMsg L" "l_retryAfter (update_status g L) = l_retryAfter L"
  "l_phases (update_status g L) = l_phases L"
  "l_obj (update_status g L) = map_status g (l_obj L)"
  by (simp_all add: update_status_def)

lemma same_ledger_conditions [simp]: "same_ledger a (on_conditions f b) = same_ledger a b"
  by (auto simp: same_ledger_def)

lemma same_ledger_uuid [simp]:
  "same_ledger a (map_status (\<lambda>st. st\<lparr>st_ReleaseUUID := u\<rparr>) b) = same_ledger a b"
  by (auto simp: same_ledger_def)

lemma ledger_fields:
  "st_Inventory (ledger st) = st_Inventory st"
  "st_FailureCounters (ledger st) = st_FailureCounters st"
  "st_History (ledger st) = st_History st"
  "lastApplied (ledger st) = lastApplied st"
  "previousEntries (ledger st) = previousEntries st"
  by (simp_all add: ledger_def lastApplied_def previousEntries_def)

lemma same_ledgerD:
  assumes "same_ledger a b"
  shows "cr_Meta b = cr_Meta a" "cr_Spec b = cr_Spec a"
    "st_Inventory (cr_Status b) = st_Inventory (cr_Status a)"
    "st_FailureCounters (cr_Status b) = st_FailureCounters (cr_Status a)"
    "st_History (cr_Status b) = st_History (cr_Status a)"
    "lastApplied (cr_Status b) = lastApplied (cr_Status a)"
    "previousEntries (cr_Status b) = previousEntries (cr_Status a)"
  using assms by (metis same_ledger_def ledger_fields)+

lemmas flow_splits = prod.splits sum.splits option.splits if_splits

text \<open>The render call of a run, and its result.\<close>

definition render_call :: "('w, 'v) mr_params \<Rightarrow> ModuleRelease \<Rightarrow> 'w \<Rightarrow> ((goerr + 'v RenderResult) \<times> 'w) option" where
  "render_call P mr = pa_Renderer P (obj_name mr) (obj_namespace mr)
     (mod_Path (sp_Module (cr_Spec mr))) (mod_Version (sp_Module (cr_Spec mr))) (sp_Values (cr_Spec mr))"

definition rendered_at :: "('w, 'v) mr_params \<Rightarrow> ModuleRelease \<Rightarrow> 'w \<Rightarrow> 'v RenderResult \<Rightarrow> bool" where
  "rendered_at P mr w rr \<longleftrightarrow> (\<exists>w'. render_call P mr w = Some (Inr rr, w'))"

definition rendered :: "('w, 'v) mr_params \<Rightarrow> ModuleRelease \<Rightarrow> 'v RenderResult \<Rightarrow> bool" where
  "rendered P mr rr \<longleftrightarrow> (\<exists>w. rendered_at P mr w rr)"

lemma mr_render_log: "mr_render P L s = (f, L', s') \<Longrightarrow> log_ext is_event s s'"
  by (auto simp: mr_render_def Let_def stop_retry_def log_ext_def effect_simps split: flow_splits dest!: p_Log_call_partial)

lemma mr_render_frame: "mr_render P L s = (f, L', s') \<Longrightarrow> same_ledger (l_obj L) (l_obj L')"
  by (auto simp: mr_render_def Let_def stop_retry_def fail_with_def split: flow_splits)

definition desired_digests :: "('w, 'v) mr_params \<Rightarrow> ModuleReleaseSpec \<Rightarrow> string \<Rightarrow> InventoryEntry list \<Rightarrow> DigestSet" where
  "desired_digests P sp d es = \<lparr>ds_Source = ModuleSourceDigest (mod_Path (sp_Module sp)) (mod_Version (sp_Module sp)),
     ds_Config = ConfigDigest (pa_Canon P) (sp_Values sp), ds_Render = d, ds_Inventory = ComputeDigest es\<rparr>"

lemma mr_render_continue:
  assumes "mr_render P L s = (Continue rr, L', s')"
  shows "l_outcome L' = l_outcome L" "l_reconciled L' = l_reconciled L" "l_errMsg L' = l_errMsg L"
    "l_retryAfter L' = l_retryAfter L" "l_phases L' = l_phases L" "p_Log s' = p_Log s"
    "\<exists>d. RenderDigest (pa_Cue P) (rr_Resources rr) = Inr d
       \<and> l_digests L' = desired_digests P (cr_Spec (l_obj L)) d (rr_InventoryEntries rr)"
  using assms
  by (auto simp: mr_render_def Let_def stop_retry_def desired_digests_def effect_simps split: flow_splits
      dest!: p_Log_call_partial)

text \<open>Plan: drift detection and the no-op test; only events are emitted.\<close>

lemma detectDrift_log: "detectDrift P rs L s = (b, L', s') \<Longrightarrow> p_Log s' = p_Log s"
  by (auto simp: detectDrift_def split: flow_splits dest: DetectDrift_log)

definition drift_mark :: "kube_lib \<Rightarrow> (Condition list \<Rightarrow> Condition list) \<Rightarrow> bool" where
  "drift_mark K g \<longleftrightarrow> g = id \<or> (\<exists>n. g = MarkDrifted K n) \<or> g = ClearDrifted K"

lemma mark_id [simp]: "mark id L = L"
  by (simp add: mark_def on_conditions_def SetConditions_def GetConditions_def)

lemma detectDrift_mark:
  assumes "detectDrift P rs L s = (b, L', s')"
  shows "p_Log s' = p_Log s \<and> (\<exists>g. drift_mark (pa_Kube P) g \<and> L' = mark g L)"
proof -
  have "drift_mark (pa_Kube P) id" "drift_mark (pa_Kube P) (ClearDrifted (pa_Kube P))"
    "drift_mark (pa_Kube P) (MarkDrifted (pa_Kube P) n)" for n
    by (auto simp: drift_mark_def)
  then show ?thesis using assms
    by (auto simp: detectDrift_def split: flow_splits dest: DetectDrift_log intro: mark_id [symmetric])
qed

definition with_uuid :: "unstructured list \<Rightarrow> mr_locals \<Rightarrow> mr_locals" where
  "with_uuid rs L = (if extractReleaseUUID rs \<noteq> []
     then update_status (\<lambda>st. st\<lparr>st_ReleaseUUID := extractReleaseUUID rs\<rparr>) L else L)"

lemma with_uuid_simps [simp]:
  "l_outcome (with_uuid rs L) = l_outcome L" "l_digests (with_uuid rs L) = l_digests L"
  "l_reconciled (with_uuid rs L) = l_reconciled L" "l_newEntries (with_uuid rs L) = l_newEntries L"
  "l_errMsg (with_uuid rs L) = l_errMsg L" "l_retryAfter (with_uuid rs L) = l_retryAfter L"
  "l_phases (with_uuid rs L) = l_phases L"
  "same_ledger a (l_obj (with_uuid rs L)) = same_ledger a (l_obj L)"
  "st_Conditions (cr_Status (l_obj (with_uuid rs L))) = st_Conditions (cr_Status (l_obj L))"
  "lastApplied (cr_Status (l_obj (with_uuid rs L))) = lastApplied (cr_Status (l_obj L))"
  "st_Inventory (cr_Status (l_obj (with_uuid rs L))) = st_Inventory (cr_Status (l_obj L))"
  by (simp_all add: with_uuid_def lastApplied_def)

text \<open>The local variables after drift detection.\<close>

definition planned :: "unstructured list \<Rightarrow> bool \<Rightarrow> (Condition list \<Rightarrow> Condition list) \<Rightarrow> mr_locals \<Rightarrow> mr_locals" where
  "planned rs b g L = (mark g (with_uuid rs L))
     \<lparr>l_phases := (l_phases L)\<lparr>driftRan := True, driftFailed := b\<rparr>\<rparr>"

lemma planned_simps [simp]:
  "l_outcome (planned rs b g L) = l_outcome L" "l_digests (planned rs b g L) = l_digests L"
  "l_reconciled (planned rs b g L) = l_reconciled L" "l_newEntries (planned rs b g L) = l_newEntries L"
  "l_errMsg (planned rs b g L) = l_errMsg L" "l_retryAfter (planned rs b g L) = l_retryAfter L"
  "l_phases (planned rs b g L) = (l_phases L)\<lparr>driftRan := True, driftFailed := b\<rparr>"
  "same_ledger a (l_obj (planned rs b g L)) = same_ledger a (l_obj L)"
  "st_Conditions (cr_Status (l_obj (planned rs b g L))) = g (st_Conditions (cr_Status (l_obj L)))"
  by (simp_all add: planned_def)

lemma mr_plan_cases:
  assumes "mr_plan P rr L s = (f, L', s')"
  obtains
    (convert) e where "toUnstructuredSlice (pa_Cue P) (rr_Resources rr) = Inl e" "s' = s"
      "f = Stop (Returned (requeue_after StalledRecheckInterval) None)"
      "L' = fail_with FailedStalled (''converting resources: '' @ err_msg e) StalledRecheckInterval
        (mark (MarkStalled (pa_Kube P) ApplyFailedReason (''converting resources: '' @ err_msg e)) L)"
  | (noop) rs b g s1 where "toUnstructuredSlice (pa_Cue P) (rr_Resources rr) = Inr rs"
      "IsNoOp (l_digests L) (lastApplied (cr_Status (l_obj L)))"
      "f = Stop (Returned no_requeue None)" "drift_mark (pa_Kube P) g"
      "L' = (planned rs b g L)\<lparr>l_outcome := NoOp\<rparr>" "p_Log s1 = p_Log s"
      "s' = Eventf EventTypeNormal NoOpReason ''Reconcile'' ''No changes detected'' s1"
  | (proceed) rs b g where "toUnstructuredSlice (pa_Cue P) (rr_Resources rr) = Inr rs"
      "\<not> IsNoOp (l_digests L) (lastApplied (cr_Status (l_obj L)))"
      "f = Continue (rs, ComputeStaleSet (previousEntries (cr_Status (l_obj L))) (rr_InventoryEntries rr))"
      "drift_mark (pa_Kube P) g" "L' = planned rs b g L" "p_Log s' = p_Log s"
proof (cases "toUnstructuredSlice (pa_Cue P) (rr_Resources rr)")
  case (Inl e)
  with assms show ?thesis
    by (intro convert [of e]) (auto simp: mr_plan_def Let_def stop_retry_def fail_with_def)
next
  case (Inr rs)
  let ?L = "(with_uuid rs L)\<lparr>l_phases := (l_phases L)\<lparr>driftRan := True\<rparr>\<rparr>"
  obtain b L2 s1 where d: "detectDrift P rs ?L s = (b, L2, s1)" by (metis prod_cases3)
  obtain g where log: "p_Log s1 = p_Log s" and g: "drift_mark (pa_Kube P) g" and L2: "L2 = mark g ?L"
    using detectDrift_mark [OF d] by blast
  have pl: "L2\<lparr>l_phases := (l_phases L2)\<lparr>driftFailed := b\<rparr>\<rparr> = planned rs b g L"
    by (simp add: L2 planned_def mark_def)
  have "previousEntries (cr_Status (l_obj (planned rs b g L))) = previousEntries (cr_Status (l_obj L))"
    by (simp add: planned_def previousEntries_def)
  then have "(if IsNoOp (l_digests L) (lastApplied (cr_Status (l_obj L)))
      then (Stop (Returned no_requeue None), (planned rs b g L)\<lparr>l_outcome := NoOp\<rparr>,
         Eventf EventTypeNormal NoOpReason ''Reconcile'' ''No changes detected'' s1)
      else (Continue (rs, ComputeStaleSet (previousEntries (cr_Status (l_obj L)))
         (rr_InventoryEntries rr)), planned rs b g L, s1)) = (f, L', s')"
    using assms Inr d pl
    by (simp add: mr_plan_def Let_def with_uuid_def [symmetric] split: if_splits)
  then show ?thesis
    using Inr g log by (auto split: if_splits intro: noop proceed)
qed

text \<open>Apply: one apply call with the expected identity, or none if the identity is not available.\<close>

definition apply_call :: "('w, 'v) mr_params \<Rightarrow> ModuleRelease \<Rightarrow> unstructured list \<Rightarrow> ModuleRelease effect" where
  "apply_call P mr rs = ApplyAll (expected_rm (pa_ResourceManager P) (pa_DefaultServiceAccount P) mr) rs
     (forceConflicts (cr_Spec mr))"

text \<open>The delay after a transient failure, from the failure counter the object came with.\<close>

definition backoff_of :: "ModuleRelease \<Rightarrow> duration" where
  "backoff_of mr = ComputeBackoff (reconcileFailureCount (st_FailureCounters (cr_Status mr)) + 1)"

lemma mr_apply_cases:
  assumes "mr_apply P rr rs L s = (f, L', s')"
  obtains
    (panic) "\<not> pa_RestConfig P" "f = Stop Panicked" "L' = L" "p_Log s' = p_Log s"
  | (imp) e where "f = Stop (Returned (requeue_after StalledRecheckInterval) None)"
      "L' = fail_with FailedStalled (err_msg e) StalledRecheckInterval
        (mark (MarkStalled (pa_Kube P) ImpersonationFailedReason (err_msg e)) L)"
      "p_Log s' = p_Log s"
  | (forbidden) e s1 s2 where "f = Stop (Returned (requeue_after StalledRecheckInterval) None)"
      "Apply (pa_Ssa P) (expected_rm (pa_ResourceManager P) (pa_DefaultServiceAccount P) (l_obj L)) rs
         (forceConflicts (cr_Spec (l_obj L))) s1 = (Inl e, s2)"
      "L' = fail_with FailedStalled (err_msg e) StalledRecheckInterval
        (mark (MarkStalled (pa_Kube P) ImpersonationFailedReason (err_msg e))
          (L\<lparr>l_phases := (l_phases L)\<lparr>applyRan := True, applyFailed := True\<rparr>\<rparr>))"
      "p_Log s1 = p_Log s"
      "s' = Eventf EventTypeWarning ApplyFailedReason ''Apply'' (err_msg e) s2"
  | (transient) e s1 s2 where "f = Stop (Returned (requeue_after (backoff_of (l_obj L))) None)"
      "Apply (pa_Ssa P) (expected_rm (pa_ResourceManager P) (pa_DefaultServiceAccount P) (l_obj L)) rs
         (forceConflicts (cr_Spec (l_obj L))) s1 = (Inl e, s2)"
      "L' = fail_with FailedTransient (err_msg e) (backoff_of (l_obj L))
        (mark (MarkNotReady (pa_Kube P) ApplyFailedReason (err_msg e))
          (L\<lparr>l_phases := (l_phases L)\<lparr>applyRan := True, applyFailed := True\<rparr>\<rparr>))"
      "p_Log s1 = p_Log s"
      "s' = Eventf EventTypeWarning ApplyFailedReason ''Apply'' (err_msg e) s2"
  | (ok) r s1 s2 where
      "f = Continue (expected_client (pa_DefaultServiceAccount P) (l_obj L),
         fst (resolveEffectiveSA (sp_ServiceAccountName (cr_Spec (l_obj L))) (pa_DefaultServiceAccount P)))"
      "Apply (pa_Ssa P) (expected_rm (pa_ResourceManager P) (pa_DefaultServiceAccount P) (l_obj L)) rs
         (forceConflicts (cr_Spec (l_obj L))) s1 = (Inr r, s2)"
      "L' = (mark (ClearDrifted (pa_Kube P))
          (L\<lparr>l_phases := (l_phases L)\<lparr>applyRan := True\<rparr>\<rparr>))\<lparr>l_newEntries := rr_InventoryEntries rr\<rparr>"
      "p_Log s1 = p_Log s"
      "s' = metric (RecordApply (obj_name (l_obj L)) (obj_namespace (l_obj L)) (ar_Created r)
          (ar_Updated r) (ar_Unchanged r))
        (Eventf EventTypeNormal AppliedReason ''Apply'' (applied_note r) s2)"
proof -
  obtain b s1 where b: "buildApplyClient P (l_obj L) s = (b, s1)" by fastforce
  note log = buildApplyClient_log [OF b]
  show ?thesis
  proof (cases b)
    case None
    with b assms log show ?thesis
      by (intro panic) (auto simp: mr_apply_def Let_def dest: buildApplyClient_no_panic)
  next
    case (Some r)
    show ?thesis
    proof (cases r)
      case (Inl e)
      with Some b assms log show ?thesis
        by (intro imp [of e]) (auto simp: mr_apply_def Let_def stop_retry_def fail_with_def)
    next
      case (Inr rc)
      let ?rm = "expected_rm (pa_ResourceManager P) (pa_DefaultServiceAccount P) (l_obj L)"
      have rc: "rc = (?rm, expected_client (pa_DefaultServiceAccount P) (l_obj L))"
        using buildApplyClient_client [of P "l_obj L" s "fst rc" "snd rc" s1] b Some Inr
        by (auto simp: prod_eq_iff)
      obtain a s2 where a: "Apply (pa_Ssa P) ?rm rs (forceConflicts (cr_Spec (l_obj L))) s1 = (a, s2)"
        by fastforce
      show ?thesis
      proof (cases a)
        case (Inr ar)
        with a b Some \<open>r = Inr rc\<close> rc assms log show ?thesis
          by (intro ok [of s1 ar s2]) (auto simp: mr_apply_def Let_def split: prod.splits)
      next
        case (Inl e)
        let ?sa = "fst (resolveEffectiveSA (sp_ServiceAccountName (cr_Spec (l_obj L)))
          (pa_DefaultServiceAccount P))"
        from Inl a b Some \<open>r = Inr rc\<close> rc assms log show ?thesis
          by (cases "?sa \<noteq> [] \<and> isForbidden (pa_Kube P) e")
            (auto simp: mr_apply_def Let_def stop_retry_def fail_with_def backoff_of_def
              split: prod.splits if_splits intro: forbidden [of s1 e s2] transient [of s1 e s2])
      qed
    qed
  qed
qed

text \<open>Prune: deletes are guarded and only follow \<open>spec.prune\<close>; the three outcomes.\<close>

definition prune_effect ::
  "('w, 'v) mr_params \<Rightarrow> kclient \<Rightarrow> InventoryEntry list \<Rightarrow> ModuleRelease \<Rightarrow> ModuleRelease effect \<Rightarrow> bool" where
  "prune_effect P c stale mr x \<longleftrightarrow> is_event x
     \<or> sp_Prune (cr_Spec mr) \<and> guarded_delete (pa_Live P) c (st_ReleaseUUID (cr_Status mr)) stale x"

definition pruning_locals :: "mr_locals \<Rightarrow> mr_locals" where
  "pruning_locals L = L\<lparr>l_phases := (l_phases L)\<lparr>pruneRan := True\<rparr>\<rparr>"

lemma mr_prune_log:
  assumes "mr_prune P c stale sa L s = (x, L', s')"
  shows "log_ext (prune_effect P c stale (l_obj L)) s s'"
proof -
  let ?Q = "prune_effect P c stale (l_obj L)"
  let ?L = "L\<lparr>l_phases := (l_phases L)\<lparr>pruneRan := True\<rparr>\<rparr>"
  have ev: "?Q (Event t r a n)" for t r a n by (simp add: prune_effect_def)
  obtain q L2 s1 where q: "pruneStaleResources P c stale sa ?L s = (q, L2, s1)" by (metis prod_cases3)
  have "log_ext ?Q s s1"
  proof (cases "sp_Prune (cr_Spec (l_obj L)) \<and> stale \<noteq> []")
    case True
    obtain res err s0 where p: "Prune (pa_Kube P) (pa_Live P) c (st_ReleaseUUID (cr_Status (l_obj L)))
        stale s = (res, err, s0)"
      by (metis prod_cases3)
    have 1: "log_ext ?Q s s0"
      using Prune_guarded [OF p] by (rule log_ext_mono) (simp add: prune_effect_def True)
    have "s1 = s0 \<or> (\<exists>t r a n. s1 = Eventf t r a n s0)"
      using q True p by (auto simp: pruneStaleResources_def Let_def split: option.splits if_splits)
    then have "log_ext ?Q s0 s1" using ev by (auto intro: log_ext_Eventf)
    with 1 show ?thesis by (rule log_ext_trans)
  next
    case False
    then show ?thesis using q by (auto simp: pruneStaleResources_def Let_def)
  qed
  moreover have "log_ext ?Q s1 s'"
    using assms q
    by (auto simp: mr_prune_def Let_def ev split: flow_splits
        intro: log_ext_trans [OF log_ext_metric log_ext_Eventf])
  ultimately show ?thesis by (rule log_ext_trans)
qed

lemma mr_prune_cases:
  assumes "mr_prune P c stale sa L s = (x, L', s')"
  obtains
    (ok) oc where "x = Returned no_requeue None"
      "oc = (if \<not> sp_Prune (cr_Spec (l_obj L)) \<or> stale = [] then Applied else AppliedAndPruned)"
      "L' = mark (MarkReady (pa_Kube P) ''Reconciliation succeeded'')
        ((pruning_locals L)\<lparr>l_outcome := oc, l_reconciled := True\<rparr>)"
  | (denied) e where "sa \<noteq> []" "isForbidden (pa_Kube P) e"
      "x = Returned (requeue_after StalledRecheckInterval) None"
      "L' = (mark (MarkStalled (pa_Kube P) ImpersonationFailedReason (err_msg e)) L)
        \<lparr>l_outcome := FailedStalled, l_reconciled := False, l_retryAfter := StalledRecheckInterval,
          l_phases := (l_phases L)\<lparr>pruneRan := True, pruneFailed := True\<rparr>\<rparr>"
  | (failed) e where "x = Returned (requeue_after (backoff_of (l_obj L))) None"
      "L' = (mark (MarkNotReady (pa_Kube P) PruneFailedReason (err_msg e)) L)
        \<lparr>l_outcome := FailedTransient, l_reconciled := False, l_errMsg := err_msg e,
          l_retryAfter := backoff_of (l_obj L),
          l_phases := (l_phases L)\<lparr>pruneRan := True, pruneFailed := True\<rparr>\<rparr>"
proof (cases "sp_Prune (cr_Spec (l_obj L)) \<and> stale \<noteq> []")
  case False
  with assms show ?thesis
    by (intro ok [of Applied]) (auto simp: mr_prune_def pruneStaleResources_def pruning_locals_def Let_def)
next
  case True
  obtain res err s0 where p: "Prune (pa_Kube P) (pa_Live P) c (st_ReleaseUUID (cr_Status (l_obj L)))
      stale s = (res, err, s0)"
    by (metis prod_cases3)
  show ?thesis
  proof (cases err)
    case None
    with assms p True show ?thesis
      by (intro ok [of AppliedAndPruned])
        (auto simp: mr_prune_def pruneStaleResources_def pruning_locals_def Let_def)
  next
    case (Some e)
    show ?thesis
    proof (cases "sa \<noteq> [] \<and> isForbidden (pa_Kube P) e")
      case sf: True
      with assms p True Some show ?thesis
        by (intro denied [of e]) (auto simp: mr_prune_def pruneStaleResources_def Let_def mark_def)
    next
      case False
      with assms p True Some show ?thesis
        by (intro failed [of e])
          (auto simp: mr_prune_def pruneStaleResources_def Let_def mark_def backoff_of_def)
    qed
  qed
qed

text \<open>Render, by cases.\<close>

definition rendering :: "('w, 'v) mr_params \<Rightarrow> mr_locals \<Rightarrow> mr_locals" where
  "rendering P L = (let sp = cr_Spec (l_obj L) in
     mark (MarkReconciling (pa_Kube P) ''Progressing'' ''Reconciliation in progress'')
       (L\<lparr>l_digests := (l_digests L)\<lparr>
          ds_Source := ModuleSourceDigest (mod_Path (sp_Module sp)) (mod_Version (sp_Module sp)),
          ds_Config := ConfigDigest (pa_Canon P) (sp_Values sp)\<rparr>\<rparr>))"

definition resolved :: "('w, 'v) mr_params \<Rightarrow> mr_locals \<Rightarrow> mr_locals" where
  "resolved P L = (let md = sp_Module (cr_Spec (l_obj L)) in
     mark (MarkModuleResolved (pa_Kube P) (mod_Path md @ ''@'' @ mod_Version md)) (rendering P L))"

lemma rendering_simps [simp]:
  "l_outcome (rendering P L) = l_outcome L" "l_reconciled (rendering P L) = l_reconciled L"
  "l_newEntries (rendering P L) = l_newEntries L" "l_errMsg (rendering P L) = l_errMsg L"
  "l_retryAfter (rendering P L) = l_retryAfter L" "l_phases (rendering P L) = l_phases L"
  "same_ledger a (l_obj (rendering P L)) = same_ledger a (l_obj L)"
  by (simp_all add: rendering_def Let_def mark_def)

lemma resolved_simps [simp]:
  "l_outcome (resolved P L) = l_outcome L" "l_reconciled (resolved P L) = l_reconciled L"
  "l_newEntries (resolved P L) = l_newEntries L" "l_errMsg (resolved P L) = l_errMsg L"
  "l_retryAfter (resolved P L) = l_retryAfter L" "l_phases (resolved P L) = l_phases L"
  "same_ledger a (l_obj (resolved P L)) = same_ledger a (l_obj L)"
  by (simp_all add: resolved_def Let_def)

lemma mr_render_cases:
  assumes "mr_render P L s = (f, L', s')"
  obtains
    (failed) L1 reason msg where "f = Stop (Returned (requeue_after StalledRecheckInterval) None)"
      "L1 = rendering P L \<or> L1 = resolved P L"
      "L' = fail_with FailedStalled msg StalledRecheckInterval
         (mark (MarkStalled (pa_Kube P) reason msg) L1)"
      "log_ext is_event s s'"
  | (ok) rr d where "f = Continue rr" "RenderDigest (pa_Cue P) (rr_Resources rr) = Inr d"
      "L' = (resolved P L)\<lparr>l_digests := desired_digests P (cr_Spec (l_obj L)) d (rr_InventoryEntries rr)\<rparr>"
      "p_Log s' = p_Log s" "rendered_at P (l_obj L) (p_World s) rr"
  | (diverged) "f = Stop Diverged" "L' = rendering P L" "s' = s" "render_call P (l_obj L) (p_World s) = None"
proof -
  have rd: "(mark (MarkReconciling (pa_Kube P) ''Progressing'' ''Reconciliation in progress'') L)\<lparr>l_digests :=
      (l_digests L)\<lparr>
          ds_Source := ModuleSourceDigest (mod_Path (sp_Module (cr_Spec (l_obj L)))) (mod_Version (sp_Module (cr_Spec (l_obj L)))),
          ds_Config := ConfigDigest (pa_Canon P) (sp_Values (cr_Spec (l_obj L)))\<rparr>\<rparr> = rendering P L"
    by (simp add: rendering_def Let_def mark_def)
  note log = mr_render_log [OF assms]
  let ?md = "sp_Module (cr_Spec (l_obj L))"
  consider (never) "call_partial (pa_Renderer P (obj_name (l_obj L)) (obj_namespace (l_obj L))
      (mod_Path ?md) (mod_Version ?md) (sp_Values (cr_Spec (l_obj L)))) s = None"
    | (returns) r s1 where "call_partial (pa_Renderer P (obj_name (l_obj L)) (obj_namespace (l_obj L))
      (mod_Path ?md) (mod_Version ?md) (sp_Values (cr_Spec (l_obj L)))) s = Some (r, s1)"
    by (metis option.exhaust surj_pair)
  then show ?thesis
  proof cases
    case never
    with assms show ?thesis by (intro diverged) (auto simp: mr_render_def Let_def rd render_call_def)
  next
    case r: (returns r s1)
    show ?thesis
    proof (cases r)
    case (Inl e)
    with r assms log show ?thesis
      by (intro failed [of "rendering P L" "err_msg e"
            "if isResolutionError e then ResolutionFailedReason else RenderFailedReason"])
        (auto simp: mr_render_def Let_def rd stop_retry_def fail_with_def)
  next
    case (Inr rr)
    show ?thesis
    proof (cases "RenderDigest (pa_Cue P) (rr_Resources rr)")
      case (Inl e)
      with r \<open>r = Inr rr\<close> assms log show ?thesis
        by (intro failed [of "resolved P L" "''computing render digest: '' @ err_msg e" RenderFailedReason])
          (auto simp: mr_render_def Let_def rd stop_retry_def fail_with_def resolved_def)
    next
      case (Inr d)
      have log1: "p_Log s1 = p_Log s" by (rule p_Log_call_partial [OF r])
      have at: "rendered_at P (l_obj L) (p_World s) rr"
        using r \<open>r = Inr rr\<close> by (auto simp: rendered_at_def render_call_def call_partial_Some)
      from log1 at Inr r \<open>r = Inr rr\<close> assms show ?thesis
        by (intro ok [of rr d])
          (auto simp: mr_render_def Let_def rd resolved_def desired_digests_def rendering_def)
    qed
    qed
  qed
qed

subsection \<open>The body as a whole\<close>

lemma mr_body_cases:
  assumes "mr_body P L s = (x, L', s')"
  obtains
    (rendering) "mr_render P L s = (Stop x, L', s')"
  | (planning) rr L1 s1 where "mr_render P L s = (Continue rr, L1, s1)"
      "mr_plan P rr L1 s1 = (Stop x, L', s')"
  | (applying) rr L1 s1 rs stale L2 s2 where "mr_render P L s = (Continue rr, L1, s1)"
      "mr_plan P rr L1 s1 = (Continue (rs, stale), L2, s2)"
      "mr_apply P rr rs L2 s2 = (Stop x, L', s')"
  | (pruning) rr L1 s1 rs stale L2 s2 c sa L3 s3 where "mr_render P L s = (Continue rr, L1, s1)"
      "mr_plan P rr L1 s1 = (Continue (rs, stale), L2, s2)"
      "mr_apply P rr rs L2 s2 = (Continue (c, sa), L3, s3)"
      "mr_prune P c stale sa L3 s3 = (x, L', s')"
  using assms by (auto simp: mr_body_def split: prod.splits flow.splits)

lemma mr_plan_frame: "mr_plan P rr L s = (f, L', s') \<Longrightarrow> same_ledger (l_obj L) (l_obj L')"
  by (erule mr_plan_cases) (simp_all add: fail_with_def)

lemma mr_apply_frame: "mr_apply P rr rs L s = (f, L', s') \<Longrightarrow> same_ledger (l_obj L) (l_obj L')"
  by (erule mr_apply_cases) (simp_all add: fail_with_def)

lemma mr_prune_frame: "mr_prune P c stale sa L s = (x, L', s') \<Longrightarrow> same_ledger (l_obj L) (l_obj L')"
  by (erule mr_prune_cases) (simp_all add: pruning_locals_def)

lemmas phase_frames = mr_render_frame mr_plan_frame mr_apply_frame mr_prune_frame

lemma mr_body_frame:
  assumes "mr_body P L s = (x, L', s')"
  shows "same_ledger (l_obj L) (l_obj L')"
  using assms by (cases rule: mr_body_cases) (meson phase_frames same_ledger_trans)+

text \<open>A body fails to end exactly when its render call does.\<close>

lemma phases_return:
  "mr_plan P rr L s = (Stop x, L', s') \<Longrightarrow> x \<noteq> Diverged"
  "mr_apply P rr rs L s = (Stop x, L', s') \<Longrightarrow> x \<noteq> Diverged"
  "mr_prune P c stale sa L s = (x, L', s') \<Longrightarrow> x \<noteq> Diverged"
  by (erule mr_plan_cases mr_apply_cases mr_prune_cases; simp)+

lemma mr_render_diverged_iff:
  assumes "mr_render P L s = (f, L', s')"
  shows "f = Stop Diverged \<longleftrightarrow> render_call P (l_obj L) (p_World s) = None"
  using assms
  by (auto simp: mr_render_def Let_def stop_retry_def render_call_def call_partial_def split: flow_splits)

lemma mr_body_diverged_iff:
  assumes "mr_body P L s = (x, L', s')"
  shows "x = Diverged \<longleftrightarrow> render_call P (l_obj L) (p_World s) = None"
  using assms by (cases rule: mr_body_cases) (auto dest: phases_return mr_render_diverged_iff)

text \<open>Exit and bookkeeping of each outcome.\<close>

definition body_exit :: "ModuleRelease \<Rightarrow> exit \<Rightarrow> mr_locals \<Rightarrow> bool" where
  "body_exit mr x L \<longleftrightarrow>
     (case l_outcome L of
        NoOp \<Rightarrow> (x = Returned no_requeue None \<or> x = Panicked \<or> x = Diverged) \<and> \<not> l_reconciled L \<and> l_retryAfter L = 0
      | Applied \<Rightarrow> x = Returned no_requeue None \<and> l_reconciled L \<and> l_retryAfter L = 0
      | AppliedAndPruned \<Rightarrow> x = Returned no_requeue None \<and> l_reconciled L \<and> l_retryAfter L = 0
      | FailedTransient \<Rightarrow> x = Returned (requeue_after (backoff_of mr)) None \<and> \<not> l_reconciled L
          \<and> l_retryAfter L = backoff_of mr
      | FailedStalled \<Rightarrow> x = Returned (requeue_after StalledRecheckInterval) None \<and> \<not> l_reconciled L
          \<and> l_retryAfter L = StalledRecheckInterval)"

lemma backoff_of_cong:
  "same_ledger a b \<Longrightarrow> backoff_of b = backoff_of a"
  by (simp add: backoff_of_def same_ledgerD)

lemma init_locals_simps [simp]:
  "l_obj (init_locals o1) = o1" "l_outcome (init_locals o1) = NoOp"
  "l_reconciled (init_locals o1) = False" "l_newEntries (init_locals o1) = []"
  "l_errMsg (init_locals o1) = []" "l_retryAfter (init_locals o1) = 0"
  "l_phases (init_locals o1) = no_phases"
  by (simp_all add: init_locals_def)

text \<open>What the phases before apply leave untouched.\<close>

definition fresh :: "mr_locals \<Rightarrow> bool" where
  "fresh L \<longleftrightarrow> l_outcome L = NoOp \<and> \<not> l_reconciled L \<and> l_retryAfter L = 0"

lemma fresh_init [simp]: "fresh (init_locals mr)"
  by (simp add: fresh_def)

lemma fresh_continue:
  "mr_render P L s = (Continue rr, L', s') \<Longrightarrow> fresh L \<Longrightarrow> fresh L'"
  "mr_plan P rr L s = (Continue q, L', s') \<Longrightarrow> fresh L \<Longrightarrow> fresh L'"
  "mr_apply P rr rs L s = (Continue r, L', s') \<Longrightarrow> fresh L \<Longrightarrow> fresh L'"
  by (erule mr_render_cases mr_plan_cases mr_apply_cases; simp add: fresh_def)+

lemmas exit_defs = body_exit_def fail_with_def fresh_def pruning_locals_def

lemma mr_render_exit: "mr_render P L s = (Stop x, L', s') \<Longrightarrow> fresh L \<Longrightarrow> body_exit (l_obj L) x L'"
  by (erule mr_render_cases) (auto simp: exit_defs)

lemma mr_plan_exit: "mr_plan P rr L s = (Stop x, L', s') \<Longrightarrow> fresh L \<Longrightarrow> body_exit (l_obj L) x L'"
  by (erule mr_plan_cases) (auto simp: exit_defs)

lemma mr_apply_exit: "mr_apply P rr rs L s = (Stop x, L', s') \<Longrightarrow> fresh L \<Longrightarrow> body_exit (l_obj L) x L'"
  by (erule mr_apply_cases) (auto simp: exit_defs)

lemma mr_prune_exit: "mr_prune P c stale sa L s = (x, L', s') \<Longrightarrow> fresh L \<Longrightarrow> body_exit (l_obj L) x L'"
  by (erule mr_prune_cases) (auto simp: exit_defs split: if_splits)

lemma body_exit_cong: "same_ledger a b \<Longrightarrow> body_exit b x L = body_exit a x L"
  using backoff_of_cong [of a b] by (auto simp: body_exit_def split: Outcome.splits)

lemma mr_body_exit:
  assumes "mr_body P (init_locals mr) s = (x, L', s')"
  shows "body_exit mr x L'"
  using assms
proof (cases rule: mr_body_cases)
  case rendering
  from mr_render_exit [OF this] show ?thesis by simp
next
  case (planning rr L1 s1)
  have "body_exit (l_obj L1) x L'"
    by (rule mr_plan_exit [OF planning(2) fresh_continue(1) [OF planning(1)]]) simp
  then show ?thesis using body_exit_cong [OF mr_render_frame [OF planning(1)]] by simp
next
  case (applying rr L1 s1 rs stale L2 s2)
  have "body_exit (l_obj L2) x L'"
    by (rule mr_apply_exit [OF applying(3) fresh_continue(2) [OF applying(2) fresh_continue(1) [OF applying(1)]]]) simp
  moreover note same_ledger_trans [OF mr_render_frame [OF applying(1)] mr_plan_frame [OF applying(2)]]
  ultimately show ?thesis using body_exit_cong by simp
next
  case (pruning rr L1 s1 rs stale L2 s2 c sa L3 s3)
  have "body_exit (l_obj L3) x L'"
    by (rule mr_prune_exit [OF pruning(4) fresh_continue(3) [OF pruning(3)
            fresh_continue(2) [OF pruning(2) fresh_continue(1) [OF pruning(1)]]]]) simp
  moreover note same_ledger_trans [OF same_ledger_trans [OF mr_render_frame [OF pruning(1)]
        mr_plan_frame [OF pruning(2)]] mr_apply_frame [OF pruning(3)]]
  ultimately show ?thesis using body_exit_cong by simp
qed

text \<open>
  The effects of the body that starts in the world \<open>w\<close>: events; then, if the plan says so, one
  apply call of the rendered resources with the expected identity; then only events and guarded
  deletes by that identity of what the rendered result no longer has.
\<close>

definition owner_uuid :: "ModuleRelease \<Rightarrow> unstructured list \<Rightarrow> string" where
  "owner_uuid mr rs = (if extractReleaseUUID rs \<noteq> [] then extractReleaseUUID rs
     else st_ReleaseUUID (cr_Status mr))"

text \<open>Some apply call of these resources under the expected identity succeeded.\<close>

definition apply_succeeds :: "('w, 'v) mr_params \<Rightarrow> ModuleRelease \<Rightarrow> unstructured list \<Rightarrow> bool" where
  "apply_succeeds P mr rs \<longleftrightarrow> (\<exists>w as w'. sa_ApplyAllStaged (pa_Ssa P)
     (expected_rm (pa_ResourceManager P) (pa_DefaultServiceAccount P) mr) rs
     (forceConflicts (cr_Spec mr)) w = (Inr as, w'))"

definition body_effects ::
  "('w, 'v) mr_params \<Rightarrow> 'w \<Rightarrow> ModuleRelease \<Rightarrow> ModuleRelease \<Rightarrow> ModuleRelease effect list \<Rightarrow> bool" where
  "body_effects P w mr mr' es \<longleftrightarrow>
     list_all is_event es
     \<or> (\<exists>evs rr rs rest. es = evs @ apply_call P mr rs # rest \<and> list_all is_event evs
         \<and> rendered_at P mr w rr
         \<and> toUnstructuredSlice (pa_Cue P) (rr_Resources rr) = Inr rs
         \<and> st_ReleaseUUID (cr_Status mr') = owner_uuid mr rs
         \<and> (list_all is_event rest \<or> apply_succeeds P mr rs)
         \<and> list_all (prune_effect P (expected_client (pa_DefaultServiceAccount P) mr)
             (ComputeStaleSet (previousEntries (cr_Status mr)) (rr_InventoryEntries rr)) mr') rest)"

lemma expected_cong:
  assumes "same_ledger a b"
  shows "expected_client d b = expected_client d a" "apply_call P b rs = apply_call P a rs"
    "apply_succeeds P b rs = apply_succeeds P a rs"
  using same_ledgerD(1,2) [OF assms]
  by (simp_all add: expected_client_def expected_rm_def apply_call_def apply_succeeds_def Let_def)

lemma mr_apply_continue_succeeds:
  assumes "mr_apply P rr rs L s = (Continue q, L', s')"
  shows "apply_succeeds P (l_obj L) rs"
  using assms
proof (cases rule: mr_apply_cases)
  case (ok r s1 s2)
  obtain a w where "sa_ApplyAllStaged (pa_Ssa P)
      (expected_rm (pa_ResourceManager P) (pa_DefaultServiceAccount P) (l_obj L)) rs
      (forceConflicts (cr_Spec (l_obj L))) (p_World s1) = (a, w)"
    by fastforce
  with ok(2) show ?thesis
    by (auto simp: Apply_def apply_succeeds_def mcall_def call_def emit_def split: sum.splits)
qed simp_all

lemma mr_apply_log:
  assumes "mr_apply P rr rs L s = (f, L', s')"
  shows "p_Log s' = p_Log s
    \<or> (\<exists>t r n. p_Log s' = p_Log s @ [apply_call P (l_obj L) rs, Event t r ''Apply'' n])"
  using assms
  by (cases rule: mr_apply_cases) (auto simp: apply_call_def effect_simps dest!: Apply_log)

lemma mr_apply_continue_log:
  assumes "mr_apply P rr rs L s = (Continue q, L', s')"
  shows "\<exists>t r n. p_Log s' = p_Log s @ [apply_call P (l_obj L) rs, Event t r ''Apply'' n]"
  using assms
  by (cases rule: mr_apply_cases) (auto simp: apply_call_def effect_simps dest!: Apply_log)

lemma mr_apply_keeps_uuid:
  assumes "mr_apply P rr rs L s = (f, L', s')"
  shows "st_ReleaseUUID (cr_Status (l_obj L')) = st_ReleaseUUID (cr_Status (l_obj L))"
  using assms by (cases rule: mr_apply_cases) (simp_all add: fail_with_def)

lemma mr_plan_sets_uuid:
  assumes "mr_render P L s = (Continue rr, L1, s1)" and "mr_plan P rr L1 s1 = (Continue (rs, stale), L2, s2)"
  shows "st_ReleaseUUID (cr_Status (l_obj L2)) = owner_uuid (l_obj L) rs"
proof -
  have 1: "st_ReleaseUUID (cr_Status (l_obj L1)) = st_ReleaseUUID (cr_Status (l_obj L))"
    using assms(1) by (cases rule: mr_render_cases) (simp_all add: resolved_def rendering_def Let_def)
  from assms(2) show ?thesis
    by (cases rule: mr_plan_cases) (simp_all add: 1 planned_def with_uuid_def owner_uuid_def)
qed

lemma mr_prune_keeps_uuid:
  assumes "mr_prune P c stale sa L s = (x, L', s')"
  shows "st_ReleaseUUID (cr_Status (l_obj L')) = st_ReleaseUUID (cr_Status (l_obj L))"
  using assms by (cases rule: mr_prune_cases) (simp_all add: pruning_locals_def)

lemma mr_plan_continue:
  assumes "mr_plan P rr L s = (Continue (rs, stale), L', s')"
  shows "toUnstructuredSlice (pa_Cue P) (rr_Resources rr) = Inr rs" "p_Log s' = p_Log s"
    "stale = ComputeStaleSet (previousEntries (cr_Status (l_obj L))) (rr_InventoryEntries rr)"
  using assms by (cases rule: mr_plan_cases; simp)+

lemma mr_plan_log: "mr_plan P rr L s = (f, L', s') \<Longrightarrow> log_ext is_event s s'"
  by (erule mr_plan_cases) (auto simp: log_ext_def effect_simps)

lemma mr_render_continue_log: "mr_render P L s = (Continue rr, L', s') \<Longrightarrow> p_Log s' = p_Log s"
  by (erule mr_render_cases) simp_all

lemma mr_render_rendered:
  assumes "mr_render P L s = (Continue rr, L', s')"
  shows "rendered_at P (l_obj L) (p_World s) rr"
  using assms by (cases rule: mr_render_cases) simp_all

lemma mr_body_log:
  assumes "mr_body P L s = (x, L', s')"
  shows "\<exists>es. p_Log s' = p_Log s @ es \<and> body_effects P (p_World s) (l_obj L) (l_obj L') es"
  using assms
proof (cases rule: mr_body_cases)
  case rendering
  from mr_render_log [OF this] show ?thesis by (auto simp: log_ext_def body_effects_def)
next
  case (planning rr L1 s1)
  from mr_plan_log [OF this(2)] mr_render_continue_log [OF this(1)] show ?thesis
    by (auto simp: log_ext_def body_effects_def)
next
  case (applying rr L1 s1 rs stale L2 s2)
  have log: "p_Log s2 = p_Log s"
    using mr_plan_continue(2) [OF applying(2)] mr_render_continue_log [OF applying(1)] by simp
  have fr: "same_ledger (l_obj L) (l_obj L2)"
    by (rule same_ledger_trans [OF mr_render_frame [OF applying(1)] mr_plan_frame [OF applying(2)]])
  note conv = mr_plan_continue(1) [OF applying(2)]
  from mr_apply_log [OF applying(3)] show ?thesis
  proof
    assume "p_Log s' = p_Log s2"
    then show ?thesis using log by (intro exI [of _ "[]"]) (simp add: body_effects_def)
  next
    assume "\<exists>t r n. p_Log s' = p_Log s2 @ [apply_call P (l_obj L2) rs, Event t r ''Apply'' n]"
    then obtain t r n where "p_Log s' = p_Log s @ [] @ apply_call P (l_obj L) rs # [Event t r ''Apply'' n]"
      using log expected_cong(2) [OF fr, of P] by auto
    moreover have "st_ReleaseUUID (cr_Status (l_obj L')) = owner_uuid (l_obj L) rs"
      using mr_apply_keeps_uuid [OF applying(3)] mr_plan_sets_uuid [OF applying(1,2)] by simp
    then have "body_effects P (p_World s) (l_obj L) (l_obj L') ([] @ apply_call P (l_obj L) rs # [Event t r ''Apply'' n])"
      unfolding body_effects_def
      by (intro disjI2, intro exI [of _ "[]"], intro exI [of _ rr], intro exI [of _ rs])
        (use mr_render_rendered [OF applying(1)] in \<open>simp add: conv prune_effect_def\<close>)
    ultimately show ?thesis by blast
  qed
next
  case (pruning rr L1 s1 rs stale L2 s2 c sa L3 s3)
  have log: "p_Log s2 = p_Log s"
    using mr_plan_continue(2) [OF pruning(2)] mr_render_continue_log [OF pruning(1)] by simp
  have fr: "same_ledger (l_obj L) (l_obj L2)"
    by (rule same_ledger_trans [OF mr_render_frame [OF pruning(1)] mr_plan_frame [OF pruning(2)]])
  note fr3 = same_ledger_trans [OF fr mr_apply_frame [OF pruning(3)]] mr_render_frame [OF pruning(1)]
  have frl: "same_ledger (l_obj L) (l_obj L')" using mr_body_frame [OF assms] .
  have c: "c = expected_client (pa_DefaultServiceAccount P) (l_obj L)"
    using pruning(3) expected_cong(1) [OF fr] by (cases rule: mr_apply_cases) simp_all
  have stale: "stale = ComputeStaleSet (previousEntries (cr_Status (l_obj L))) (rr_InventoryEntries rr)"
    using mr_plan_continue(3) [OF pruning(2)] same_ledgerD(7) [OF fr3(2)] by simp
  have pe: "prune_effect P c stale (l_obj L3) = prune_effect P c stale (l_obj L')"
    using mr_prune_keeps_uuid [OF pruning(4)] same_ledgerD(2) [OF fr3(1)] same_ledgerD(2) [OF frl]
    by (simp add: prune_effect_def fun_eq_iff)
  obtain t r n where 3: "p_Log s3 = p_Log s @ [apply_call P (l_obj L) rs, Event t r ''Apply'' n]"
    using mr_apply_continue_log [OF pruning(3)] log expected_cong(2) [OF fr, of P] by auto
  obtain rest where rest: "p_Log s' = p_Log s3 @ rest"
    and g: "list_all (prune_effect P c stale (l_obj L')) rest"
    using mr_prune_log [OF pruning(4)] by (auto simp: log_ext_def pe)
  have uuid: "st_ReleaseUUID (cr_Status (l_obj L')) = owner_uuid (l_obj L) rs"
    using mr_prune_keeps_uuid [OF pruning(4)] mr_apply_keeps_uuid [OF pruning(3)]
      mr_plan_sets_uuid [OF pruning(1,2)] by simp
  have "body_effects P (p_World s) (l_obj L) (l_obj L') ([] @ apply_call P (l_obj L) rs # Event t r ''Apply'' n # rest)"
    unfolding body_effects_def
    by (intro disjI2, intro exI [of _ "[]"], intro exI [of _ rr], intro exI [of _ rs])
      (use uuid mr_render_rendered [OF pruning(1)] mr_apply_continue_succeeds [OF pruning(3)] expected_cong(3) [OF fr, of P rs] mr_plan_continue(1) [OF pruning(2)] g c stale in \<open>simp add: prune_effect_def\<close>)
  with 3 rest show ?thesis by (intro exI [of _ "apply_call P (l_obj L) rs # Event t r ''Apply'' n # rest"]) simp
qed

lemma prune_effect_kinds: "prune_effect P c stale mr e \<Longrightarrow> is_event e \<or> is_apply e \<or> is_delete e"
  by (auto simp: prune_effect_def guarded_delete_def)

lemma body_effects_kinds:
  assumes "body_effects P w mr mr' es"
  shows "list_all (\<lambda>e. is_event e \<or> is_apply e \<or> is_delete e) es"
  using assms prune_effect_kinds
  by (fastforce simp: body_effects_def apply_call_def list_all_iff)

text \<open>What a reconciled body has done.\<close>

definition applied_result ::
  "('w, 'v) mr_params \<Rightarrow> ModuleRelease \<Rightarrow> 'v RenderResult \<Rightarrow> unstructured list \<Rightarrow> string \<Rightarrow> bool" where
  "applied_result P mr rr rs d \<longleftrightarrow> RenderDigest (pa_Cue P) (rr_Resources rr) = Inr d
     \<and> toUnstructuredSlice (pa_Cue P) (rr_Resources rr) = Inr rs \<and> apply_succeeds P mr rs
     \<and> rendered P mr rr"

lemma mr_body_reconciled:
  assumes "mr_body P L s = (x, L', s')" and "l_reconciled L'" and "fresh L"
  shows "\<exists>rr rs d. applied_result P (l_obj L) rr rs d \<and> l_newEntries L' = rr_InventoryEntries rr
    \<and> l_digests L' = desired_digests P (cr_Spec (l_obj L)) d (rr_InventoryEntries rr)
    \<and> (\<exists>pre post. p_Log s' = p_Log s @ pre @ apply_call P (l_obj L) rs # post)"
  using assms(1)
proof (cases rule: mr_body_cases)
  case rendering
  then show ?thesis
    by (cases rule: mr_render_cases) (use assms(2,3) in \<open>auto simp: exit_defs\<close>)
next
  case (planning rr L1 s1)
  note fr = fresh_continue(1) [OF planning(1) assms(3)]
  from planning(2) show ?thesis
    by (cases rule: mr_plan_cases) (use fr assms(2) in \<open>auto simp: exit_defs\<close>)
next
  case (applying rr L1 s1 rs stale L2 s2)
  note fr = fresh_continue(2) [OF applying(2) fresh_continue(1) [OF applying(1) assms(3)]]
  from applying(3) show ?thesis
    by (cases rule: mr_apply_cases) (use fr assms(2) in \<open>auto simp: exit_defs\<close>)
next
  case (pruning rr L1 s1 rs stale L2 s2 c sa L3 s3)
  have fr: "same_ledger (l_obj L) (l_obj L2)"
    by (rule same_ledger_trans [OF mr_render_frame [OF pruning(1)] mr_plan_frame [OF pruning(2)]])
  obtain d where d: "RenderDigest (pa_Cue P) (rr_Resources rr) = Inr d"
    "l_digests L1 = desired_digests P (cr_Spec (l_obj L)) d (rr_InventoryEntries rr)"
    using mr_render_continue(7) [OF pruning(1)] by blast
  have 2: "l_digests L2 = l_digests L1"
    using pruning(2) by (cases rule: mr_plan_cases) simp_all
  have 3: "l_digests L3 = l_digests L2" "l_newEntries L3 = rr_InventoryEntries rr"
    using pruning(3) by (cases rule: mr_apply_cases; simp)+
  have 4: "l_digests L' = l_digests L3" "l_newEntries L' = l_newEntries L3"
    using pruning(4) by (cases rule: mr_prune_cases; simp add: pruning_locals_def)+
  have "applied_result P (l_obj L) rr rs d"
    using d(1) mr_plan_continue(1) [OF pruning(2)] mr_apply_continue_succeeds [OF pruning(3)]
      expected_cong(3) [OF fr, of P rs] mr_render_rendered [OF pruning(1)]
    by (auto simp: applied_result_def rendered_def)
  moreover obtain t r n es where "p_Log s' = p_Log s @ [] @ apply_call P (l_obj L) rs # Event t r ''Apply'' n # es"
    using mr_apply_continue_log [OF pruning(3)] mr_prune_log [OF pruning(4)]
      mr_plan_continue(2) [OF pruning(2)] mr_render_continue_log [OF pruning(1)]
      expected_cong(2) [OF fr, of P rs]
    by (auto simp: log_ext_def)
  ultimately show ?thesis using d(2) 2 3 4 by metis
qed

subsection \<open>Conditions of each outcome\<close>

abbreviation conds :: "('sp, 'b CommonStatus_scheme) CustomResource \<Rightarrow> Condition list" where
  "conds o1 \<equiv> st_Conditions (cr_Status o1)"

definition cond_is :: "kube_lib \<Rightarrow> Condition list \<Rightarrow> string \<Rightarrow> ConditionStatus \<Rightarrow> bool" where
  "cond_is K cs t v \<longleftrightarrow> (case k_FindStatusCondition K cs t of None \<Rightarrow> False | Some c \<Rightarrow> c_Status c = v)"

definition no_cond :: "kube_lib \<Rightarrow> Condition list \<Rightarrow> string \<Rightarrow> bool" where
  "no_cond K cs t \<longleftrightarrow> k_FindStatusCondition K cs t = None"

definition progress_conds :: "kube_lib \<Rightarrow> Condition list \<Rightarrow> bool" where
  "progress_conds K cs \<longleftrightarrow> conditions_ok cs \<and> cond_is K cs ReadyCondition ConditionUnknown
     \<and> cond_is K cs ReconcilingCondition ConditionTrue \<and> no_cond K cs StalledCondition"

definition outcome_conds :: "kube_lib \<Rightarrow> Outcome \<Rightarrow> Condition list \<Rightarrow> bool" where
  "outcome_conds K outcome cs \<longleftrightarrow>
     (case outcome of
        FailedStalled \<Rightarrow> cond_is K cs ReadyCondition ConditionFalse
          \<and> cond_is K cs StalledCondition ConditionTrue \<and> no_cond K cs ReconcilingCondition
      | FailedTransient \<Rightarrow> cond_is K cs ReadyCondition ConditionFalse
          \<and> cond_is K cs ReconcilingCondition ConditionTrue \<and> no_cond K cs StalledCondition
      | _ \<Rightarrow> cond_is K cs ReadyCondition ConditionTrue
          \<and> no_cond K cs ReconcilingCondition \<and> no_cond K cs StalledCondition)"

lemmas cond_defs = progress_conds_def outcome_conds_def cond_is_def no_cond_def condition_types

context flux_conditions
begin

lemma progress_MarkReconciling: "conditions_ok cs \<Longrightarrow> progress_conds K (MarkReconciling K r m cs)"
  by (simp add: cond_defs find_marks ok_marks)

lemma progress_keeps:
  assumes "progress_conds K cs"
  shows "progress_conds K (MarkModuleResolved K r cs)" "progress_conds K (MarkDrifted K n cs)"
    "progress_conds K (ClearDrifted K cs)"
  using assms by (simp_all add: cond_defs find_marks ok_marks)

lemma progress_drift: "progress_conds K cs \<Longrightarrow> drift_mark K g \<Longrightarrow> progress_conds K (g cs)"
  by (auto simp: drift_mark_def progress_keeps)

lemma outcome_marks:
  assumes "conditions_ok cs"
  shows "outcome_conds K FailedStalled (MarkStalled K r m cs)"
    "outcome_conds K NoOp (MarkReady K t cs)" "outcome_conds K Applied (MarkReady K t cs)"
    "outcome_conds K AppliedAndPruned (MarkReady K t cs)"
  using assms by (simp_all add: cond_defs find_marks)

lemma outcome_transient: "progress_conds K cs \<Longrightarrow> outcome_conds K FailedTransient (MarkNotReady K r m cs)"
  by (simp add: cond_defs find_marks)

lemma progress_ok: "progress_conds K cs \<Longrightarrow> conditions_ok cs"
  by (simp add: progress_conds_def)

lemmas progress_intros = progress_MarkReconciling progress_keeps progress_drift outcome_marks
  outcome_transient progress_ok ok_marks

end

text \<open>The conditions at the end of the body: those of the outcome, unless it is a no-op.\<close>

definition body_conds :: "kube_lib \<Rightarrow> mr_locals \<Rightarrow> bool" where
  "body_conds K L \<longleftrightarrow> conditions_ok (conds (l_obj L))
     \<and> (l_outcome L \<noteq> NoOp \<longrightarrow> outcome_conds K (l_outcome L) (conds (l_obj L)))"

lemma mr_render_conds:
  assumes fc: "flux_conditions (pa_Kube P)" and ok: "conditions_ok (conds (l_obj L))"
    and fr: "fresh L" and r: "mr_render P L s = (f, L', s')"
  shows "case f of Stop x \<Rightarrow> body_conds (pa_Kube P) L' | Continue rr \<Rightarrow> progress_conds (pa_Kube P) (conds (l_obj L'))"
proof -
  note intros = flux_conditions.progress_intros [OF fc]
  have p: "progress_conds (pa_Kube P) (conds (l_obj (rendering P L)))"
    "progress_conds (pa_Kube P) (conds (l_obj (resolved P L)))"
    using ok by (simp_all add: rendering_def resolved_def Let_def intros)
  from r show ?thesis
    by (cases rule: mr_render_cases)
      (use p fr in \<open>auto simp: body_conds_def fail_with_def intros fresh_def progress_conds_def\<close>)
qed

lemma mr_plan_conds:
  assumes fc: "flux_conditions (pa_Kube P)" and ok: "progress_conds (pa_Kube P) (conds (l_obj L))"
    and r: "mr_plan P rr L s = (f, L', s')"
  shows "case f of Stop x \<Rightarrow> body_conds (pa_Kube P) L' | Continue q \<Rightarrow> progress_conds (pa_Kube P) (conds (l_obj L'))"
proof -
  note intros = flux_conditions.progress_intros [OF fc]
  from r show ?thesis
    by (cases rule: mr_plan_cases)
      (use ok intros in \<open>auto simp: body_conds_def fail_with_def\<close>)
qed

lemma mr_apply_conds:
  assumes fc: "flux_conditions (pa_Kube P)" and ok: "progress_conds (pa_Kube P) (conds (l_obj L))"
    and fr: "l_outcome L = NoOp" and r: "mr_apply P rr rs L s = (f, L', s')"
  shows "case f of Stop x \<Rightarrow> body_conds (pa_Kube P) L' | Continue q \<Rightarrow> progress_conds (pa_Kube P) (conds (l_obj L'))"
proof -
  note intros = flux_conditions.progress_intros [OF fc]
  from r show ?thesis
    by (cases rule: mr_apply_cases)
      (use ok fr intros in \<open>auto simp: body_conds_def fail_with_def\<close>)
qed

lemma mr_prune_conds:
  assumes fc: "flux_conditions (pa_Kube P)" and ok: "progress_conds (pa_Kube P) (conds (l_obj L))"
    and r: "mr_prune P c stale sa L s = (x, L', s')"
  shows "body_conds (pa_Kube P) L'"
proof -
  note intros = flux_conditions.progress_intros [OF fc]
  from r show ?thesis
    by (cases rule: mr_prune_cases)
      (use ok intros in \<open>auto simp: body_conds_def pruning_locals_def split: if_splits\<close>)
qed

lemma mr_body_conds:
  assumes fc: "flux_conditions (pa_Kube P)" and ok: "conditions_ok (conds (l_obj L))"
    and fr: "fresh L" and b: "mr_body P L s = (x, L', s')"
  shows "body_conds (pa_Kube P) L'"
  using b
proof (cases rule: mr_body_cases)
  case rendering
  then show ?thesis using mr_render_conds [OF fc ok fr] by fastforce
next
  case (planning rr L1 s1)
  have "progress_conds (pa_Kube P) (conds (l_obj L1))"
    using mr_render_conds [OF fc ok fr planning(1)] by simp
  then show ?thesis using mr_plan_conds [OF fc] planning(2) by fastforce
next
  case (applying rr L1 s1 rs stale L2 s2)
  have "progress_conds (pa_Kube P) (conds (l_obj L1))"
    using mr_render_conds [OF fc ok fr applying(1)] by simp
  then have "progress_conds (pa_Kube P) (conds (l_obj L2))"
    using mr_plan_conds [OF fc _ applying(2)] by simp
  moreover have "l_outcome L2 = NoOp"
    using fresh_continue(2) [OF applying(2) fresh_continue(1) [OF applying(1) fr]] by (simp add: fresh_def)
  ultimately show ?thesis using mr_apply_conds [OF fc _ _ applying(3)] by simp
next
  case (pruning rr L1 s1 rs stale L2 s2 c sa L3 s3)
  have "progress_conds (pa_Kube P) (conds (l_obj L1))"
    using mr_render_conds [OF fc ok fr pruning(1)] by simp
  then have "progress_conds (pa_Kube P) (conds (l_obj L2))"
    using mr_plan_conds [OF fc _ pruning(2)] by simp
  moreover have "l_outcome L2 = NoOp"
    using fresh_continue(2) [OF pruning(2) fresh_continue(1) [OF pruning(1) fr]] by (simp add: fresh_def)
  ultimately have "progress_conds (pa_Kube P) (conds (l_obj L3))"
    using mr_apply_conds [OF fc _ _ pruning(3)] by simp
  then show ?thesis using mr_prune_conds [OF fc _ pruning(4)] by simp
qed

subsection \<open>The deferred commit\<close>

text \<open>The status a commit writes, as a function of the clock readings it makes.\<close>

definition commit_status ::
  "kube_lib \<Rightarrow> mr_locals \<Rightarrow> instant \<Rightarrow> instant \<Rightarrow> duration \<Rightarrow> instant option \<Rightarrow> ModuleReleaseStatus" where
  "commit_status K L now t d retryAt =
     (let st = cr_Status (l_obj L) in
      if l_outcome L = NoOp then
        (updateFailureCounters NoOp (l_phases L)
           (st\<lparr>st_Conditions := MarkReady K ''Reconciliation succeeded'' (st_Conditions st)\<rparr>))
        \<lparr>st_NextRetryAt := None\<rparr>
      else
        (updateFailureCounters (l_outcome L) (l_phases L)
          (record_outcome L now t (record_attempt now d (l_digests L)
            (st\<lparr>st_ObservedGeneration := om_Generation (cr_Meta (l_obj L))\<rparr>))))
        \<lparr>st_NextRetryAt := retryAt\<rparr>)"

definition committed :: "kube_lib \<Rightarrow> mr_locals \<Rightarrow> ModuleRelease \<Rightarrow> bool" where
  "committed K L mr' \<longleftrightarrow> (\<exists>now t d retryAt.
     mr' = (l_obj L)\<lparr>cr_Status := commit_status K L now t d retryAt\<rparr>
     \<and> (retryAt = None \<longleftrightarrow> l_retryAfter L \<le> 0))"

lemma since_log [effect_simps]: "since P start s = (d, s') \<Longrightarrow> p_Log s' = p_Log s"
  by (auto simp: since_def effect_simps split: prod.splits)

lemma history_time_log [effect_simps]: "history_time L P s = (t, s') \<Longrightarrow> p_Log s' = p_Log s"
  by (auto simp: history_time_def effect_simps split: if_splits)

lemma next_retry_log [effect_simps]: "next_retry L P s = (t, s') \<Longrightarrow> p_Log s' = p_Log s"
  by (auto simp: next_retry_def effect_simps split: if_splits prod.splits)

lemma next_retry_None: "next_retry L P s = (t, s') \<Longrightarrow> t = None \<longleftrightarrow> l_retryAfter L \<le> 0"
  by (auto simp: next_retry_def split: if_splits prod.splits)

lemma mr_commit_noop_log:
  assumes "l_outcome L = NoOp"
  shows "\<exists>mr'. p_Log (mr_commit_noop P start L s) = p_Log s @ [PatchStatus mr' mr_owned True]
    \<and> committed (pa_Kube P) L mr'"
proof -
  let ?mr = "(l_obj L)\<lparr>cr_Status := commit_status (pa_Kube P) L 0 0 0 None\<rparr>"
  have mr: "map_status (\<lambda>st. (updateFailureCounters NoOp (l_phases L) st)\<lparr>st_NextRetryAt := None\<rparr>)
      (on_conditions (MarkReady (pa_Kube P) ''Reconciliation succeeded'') (l_obj L)) = ?mr"
    using assms
    by (simp add: commit_status_def Let_def map_status_def on_conditions_def SetConditions_def GetConditions_def)
  have "p_Log (mr_commit_noop P start L s) = p_Log s @ [PatchStatus ?mr mr_owned True]"
    using assms mr
    by (auto simp: mr_commit_noop_def Let_def effect_simps split: prod.splits dest!: patch_status_log)
  moreover have "committed (pa_Kube P) L ?mr"
    using assms unfolding committed_def
    by (intro exI [of _ 0] exI [of _ "if l_retryAfter L \<le> 0 then None else Some 0"])
      (simp add: commit_status_def)
  ultimately show ?thesis by blast
qed

lemma mr_commit_log:
  "\<exists>mr'. p_Log (mr_commit P start L s) = p_Log s @ [PatchStatus mr' mr_owned True]
    \<and> committed (pa_Kube P) L mr'"
proof (cases "l_outcome L = NoOp")
  case True
  then show ?thesis using mr_commit_noop_log by (simp add: mr_commit_def)
next
  case False
  obtain now s1 where 1: "call (pa_Now P) s = (now, s1)" by fastforce
  obtain d s2 where 2: "since P start s1 = (d, s2)" by fastforce
  obtain t s3 where 3: "history_time L P s2 = (t, s3)" by fastforce
  obtain ra s4 where 4: "next_retry L P s3 = (ra, s4)" by fastforce
  obtain d2 s5 where 5: "since P start s4 = (d2, s5)" by fastforce
  let ?mr = "(l_obj L)\<lparr>cr_Status := commit_status (pa_Kube P) L now t d ra\<rparr>"
  have "map_status (\<lambda>st. st\<lparr>st_NextRetryAt := ra\<rparr>)
     (map_status (updateFailureCounters (l_outcome L) (l_phases L))
       (map_status (\<lambda>st. record_outcome L now t (record_attempt now d (l_digests L)
          (st\<lparr>st_ObservedGeneration := om_Generation (cr_Meta (l_obj L))\<rparr>))) (l_obj L))) = ?mr"
    using False by (simp add: commit_status_def Let_def map_status_def)
  then have "p_Log (mr_commit P start L s) = p_Log s @ [PatchStatus ?mr mr_owned True]"
    using False 1 2 3 4 5
    by (auto simp: mr_commit_def Let_def effect_simps split: prod.splits dest!: patch_status_log)
  moreover have "committed (pa_Kube P) L ?mr"
    unfolding committed_def using next_retry_None [OF 4] by blast
  ultimately show ?thesis by blast
qed

text \<open>Field by field.\<close>

lemma record_simps [status_simps]:
  "st_Inventory (updateFailureCounters oc ph st) = st_Inventory st"
  "st_History (updateFailureCounters oc ph st) = st_History st"
  "st_Conditions (updateFailureCounters oc ph st) = st_Conditions st"
  "lastApplied (updateFailureCounters oc ph st) = lastApplied st"
  "st_NextRetryAt (updateFailureCounters oc ph st) = st_NextRetryAt st"
  "st_ObservedGeneration (updateFailureCounters oc ph st) = st_ObservedGeneration st"
  "st_Inventory (record_attempt now d ds st) = st_Inventory st"
  "st_History (record_attempt now d ds st) = st_History st"
  "st_Conditions (record_attempt now d ds st) = st_Conditions st"
  "lastApplied (record_attempt now d ds st) = lastApplied st"
  "st_FailureCounters (record_attempt now d ds st) = st_FailureCounters st"
  "st_ObservedGeneration (record_attempt now d ds st) = st_ObservedGeneration st"
  by (simp_all add: updateFailureCounters_def record_attempt_def lastApplied_def Let_def)

lemma record_outcome_simps [status_simps]:
  "st_Conditions (record_outcome L now t st) = st_Conditions st"
  "st_FailureCounters (record_outcome L now t st) = st_FailureCounters st"
  "st_ObservedGeneration (record_outcome L now t st) = st_ObservedGeneration st"
  "st_Inventory (record_outcome L now t st) = (if l_reconciled L
     then Some (next_inventory (l_newEntries L) (st_Inventory st)) else st_Inventory st)"
  "lastApplied (record_outcome L now t st) = (if l_reconciled L
     then (l_digests L)\<lparr>ds_Inventory := ComputeDigest (l_newEntries L)\<rparr> else lastApplied st)"
  by (simp_all add: record_outcome_def RecordHistory_def record_applied_def Let_def lastApplied_def
      inventoryDigest_def next_inventory_def)

lemma lastApplied_update [status_simps]:
  "lastApplied (st\<lparr>st_NextRetryAt := x\<rparr>) = lastApplied st"
  "lastApplied (st\<lparr>st_Conditions := cs\<rparr>) = lastApplied st"
  "lastApplied (st\<lparr>st_ObservedGeneration := g\<rparr>) = lastApplied st"
  by (simp_all add: lastApplied_def)

lemma commit_status_fields [status_simps]:
  "st_Conditions (commit_status K L now t d ra) =
     (if l_outcome L = NoOp then MarkReady K ''Reconciliation succeeded'' (conds (l_obj L))
      else conds (l_obj L))"
  "st_Inventory (commit_status K L now t d ra) =
     (if l_outcome L \<noteq> NoOp \<and> l_reconciled L
      then Some (next_inventory (l_newEntries L) (st_Inventory (cr_Status (l_obj L))))
      else st_Inventory (cr_Status (l_obj L)))"
  "lastApplied (commit_status K L now t d ra) =
     (if l_outcome L \<noteq> NoOp \<and> l_reconciled L
      then (l_digests L)\<lparr>ds_Inventory := ComputeDigest (l_newEntries L)\<rparr>
      else lastApplied (cr_Status (l_obj L)))"
  "st_NextRetryAt (commit_status K L now t d ra) = (if l_outcome L = NoOp then None else ra)"
  by (simp_all add: commit_status_def Let_def status_simps)

subsection \<open>The handler by cases\<close>

lemma resume_event_log: "log_ext is_event s (resume_event P cs s)"
  by (auto simp: resume_event_def log_ext_def effect_simps split: option.splits)

text \<open>The world in which the body of a run starts, after the object and the clock were read.\<close>

definition run_world :: "('w, 'o, 'v, 'x) ReconcileParams_scheme \<Rightarrow> ('w, 'o) pstate \<Rightarrow> 'w" where
  "run_world P s1 = p_World (snd (call (pa_Now P) s1))"

lemma resume_event_world [simp]: "p_World (resume_event P cs s) = p_World s"
  by (simp add: resume_event_def Eventf_def emit_def split: option.splits)

lemma ReconcileModuleRelease_cases:
  assumes "ReconcileModuleRelease P req s = (x, s')"
  obtains
    (missing) e where "call (ca_Get (pa_CR P) req) s = (Inl e, s')"
      "x = Returned no_requeue (k_IgnoreNotFound (pa_Kube P) e)"
  | (finalizer) mr s1 s2 where "call (ca_Get (pa_CR P) req) s = (Inr mr, s1)" "p_Log s2 = p_Log s"
      "\<not> k_ContainsFinalizer (pa_Kube P) (om_Finalizers (cr_Meta mr)) FinalizerName"
      "snd (addFinalizer P mr s2) = s'"
  | (deleting) mr s1 s2 s3 where "call (ca_Get (pa_CR P) req) s = (Inr mr, s1)" "p_Log s2 = p_Log s"
      "k_ContainsFinalizer (pa_Kube P) (om_Finalizers (cr_Meta mr)) FinalizerName"
      "om_DeletionTimestamp (cr_Meta mr) \<noteq> None"
      "handleDeletion P mr s2 = (x, s3)" "p_Log s' = p_Log s3"
  | (suspended) mr s1 s2 start where "call (ca_Get (pa_CR P) req) s = (Inr mr, s1)" "p_Log s2 = p_Log s"
      "om_DeletionTimestamp (cr_Meta mr) = None" "sp_Suspend (cr_Spec mr)"
      "mr_suspend P start mr s2 = (x, s')"
  | (active) mr s1 s2 start L s3 where "call (ca_Get (pa_CR P) req) s = (Inr mr, s1)"
      "k_ContainsFinalizer (pa_Kube P) (om_Finalizers (cr_Meta mr)) FinalizerName"
      "om_DeletionTimestamp (cr_Meta mr) = None" "\<not> sp_Suspend (cr_Spec mr)"
      "log_ext is_event s s2" "p_World s2 = run_world P s1"
      "mr_body P (init_locals mr) s2 = (x, L, s3)" "s' = (if x = Diverged then s3 else mr_commit P start L s3)"
proof -
  obtain g s1 where g: "call (ca_Get (pa_CR P) req) s = (g, s1)" by fastforce
  show ?thesis
  proof (cases g)
    case (Inl e)
    with g assms show ?thesis by (intro missing) (auto simp: ReconcileModuleRelease_def)
  next
    case (Inr mr)
    obtain start s2 where st: "call (pa_Now P) s1 = (start, s2)" by fastforce
    have log: "p_Log s2 = p_Log s" using g st by (simp add: effect_simps)
    note run = assms [unfolded ReconcileModuleRelease_def g Inr, simplified, unfolded st, simplified]
    consider "\<not> k_ContainsFinalizer (pa_Kube P) (om_Finalizers (cr_Meta mr)) FinalizerName"
      | "k_ContainsFinalizer (pa_Kube P) (om_Finalizers (cr_Meta mr)) FinalizerName"
        "om_DeletionTimestamp (cr_Meta mr) \<noteq> None"
      | "k_ContainsFinalizer (pa_Kube P) (om_Finalizers (cr_Meta mr)) FinalizerName"
        "om_DeletionTimestamp (cr_Meta mr) = None" "sp_Suspend (cr_Spec mr)"
      | "k_ContainsFinalizer (pa_Kube P) (om_Finalizers (cr_Meta mr)) FinalizerName"
        "om_DeletionTimestamp (cr_Meta mr) = None" "\<not> sp_Suspend (cr_Spec mr)"
      by blast
    then show ?thesis
    proof cases
      case 1
      with run g Inr log show ?thesis
        by (intro finalizer [of mr s1 s2]) (auto split: prod.splits option.splits)
    next
      case 2
      with run g Inr log show ?thesis
        by (auto simp: effect_simps split: prod.splits exit.splits intro: deleting)
    next
      case 3
      with run g Inr log show ?thesis by (intro suspended [of mr s1 s2 start]) auto
    next
      case 4
      obtain y L s3 where b: "mr_body P (init_locals mr) (resume_event P (conds mr) s2) = (y, L, s3)"
        by (metis prod_cases3)
      have "log_ext is_event s (resume_event P (conds mr) s2)"
        using resume_event_log [of s2 P "conds mr"] log by (simp add: log_ext_def)
      moreover have "p_World (resume_event P (conds mr) s2) = run_world P s1" using st by (simp add: run_world_def)
      ultimately show ?thesis using 4 run g Inr b
        by (intro active [of mr s1 "resume_event P (conds mr) s2" L s3 start]) auto
    qed
  qed
qed

end
