(* ===== verification/Opm_Cluster.thy ===== *)
theory Opm_Cluster
  imports Opm_Apply
begin

text \<open>
  The API server as prune sees it. \<open>view w\<close> gives the labels of every live object by
  group, kind, namespace and name; an object whose deletion the server has accepted is no
  longer in the view, although a read may still return it until its finalizers have run.
  Calls may fail, and a failed call changes nothing in the view.
\<close>

definition obj_key :: "unstructured \<Rightarrow> string \<times> string \<times> string \<times> string" where
  "obj_key u = (gvk_Group (u_GVK u), gvk_Kind (u_GVK u), u_Namespace u, u_Name u)"

definition nn_key :: "GroupVersionKind \<Rightarrow> NamespacedName \<Rightarrow> string \<times> string \<times> string \<times> string" where
  "nn_key g n = (gvk_Group g, gvk_Kind g, nn_Namespace n, nn_Name n)"

lemma nn_key_entry [simp]: "nn_key (entry_gvk e) (entry_nn e) = k8s_key e"
  by (simp add: nn_key_def entry_gvk_def entry_nn_def k8s_key_def)

type_synonym cluster_view = "string \<times> string \<times> string \<times> string \<Rightarrow> (string \<Rightarrow> string option) option"

text \<open>What pruning one entry should leave of the cluster.\<close>

definition prune_key :: "string \<Rightarrow> InventoryEntry
  \<Rightarrow> cluster_view \<Rightarrow> cluster_view" where
  "prune_key uuid e v = (case v (k8s_key e) of
      None \<Rightarrow> v
    | Some l \<Rightarrow> if isSafeToDelete e \<and> prunable_labels uuid l then v(k8s_key e := None) else v)"

text \<open>The labels of live objects never change, so one pass decides every entry.\<close>

definition prunable_keys :: "string \<Rightarrow> InventoryEntry list
  \<Rightarrow> cluster_view
  \<Rightarrow> (string \<times> string \<times> string \<times> string) set" where
  "prunable_keys uuid es v = {k8s_key e | e l. e \<in> set es \<and> isSafeToDelete e
     \<and> v (k8s_key e) = Some l \<and> prunable_labels uuid l}"

lemma prune_key_eq:
  "prune_key uuid e v = (\<lambda>k. if k \<in> prunable_keys uuid [e] v then None else v k)"
  by (rule ext) (auto simp: prune_key_def prunable_keys_def split: option.splits)

lemma prunable_keys_step:
  "(\<lambda>k. if k \<in> prunable_keys uuid es (prune_key uuid e v) then None else prune_key uuid e v k)
   = (\<lambda>k. if k \<in> prunable_keys uuid (e # es) v then None else v k)"
  by (rule ext) (auto simp: prunable_keys_def prune_key_def split: option.splits if_splits)

locale live_cluster =
  fixes K :: kube_lib
    and L :: "'w live_api"
    and view :: "'w \<Rightarrow> cluster_view"
  assumes Get_view: "la_Get L c g n w = (r, w') \<Longrightarrow> view w' = view w"
    and Get_found: "la_Get L c g n w = (Inr u, w') \<Longrightarrow>
      obj_key u = nn_key g n \<and> (view w (nn_key g n) = None \<or> view w (nn_key g n) = Some (u_Labels u))"
    and Get_missing: "la_Get L c g n w = (Inl e, w') \<Longrightarrow> k_IsNotFound K e \<Longrightarrow> view w (nn_key g n) = None"
    and Delete_done: "la_Delete L c u w = (None, w') \<Longrightarrow> view w' = (view w)(obj_key u := None)"
    and Delete_failed: "la_Delete L c u w = (Some e, w') \<Longrightarrow> view w' = view w"
    and Delete_missing: "la_Delete L c u w = (Some e, w') \<Longrightarrow> k_IsNotFound K e \<Longrightarrow> view w (obj_key u) = None"
begin

lemma prune_entry_view:
  assumes "prune_entry K L c uuid e (res, errs, s) = (res', errs', s')"
  shows "(errs' = errs \<and> view (p_World s') = prune_key uuid e (view (p_World s)))
    \<or> (\<exists>x. errs' = errs @ [x] \<and> view (p_World s') = view (p_World s))"
proof (cases "isSafeToDelete e")
  case False
  then show ?thesis using assms by (auto simp: prune_entry_def prune_key_def split: option.splits)
next
  case safe: True
  obtain g w1 where g: "la_Get L c (entry_gvk e) (entry_nn e) (p_World s) = (g, w1)" by fastforce
  note v1 = Get_view [OF g]
  show ?thesis
  proof (cases g)
    case (Inl x)
    with g assms safe v1 Get_missing [of c "entry_gvk e" "entry_nn e" "p_World s" x w1] show ?thesis
      by (auto simp: prune_entry_def prune_key_def call_def split: if_splits option.splits)
  next
    case (Inr u)
    have u: "obj_key u = k8s_key e"
      "view (p_World s) (k8s_key e) = None \<or> view (p_World s) (k8s_key e) = Some (u_Labels u)"
      using Get_found g Inr by fastforce+
    show ?thesis
    proof (cases "prunable_labels uuid (u_Labels u)")
      case False
      then have "errs' = errs" "p_World s' = w1"
        using g Inr assms safe
        by (auto simp: prune_entry_def prunable_labels_def call_def Let_def split: if_splits)
      then show ?thesis using False v1 u by (auto simp: prune_key_def split: option.splits)
    next
      case True
      obtain d w2 where d: "la_Delete L c u w1 = (d, w2)" by fastforce
      have run: "p_World s' = w2"
        "errs' = (case d of None \<Rightarrow> errs | Some x \<Rightarrow> if k_IsNotFound K x then errs
           else errs @ [Errorf_w (prune_msg ''delete'' e) x []])"
        using g Inr assms safe d True
        by (auto simp: prune_entry_def prunable_labels_def call_def mcall_def emit_def Let_def
            split: if_splits option.splits)
      show ?thesis
      proof (cases d)
        case None
        with d Delete_done have "view w2 = (view w1)(k8s_key e := None)" by (metis u(1))
        with run None v1 u(2) safe True show ?thesis
          by (auto simp: prune_key_def fun_upd_idem split: option.splits)
      next
        case (Some x)
        with d Delete_failed Delete_missing u(1)
        have "view w2 = view w1" "k_IsNotFound K x \<Longrightarrow> view w1 (k8s_key e) = None"
          by metis+
        with run Some v1 u(2) safe True show ?thesis
          by (auto simp: prune_key_def split: option.splits if_splits)
      qed
    qed
  qed
qed

lemma prune_loop_errs: "prune_loop K L c uuid es (res, errs, s) = (res', errs', s') \<Longrightarrow> \<exists>xs. errs' = errs @ xs"
proof (induction es arbitrary: res errs s)
  case (Cons e es)
  obtain r1 e1 s1 where 1: "prune_entry K L c uuid e (res, errs, s) = (r1, e1, s1)" by (metis prod_cases3)
  with prune_entry_view [OF 1] Cons.IH [of r1 e1 s1] Cons.prems show ?case by auto
qed simp

lemma prune_loop_view:
  assumes "prune_loop K L c uuid es (res, errs, s) = (res', errs, s')"
  shows "view (p_World s') =
    (\<lambda>k. if k \<in> prunable_keys uuid es (view (p_World s)) then None else view (p_World s) k)"
  using assms
proof (induction es arbitrary: res s)
  case Nil
  then show ?case by (simp add: prunable_keys_def)
next
  case (Cons e es)
  obtain r1 e1 s1 where 1: "prune_entry K L c uuid e (res, errs, s) = (r1, e1, s1)" by (metis prod_cases3)
  have rest: "prune_loop K L c uuid es (r1, e1, s1) = (res', errs, s')" using Cons.prems 1 by simp
  have e1: "e1 = errs" using prune_loop_errs [OF rest] prune_entry_view [OF 1] by auto
  then have v1: "view (p_World s1) = prune_key uuid e (view (p_World s))"
    using prune_entry_view [OF 1] by auto
  have "view (p_World s') =
      (\<lambda>k. if k \<in> prunable_keys uuid es (view (p_World s1)) then None else view (p_World s1) k)"
    using Cons.IH [of r1 s1] rest e1 by simp
  then show ?case by (simp only: v1 prunable_keys_step)
qed

lemma prune_loop_shrinks:
  assumes "prune_loop K L c uuid es (res, errs, s) = (res', errs', s')"
  shows "view (p_World s') k = view (p_World s) k
    \<or> view (p_World s') k = None \<and> k \<in> prunable_keys uuid es (view (p_World s))"
  using assms
proof (induction es arbitrary: res errs s)
  case (Cons e es)
  obtain r1 e1 s1 where 1: "prune_entry K L c uuid e (res, errs, s) = (r1, e1, s1)" by (metis prod_cases3)
  have rest: "prune_loop K L c uuid es (r1, e1, s1) = (res', errs', s')" using Cons.prems 1 by simp
  note ih = Cons.IH [OF rest]
  have sub: "prunable_keys uuid es (view (p_World s1)) \<subseteq> prunable_keys uuid (e # es) (view (p_World s))"
    "prunable_keys uuid [e] (view (p_World s)) \<subseteq> prunable_keys uuid (e # es) (view (p_World s))"
    using prune_entry_view [OF 1]
    by (auto simp: prunable_keys_def prune_key_def split: option.splits if_splits)
  show ?case
    using prune_entry_view [OF 1] ih sub by (auto simp: prune_key_eq split: if_splits)
qed simp

lemma Prune_view:
  assumes "Prune K L c uuid es s = (res, None, s')"
  shows "view (p_World s') =
    (\<lambda>k. if k \<in> prunable_keys uuid es (view (p_World s)) then None else view (p_World s) k)"
  using assms by (auto simp: Prune_def split: prod.splits intro: prune_loop_view)

lemma Prune_shrinks:
  assumes "Prune K L c uuid es s = (res, err, s')"
  shows "view (p_World s') k = view (p_World s) k
    \<or> view (p_World s') k = None \<and> k \<in> prunable_keys uuid es (view (p_World s))"
  using assms by (auto simp: Prune_def split: prod.splits dest: prune_loop_shrinks)

end

subsection \<open>An in-memory API server\<close>

text \<open>
  A functional API server: objects with labels and content by key, one custom resource, the
  existing ServiceAccounts and a clock. It satisfies the laws, and concrete runs of the
  controller are evaluated against it.
\<close>

record 'o mem_world =
  mw_Objects :: "string \<times> string \<times> string \<times> string \<Rightarrow> ((string \<Rightarrow> string option) \<times> string) option"
  mw_CR :: "'o option"
  mw_ServiceAccounts :: "NamespacedName list"
  mw_Clock :: instant

definition not_found_err :: goerr where
  "not_found_err = GoErr ''not found'' (StatusError ''NotFound'') []"

definition forbidden_err :: goerr where
  "forbidden_err = GoErr ''forbidden'' (StatusError ''Forbidden'') []"

definition mem_live :: "'o mem_world live_api" where
  "mem_live = \<lparr>
     la_Get = (\<lambda>c g n w. case mw_Objects w (nn_key g n) of
        None \<Rightarrow> (Inl not_found_err, w)
      | Some (l, j) \<Rightarrow> (Inr \<lparr>u_GVK = g, u_Namespace = nn_Namespace n, u_Name = nn_Name n,
            u_Labels = l, u_Content = j\<rparr>, w)),
     la_Delete = (\<lambda>c u w. case mw_Objects w (obj_key u) of
        None \<Rightarrow> (Some not_found_err, w)
      | Some _ \<Rightarrow> (None, w\<lparr>mw_Objects := (mw_Objects w)(obj_key u := None)\<rparr>))\<rparr>"

definition mem_action :: "unstructured \<Rightarrow> 'o mem_world \<Rightarrow> ssa_action" where
  "mem_action u w = (case mw_Objects w (obj_key u) of
      None \<Rightarrow> CreatedAction
    | Some (l, j) \<Rightarrow> if j = u_Content u then UnchangedAction else ConfiguredAction)"

fun mem_apply :: "unstructured list \<Rightarrow> 'o mem_world \<Rightarrow> ssa_action list \<times> 'o mem_world" where
  "mem_apply [] w = ([], w)"
| "mem_apply (u # us) w =
     (case mem_apply us (w\<lparr>mw_Objects := (mw_Objects w)(obj_key u \<mapsto> (u_Labels u, u_Content u))\<rparr>) of
        (as, w') \<Rightarrow> (mem_action u w # as, w'))"

definition mem_ssa :: "'o mem_world ssa_api" where
  "mem_ssa = \<lparr>
     sa_ApplyAllStaged = (\<lambda>rm us f w. case mem_apply us w of (as, w') \<Rightarrow> (Inr as, w')),
     sa_Diff = (\<lambda>rm u w. (Inr (mem_action u w), w))\<rparr>"

definition mem_auth :: "'o mem_world auth_api" where
  "mem_auth = \<lparr>
     aa_GetServiceAccount = (\<lambda>n w. if List.member (mw_ServiceAccounts w) n then (None, w)
        else (Some not_found_err, w)),
     aa_NewClient = (\<lambda>cfg w. (None, w))\<rparr>"

definition mem_cr :: "('o mem_world, 'o) cr_api" where
  "mem_cr = \<lparr>
     ca_Get = (\<lambda>n w. case mw_CR w of None \<Rightarrow> (Inl not_found_err, w) | Some o1 \<Rightarrow> (Inr o1, w)),
     ca_Patch = (\<lambda>o1 o2 w. (None, w\<lparr>mw_CR := Some o2\<rparr>)),
     ca_PatchStatus = (\<lambda>o1 owned g w. (None, w\<lparr>mw_CR := Some o1\<rparr>))\<rparr>"

definition mem_now :: "'o mem_world \<Rightarrow> instant \<times> 'o mem_world" where
  "mem_now w = (mw_Clock w, w\<lparr>mw_Clock := mw_Clock w + 1\<rparr>)"

definition mem_view :: "'o mem_world \<Rightarrow> cluster_view" where
  "mem_view w k = map_option fst (mw_Objects w k)"

lemma std_reason_errs [simp]:
  "std_reason not_found_err = Some ''NotFound''" "std_reason forbidden_err = Some ''Forbidden''"
  by (simp_all add: std_reason_def not_found_err_def forbidden_err_def errors_As_StatusError_def)

interpretation mem: live_cluster std_kube mem_live mem_view
proof
  fix c :: kclient and g :: GroupVersionKind and n :: NamespacedName and w w' :: "'o mem_world"
    and u :: unstructured and e :: goerr and r
  show "mem_view w' = mem_view w" if "la_Get mem_live c g n w = (r, w')"
    using that by (auto simp: mem_live_def split: option.splits)
  show "obj_key u = nn_key g n \<and> (mem_view w (nn_key g n) = None \<or> mem_view w (nn_key g n) = Some (u_Labels u))"
    if "la_Get mem_live c g n w = (Inr u, w')"
    using that by (auto simp: mem_live_def mem_view_def obj_key_def nn_key_def split: option.splits)
  show "mem_view w (nn_key g n) = None" if "la_Get mem_live c g n w = (Inl e, w')"
    using that by (auto simp: mem_live_def mem_view_def split: option.splits)
  show "mem_view w' = (mem_view w)(obj_key u := None)" if "la_Delete mem_live c u w = (None, w')"
    using that by (auto simp: mem_live_def mem_view_def fun_eq_iff split: option.splits)
  show "mem_view w' = mem_view w" if "la_Delete mem_live c u w = (Some e, w')"
    using that by (auto simp: mem_live_def split: option.splits)
  show "mem_view w (obj_key u) = None" if "la_Delete mem_live c u w = (Some e, w')"
    using that by (auto simp: mem_live_def mem_view_def split: option.splits)
qed

subsection \<open>Properties\<close>

text \<open>
  C14: pruning implements a filter on the cluster. Against an API server that satisfies the
  laws, whatever the outcome, pruning removes nothing but live objects of stale entries of
  a deletable kind that carry OPM's labels and no other owner's UUID; and if it reports no
  error, it has removed all of them and changed nothing else.
\<close>

lemma prune_refines_filter:
  assumes "live_cluster K L view" and "Prune K L c uuid stale s = (res, err, s')"
  shows "(\<forall>k. view (p_World s') k = view (p_World s) k
      \<or> view (p_World s') k = None \<and> k \<in> prunable_keys uuid stale (view (p_World s)))
    \<and> (err = None \<longrightarrow> view (p_World s') =
        (\<lambda>k. if k \<in> prunable_keys uuid stale (view (p_World s)) then None else view (p_World s) k))"
  using live_cluster.Prune_shrinks [OF assms] live_cluster.Prune_view [OF assms(1)] assms(2) by blast

definition sample_entry :: "string \<Rightarrow> InventoryEntry" where
  "sample_entry n = \<lparr>ie_Group = [], ie_Kind = ''ConfigMap'', ie_Namespace = ''prod'', ie_Name = n,
     ie_Version = ''v1'', ie_Component = []\<rparr>"

definition sample_proc :: "(unit mem_world, unit, unit) proc" where
  "sample_proc = \<lparr>p_World = \<lparr>mw_Objects = [k8s_key (sample_entry ''a'') \<mapsto> ([LabelManagedBy \<mapsto> ''opm-cli''], ''x''),
     k8s_key (sample_entry ''b'') \<mapsto> (Map.empty, ''y'')], mw_CR = None, mw_ServiceAccounts = [], mw_Clock = 0\<rparr>,
     p_Log = [], p_Metrics = ()\<rparr>"

lemma sample_view:
  "mem_view (p_World sample_proc) (k8s_key (sample_entry ''a'')) = Some [LabelManagedBy \<mapsto> ''opm-cli'']"
  "mem_view (p_World sample_proc) (k8s_key (sample_entry ''b'')) = Some Map.empty"
  by (simp_all add: mem_view_def sample_proc_def sample_entry_def k8s_key_def)

lemma sample_keys:
  "k8s_key (sample_entry ''a'') \<in> prunable_keys [] [sample_entry ''a'', sample_entry ''b''] (mem_view (p_World sample_proc))"
  "k8s_key (sample_entry ''b'') \<notin> prunable_keys [] [sample_entry ''a'', sample_entry ''b''] (mem_view (p_World sample_proc))"
proof -
  have "prunable_labels [] [LabelManagedBy \<mapsto> ''opm-cli'']" "\<not> prunable_labels [] Map.empty"
    by (simp_all add: prunable_labels_def) (simp add: IsOPMManagedBy_def LabelManagedByValue_def)
  moreover have "isSafeToDelete (sample_entry n)" for n by (simp add: isSafeToDelete_def sample_entry_def)
  moreover have "k8s_key (sample_entry ''a'') \<noteq> k8s_key (sample_entry ''b'')"
    by (simp add: k8s_key_def sample_entry_def)
  ultimately show "k8s_key (sample_entry ''a'') \<in> prunable_keys [] [sample_entry ''a'', sample_entry ''b''] (mem_view (p_World sample_proc))"
    "k8s_key (sample_entry ''b'') \<notin> prunable_keys [] [sample_entry ''a'', sample_entry ''b''] (mem_view (p_World sample_proc))"
    unfolding prunable_keys_def using sample_view by auto
qed

lemma sample_prune:
  "fst (snd (Prune std_kube mem_live ControllerClient [] [sample_entry ''a'', sample_entry ''b''] sample_proc)) = None"
  by (simp add: Prune_def prune_entry_def isSafeToDelete_def call_def mcall_def emit_def sample_proc_def
      sample_entry_def mem_live_def entry_gvk_def entry_nn_def nn_key_def obj_key_def k8s_key_def Let_def
      IsOPMManagedBy_def LabelManagedByValue_def LabelManagedByControllerValue_def
      LabelManagedByLegacyValue_def LabelManagedBy_def LabelModuleReleaseUUID_def)

lemma prune_refines_filter_witness:
  "let s' = snd (snd (Prune std_kube mem_live ControllerClient [] [sample_entry ''a'', sample_entry ''b''] sample_proc))
   in mem_view (p_World s') (k8s_key (sample_entry ''a'')) = None
     \<and> mem_view (p_World s') (k8s_key (sample_entry ''b'')) = Some Map.empty"
proof -
  obtain res s' where p: "Prune std_kube mem_live ControllerClient [] [sample_entry ''a'', sample_entry ''b'']
      sample_proc = (res, None, s')"
    using sample_prune by (metis prod.collapse)
  have laws: "live_cluster std_kube mem_live (mem_view :: unit mem_world \<Rightarrow> cluster_view)" by unfold_locales
  from prune_refines_filter [OF laws p] have "mem_view (p_World s') =
      (\<lambda>k. if k \<in> prunable_keys [] [sample_entry ''a'', sample_entry ''b''] (mem_view (p_World sample_proc))
        then None else mem_view (p_World sample_proc) k)"
    by blast
  with p sample_keys sample_view show ?thesis by simp
qed

end
