(* ===== verification/Opm_Demo.thy ===== *)
theory Opm_Demo
  imports Opm_ModuleRelease Opm_Cluster
begin

text \<open>
  A concrete release against the in-memory API server: module \<open>web\<close> renders one
  Deployment, and the release's previous inventory still holds a ConfigMap that it no
  longer renders. The witnesses of the handler properties are runs of this system.
\<close>

datatype dval = DObj unstructured | DStr string | DNone

definition demo_labels :: "string \<Rightarrow> string option" where
  "demo_labels = [LabelManagedBy \<mapsto> LabelManagedByControllerValue, LabelModuleReleaseUUID \<mapsto> ''u1'']"

definition web_obj :: unstructured where
  "web_obj = \<lparr>u_GVK = \<lparr>gvk_Group = ''apps'', gvk_Version = ''v1'', gvk_Kind = ''Deployment''\<rparr>,
     u_Namespace = ''prod'', u_Name = ''web'', u_Labels = demo_labels, u_Content = ''web-v2''\<rparr>"

definition old_obj :: unstructured where
  "old_obj = \<lparr>u_GVK = \<lparr>gvk_Group = [], gvk_Version = ''v1'', gvk_Kind = ''ConfigMap''\<rparr>,
     u_Namespace = ''prod'', u_Name = ''old'', u_Labels = demo_labels, u_Content = ''old''\<rparr>"

definition demo_lookup :: "string \<Rightarrow> dval \<Rightarrow> dval" where
  "demo_lookup p v = (case v of
      DObj u \<Rightarrow>
        if p = ''kind'' then DStr (gvk_Kind (u_GVK u))
        else if p = ''apiVersion'' then DStr (gvk_Group (u_GVK u) @ ''/'' @ gvk_Version (u_GVK u))
        else if p = ''metadata.name'' then DStr (u_Name u)
        else if p = ''metadata.namespace'' then DStr (u_Namespace u)
        else DNone
    | _ \<Rightarrow> DNone)"

definition demo_cue :: "dval cue_lib" where
  "demo_cue = \<lparr>cue_LookupPath = demo_lookup, cue_Exists = (\<lambda>v. v \<noteq> DNone),
     cue_String = (\<lambda>v. case v of DStr t \<Rightarrow> (t, None) | _ \<Rightarrow> ([], Some (errors_New ''not a string''))),
     cue_Err = (\<lambda>v. None),
     cue_MarshalJSON = (\<lambda>v. case v of DObj u \<Rightarrow> Inr (u_Content u) | _ \<Rightarrow> Inl (errors_New ''not an object'')),
     cue_DecodeMap = (\<lambda>v. (Map.empty, None)),
     cue_ToObject = (\<lambda>j. if j = ''web-v2'' then Inr web_obj else Inl (errors_New ''bad json''))\<rparr>"

definition web_resource :: "dval Resource" where
  "web_resource = \<lparr>r_Value = DObj web_obj, r_Release = ''web'', r_Component = ''web'', r_Transformer = ''t''\<rparr>"

definition demo_rr :: "dval RenderResult" where
  "demo_rr = \<lparr>rr_Resources = [web_resource], rr_InventoryEntries = [NewEntryFromResource web_obj],
     rr_Warnings = []\<rparr>"

type_synonym demo_world = "ModuleRelease mem_world"

definition demo_params :: "(demo_world, dval) mr_params" where
  "demo_params = \<lparr>pa_Kube = std_kube, pa_Cue = demo_cue, pa_CR = mem_cr, pa_Live = mem_live,
     pa_Ssa = mem_ssa, pa_Auth = mem_auth, pa_Now = mem_now, pa_RestConfig = True,
     pa_ResourceManager = \<lparr>rm_Client = ControllerClient, rm_Field = FieldManager, rm_Group = ''opm-controller''\<rparr>,
     pa_DefaultServiceAccount = [],
     pa_Renderer = (\<lambda>name ns path version values w. Some (Inr demo_rr, w)),
     pa_Canon = (\<lambda>j. Some j)\<rparr>"

definition demo_meta :: ObjectMeta where
  "demo_meta = \<lparr>om_Name = ''web'', om_Namespace = ''prod'', om_Generation = 2,
     om_Finalizers = [FinalizerName], om_DeletionTimestamp = None, om_Annotations = Map.empty\<rparr>"

definition demo_spec :: ModuleReleaseSpec where
  "demo_spec = \<lparr>sp_Suspend = False, sp_Prune = True, sp_ServiceAccountName = [], sp_Rollout = None,
     sp_Module = \<lparr>mod_Path = ''example.com/web'', mod_Version = ''v2''\<rparr>, sp_Values = None\<rparr>"

definition demo_inventory :: Inventory where
  "demo_inventory = \<lparr>inv_Revision = 1,
     inv_Digest = ComputeDigest [NewEntryFromResource web_obj, NewEntryFromResource old_obj],
     inv_Count = 2, inv_Entries = [NewEntryFromResource web_obj, NewEntryFromResource old_obj]\<rparr>"

definition demo_status :: ModuleReleaseStatus where
  "demo_status = empty_mr_status\<lparr>st_Inventory := Some demo_inventory, st_ReleaseUUID := ''u1''\<rparr>"

definition demo_mr :: ModuleRelease where
  "demo_mr = \<lparr>cr_Meta = demo_meta, cr_Spec = demo_spec, cr_Status = demo_status\<rparr>"

definition demo_req :: NamespacedName where
  "demo_req = \<lparr>nn_Namespace = ''prod'', nn_Name = ''web''\<rparr>"

definition demo_state :: "ModuleRelease \<Rightarrow> demo_world mr_state" where
  "demo_state mr = \<lparr>p_World = \<lparr>mw_Objects = [obj_key web_obj \<mapsto> (demo_labels, ''web-v1''),
        obj_key old_obj \<mapsto> (demo_labels, ''old'')], mw_CR = Some mr, mw_ServiceAccounts = [], mw_Clock = 100\<rparr>,
     p_Log = [], p_Metrics = empty_registry\<rparr>"

lemmas demo_data = demo_params_def demo_cue_def demo_lookup_def demo_rr_def web_resource_def
  web_obj_def old_obj_def demo_mr_def demo_meta_def demo_spec_def demo_status_def demo_inventory_def
  demo_state_def demo_labels_def empty_mr_status_def empty_common_def
  mem_cr_def mem_live_def mem_ssa_def mem_auth_def mem_now_def mem_action_def std_kube_def

lemmas label_names = LabelManagedBy_def LabelManagedByControllerValue_def LabelManagedByValue_def
  LabelManagedByLegacyValue_def LabelModuleReleaseUUID_def LabelComponentName_def

definition demo_digest :: string where
  "demo_digest = digest_of ''web-v2''"

lemma demo_params_simps [simp]:
  "pa_Kube demo_params = std_kube" "pa_Cue demo_params = demo_cue" "pa_CR demo_params = mem_cr"
  "pa_Live demo_params = mem_live" "pa_Ssa demo_params = mem_ssa" "pa_Auth demo_params = mem_auth"
  "pa_Now demo_params = mem_now" "pa_RestConfig demo_params" "pa_DefaultServiceAccount demo_params = []"
  "pa_Renderer demo_params n ns pt v vs w = Some (Inr demo_rr, w)"
  by (simp_all add: demo_params_def)

lemma demo_rr_simps [simp]:
  "rr_Resources demo_rr = [web_resource]" "rr_InventoryEntries demo_rr = [NewEntryFromResource web_obj]"
  by (simp_all add: demo_rr_def)

lemma demo_mr_simps [simp]:
  "cr_Spec demo_mr = demo_spec" "cr_Meta demo_mr = demo_meta" "cr_Status demo_mr = demo_status"
  "sp_Prune demo_spec" "\<not> sp_Suspend demo_spec" "sp_ServiceAccountName demo_spec = []"
  "sp_Rollout demo_spec = None" "sp_Values demo_spec = None"
  "sp_Module demo_spec = \<lparr>mod_Path = ''example.com/web'', mod_Version = ''v2''\<rparr>"
  "om_DeletionTimestamp demo_meta = None" "om_Finalizers demo_meta = [FinalizerName]"
  "om_Name demo_meta = ''web''" "om_Namespace demo_meta = ''prod''"
  "st_Inventory demo_status = Some demo_inventory" "st_ReleaseUUID demo_status = ''u1''"
  "st_Conditions demo_status = []" "st_LastAppliedSourceDigest demo_status = []"
  "st_FailureCounters demo_status = None" "st_History demo_status = []"
  "inv_Entries demo_inventory = [NewEntryFromResource web_obj, NewEntryFromResource old_obj]"
  by (simp_all add: demo_mr_def demo_spec_def demo_meta_def demo_status_def demo_inventory_def
      empty_mr_status_def empty_common_def CommonStatus.defs ModuleReleaseStatus.defs)

lemma demo_state_simps [simp]:
  "p_Log (demo_state mr) = []" "mw_CR (p_World (demo_state mr)) = Some mr"
  by (simp_all add: demo_state_def)

lemma mem_calls [simp]:
  "ca_Get mem_cr n w = (case mw_CR w of None \<Rightarrow> (Inl not_found_err, w) | Some o1 \<Rightarrow> (Inr o1, w))"
  "ca_Patch mem_cr o1 o2 w = (None, w\<lparr>mw_CR := Some o2\<rparr>)"
  "ca_PatchStatus mem_cr o1 owned g w = (None, w\<lparr>mw_CR := Some o1\<rparr>)"
  "sa_Diff mem_ssa rm u w = (Inr (mem_action u w), w)"
  "sa_ApplyAllStaged mem_ssa rm us f w = (case mem_apply us w of (as, w') \<Rightarrow> (Inr as, w'))"
  "aa_NewClient mem_auth cfg w = (None, w)"
  by (simp_all add: mem_cr_def mem_ssa_def mem_auth_def)

lemma demo_get: "call (ca_Get (pa_CR demo_params) demo_req) (demo_state mr) = (Inr mr, demo_state mr)"
  by (simp add: call_def)

lemma demo_render [simp]: "RenderDigest demo_cue [web_resource] = Inr demo_digest"
  by (simp add: RenderDigest_def SliceStable_def Resource_MarshalJSON_def demo_cue_def web_resource_def
      web_obj_def demo_digest_def)

lemma demo_convert [simp]: "toUnstructuredSlice demo_cue [web_resource] = Inr [web_obj]"
  by (simp add: toUnstructuredSlice_def ToUnstructured_def Resource_MarshalJSON_def demo_cue_def
      web_resource_def web_obj_def)

lemma demo_uuid [simp]: "extractReleaseUUID [web_obj] = ''u1''"
  by (simp add: web_obj_def demo_labels_def LabelManagedBy_def LabelModuleReleaseUUID_def)

lemma demo_keys [simp]:
  "obj_key web_obj = (''apps'', ''Deployment'', ''prod'', ''web'')"
  "obj_key old_obj = ([], ''ConfigMap'', ''prod'', ''old'')"
  by (simp_all add: obj_key_def web_obj_def old_obj_def)

lemma demo_stale [simp]:
  "ComputeStaleSet [NewEntryFromResource web_obj, NewEntryFromResource old_obj] [NewEntryFromResource web_obj]
     = [NewEntryFromResource old_obj]"
  by (simp add: ComputeStaleSet_def K8sIdentityEqual_def NewEntryFromResource_def web_obj_def old_obj_def)

lemma demo_old_entry [simp]:
  "isSafeToDelete (NewEntryFromResource old_obj)" "entry_gvk (NewEntryFromResource old_obj) = u_GVK old_obj"
  "entry_nn (NewEntryFromResource old_obj) = \<lparr>nn_Namespace = ''prod'', nn_Name = ''old''\<rparr>"
  by (simp_all add: isSafeToDelete_def entry_gvk_def entry_nn_def NewEntryFromResource_def old_obj_def)

lemma demo_owned [simp]: "prunable_labels ''u1'' demo_labels"
  "map_index demo_labels LabelModuleReleaseUUID = ''u1''"
  "IsOPMManagedBy (map_index demo_labels LabelManagedBy)"
  by (simp_all add: prunable_labels_def demo_labels_def IsOPMManagedBy_def LabelManagedBy_def
      LabelModuleReleaseUUID_def)

lemma mem_Get_old [simp]:
  "mw_Objects w ([], ''ConfigMap'', ''prod'', ''old'') = Some (demo_labels, ''old'') \<Longrightarrow>
     la_Get mem_live c (u_GVK old_obj) \<lparr>nn_Namespace = ''prod'', nn_Name = ''old''\<rparr> w = (Inr old_obj, w)"
  by (simp add: mem_live_def nn_key_def old_obj_def)

lemma mem_Delete_old [simp]:
  "mw_Objects w ([], ''ConfigMap'', ''prod'', ''old'') = Some v \<Longrightarrow>
     la_Delete mem_live c old_obj w =
       (None, w\<lparr>mw_Objects := (mw_Objects w)(([], ''ConfigMap'', ''prod'', ''old'') := None)\<rparr>)"
  by (simp add: mem_live_def)

lemma demo_objects [simp]:
  "mw_Objects (p_World (demo_state mr)) (''apps'', ''Deployment'', ''prod'', ''web'') = Some (demo_labels, ''web-v1'')"
  "mw_Objects (p_World (demo_state mr)) ([], ''ConfigMap'', ''prod'', ''old'') = Some (demo_labels, ''old'')"
  by (simp_all add: demo_state_def)

lemma demo_obj_simps [simp]: "u_Labels old_obj = demo_labels" "u_Labels web_obj = demo_labels"
  "u_Content web_obj = ''web-v2''"
  by (simp_all add: old_obj_def web_obj_def)

lemma demo_action [simp]: "mem_action web_obj (p_World (demo_state mr)) = ConfiguredAction"
  by (simp add: mem_action_def)

lemma errors_Join_Nil [simp]: "errors_Join [] = None"
  by simp

lemmas run_defs = mr_body_def mr_render_def mr_plan_def mr_apply_def mr_prune_def
  pruneStaleResources_def detectDrift_def DetectDrift_def buildApplyClient_def resolveEffectiveSA_def
  Apply_def Prune_def prune_entry_def stop_retry_def fail_with_def mark_def update_status_def
  init_locals_def resume_event_def Let_def call_def call_partial_def mcall_def emit_def Eventf_def metric_def

text \<open>The state in which the body starts: the clock has been read once.\<close>

definition demo_started :: "ModuleRelease \<Rightarrow> demo_world mr_state" where
  "demo_started mr = (demo_state mr)\<lparr>p_World := (p_World (demo_state mr))\<lparr>mw_Clock := 101\<rparr>\<rparr>"

lemma demo_started_simps [simp]:
  "p_Log (demo_started mr) = []"
  "mw_Objects (p_World (demo_started mr)) = mw_Objects (p_World (demo_state mr))"
  "mem_action web_obj (p_World (demo_started mr)) = ConfiguredAction"
  by (simp_all add: demo_started_def mem_action_def)

lemma std_kube_find [simp]:
  "k_FindStatusCondition std_kube = std_find" "k_ContainsFinalizer std_kube fs f = (f \<in> set fs)"
  by (simp_all add: std_kube_def)

lemma demo_active_run:
  assumes "FinalizerName \<in> set (om_Finalizers (cr_Meta mr))" "om_DeletionTimestamp (cr_Meta mr) = None"
    "\<not> sp_Suspend (cr_Spec mr)" "std_find (conds mr) ReadyCondition = None"
  shows "ReconcileModuleRelease demo_params demo_req (demo_state mr) =
    (case mr_body demo_params (init_locals mr) (demo_started mr) of
       (x, L, s3) \<Rightarrow> (x, if x = Diverged then s3 else mr_commit demo_params 100 L s3))"
proof -
  have c: "call mem_now (demo_state mr) = (100, demo_started mr)"
    by (simp add: call_def mem_now_def demo_state_def demo_started_def)
  show ?thesis
    using assms
    by (simp only: ReconcileModuleRelease_def demo_get) (simp add: c resume_event_def)
qed

definition demo_effects :: "ModuleRelease effect list" where
  "demo_effects = [ApplyAll (pa_ResourceManager demo_params) [web_obj] (forceConflicts demo_spec),
     Event EventTypeNormal AppliedReason ''Apply''
       (applied_note \<lparr>ar_Created = 0, ar_Updated = 1, ar_Unchanged = 0\<rparr>),
     DeleteObject ControllerClient old_obj,
     Event EventTypeNormal PrunedReason ''Prune'' (''Pruned '' @ nat_str 1 @ '' stale resources''),
     Event EventTypeNormal ReconciliationSucceededReason ''Reconcile'' ''Reconciliation succeeded'']"

lemma demo_body:
  "case mr_body demo_params (init_locals demo_mr) (demo_started demo_mr) of (x, L, s3) \<Rightarrow>
     x = Returned no_requeue None \<and> l_outcome L = AppliedAndPruned \<and> l_reconciled L
     \<and> l_newEntries L = [NewEntryFromResource web_obj] \<and> p_Log s3 = demo_effects"
  by (simp add: run_defs IsNoOp_def lastApplied_def previousEntries_def demo_effects_def)

lemma demo_run:
  obtains L s3 mr' where "mr_body demo_params (init_locals demo_mr) (demo_started demo_mr) =
      (Returned no_requeue None, L, s3)"
    "ReconcileModuleRelease demo_params demo_req (demo_state demo_mr) =
      (Returned no_requeue None, mr_commit demo_params 100 L s3)"
    "l_outcome L = AppliedAndPruned" "l_reconciled L" "committed std_kube L mr'"
    "new_effects (demo_state demo_mr) (mr_commit demo_params 100 L s3) =
       demo_effects @ [PatchStatus mr' mr_owned True]"
proof -
  obtain x L s3 where b: "mr_body demo_params (init_locals demo_mr) (demo_started demo_mr) = (x, L, s3)"
    by (metis prod_cases3)
  obtain mr' where "p_Log (mr_commit demo_params 100 L s3) = p_Log s3 @ [PatchStatus mr' mr_owned True]"
    "committed std_kube L mr'"
    using mr_commit_log [of demo_params 100 L s3] by auto
  then show thesis
    using b demo_body demo_active_run [of demo_mr] by (intro that [of L s3 mr']) (auto simp: new_effects_def)
qed

text \<open>Deleting the release prunes both objects of its inventory and gives up the finalizer.\<close>

lemma mem_Get_web [simp]:
  "mw_Objects w (''apps'', ''Deployment'', ''prod'', ''web'') = Some (demo_labels, j) \<Longrightarrow>
     la_Get mem_live c (u_GVK web_obj) \<lparr>nn_Namespace = ''prod'', nn_Name = ''web''\<rparr> w =
       (Inr (web_obj\<lparr>u_Content := j\<rparr>), w)"
  by (simp add: mem_live_def nn_key_def web_obj_def)

lemma mem_Delete_web [simp]:
  "mw_Objects w (''apps'', ''Deployment'', ''prod'', ''web'') = Some v \<Longrightarrow>
     la_Delete mem_live c (web_obj\<lparr>u_Content := j\<rparr>) w =
       (None, w\<lparr>mw_Objects := (mw_Objects w)((''apps'', ''Deployment'', ''prod'', ''web'') := None)\<rparr>)"
  by (simp add: mem_live_def obj_key_def web_obj_def)

lemma demo_web_entry [simp]:
  "isSafeToDelete (NewEntryFromResource web_obj)" "entry_gvk (NewEntryFromResource web_obj) = u_GVK web_obj"
  "entry_nn (NewEntryFromResource web_obj) = \<lparr>nn_Namespace = ''prod'', nn_Name = ''web''\<rparr>"
  by (simp_all add: isSafeToDelete_def entry_gvk_def entry_nn_def NewEntryFromResource_def web_obj_def)

lemma demo_deletion_run:
  "let mr = demo_mr\<lparr>cr_Meta := demo_meta\<lparr>om_DeletionTimestamp := Some 5\<rparr>\<rparr> in
   new_effects (demo_state mr) (snd (ReconcileModuleRelease demo_params demo_req (demo_state mr))) =
     [DeleteObject ControllerClient (web_obj\<lparr>u_Content := ''web-v1''\<rparr>), DeleteObject ControllerClient old_obj,
      PatchObject mr (without_finalizer std_kube mr)]"
  by (simp add: ReconcileModuleRelease_def handleDeletion_def deletion_cleanup_def deletion_client_def
      resolveEffectiveSA_def finish_deletion_def removeFinalizer_def without_finalizer_def since_def
      Prune_def prune_entry_def Let_def call_def mcall_def emit_def metric_def mem_now_def new_effects_def)

end
