(* ===== verification/Opm_MR_Props.thy ===== *)
theory Opm_MR_Props
  imports Opm_Demo
begin

text \<open>
  Properties of the ModuleRelease handler as a whole, for every behaviour of the API server,
  the renderer and the clock: what it deletes and when, which status fields it may change,
  how it ends, and what it converges to.
\<close>

subsection \<open>Shared lemmas\<close>

definition suspended_object :: "kube_lib \<Rightarrow> ModuleRelease \<Rightarrow> ModuleRelease" where
  "suspended_object K mr = map_status (\<lambda>st. st\<lparr>st_ObservedGeneration := om_Generation (cr_Meta mr)\<rparr>)
     (on_conditions (MarkSuspended K) mr)"

definition suspend_event :: "ModuleRelease effect" where
  "suspend_event = Event EventTypeNormal SuspendedReason ''Suspend'' ''Reconciliation is suspended''"

lemma mr_suspend_log:
  assumes "mr_suspend P start mr s = (x, s')"
  shows "p_Log s' = p_Log s @ [suspend_event, PatchStatus (suspended_object (pa_Kube P) mr) mr_owned True]"
  using assms
  by (auto simp: mr_suspend_def Let_def suspended_object_def suspend_event_def effect_simps
      split: prod.splits option.splits dest!: patch_status_log)

text \<open>The effects of a run that found the object.\<close>

lemma mr_run_cases:
  assumes run: "ReconcileModuleRelease P req s = (x, s')"
    and get: "call (ca_Get (pa_CR P) req) s = (Inr mr, s1)"
  obtains
    (finalizer) mr' where "\<not> k_ContainsFinalizer (pa_Kube P) (om_Finalizers (cr_Meta mr)) FinalizerName"
      "mr' = with_finalizers (\<lambda>fs. k_AddFinalizer (pa_Kube P) fs FinalizerName) mr"
      "new_effects s s' = [PatchObject mr mr']"
  | (deleting) s2 s3 where "om_DeletionTimestamp (cr_Meta mr) \<noteq> None"
      "handleDeletion P mr s2 = (x, s3)" "new_effects s s' = new_effects s2 s3"
      "p_Log s' = p_Log s3"
  | (suspended) "sp_Suspend (cr_Spec mr)" "new_effects s s' =
      [suspend_event, PatchStatus (suspended_object (pa_Kube P) mr) mr_owned True]"
  | (active) evs es L s2 s3 mr' where "mr_body P (init_locals mr) s2 = (x, L, s3)"
      "new_effects s s' = evs @ es @ [PatchStatus mr' mr_owned True]" "list_all is_event evs"
      "body_effects P (run_world P s1) mr (l_obj L) es" "committed (pa_Kube P) L mr'"
      "om_DeletionTimestamp (cr_Meta mr) = None" "\<not> sp_Suspend (cr_Spec mr)"
      "p_Log s3 = p_Log s2 @ es" "x \<noteq> Diverged" "render_call P mr (run_world P s1) \<noteq> None"
  | (diverged) "x = Diverged" "list_all is_event (new_effects s s')"
      "om_DeletionTimestamp (cr_Meta mr) = None" "\<not> sp_Suspend (cr_Spec mr)"
      "render_call P mr (run_world P s1) = None"
  using run
proof (cases rule: ReconcileModuleRelease_cases)
  case (missing e)
  with get show ?thesis by simp
next
  case (finalizer mr2 s1' s2)
  have "mr2 = mr" using finalizer(1) get by simp
  moreover have "p_Log s' = p_Log s @ [PatchObject mr2
      (with_finalizers (\<lambda>fs. k_AddFinalizer (pa_Kube P) fs FinalizerName) mr2)]"
    using finalizer(2,4) by (auto simp: addFinalizer_def Let_def effect_simps)
  ultimately show ?thesis using that(1) finalizer(3) by simp
next
  case (deleting mr2 s1' s2 s3)
  have "mr2 = mr" using deleting(1) get by simp
  moreover have "new_effects s s' = new_effects s2 s3"
    using deleting(2,6) by (simp add: new_effects_def)
  ultimately show ?thesis using that(2) deleting(4-6) by simp
next
  case (suspended mr2 s1' s2 start)
  have "mr2 = mr" using suspended(1) get by simp
  then show ?thesis using that(3) suspended(2,4) mr_suspend_log [OF suspended(5)]
    by (simp add: new_effects_def)
next
  case (active mr2 s1' s2 start L s3)
  have mr2: "mr2 = mr" "s1' = s1" using active(1) get by simp_all
  obtain evs where evs: "p_Log s2 = p_Log s @ evs" "list_all is_event evs"
    using active(5) by (auto simp: log_ext_def)
  have div: "x = Diverged \<longleftrightarrow> render_call P mr (run_world P s1) = None"
    using mr_body_diverged_iff [OF active(7)] mr2 active(6) by simp
  obtain es where es: "p_Log s3 = p_Log s2 @ es" "body_effects P (run_world P s1) mr (l_obj L) es"
    using mr_body_log [OF active(7)] mr2 active(6) by auto
  show ?thesis
  proof (cases "x = Diverged")
    case True
    have "log_ext is_event s2 s3"
      using active(7) True by (cases rule: mr_body_cases) (auto dest: phases_return mr_render_log)
    then have "list_all is_event (new_effects s s')"
      using True active(8) evs by (auto simp: log_ext_def)
    then show ?thesis using that(5) True div active(3,4) mr2 by simp
  next
    case False
    obtain mr' where mr': "p_Log s' = p_Log s3 @ [PatchStatus mr' mr_owned True]"
      "committed (pa_Kube P) L mr'"
      using mr_commit_log [of P start L s3] active(8) False by auto
    have "new_effects s s' = evs @ es @ [PatchStatus mr' mr_owned True]"
      using evs(1) es(1) mr'(1) by simp
    then show ?thesis using that(4) active(3,4,7) evs(2) es mr'(2) mr2 False div by blast
  qed
qed

text \<open>The predicate on the objects a reconcile of a live release may delete.\<close>

definition prune_target ::
  "('w, 'v) mr_params \<Rightarrow> ModuleRelease \<Rightarrow> unstructured list \<Rightarrow> InventoryEntry list \<Rightarrow> unstructured \<Rightarrow> bool" where
  "prune_target P mr rs desired u \<longleftrightarrow>
     (\<exists>entry w w'. entry \<in> set (previousEntries (cr_Status mr)) \<and> isSafeToDelete entry
        \<and> (\<forall>d\<in>set desired. \<not> K8sIdentityEqual entry d)
        \<and> la_Get (pa_Live P) (expected_client (pa_DefaultServiceAccount P) mr) (entry_gvk entry)
             (entry_nn entry) w = (Inr u, w')
        \<and> prunable_labels (owner_uuid mr rs) (u_Labels u))"

lemma stale_iff:
  "e \<in> set (ComputeStaleSet ps cs) \<longleftrightarrow> e \<in> set ps \<and> (\<forall>d\<in>set cs. \<not> K8sIdentityEqual e d)"
  by (auto simp: ComputeStaleSet_filter K8sIdentityEqual_key)

subsection \<open>Deletes\<close>

text \<open>
  C3: while a ModuleRelease is not being deleted, the handler deletes an object only if
  \<open>spec.prune\<close> is set, after a successful apply call of the same run, with the same identity that
  applied, and only an object that it has just read for an entry of the previous inventory
  which the inventory rendered by this very run (the renderer's answer in the world in which
  the run's body starts, whose resources are the ones applied) no longer contains, whose kind
  is neither Namespace nor CustomResourceDefinition, and whose labels say that OPM manages it
  and do not name another release.
\<close>

lemma mr_deletes_only_stale_owned:
  assumes run: "ReconcileModuleRelease P req s = (x, s')"
    and get: "call (ca_Get (pa_CR P) req) s = (Inr mr, s1)"
    and live: "om_DeletionTimestamp (cr_Meta mr) = None"
    and del: "new_effects s s' = pre @ DeleteObject c u # post"
  shows "sp_Prune (cr_Spec mr) \<and> c = expected_client (pa_DefaultServiceAccount P) mr
    \<and> (\<exists>rr w rs. render_call P mr (run_world P s1) = Some (Inr rr, w)
         \<and> toUnstructuredSlice (pa_Cue P) (rr_Resources rr) = Inr rs
         \<and> apply_call P mr rs \<in> set pre \<and> apply_succeeds P mr rs
         \<and> prune_target P mr rs (rr_InventoryEntries rr) u)"
  using run get
proof (cases rule: mr_run_cases)
  case (active evs es L s2 s3 mr')
  from del active(2) have sp: "pre @ DeleteObject c u # post = evs @ es @ [PatchStatus mr' mr_owned True]"
    by simp
  have "DeleteObject c u \<in> set (evs @ es @ [PatchStatus mr' mr_owned True])"
    unfolding sp [symmetric] by simp
  then have "DeleteObject c u \<in> set es"
    using active(3) by (auto simp: list_all_iff)
  with active(4) obtain evs2 rr rs rest w
    where es: "es = evs2 @ apply_call P mr rs # rest" "list_all is_event evs2"
      "toUnstructuredSlice (pa_Cue P) (rr_Resources rr) = Inr rs"
      "st_ReleaseUUID (cr_Status (l_obj L)) = owner_uuid mr rs"
      "list_all is_event rest \<or> apply_succeeds P mr rs"
      "list_all (prune_effect P (expected_client (pa_DefaultServiceAccount P) mr)
         (ComputeStaleSet (previousEntries (cr_Status mr)) (rr_InventoryEntries rr)) (l_obj L)) rest"
      "render_call P mr (run_world P s1) = Some (Inr rr, w)"
    by (auto simp: body_effects_def rendered_at_def list_all_iff)
  have "DeleteObject c u \<notin> set (evs @ evs2)" using active(3) es(2) by (auto simp: list_all_iff)
  then have ap: "apply_call P mr rs \<in> set pre"
    using split_at_unique [of pre "DeleteObject c u" post "evs @ evs2" "apply_call P mr rs"
        "rest @ [PatchStatus mr' mr_owned True]"] sp es(1) by (simp add: apply_call_def)
  have "DeleteObject c u \<in> set rest"
    using \<open>DeleteObject c u \<in> set es\<close> es(1,2) by (auto simp: list_all_iff apply_call_def)
  then have "prune_effect P (expected_client (pa_DefaultServiceAccount P) mr)
      (ComputeStaleSet (previousEntries (cr_Status mr)) (rr_InventoryEntries rr)) (l_obj L) (DeleteObject c u)"
    using es(6) by (auto simp: list_all_iff)
  moreover have "cr_Spec (l_obj L) = cr_Spec mr"
    using mr_body_frame [OF active(1)] by (simp add: same_ledgerD)
  ultimately have "sp_Prune (cr_Spec mr)" "c = expected_client (pa_DefaultServiceAccount P) mr"
    "prune_target P mr rs (rr_InventoryEntries rr) u"
    by (auto simp: prune_effect_def guarded_delete_def prune_target_def stale_iff es(4))
  moreover have "apply_succeeds P mr rs"
    using es(5) \<open>DeleteObject c u \<in> set rest\<close> by (auto simp: list_all_iff)
  ultimately show ?thesis using ap es(3,7) by blast
qed (use del live in \<open>auto simp: suspend_event_def append_eq_Cons_conv\<close>)

lemma mr_deletes_only_stale_owned_witness:
  "\<exists>x s' pre post. ReconcileModuleRelease demo_params demo_req (demo_state demo_mr) = (x, s')
     \<and> new_effects (demo_state demo_mr) s' = pre @ DeleteObject ControllerClient old_obj # post
     \<and> (\<exists>rs. apply_call demo_params demo_mr rs \<in> set pre
          \<and> prune_target demo_params demo_mr rs [NewEntryFromResource web_obj] old_obj)"
proof -
  obtain L s3 mr' where run: "ReconcileModuleRelease demo_params demo_req (demo_state demo_mr) =
      (Returned no_requeue None, mr_commit demo_params 100 L s3)"
    and eff: "new_effects (demo_state demo_mr) (mr_commit demo_params 100 L s3) =
      demo_effects @ [PatchStatus mr' mr_owned True]"
    by (rule demo_run)
  have split: "new_effects (demo_state demo_mr) (mr_commit demo_params 100 L s3) = take 2 demo_effects
      @ DeleteObject ControllerClient old_obj # (drop 3 demo_effects @ [PatchStatus mr' mr_owned True])"
    using eff by (simp add: demo_effects_def)
  from mr_deletes_only_stale_owned [OF run demo_get _ split] run split show ?thesis
    by (simp add: render_call_def) blast
qed

subsection \<open>The ledger\<close>

lemma committedD:
  assumes "committed K L mr'" and "same_ledger mr (l_obj L)"
  shows "cr_Meta mr' = cr_Meta mr" "cr_Spec mr' = cr_Spec mr"
    "l_outcome L = NoOp \<or> \<not> l_reconciled L \<Longrightarrow>
       st_Inventory (cr_Status mr') = st_Inventory (cr_Status mr)
       \<and> lastApplied (cr_Status mr') = lastApplied (cr_Status mr)"
    "l_outcome L \<noteq> NoOp \<Longrightarrow> l_reconciled L \<Longrightarrow>
       st_Inventory (cr_Status mr') = Some (next_inventory (l_newEntries L) (st_Inventory (cr_Status mr)))
       \<and> lastApplied (cr_Status mr') = (l_digests L)\<lparr>ds_Inventory := ComputeDigest (l_newEntries L)\<rparr>"
  using assms(1) same_ledgerD [OF assms(2)] by (auto simp: committed_def status_simps)

lemma demo_changed:
  assumes b: "mr_body demo_params (init_locals demo_mr) (demo_started demo_mr) = (x, L, s3)"
    and L: "l_outcome L = AppliedAndPruned" "l_reconciled L" and c: "committed std_kube L mr'"
  shows "lastApplied (cr_Status mr') \<noteq> lastApplied demo_status"
    and "cr_Spec mr' = demo_spec" and "cr_Meta mr' = demo_meta"
proof -
  have frame: "same_ledger demo_mr (l_obj L)" using mr_body_frame [OF b] by simp
  have "ds_Source (l_digests L) \<noteq> []"
    using mr_body_reconciled [OF b L(2)] by (auto simp: desired_digests_def)
  then have "ds_Source (lastApplied (cr_Status mr')) \<noteq> []"
    using committedD(4) [OF c frame] L by simp
  moreover have "ds_Source (lastApplied demo_status) = []" by (simp add: lastApplied_def)
  ultimately show "lastApplied (cr_Status mr') \<noteq> lastApplied demo_status" by auto
  show "cr_Spec mr' = demo_spec" "cr_Meta mr' = demo_meta" using committedD(1,2) [OF c frame] by simp_all
qed

lemma mr_ledger_step:
  assumes run: "ReconcileModuleRelease P req s = (x, s')"
    and get: "call (ca_Get (pa_CR P) req) s = (Inr mr, s1)"
    and live: "om_DeletionTimestamp (cr_Meta mr) = None"
    and patch: "PatchStatus mr' owned g \<in> set (new_effects s s')"
  shows "cr_Spec mr' = cr_Spec mr \<and> cr_Meta mr' = cr_Meta mr \<and>
    ((st_Inventory (cr_Status mr') = st_Inventory (cr_Status mr)
      \<and> lastApplied (cr_Status mr') = lastApplied (cr_Status mr))
    \<or> (\<exists>rr rs d. applied_result P mr rr rs d \<and> apply_call P mr rs \<in> set (new_effects s s')
      \<and> st_Inventory (cr_Status mr') =
          Some (next_inventory (rr_InventoryEntries rr) (st_Inventory (cr_Status mr)))
      \<and> lastApplied (cr_Status mr') = desired_digests P (cr_Spec mr) d (rr_InventoryEntries rr)))"
  using run get
proof (cases rule: mr_run_cases)
  case finalizer
  with patch show ?thesis by simp
next
  case deleting
  with live show ?thesis by simp
next
  case suspended
  with patch show ?thesis
    by (auto simp: suspend_event_def suspended_object_def lastApplied_def)
next
  case diverged
  with patch show ?thesis by (auto simp: list_all_iff)
next
  case (active evs es L s2 s3 mr2)
  have [simp]: "PatchStatus mr' owned g \<notin> set evs" using active(3) by (auto simp: list_all_iff)
  have "PatchStatus mr' owned g \<notin> set es"
    using body_effects_kinds [OF active(4)] by (auto simp: list_all_iff)
  with patch active(2) have mr2: "mr2 = mr'" by auto
  have frame: "same_ledger mr (l_obj L)" using mr_body_frame [OF active(1)] by simp
  note c = committedD [OF active(5) [unfolded mr2] frame]
  show ?thesis
  proof (cases "l_outcome L \<noteq> NoOp \<and> l_reconciled L")
    case False
    then show ?thesis using c(1-3) by auto
  next
    case True
    obtain rr rs d pre post where b: "applied_result P mr rr rs d" "l_newEntries L = rr_InventoryEntries rr"
      "l_digests L = desired_digests P (cr_Spec mr) d (rr_InventoryEntries rr)"
      "p_Log s3 = p_Log s2 @ pre @ apply_call P mr rs # post"
      using mr_body_reconciled [OF active(1)] True by auto
    have "es = pre @ apply_call P mr rs # post"
      using active(8) b(4) by simp
    then have "apply_call P mr rs \<in> set (new_effects s s')" using active(2) by simp
    then show ?thesis using c(1,2) c(4) True b by (auto simp: desired_digests_def)
  qed
qed



subsection \<open>Convergence\<close>

text \<open>The renderer is a function of its arguments.\<close>

definition pure_renderer :: "('w, 'v) mr_params \<Rightarrow> bool" where
  "pure_renderer P \<longleftrightarrow> (\<forall>n ns p v vs w w'. map_option fst (pa_Renderer P n ns p v vs w) = map_option fst (pa_Renderer P n ns p v vs w'))"

lemma pure_render_call:
  assumes "pure_renderer P" and "rendered P mr rr"
  shows "map_option fst (render_call P mr w) = Some (Inr rr)"
  using assms
  by (metis rendered_def rendered_at_def render_call_def pure_renderer_def fst_conv option.map(2))

lemma desired_IsNoOp:
  assumes "RenderDigest (pa_Cue P) rs = Inr d"
  shows "IsNoOp (desired_digests P sp d es) (desired_digests P sp d es)"
  using RenderDigest_nonempty [OF assms] by (simp add: IsNoOp_iff desired_digests_def)

lemma mr_body_noop:
  assumes b: "mr_body P L s = (x, L', s')"
    and pure: "pure_renderer P" and rr: "rendered P (l_obj L) rr"
    and d: "RenderDigest (pa_Cue P) (rr_Resources rr) = Inr d"
    and conv: "toUnstructuredSlice (pa_Cue P) (rr_Resources rr) = Inr rs"
    and last: "lastApplied (cr_Status (l_obj L)) =
      desired_digests P (cr_Spec (l_obj L)) d (rr_InventoryEntries rr)"
  shows "x = Returned no_requeue None \<and> l_outcome L' = NoOp \<and> log_ext is_event s s'"
proof -
  let ?sp = "cr_Spec (l_obj L)"
  have "map_option fst (render_call P (l_obj L) (p_World s)) = Some (Inr rr)"
    using pure rr by (rule pure_render_call)
  then obtain s1 where "call_partial (pa_Renderer P (obj_name (l_obj L)) (obj_namespace (l_obj L))
      (mod_Path (sp_Module ?sp)) (mod_Version (sp_Module ?sp)) (sp_Values ?sp)) s = Some (Inr rr, s1)"
    by (auto simp: call_partial_def render_call_def)
  then obtain L1 where r: "mr_render P L s = (Continue rr, L1, s1)"
    using d by (auto simp: mr_render_def Let_def)
  have dl: "l_digests L1 = desired_digests P ?sp d (rr_InventoryEntries rr)"
    using mr_render_continue(7) [OF r] d by simp
  have "IsNoOp (l_digests L1) (lastApplied (cr_Status (l_obj L1)))"
    using dl last same_ledgerD(6) [OF mr_render_frame [OF r]] desired_IsNoOp [OF d] by simp
  moreover obtain f L2 s2 where p: "mr_plan P rr L1 s1 = (f, L2, s2)" by (metis prod_cases3)
  ultimately have f: "f = Stop (Returned no_requeue None) \<and> l_outcome L2 = NoOp"
    using p conv by (elim mr_plan_cases) simp_all
  then have "x = Returned no_requeue None" "L' = L2" "s' = s2"
    using b r p by (auto simp: mr_body_def)
  moreover have "log_ext is_event s s2"
    using mr_plan_log [OF p] mr_render_continue_log [OF r] by (simp add: log_ext_def)
  ultimately show ?thesis using f by simp
qed

lemma mr_run_changed:
  assumes run: "ReconcileModuleRelease P req s = (x, s')"
    and get: "call (ca_Get (pa_CR P) req) s = (Inr mr, s1)"
    and live: "om_DeletionTimestamp (cr_Meta mr) = None"
    and patch: "PatchStatus mr' owned g \<in> set (new_effects s s')"
    and changed: "lastApplied (cr_Status mr') \<noteq> lastApplied (cr_Status mr)"
  shows "\<exists>rr rs d. applied_result P mr rr rs d
    \<and> lastApplied (cr_Status mr') = desired_digests P (cr_Spec mr) d (rr_InventoryEntries rr)"
  using run get
proof (cases rule: mr_run_cases)
  case (active evs es L s2 s3 mr2)
  have mr2: "mr2 = mr'"
    using patch active(2,3) body_effects_kinds [OF active(4)] by (auto simp: list_all_iff)
  have frame: "same_ledger mr (l_obj L)" using mr_body_frame [OF active(1)] by simp
  note c = committedD [OF active(5) [unfolded mr2] frame]
  have "l_outcome L \<noteq> NoOp \<and> l_reconciled L" using c(3) changed by auto
  moreover from this obtain rr rs d where "applied_result P mr rr rs d"
    "l_newEntries L = rr_InventoryEntries rr"
    "l_digests L = desired_digests P (cr_Spec mr) d (rr_InventoryEntries rr)"
    using mr_body_reconciled [OF active(1)] by auto
  ultimately show ?thesis using c(4) by (intro exI [of _ rr] exI [of _ rs] exI [of _ d])
      (simp add: desired_digests_def)
qed (use patch live changed in \<open>auto simp: suspend_event_def suspended_object_def lastApplied_def list_all_iff\<close>)

text \<open>
  C13: reconciliation converges. If a run changed the last-applied digests that it wrote for a
  release, then a later run for the same spec and metadata that starts from the written
  digests neither applies nor deletes anything, keeps inventory and last-applied digests,
  and returns without a requeue, whatever happened in between, provided that rendering is a
  function of its arguments.
\<close>

lemma mr_converges:
  assumes run: "ReconcileModuleRelease P req s = (x, s')"
    and get: "call (ca_Get (pa_CR P) req) s = (Inr mr, s1)"
    and active: "om_DeletionTimestamp (cr_Meta mr) = None" "\<not> sp_Suspend (cr_Spec mr)"
      "k_ContainsFinalizer (pa_Kube P) (om_Finalizers (cr_Meta mr)) FinalizerName"
    and patch: "PatchStatus mr' owned g \<in> set (new_effects s s')"
    and changed: "lastApplied (cr_Status mr') \<noteq> lastApplied (cr_Status mr)"
    and pure: "pure_renderer P"
    and run2: "ReconcileModuleRelease P req t = (y, t')"
    and get2: "call (ca_Get (pa_CR P) req) t = (Inr mr2, t1)"
    and same: "cr_Spec mr2 = cr_Spec mr" "cr_Meta mr2 = cr_Meta mr"
      "lastApplied (cr_Status mr2) = lastApplied (cr_Status mr')"
  shows "y = Returned no_requeue None
    \<and> (\<forall>e\<in>set (new_effects t t'). \<not> is_apply e \<and> \<not> is_delete e)
    \<and> (\<exists>mr3. last (new_effects t t') = PatchStatus mr3 mr_owned True
         \<and> st_Inventory (cr_Status mr3) = st_Inventory (cr_Status mr2)
         \<and> lastApplied (cr_Status mr3) = lastApplied (cr_Status mr2))"
proof -
  obtain rr rs d where ar: "applied_result P mr rr rs d"
    and last: "lastApplied (cr_Status mr') = desired_digests P (cr_Spec mr) d (rr_InventoryEntries rr)"
    using mr_run_changed [OF run get active(1) patch changed] by blast
  have rr: "rendered P mr2 rr"
    using ar same by (simp add: applied_result_def rendered_def rendered_at_def render_call_def)
  from run2 get2 show ?thesis
  proof (cases rule: mr_run_cases)
    case diverged
    with pure_render_call [OF pure rr] show ?thesis by (metis option.simps(3,8))
  next
    case (active evs es L s2 s3 mr3)
    from rr have noop: "y = Returned no_requeue None" "l_outcome L = NoOp" "log_ext is_event s2 s3"
      using mr_body_noop [OF active(1) pure, of rr d rs] ar last same
      by (simp_all add: applied_result_def)
    have ev: "list_all is_event es" using noop(3) active(8) by (auto simp: log_ext_def)
    have frame: "same_ledger mr2 (l_obj L)" using mr_body_frame [OF active(1)] by simp
    have "st_Inventory (cr_Status mr3) = st_Inventory (cr_Status mr2)
        \<and> lastApplied (cr_Status mr3) = lastApplied (cr_Status mr2)"
      using committedD(3) [OF active(5) frame] noop(2) by simp
    moreover have "\<forall>e\<in>set (new_effects t t'). \<not> is_apply e \<and> \<not> is_delete e"
      using ev active(2,3) by (auto simp: list_all_iff)
    ultimately show ?thesis using noop(1) active(2) by auto
  qed (use same \<open>\<not> sp_Suspend (cr_Spec mr)\<close> \<open>om_DeletionTimestamp (cr_Meta mr) = None\<close>
      \<open>k_ContainsFinalizer (pa_Kube P) (om_Finalizers (cr_Meta mr)) FinalizerName\<close> in auto)
qed

lemma demo_pure: "pure_renderer demo_params"
  by (simp add: pure_renderer_def)

lemma mr_converges_witness:
  "\<exists>x s' mr' y t'. ReconcileModuleRelease demo_params demo_req (demo_state demo_mr) = (x, s')
     \<and> PatchStatus mr' mr_owned True \<in> set (new_effects (demo_state demo_mr) s')
     \<and> ReconcileModuleRelease demo_params demo_req (demo_state mr') = (y, t')
     \<and> y = Returned no_requeue None
     \<and> (\<forall>e\<in>set (new_effects (demo_state mr') t'). \<not> is_apply e \<and> \<not> is_delete e)"
proof -
  obtain L s3 mr' where b: "mr_body demo_params (init_locals demo_mr) (demo_started demo_mr) =
      (Returned no_requeue None, L, s3)"
    and run: "ReconcileModuleRelease demo_params demo_req (demo_state demo_mr) =
      (Returned no_requeue None, mr_commit demo_params 100 L s3)"
    and L: "l_outcome L = AppliedAndPruned" "l_reconciled L" and c: "committed std_kube L mr'"
    and eff: "new_effects (demo_state demo_mr) (mr_commit demo_params 100 L s3) =
      demo_effects @ [PatchStatus mr' mr_owned True]"
    by (rule demo_run)
  note ch = demo_changed [OF b L c]
  have p: "PatchStatus mr' mr_owned True \<in> set (new_effects (demo_state demo_mr) (mr_commit demo_params 100 L s3))"
    using eff by simp
  obtain y t' where run2: "ReconcileModuleRelease demo_params demo_req (demo_state mr') = (y, t')"
    by fastforce
  have "y = Returned no_requeue None \<and> (\<forall>e\<in>set (new_effects (demo_state mr') t'). \<not> is_apply e \<and> \<not> is_delete e)"
    using mr_converges [OF run demo_get _ _ _ p _ demo_pure run2 demo_get] ch by simp
  with run p run2 show ?thesis by blast
qed

subsection \<open>How an active run ends\<close>

definition is_failure :: "Outcome \<Rightarrow> bool" where
  "is_failure oc \<longleftrightarrow> oc = FailedTransient \<or> oc = FailedStalled"

definition outcome_delay :: "ModuleRelease \<Rightarrow> Outcome \<Rightarrow> duration" where
  "outcome_delay mr oc = (case oc of FailedTransient \<Rightarrow> backoff_of mr
     | FailedStalled \<Rightarrow> StalledRecheckInterval | _ \<Rightarrow> 0)"

lemma requeue_after_0 [simp]: "requeue_after 0 = no_requeue"
  by (simp add: requeue_after_def no_requeue_def)

lemma outcome_delay_pos: "is_failure oc \<Longrightarrow> 0 < outcome_delay mr oc"
  using ComputeBackoff_pos
  by (auto simp: is_failure_def outcome_delay_def backoff_of_def StalledRecheckInterval_def)

lemma body_exit_delay:
  assumes "body_exit mr x L" and "x \<noteq> Panicked" and "x \<noteq> Diverged"
  shows "x = Returned (requeue_after (outcome_delay mr (l_outcome L))) None
    \<and> l_retryAfter L = outcome_delay mr (l_outcome L)"
  using assms by (auto simp: body_exit_def outcome_delay_def split: Outcome.splits)

definition updated_counters :: "Outcome \<Rightarrow> phaseOutcomes \<Rightarrow> FailureCounters option \<Rightarrow> FailureCounters" where
  "updated_counters oc ph c = outcome_counter oc
     (phase_counter (pruneRan ph) (pruneFailed ph) CounterPrune
       (phase_counter (applyRan ph) (applyFailed ph) CounterApply
         (phase_counter (driftRan ph) (driftFailed ph) CounterDrift (ensureCountersField c))))"

lemma counters_updated [status_simps]:
  "st_FailureCounters (updateFailureCounters oc ph st) = Some (updated_counters oc ph (st_FailureCounters st))"
  by (simp add: updateFailureCounters_def updated_counters_def Let_def)

lemma reconcile_counter:
  "fc_Reconcile (updated_counters oc ph c) = (if is_failure oc then reconcileFailureCount c + 1 else 0)"
  by (cases oc) (auto simp: updated_counters_def outcome_counter_def phase_counter_def is_failure_def
      reconcileFailureCount_def ensureCountersField_def split: option.splits)

lemma commit_counter:
  "st_FailureCounters (commit_status K L now t d ra) =
     Some (updated_counters (l_outcome L) (l_phases L) (st_FailureCounters (cr_Status (l_obj L))))"
  by (simp add: commit_status_def Let_def status_simps)

lemma mr_body_no_panic:
  assumes "pa_RestConfig P" and "mr_body P L s = (x, L', s')"
  shows "x \<noteq> Panicked"
  using assms(2)
proof (cases rule: mr_body_cases)
  case rendering
  then show ?thesis by (elim mr_render_cases) auto
next
  case (planning rr L1 s1)
  then show ?thesis by (auto elim!: mr_plan_cases)
next
  case (applying rr L1 s1 rs stale L2 s2)
  from applying(3) assms(1) show ?thesis by (elim mr_apply_cases) auto
next
  case (pruning rr L1 s1 rs stale L2 s2 c sa L3 s3)
  from pruning(4) show ?thesis by (elim mr_prune_cases) auto
qed

text \<open>
  C23: what an active run reports. A run on a release that has the finalizer, is not being
  deleted and is not suspended writes the status exactly once, as its last effect; the
  conditions written, the result returned, the next retry time and the reconcile failure
  counter all agree on one outcome: Ready is True exactly for the successful ones, Stalled
  is True exactly for the stalled one and excludes Reconciling, a failure is retried after
  the backoff or the recheck interval and counted, and a success is not retried and resets
  the counter. The one exception is a run whose render call never returns: it does not return
  either, and has emitted nothing but events.
\<close>

lemma mr_active_run_reports_outcome:
  assumes run: "ReconcileModuleRelease P req s = (x, s')"
    and get: "call (ca_Get (pa_CR P) req) s = (Inr mr, s1)"
    and active: "om_DeletionTimestamp (cr_Meta mr) = None" "\<not> sp_Suspend (cr_Spec mr)"
      "k_ContainsFinalizer (pa_Kube P) (om_Finalizers (cr_Meta mr)) FinalizerName"
    and laws: "flux_conditions (pa_Kube P)" and ok: "conditions_ok (conds mr)"
    and cfg: "pa_RestConfig P"
  shows "if render_call P mr (run_world P s1) = None
    then x = Diverged \<and> list_all is_event (new_effects s s')
    else (\<exists>oc es mr' c. new_effects s s' = es @ [PatchStatus mr' mr_owned True]
      \<and> list_all (\<lambda>e. is_event e \<or> is_apply e \<or> is_delete e) es
      \<and> conditions_ok (conds mr') \<and> outcome_conds (pa_Kube P) oc (conds mr')
      \<and> x = Returned (requeue_after (outcome_delay mr oc)) None
      \<and> (st_NextRetryAt (cr_Status mr') = None \<longleftrightarrow> \<not> is_failure oc)
      \<and> st_FailureCounters (cr_Status mr') = Some c
      \<and> fc_Reconcile c = (if is_failure oc
          then reconcileFailureCount (st_FailureCounters (cr_Status mr)) + 1 else 0))"
  using run get
proof (cases rule: mr_run_cases)
  case (active evs es L s2 s3 mr')
  note exit = body_exit_delay [OF mr_body_exit [OF active(1)] mr_body_no_panic [OF cfg active(1)] active(9)]
  have bc: "body_conds (pa_Kube P) L" using mr_body_conds [OF laws _ _ active(1)] ok by simp
  have frame: "same_ledger mr (l_obj L)" using mr_body_frame [OF active(1)] by simp
  obtain now t d ra where mr': "mr' = (l_obj L)\<lparr>cr_Status := commit_status (pa_Kube P) L now t d ra\<rparr>"
    "ra = None \<longleftrightarrow> l_retryAfter L \<le> 0"
    using active(5) by (auto simp: committed_def)
  have "conditions_ok (conds mr') \<and> outcome_conds (pa_Kube P) (l_outcome L) (conds mr')"
    using bc flux_conditions.outcome_marks [OF laws] flux_conditions.ok_marks [OF laws]
    by (auto simp: body_conds_def mr'(1) status_simps)
  moreover have "st_NextRetryAt (cr_Status mr') = None \<longleftrightarrow> \<not> is_failure (l_outcome L)"
    using mr' exit outcome_delay_pos [of "l_outcome L" mr]
    by (auto simp: status_simps is_failure_def outcome_delay_def split: Outcome.splits)
  moreover have "st_FailureCounters (cr_Status mr') =
      Some (updated_counters (l_outcome L) (l_phases L) (st_FailureCounters (cr_Status mr)))"
    using same_ledgerD(4) [OF frame] by (simp add: mr'(1) commit_counter)
  moreover have "list_all (\<lambda>e. is_event e \<or> is_apply e \<or> is_delete e) (evs @ es)"
    using active(3) body_effects_kinds [OF active(4)] by (auto simp: list_all_iff)
  ultimately show ?thesis
    using exit active(2) active(10) unfolding if_not_P [OF active(10)]
    by (intro exI [of _ "l_outcome L"] exI [of _ "evs @ es"] exI [of _ mr']) (auto simp: reconcile_counter)
qed (use active in auto)

lemma mr_active_run_reports_outcome_witness:
  "\<exists>x s' oc mr'. ReconcileModuleRelease demo_params demo_req (demo_state demo_mr) = (x, s')
     \<and> last (new_effects (demo_state demo_mr) s') = PatchStatus mr' mr_owned True
     \<and> outcome_conds std_kube oc (conds mr')
     \<and> x = Returned (requeue_after (outcome_delay demo_mr oc)) None"
proof -
  obtain x s' where run: "ReconcileModuleRelease demo_params demo_req (demo_state demo_mr) = (x, s')"
    by fastforce
  have "flux_conditions std_kube" by unfold_locales
  with mr_active_run_reports_outcome [OF run demo_get] run show ?thesis
    by (fastforce simp: render_call_def)
qed

subsection \<open>Identity\<close>

text \<open>
  C29: a run on a release that is not being deleted makes at most one apply call. It uses the
  conflict setting of the spec, and its field manager and identity are those of the
  manager's own resource manager if neither \<open>spec.serviceAccountName\<close> nor the default
  ServiceAccount is set, and otherwise impersonate that ServiceAccount, the spec's before
  the default, in the release's own namespace.
\<close>

lemma mr_apply_identity:
  assumes run: "ReconcileModuleRelease P req s = (x, s')"
    and get: "call (ca_Get (pa_CR P) req) s = (Inr mr, s1)"
    and live: "om_DeletionTimestamp (cr_Meta mr) = None"
    and ap: "ApplyAll rm rs f \<in> set (new_effects s s')"
    and sa: "sa = (if sp_ServiceAccountName (cr_Spec mr) \<noteq> [] then sp_ServiceAccountName (cr_Spec mr)
      else pa_DefaultServiceAccount P)"
  shows "length (filter is_apply (new_effects s s')) = 1 \<and> f = forceConflicts (cr_Spec mr)
    \<and> (if sa = [] then rm = pa_ResourceManager P
       else rm_Field rm = FieldManager \<and> rm_Client rm = ImpersonatedClient
         \<lparr>imp_UserName = ''system:serviceaccount:'' @ obj_namespace mr @ '':'' @ sa,
          imp_Groups = [''system:serviceaccounts'', ''system:serviceaccounts:'' @ obj_namespace mr,
            ''system:authenticated'']\<rparr>)"
  using run get
proof (cases rule: mr_run_cases)
  case (active evs es L s2 s3 mr')
  have no: "filter is_apply zs = []" if "list_all is_event zs" for zs :: "ModuleRelease effect list"
    using that by (auto simp: list_all_iff filter_empty_conv)
  have "ApplyAll rm rs f \<in> set es" using ap active(2,3) by (auto simp: list_all_iff)
  then obtain evs2 and rr :: "'b RenderResult" and rs' rest where es: "es = evs2 @ apply_call P mr rs' # rest"
    "list_all is_event evs2"
    "list_all (prune_effect P (expected_client (pa_DefaultServiceAccount P) mr)
       (ComputeStaleSet (previousEntries (cr_Status mr)) (rr_InventoryEntries rr)) (l_obj L)) rest"
    using active(4) by (auto simp: body_effects_def list_all_iff)
  have rest: "filter is_apply rest = []"
    using es(3) by (auto simp: list_all_iff filter_empty_conv prune_effect_def guarded_delete_def)
  have f: "filter is_apply (new_effects s s') = [apply_call P mr rs']"
    using active(2) es(1) rest no [OF active(3)] no [OF es(2)] by (simp add: apply_call_def)
  have "ApplyAll rm rs f \<in> set (filter is_apply (new_effects s s'))" using ap by simp
  then have "ApplyAll rm rs f = apply_call P mr rs'" using f by simp
  then show ?thesis using f sa
    by (auto simp: apply_call_def expected_rm_def resolveEffectiveSA_eq expected_client_def Let_def
        NewResourceManager_def buildImpersonationConfig_def)
qed (use ap live in \<open>auto simp: suspend_event_def list_all_iff\<close>)

lemma mr_apply_identity_witness:
  "\<exists>x s' rm rs f. ReconcileModuleRelease demo_params demo_req (demo_state demo_mr) = (x, s')
     \<and> ApplyAll rm rs f \<in> set (new_effects (demo_state demo_mr) s')
     \<and> length (filter is_apply (new_effects (demo_state demo_mr) s')) = 1 \<and> rm = pa_ResourceManager demo_params"
proof -
  obtain L s3 mr' where run: "ReconcileModuleRelease demo_params demo_req (demo_state demo_mr) =
      (Returned no_requeue None, mr_commit demo_params 100 L s3)"
    and eff: "new_effects (demo_state demo_mr) (mr_commit demo_params 100 L s3) =
      demo_effects @ [PatchStatus mr' mr_owned True]"
    by (rule demo_run)
  have ap: "ApplyAll (pa_ResourceManager demo_params) [web_obj] (forceConflicts demo_spec)
      \<in> set (new_effects (demo_state demo_mr) (mr_commit demo_params 100 L s3))"
    using eff by (simp add: demo_effects_def)
  from mr_apply_identity [OF run demo_get _ ap refl] run ap show ?thesis by fastforce
qed

subsection \<open>Suspension\<close>

text \<open>
  Reconciling a suspended release emits one event and writes the status once, with
  Ready False for the reason Suspended, no Reconciling and no Stalled condition and the
  observed generation; every other status field is the one that was read.
\<close>

lemma mr_suspended_run:
  assumes run: "ReconcileModuleRelease P req s = (x, s')"
    and get: "call (ca_Get (pa_CR P) req) s = (Inr mr, s1)"
    and susp: "sp_Suspend (cr_Spec mr)" and live: "om_DeletionTimestamp (cr_Meta mr) = None"
    and fin: "k_ContainsFinalizer (pa_Kube P) (om_Finalizers (cr_Meta mr)) FinalizerName"
    and laws: "flux_conditions (pa_Kube P)" and ok: "conditions_ok (conds mr)"
  shows "\<exists>mr'. new_effects s s' = [suspend_event, PatchStatus mr' mr_owned True]
    \<and> k_FindStatusCondition (pa_Kube P) (conds mr') ReadyCondition = Some (mk_condition ReadyCondition
        ConditionFalse SuspendedReason ''Reconciliation is suspended'')
    \<and> no_cond (pa_Kube P) (conds mr') ReconcilingCondition \<and> no_cond (pa_Kube P) (conds mr') StalledCondition
    \<and> mr' = mr\<lparr>cr_Status := (cr_Status mr)\<lparr>st_Conditions := conds mr',
         st_ObservedGeneration := om_Generation (cr_Meta mr)\<rparr>\<rparr>"
  using run get
proof (cases rule: mr_run_cases)
  case suspended
  let ?mr = "suspended_object (pa_Kube P) mr"
  have c: "conds ?mr = MarkSuspended (pa_Kube P) (conds mr)" by (simp add: suspended_object_def)
  have "?mr = mr\<lparr>cr_Status := (cr_Status mr)\<lparr>st_Conditions := conds ?mr,
      st_ObservedGeneration := om_Generation (cr_Meta mr)\<rparr>\<rparr>"
    by (simp add: suspended_object_def map_status_def on_conditions_def SetConditions_def GetConditions_def)
  then show ?thesis
    using suspended(2) flux_conditions.find_MarkSuspended [OF laws ok] c
    by (intro exI [of _ ?mr]) (simp add: no_cond_def condition_types)
qed (use susp live fin in auto)

lemma mr_suspended_run_witness:
  "let mr = demo_mr\<lparr>cr_Spec := demo_spec\<lparr>sp_Suspend := True\<rparr>\<rparr>;
       s' = snd (ReconcileModuleRelease demo_params demo_req (demo_state mr))
   in \<exists>mr'. new_effects (demo_state mr) s' = [suspend_event, PatchStatus mr' mr_owned True]
        \<and> no_cond std_kube (conds mr') StalledCondition \<and> st_Inventory (cr_Status mr') = Some demo_inventory"
proof -
  let ?mr = "demo_mr\<lparr>cr_Spec := demo_spec\<lparr>sp_Suspend := True\<rparr>\<rparr>"
  obtain x s' where run: "ReconcileModuleRelease demo_params demo_req (demo_state ?mr) = (x, s')"
    by fastforce
  have laws: "flux_conditions (pa_Kube demo_params)" by simp unfold_locales
  obtain mr' where mr': "new_effects (demo_state ?mr) s' = [suspend_event, PatchStatus mr' mr_owned True]"
    "no_cond (pa_Kube demo_params) (conds mr') StalledCondition"
    "mr' = ?mr\<lparr>cr_Status := (cr_Status ?mr)\<lparr>st_Conditions := conds mr',
         st_ObservedGeneration := om_Generation (cr_Meta ?mr)\<rparr>\<rparr>"
    using mr_suspended_run [OF run demo_get _ _ _ laws] by auto
  have "st_Inventory (cr_Status mr') = Some demo_inventory" by (subst mr'(3)) simp
  then show ?thesis using run mr'(1,2) by (auto simp: Let_def)
qed

subsection \<open>Deletion\<close>

text \<open>
  C25: the finalizer of a release that is being deleted is given up only if pruning is
  disabled or the inventory is empty, or the prune of the whole inventory under the
  deletion identity reported no error, or the operator set the orphan annotation and the
  ServiceAccount does not exist; giving it up is the last effect of the run and removes
  no other finalizer.
\<close>

lemma mr_finalizer_released_only_when_clean:
  assumes run: "ReconcileModuleRelease P req s = (x, s')"
    and get: "call (ca_Get (pa_CR P) req) s = (Inr mr, s1)"
    and del: "om_DeletionTimestamp (cr_Meta mr) \<noteq> None"
    and fin: "k_ContainsFinalizer (pa_Kube P) (om_Finalizers (cr_Meta mr)) FinalizerName"
    and laws: "kube_finalizers (pa_Kube P)"
    and patch: "PatchObject a b \<in> set (new_effects s s')"
  shows "(\<not> sp_Prune (cr_Spec mr) \<or> previousEntries (cr_Status mr) = []
      \<or> (\<exists>res (t :: 'w mr_state) t'. Prune (pa_Kube P) (pa_Live P) (deletion_identity P mr)
           (st_ReleaseUUID (cr_Status mr)) (previousEntries (cr_Status mr)) t = (res, None, t'))
      \<or> (map_index (om_Annotations (cr_Meta mr)) AnnotationForceDeleteOrphan = ''true''
          \<and> (\<exists>sa e (t :: 'w mr_state) t'. NewImpersonatedClient (pa_Kube P) (pa_Auth P) True
               (obj_namespace mr) sa t = (Some (Inl e), t') \<and> k_IsNotFound (pa_Kube P) e)))
    \<and> last (new_effects s s') = PatchObject a b
    \<and> set (om_Finalizers (cr_Meta b)) = set (om_Finalizers (cr_Meta mr)) - {FinalizerName}"
  using run get
proof (cases rule: mr_run_cases)
  case (deleting s2 s3)
  have "deletion_cleanup mr_owned (st_ReleaseUUID (cr_Status mr)) P mr s2 = (x, s3)"
    using deleting(2) by (simp add: handleDeletion_def)
  then have d: "may_release P (st_ReleaseUUID (cr_Status mr)) mr" "last (p_Log s3) = PatchObject a b"
    "cr_Meta a = cr_Meta mr" "b = without_finalizer (pa_Kube P) a"
    using deletion_cleanup_finalizer patch deleting(3) by (metis new_effects_def)+
  have "last (new_effects s s') = last (p_Log s')"
    using patch unfolding new_effects_def by (metis drop_all empty_iff last_drop linorder_le_less_linear list.set(1))
  then have "last (new_effects s s') = PatchObject a b" using d(2) deleting(4) by simp
  moreover have "set (om_Finalizers (cr_Meta b)) = set (om_Finalizers (cr_Meta mr)) - {FinalizerName}"
    using d(3,4) kube_finalizers.RemoveFinalizer [OF laws]
    by (simp add: without_finalizer_def with_finalizers_def)
  moreover note d(1)
  ultimately show ?thesis
    by (auto simp: may_release_def skip_prune_def orphan_requested_def)
next
  case (active evs es L s2 s3 mr')
  with del show ?thesis by simp
qed (use del fin patch in \<open>auto simp: suspend_event_def\<close>)

lemma mr_finalizer_released_only_when_clean_witness:
  "let mr = demo_mr\<lparr>cr_Meta := demo_meta\<lparr>om_DeletionTimestamp := Some 5\<rparr>\<rparr>;
       s' = snd (ReconcileModuleRelease demo_params demo_req (demo_state mr))
   in \<exists>a b. PatchObject a b \<in> set (new_effects (demo_state mr) s')
        \<and> last (new_effects (demo_state mr) s') = PatchObject a b
        \<and> set (om_Finalizers (cr_Meta b)) = {}"
proof -
  let ?mr = "demo_mr\<lparr>cr_Meta := demo_meta\<lparr>om_DeletionTimestamp := Some 5\<rparr>\<rparr>"
  obtain x s' where run: "ReconcileModuleRelease demo_params demo_req (demo_state ?mr) = (x, s')"
    by fastforce
  have laws: "kube_finalizers (pa_Kube demo_params)" by simp unfold_locales
  have p: "PatchObject ?mr (without_finalizer std_kube ?mr) \<in> set (new_effects (demo_state ?mr) s')"
    using demo_deletion_run run by (simp add: Let_def)
  show ?thesis
    using mr_finalizer_released_only_when_clean [OF run demo_get _ _ laws p] p run
    by (auto simp: Let_def)
qed

text \<open>
  The deletion cleanup deletes only objects that it has just read for an inventory entry
  of a deletable kind and whose labels say that OPM manages them and do not name another
  release, and it deletes with the identity of the effective ServiceAccount.
\<close>

lemma mr_cleanup_deletes_only_owned:
  assumes run: "ReconcileModuleRelease P req s = (x, s')"
    and get: "call (ca_Get (pa_CR P) req) s = (Inr mr, s1)"
    and deleting: "om_DeletionTimestamp (cr_Meta mr) \<noteq> None"
    and del: "DeleteObject c u \<in> set (new_effects s s')"
  shows "sp_Prune (cr_Spec mr) \<and> c = deletion_identity P mr
    \<and> (\<exists>entry w w'. entry \<in> set (previousEntries (cr_Status mr)) \<and> isSafeToDelete entry
        \<and> la_Get (pa_Live P) c (entry_gvk entry) (entry_nn entry) w = (Inr u, w')
        \<and> prunable_labels (st_ReleaseUUID (cr_Status mr)) (u_Labels u))"
  using run get
proof (cases rule: mr_run_cases)
  case (deleting s2 s3)
  have c: "deletion_cleanup mr_owned (st_ReleaseUUID (cr_Status mr)) P mr s2 = (x, s3)"
    using deleting(2) by (simp add: handleDeletion_def)
  have "guarded_delete (pa_Live P) (deletion_identity P mr) (st_ReleaseUUID (cr_Status mr))
      (previousEntries (cr_Status mr)) (DeleteObject c u :: ModuleRelease effect)"
    using log_ext_new_effects [OF deletion_cleanup_guarded [OF c], unfolded list_all_iff]
      del [unfolded deleting(3)]
    by (drule_tac x = "DeleteObject c u" in bspec) simp_all
  moreover have "sp_Prune (cr_Spec mr)"
  proof (rule ccontr)
    assume "\<not> sp_Prune (cr_Spec mr)"
    then have "finish_deletion P mr s2 = (x, s3)" using c by (simp add: deletion_cleanup_def)
    from finish_deletion_log [OF this] show False using del deleting(3) by simp
  qed
  ultimately show ?thesis by (auto simp: guarded_delete_def)
qed (use deleting del in \<open>auto simp: suspend_event_def\<close>)

lemma mr_cleanup_deletes_only_owned_witness:
  "let mr = demo_mr\<lparr>cr_Meta := demo_meta\<lparr>om_DeletionTimestamp := Some 5\<rparr>\<rparr>;
       s' = snd (ReconcileModuleRelease demo_params demo_req (demo_state mr))
   in DeleteObject ControllerClient old_obj \<in> set (new_effects (demo_state mr) s')
      \<and> prunable_labels ''u1'' (u_Labels old_obj) \<and> deletion_identity demo_params mr = ControllerClient"
proof -
  let ?mr = "demo_mr\<lparr>cr_Meta := demo_meta\<lparr>om_DeletionTimestamp := Some 5\<rparr>\<rparr>"
  obtain x s' where run: "ReconcileModuleRelease demo_params demo_req (demo_state ?mr) = (x, s')"
    by fastforce
  have p: "DeleteObject ControllerClient old_obj \<in> set (new_effects (demo_state ?mr) s')"
    using demo_deletion_run run by (simp add: Let_def)
  show ?thesis
    using mr_cleanup_deletes_only_owned [OF run demo_get _ p] p run by (auto simp: Let_def)
qed

subsection \<open>Failure counters\<close>

text \<open>
  The failure counters after a run: a phase that ran increments its counter if it failed
  and resets it otherwise, a phase that did not run leaves its counter, and the reconcile
  counter is incremented exactly by the failed outcomes and reset by the others.
\<close>

lemma failure_counters_contract:
  "\<exists>c. st_FailureCounters (updateFailureCounters outcome phases st) = Some c
     \<and> (let c0 = ensureCountersField (st_FailureCounters st);
            upd = (\<lambda>did_run failed old. if \<not> did_run then old else if failed then old + 1 else 0)
        in fc_Drift c = upd (driftRan phases) (driftFailed phases) (fc_Drift c0)
         \<and> fc_Apply c = upd (applyRan phases) (applyFailed phases) (fc_Apply c0)
         \<and> fc_Prune c = upd (pruneRan phases) (pruneFailed phases) (fc_Prune c0)
         \<and> fc_Reconcile c = upd True (is_failure outcome) (fc_Reconcile c0))"
  by (cases outcome)
    (auto simp: status_simps updated_counters_def outcome_counter_def phase_counter_def
      is_failure_def Let_def)

end
