(* ===== verification/Opm_MR_Reach.thy ===== *)
theory Opm_MR_Reach
  imports Opm_MR_Props
begin

text \<open>
  The states a ModuleRelease can reach: it is created with an empty status, users edit its
  metadata and spec at any time, and every status the handler writes in some run on it may
  become its status. The step counter bounds the 64-bit sequence and revision numbers.
\<close>

inductive reach :: "('w, 'v) mr_params \<Rightarrow> nat \<Rightarrow> ModuleRelease \<Rightarrow> bool" for P where
  created: "cr_Status mr = empty_mr_status \<Longrightarrow> reach P 0 mr"
| edited: "reach P n mr \<Longrightarrow> cr_Status mr' = cr_Status mr \<Longrightarrow> reach P n mr'"
| reconciled: "reach P n mr \<Longrightarrow> call (ca_Get (pa_CR P) req) s = (Inr mr, s1) \<Longrightarrow>
    ReconcileModuleRelease P req s = (x, s') \<Longrightarrow> PatchStatus mr' owned g \<in> set (new_effects s s') \<Longrightarrow>
    reach P (Suc n) mr'"

inductive_cases reach_0E: "reach P 0 mr"
inductive_cases reach_SucE: "reach P (Suc n) mr"

subsection \<open>The invariant\<close>

definition inventory_inv :: "nat \<Rightarrow> Inventory option \<Rightarrow> bool" where
  "inventory_inv n i = (case i of None \<Rightarrow> True | Some iv \<Rightarrow>
     inv_Digest iv = ComputeDigest (inv_Entries iv) \<and> inv_Count iv = of_nat (length (inv_Entries iv))
     \<and> 1 \<le> sint (inv_Revision iv) \<and> sint (inv_Revision iv) \<le> int n)"

definition history_inv :: "nat \<Rightarrow> HistoryEntry list \<Rightarrow> bool" where
  "history_inv n h \<longleftrightarrow> history_ok h \<and> (\<forall>e\<in>set h. sint (he_Sequence e) \<le> int n)"

definition status_inv :: "nat \<Rightarrow> 'b CommonStatus_scheme \<Rightarrow> bool" where
  "status_inv n st \<longleftrightarrow> conditions_ok (st_Conditions st) \<and> history_inv n (st_History st)
     \<and> inventory_inv n (st_Inventory st)"

lemma inventory_inv_mono: "inventory_inv n i \<Longrightarrow> n \<le> m \<Longrightarrow> inventory_inv m i"
  by (auto simp: inventory_inv_def split: option.splits)

lemma history_inv_mono: "history_inv n h \<Longrightarrow> n \<le> m \<Longrightarrow> history_inv m h"
  by (force simp: history_inv_def)

lemma inventory_inv_next:
  assumes "inventory_inv n i" and "int n < int64_max"
  shows "inventory_inv (Suc n) (Some (next_inventory es i))"
proof (cases i)
  case None
  then show ?thesis by (simp add: inventory_inv_def next_inventory_def)
next
  case (Some iv)
  with assms have "sint (inv_Revision iv + 1) = sint (inv_Revision iv) + 1"
    by (intro sint_plus1_int64) (simp add: inventory_inv_def)
  with assms Some show ?thesis by (simp add: inventory_inv_def next_inventory_def)
qed

lemma nextSequence_le:
  assumes "history_inv n h" and "int n < int64_max"
  shows "sint (nextSequence h) \<le> int (Suc n)"
proof (cases h)
  case Nil
  then show ?thesis by (simp add: nextSequence_def)
next
  case (Cons e h')
  then have "sint (he_Sequence e) \<le> int n" using assms(1) by (simp add: history_inv_def)
  with assms Cons show ?thesis
    by (simp add: history_inv_def nextSequence_head sint_plus1_int64)
qed

lemma history_inv_record:
  assumes "history_inv n h" and "int n < int64_max"
  shows "history_inv (Suc n) (recordHistoryEntry e h)"
proof -
  have b: "\<forall>e\<in>set h. sint (he_Sequence e) < int64_max"
    using assms by (fastforce simp: history_inv_def)
  have "\<forall>x\<in>set (recordHistoryEntry e h). sint (he_Sequence x) \<le> int (Suc n)"
    using history_inv_mono [OF assms(1), of "Suc n"] nextSequence_le [OF assms]
    by (auto simp: recordHistoryEntry_take history_inv_def dest!: in_set_takeD)
  then show ?thesis
    using history_ok_record [OF _ b] assms(1) by (simp add: history_inv_def)
qed

lemma record_outcome_history:
  assumes "history_inv n (st_History st)" and "int n < int64_max"
  shows "history_inv (Suc n) (st_History (record_outcome L now t st))"
  using assms history_inv_record [OF assms] history_inv_mono [OF assms(1), of "Suc n"]
  by (simp add: record_outcome_def Let_def RecordHistory_def record_applied_def)

lemma commit_status_inv:
  assumes inv: "history_inv n (st_History (cr_Status (l_obj L)))"
      "inventory_inv n (st_Inventory (cr_Status (l_obj L)))"
    and n: "int n < int64_max" and ok: "conditions_ok (st_Conditions (commit_status K L now t d ra))"
  shows "status_inv (Suc n) (commit_status K L now t d ra)"
proof -
  let ?st = "record_attempt now d (l_digests L)
    ((cr_Status (l_obj L))\<lparr>st_ObservedGeneration := om_Generation (cr_Meta (l_obj L))\<rparr>)"
  have "history_inv n (st_History ?st)" using inv(1) by (simp add: status_simps)
  from record_outcome_history [OF this n, of L now t] history_inv_mono [OF inv(1), of "Suc n"]
  have "history_inv (Suc n) (st_History (commit_status K L now t d ra))"
    by (simp add: commit_status_def Let_def status_simps)
  moreover have "inventory_inv (Suc n) (st_Inventory (commit_status K L now t d ra))"
    using inventory_inv_next [OF inv(2) n] inventory_inv_mono [OF inv(2), of "Suc n"]
    by (simp add: status_simps)
  ultimately show ?thesis using ok by (simp add: status_inv_def)
qed

lemma status_inv_mono: "status_inv n st \<Longrightarrow> n \<le> m \<Longrightarrow> status_inv m st"
  using inventory_inv_mono history_inv_mono by (auto simp: status_inv_def)

text \<open>One run keeps it, at the next step count.\<close>

lemma reconcile_status_inv:
  assumes laws: "flux_conditions (pa_Kube P)" and n: "int n < int64_max"
    and inv: "status_inv n (cr_Status mr)"
    and get: "call (ca_Get (pa_CR P) req) s = (Inr mr, s1)"
    and run: "ReconcileModuleRelease P req s = (x, s')"
    and patch: "PatchStatus mr' owned g \<in> set (new_effects s s')"
  shows "status_inv (Suc n) (cr_Status mr')"
proof -
  note marks = flux_conditions.ok_marks [OF laws]
  have ok: "conditions_ok (conds mr)" using inv by (simp add: status_inv_def)
  have up: "status_inv (Suc n) (cr_Status mr)" using inv by (rule status_inv_mono) simp
  from run get show ?thesis
  proof (cases rule: mr_run_cases)
    case finalizer
    with patch show ?thesis by simp
  next
    case (deleting s2 s3)
    have "deletion_status_of (pa_Kube P) mr mr'"
      using deletion_cleanup_effects deleting(2,3) patch
      by (fastforce simp: handleDeletion_def list_all_iff deletion_effect_def)
    then show ?thesis
      using up ok marks by (auto simp: deletion_status_of_def status_inv_def inventory_inv_def)
  next
    case suspended
    with patch have "mr' = suspended_object (pa_Kube P) mr" by (simp add: suspend_event_def)
    then show ?thesis using up marks ok by (simp add: suspended_object_def status_inv_def)
  next
    case diverged
    with patch show ?thesis by (auto simp: list_all_iff)
  next
    case (active evs es L s2 s3 mr2)
    have mr2: "mr2 = mr'"
      using patch active(2,3) body_effects_kinds [OF active(4)] by (auto simp: list_all_iff)
    have frame: "same_ledger mr (l_obj L)" using mr_body_frame [OF active(1)] by simp
    obtain now t d ra where mr': "mr' = (l_obj L)\<lparr>cr_Status := commit_status (pa_Kube P) L now t d ra\<rparr>"
      using active(5) mr2 by (auto simp: committed_def)
    have "body_conds (pa_Kube P) L" using mr_body_conds [OF laws _ _ active(1)] ok by simp
    then have "conditions_ok (st_Conditions (commit_status (pa_Kube P) L now t d ra))"
      using marks by (simp add: body_conds_def status_simps)
    then have "status_inv (Suc n) (commit_status (pa_Kube P) L now t d ra)"
      using inv n same_ledgerD(3,5) [OF frame] by (intro commit_status_inv) (simp_all add: status_inv_def)
    then show ?thesis by (simp add: mr')
  qed
qed

text \<open>
  C27: in every reachable state of a ModuleRelease, after fewer than the maximal 64-bit
  number of status writes: at most one condition per type; a history of at most ten
  entries, newest first, with positive and strictly decreasing sequence numbers; and an
  inventory whose digest and count are those of its entries and whose revision is positive
  and at most the number of writes.
\<close>

lemma reach_invariant:
  assumes "reach P n mr" and "flux_conditions (pa_Kube P)" and "int n < int64_max"
  shows "conditions_ok (conds mr) \<and> history_ok (st_History (cr_Status mr))
    \<and> (case st_Inventory (cr_Status mr) of None \<Rightarrow> True | Some i \<Rightarrow>
         inv_Digest i = ComputeDigest (inv_Entries i) \<and> inv_Count i = of_nat (length (inv_Entries i))
         \<and> 1 \<le> sint (inv_Revision i) \<and> sint (inv_Revision i) \<le> int n)"
proof -
  have "status_inv n (cr_Status mr)"
    using assms
  proof (induction rule: reach.induct)
    case (created mr)
    then show ?case
      by (simp add: status_inv_def history_inv_def history_ok_def inventory_inv_def empty_mr_status_def
          empty_common_def CommonStatus.defs)
  next
    case (reconciled n mr req s s1 x s' mr' owned g)
    have "status_inv n (cr_Status mr)" using reconciled by simp
    then show ?case
      using reconcile_status_inv [OF reconciled.prems(1) _ _ reconciled.hyps(2,3,4)] reconciled.prems by simp
  qed simp
  then show ?thesis by (simp add: status_inv_def history_inv_def inventory_inv_def)
qed

lemma reach_invariant_witness:
  "\<exists>mr. reach demo_params 1 mr \<and> cr_Status mr \<noteq> empty_mr_status \<and> conditions_ok (conds mr)
     \<and> history_ok (st_History (cr_Status mr))"
proof -
  let ?mr = "demo_mr\<lparr>cr_Status := empty_mr_status\<rparr>"
  have st: "conds ?mr = []" "st_FailureCounters (cr_Status ?mr) = None"
    by (simp_all add: empty_mr_status_def empty_common_def CommonStatus.defs)
  obtain x s' where run: "ReconcileModuleRelease demo_params demo_req (demo_state ?mr) = (x, s')"
    by fastforce
  have "\<exists>L mr'. PatchStatus mr' mr_owned True \<in> set (new_effects (demo_state ?mr) s') \<and> committed std_kube L mr'"
    using run demo_get
  proof (cases rule: mr_run_cases)
    case (active evs es L s2 s3 mr')
    then show ?thesis by (intro exI [of _ L] exI [of _ mr']) simp
  next
    case finalizer
    from this(1) show ?thesis by simp
  next
    case deleting
    from this(1) show ?thesis by simp
  next
    case suspended
    from this(1) show ?thesis by simp
  next
    case diverged
    from this(5) show ?thesis by (simp add: render_call_def)
  qed
  then obtain L mr' where p: "PatchStatus mr' mr_owned True \<in> set (new_effects (demo_state ?mr) s')"
    and c: "committed std_kube L mr'"
    by blast
  have "st_FailureCounters (cr_Status mr') \<noteq> None"
    using c by (auto simp: committed_def commit_counter)
  then have "cr_Status mr' \<noteq> empty_mr_status" using st(2) by auto
  moreover have r: "reach demo_params 1 mr'"
    using reach.reconciled [OF reach.created demo_get run p] by simp
  moreover have "flux_conditions (pa_Kube demo_params)" by simp unfold_locales
  ultimately show ?thesis using reach_invariant [OF r] by (simp add: int64_max_def) blast
qed

end
