(* ===== verification/Opm_Path.thy ===== *)
theory Opm_Path
  imports Opm_Prelude
begin

text \<open>
  The Unix \<open>path/filepath\<close> functions that the controller's artifact handling relies on:
  \<open>Clean\<close>, \<open>Join\<close>, \<open>Dir\<close> and \<open>IsAbs\<close>. A path is cleaned as a list of components:
  empty and \<open>.\<close> components vanish, \<open>..\<close> cancels the component before it, and leading
  \<open>..\<close> components are dropped from a rooted path and kept in a relative one.
\<close>

fun split_slash :: "string \<Rightarrow> string \<Rightarrow> string list" where
  "split_slash [] cur = [rev cur]"
| "split_slash (c # s) cur =
     (if c = CHR ''/'' then rev cur # split_slash s [] else split_slash s (c # cur))"

definition components :: "string \<Rightarrow> string list" where
  "components p = filter (\<lambda>c. c \<noteq> [] \<and> c \<noteq> ''.'') (split_slash p [])"

text \<open>The stack of kept components, last one first.\<close>

fun clean_stack :: "bool \<Rightarrow> string list \<Rightarrow> string list \<Rightarrow> string list" where
  "clean_stack rooted [] st = st"
| "clean_stack rooted (c # cs) st =
     (if c = ''..'' then
        (case st of
           [] \<Rightarrow> if rooted then clean_stack rooted cs [] else clean_stack rooted cs [''..'']
         | d # st' \<Rightarrow> if d = ''..'' then clean_stack rooted cs (''..'' # st) else clean_stack rooted cs st')
      else clean_stack rooted cs (c # st))"

definition IsAbs :: "string \<Rightarrow> bool" where
  "IsAbs p = HasPrefix p ''/''"

definition clean_components :: "string \<Rightarrow> string list" where
  "clean_components p = rev (clean_stack (IsAbs p) (components p) [])"

fun join_slash :: "string list \<Rightarrow> string" where
  "join_slash [] = []"
| "join_slash [c] = c"
| "join_slash (c # cs) = c @ ''/'' @ join_slash cs"

definition Clean :: "string \<Rightarrow> string" where
  "Clean p = (let cs = clean_components p in
     if IsAbs p then ''/'' @ join_slash cs
     else if cs = [] then ''.'' else join_slash cs)"

definition filepath_Join :: "string list \<Rightarrow> string" where
  "filepath_Join elems = (let es = dropWhile (\<lambda>e. e = []) elems in
     if es = [] then [] else Clean (join_slash es))"

text \<open>\<open>Dir\<close>: everything up to the last slash, cleaned.\<close>

definition filepath_Dir :: "string \<Rightarrow> string" where
  "filepath_Dir p = Clean (rev (dropWhile (\<lambda>c. c \<noteq> CHR ''/'') (rev p)))"

subsection \<open>Components\<close>

definition plain :: "string \<Rightarrow> bool" where
  "plain c \<longleftrightarrow> c \<noteq> [] \<and> c \<noteq> ''.'' \<and> CHR ''/'' \<notin> set c"

lemma split_slash_append:
  "split_slash (a @ ''/'' @ b) cur = split_slash a cur @ split_slash b []"
  by (induction a arbitrary: cur) auto

lemma split_slash_no_slash: "CHR ''/'' \<notin> set c \<Longrightarrow> split_slash c cur = [rev cur @ c]"
  by (induction c arbitrary: cur) auto

lemma split_slash_parts: "c \<in> set (split_slash s cur) \<Longrightarrow> CHR ''/'' \<notin> set cur \<Longrightarrow> CHR ''/'' \<notin> set c"
proof (induction s arbitrary: cur)
  case (Cons x s)
  show ?case
  proof (cases "x = CHR ''/''")
    case True
    then have "c = rev cur \<or> c \<in> set (split_slash s [])" using Cons.prems(1) by simp
    then show ?thesis using Cons.IH [of "[]"] Cons.prems(2) by auto
  next
    case False
    then show ?thesis using Cons.IH [of "x # cur"] Cons.prems by simp
  qed
qed simp

lemma components_plain: "c \<in> set (components p) \<Longrightarrow> plain c"
  using split_slash_parts [of c p "[]"] by (auto simp: components_def plain_def)

lemma components_append: "components (a @ ''/'' @ b) = components a @ components b"
  using split_slash_append [of a b "[]"] by (simp add: components_def)

lemma components_Nil [simp]: "components [] = []" "components ''/'' = []"
  by (simp_all add: components_def)

lemma components_slash: "components (CHR ''/'' # b) = components b"
  using components_append [of "[]" b] by simp

lemma components_single: "plain c \<Longrightarrow> components c = [c]"
  by (simp add: components_def split_slash_no_slash plain_def)

lemma components_join: "\<forall>c\<in>set cs. plain c \<Longrightarrow> components (join_slash cs) = cs"
proof (induction cs rule: join_slash.induct)
  case (3 c d cs)
  then show ?case using components_append [of c "join_slash (d # cs)"] by (simp add: components_single)
qed (auto simp: components_single)

subsection \<open>Cleaned paths\<close>

text \<open>A cleaned stack has \<open>..\<close> only at its bottom, and none if the path is rooted.\<close>

definition clean_list :: "bool \<Rightarrow> string list \<Rightarrow> bool" where
  "clean_list rooted cs \<longleftrightarrow> (\<forall>c\<in>set cs. plain c)
     \<and> (\<exists>n ds. cs = replicate n ''..'' @ ds \<and> ''..'' \<notin> set ds \<and> (rooted \<longrightarrow> n = 0))"

lemma clean_stack_no_dots: "''..'' \<notin> set cs \<Longrightarrow> clean_stack r cs st = rev cs @ st"
  by (induction cs arbitrary: st) auto

lemma clean_stack_append: "clean_stack r (a @ b) st = clean_stack r b (clean_stack r a st)"
  by (induction a arbitrary: st) (auto split: list.splits)

lemma clean_list_snoc:
  assumes "clean_list r (rev st)" and "plain c" and "c \<noteq> ''..''"
  shows "clean_list r (rev (c # st))"
proof -
  obtain n ds where "rev st = replicate n ''..'' @ ds" "''..'' \<notin> set ds" "r \<longrightarrow> n = 0"
    using assms(1) by (auto simp: clean_list_def)
  then show ?thesis using assms unfolding clean_list_def
    by (intro conjI exI [of _ n] exI [of _ "ds @ [c]"]) auto
qed

lemma clean_list_pop:
  assumes "clean_list r (rev (d # st))" and "d \<noteq> ''..''"
  shows "clean_list r (rev st)"
proof -
  obtain n ds where d: "rev st @ [d] = replicate n ''..'' @ ds" "''..'' \<notin> set ds" "r \<longrightarrow> n = 0"
    using assms(1) by (auto simp: clean_list_def)
  have "ds \<noteq> []"
  proof
    assume "ds = []"
    with d(1) have "d \<in> set (replicate n ''..'')" by (metis append_Nil2 in_set_conv_decomp)
    with assms(2) show False by auto
  qed
  then obtain es where "ds = es @ [d]" "rev st = replicate n ''..'' @ es"
    using d(1) by (cases ds rule: rev_cases) auto
  then show ?thesis using d(2,3) assms(1) unfolding clean_list_def
    by (intro conjI exI [of _ n] exI [of _ es]) auto
qed

lemma clean_list_dots:
  assumes "clean_list r (rev st)" and "\<not> r" and "st = [] \<or> hd st = ''..''"
  shows "clean_list r (rev (''..'' # st))"
proof -
  obtain n ds where d: "rev st = replicate n ''..'' @ ds" "''..'' \<notin> set ds"
    using assms(1) by (auto simp: clean_list_def)
  have "ds = []"
  proof (rule ccontr)
    assume "ds \<noteq> []"
    then have "st \<noteq> []" "hd st = last ds" using d(1) by (auto simp: hd_rev [symmetric] intro: rev_swap)
       (metis hd_append2 hd_rev last_appendR last_rev rev_rev_ident)
    with assms(3) d(2) \<open>ds \<noteq> []\<close> show False by (metis last_in_set)
  qed
  with d have "rev (''..'' # st) = replicate (Suc n) ''..'' @ []"
    by (simp add: replicate_append_same)
  then show ?thesis using assms unfolding clean_list_def
    by (intro conjI exI [of _ "Suc n"] exI [of _ "[]"]) (auto simp: plain_def)
qed

lemma clean_list_Nil [simp]: "clean_list r []"
  by (auto simp: clean_list_def intro: exI [of _ 0])

lemma clean_list_rooted: "clean_list True cs \<longleftrightarrow> (\<forall>c\<in>set cs. plain c) \<and> ''..'' \<notin> set cs"
  by (auto simp: clean_list_def)

lemma clean_stack_clean:
  "\<forall>c\<in>set cs. plain c \<Longrightarrow> clean_list r (rev st) \<Longrightarrow> clean_list r (rev (clean_stack r cs st))"
proof (induction cs arbitrary: st)
  case (Cons c cs)
  have IH: "clean_list r (rev st') \<Longrightarrow> clean_list r (rev (clean_stack r cs st'))" for st'
    using Cons.IH [of st'] Cons.prems(1) by simp
  show ?case
  proof (cases "c = ''..''")
    case False
    then show ?thesis using IH [of "c # st"] Cons.prems clean_list_snoc [of r st c] by simp
  next
    case dots: True
    consider "st = []" r | "st = []" "\<not> r" | d st' where "st = d # st'" "d = ''..''"
      | d st' where "st = d # st'" "d \<noteq> ''..''" by (cases st; cases r) auto
    then show ?thesis
    proof cases
      case 1
      then show ?thesis using IH [of "[]"] dots by simp
    next
      case 2
      then show ?thesis using IH [of "[''..'']"] clean_list_dots [of r "[]"] dots by simp
    next
      case 3
      then have "\<not> r" using Cons.prems(2) by (auto simp: clean_list_rooted)
      then show ?thesis using 3 IH [of "''..'' # st"] clean_list_dots [of r st] Cons.prems(2) dots by simp
    next
      case 4
      then show ?thesis using IH [of st'] clean_list_pop [of r d st'] Cons.prems(2) dots by simp
    qed
  qed
qed simp

lemma clean_components_clean: "clean_list (IsAbs p) (clean_components p)"
  using clean_stack_clean [of "components p" "IsAbs p" "[]"] components_plain
  by (simp add: clean_components_def)

lemma clean_list_plain: "clean_list r cs \<Longrightarrow> \<forall>c\<in>set cs. plain c"
  by (simp add: clean_list_def)

text \<open>Cleaning a clean list changes nothing.\<close>

lemma clean_stack_replicate:
  "clean_stack False (replicate n ''..'') (replicate m ''..'') = replicate (n + m) ''..''"
proof (induction n arbitrary: m)
  case (Suc n)
  then show ?case using Suc [of "Suc m"] by (cases m) (simp_all add: replicate_app_Cons_same)
qed simp

lemma clean_stack_fixed: "clean_list r cs \<Longrightarrow> rev (clean_stack r cs []) = cs"
proof -
  assume "clean_list r cs"
  then obtain n ds where d: "cs = replicate n ''..'' @ ds" "''..'' \<notin> set ds" "r \<longrightarrow> n = 0"
    by (auto simp: clean_list_def)
  have "clean_stack r (replicate n ''..'') [] = replicate n ''..''"
    using clean_stack_replicate [of n 0] d(3) by (cases r) simp_all
  with d show ?thesis by (simp add: clean_stack_append clean_stack_no_dots)
qed

text \<open>What \<open>Clean\<close> prints, read back.\<close>

lemma join_slash_last: "cs \<noteq> [] \<Longrightarrow> join_slash (cs @ [c]) = join_slash cs @ ''/'' @ c"
  by (induction cs rule: join_slash.induct) auto

lemma join_slash_hd:
  assumes "cs \<noteq> []" "\<forall>c\<in>set cs. plain c"
  shows "join_slash cs \<noteq> [] \<and> hd (join_slash cs) \<noteq> CHR ''/''"
  using assms by (cases cs rule: join_slash.cases) (auto simp: plain_def hd_append dest: hd_in_set)

lemma IsAbs_Cons [simp]: "IsAbs (CHR ''/'' # s)" and IsAbs_Nil [simp]: "\<not> IsAbs []"
  by (simp_all add: IsAbs_def HasPrefix_def)

lemma IsAbs_iff: "IsAbs s \<longleftrightarrow> s \<noteq> [] \<and> hd s = CHR ''/''"
  by (cases s) (auto simp: IsAbs_def HasPrefix_def)

lemma IsAbs_append: "a \<noteq> [] \<Longrightarrow> IsAbs (a @ b) = IsAbs a"
  by (simp add: IsAbs_iff)

lemma IsAbs_Clean [simp]: "IsAbs (Clean p) = IsAbs p"
  using join_slash_hd [of "clean_components p"] clean_list_plain [OF clean_components_clean [of p]]
  by (auto simp: Clean_def Let_def IsAbs_iff)

lemma components_Clean: "components (Clean p) = clean_components p"
proof -
  have j: "components (join_slash (clean_components p)) = clean_components p"
    using clean_list_plain [OF clean_components_clean] by (rule components_join)
  moreover have "components ''.'' = []" by (simp add: components_def)
  ultimately show ?thesis by (auto simp: Clean_def Let_def components_slash)
qed

lemma clean_components_Clean [simp]: "clean_components (Clean p) = clean_components p"
  using clean_stack_fixed [OF clean_components_clean [of p]]
  by (simp add: clean_components_def [of "Clean p"] components_Clean)

lemma Clean_idem [simp]: "Clean (Clean p) = Clean p"
  by (simp add: Clean_def [of "Clean p"]) (simp add: Clean_def Let_def)

lemma Clean_nonempty [simp]: "Clean p \<noteq> []"
  using join_slash_hd [of "clean_components p"] clean_list_plain [OF clean_components_clean [of p]]
  by (auto simp: Clean_def Let_def)

text \<open>A path is determined by its cleaned components and whether it is rooted.\<close>

lemma Clean_eqI: "IsAbs p = IsAbs q \<Longrightarrow> clean_components p = clean_components q \<Longrightarrow> Clean p = Clean q"
  by (simp add: Clean_def)

subsection \<open>Lexical containment\<close>

definition within :: "string \<Rightarrow> string \<Rightarrow> bool" where
  "within d p \<longleftrightarrow> (\<exists>cs. ''..'' \<notin> set cs \<and> clean_components p = clean_components d @ cs \<and> IsAbs p = IsAbs d)"

lemma within_refl [simp]: "within d d"
  by (simp add: within_def)

lemma Join2: "b \<noteq> [] \<Longrightarrow> filepath_Join [a, b] = (if a = [] then Clean b else Clean (a @ ''/'' @ b))"
  by (simp add: filepath_Join_def)

lemma clean_components_join2:
  assumes "a \<noteq> []" and "''..'' \<notin> set (components b)"
  shows "clean_components (a @ ''/'' @ b) = clean_components a @ components b"
  using assms components_append [of a b]
  by (simp add: clean_components_def clean_stack_append clean_stack_no_dots IsAbs_append)

text \<open>Joining a relative clean path without \<open>..\<close> stays inside.\<close>

lemma Join_components:
  assumes "b \<noteq> []" and "\<not> IsAbs b" and "''..'' \<notin> set (components b)"
  shows "clean_components (filepath_Join [a, b]) = clean_components a @ components b"
    and "IsAbs (filepath_Join [a, b]) = IsAbs a"
  using assms clean_components_join2 [of a b]
  by (auto simp: Join2 IsAbs_append)
    (simp_all add: clean_components_def clean_stack_no_dots)

lemma Join_within:
  assumes "b \<noteq> []" and "\<not> IsAbs b" and "''..'' \<notin> set (components b)"
  shows "within a (filepath_Join [a, b])"
  using Join_components [OF assms, of a] assms(3) by (auto simp: within_def)

text \<open>
  The check the extraction code makes on a cleaned archive name is exact: a relative clean path
  has no \<open>..\<close> component unless it starts with one.
\<close>

lemma relative_clean_no_dots:
  assumes "\<not> IsAbs (Clean p)" and "\<not> HasPrefix (Clean p) ''..''"
  shows "''..'' \<notin> set (components (Clean p))"
proof -
  obtain n ds where d: "clean_components p = replicate n ''..'' @ ds" "''..'' \<notin> set ds"
    using clean_components_clean [of p] by (auto simp: clean_list_def)
  have "n = 0"
  proof (cases n)
    case (Suc m)
    then have cs: "clean_components p = ''..'' # replicate m ''..'' @ ds" using d(1) by simp
    then have "HasPrefix (join_slash (clean_components p)) ''..''"
      by (cases "replicate m ''..'' @ ds") (simp_all add: HasPrefix_def)
    then have "HasPrefix (Clean p) ''..''" using cs assms(1) by (auto simp: Clean_def Let_def)
    with assms(2) show ?thesis by simp
  qed
  with d show ?thesis by (simp add: components_Clean)
qed

text \<open>The parent of a path with at least one named component.\<close>

lemma takeDir:
  assumes "CHR ''/'' \<notin> set c"
  shows "rev (dropWhile (\<lambda>x. x \<noteq> CHR ''/'') (rev (a @ ''/'' @ c))) = a @ ''/''"
    and "rev (dropWhile (\<lambda>x. x \<noteq> CHR ''/'') (rev c)) = []"
proof -
  have "dropWhile (\<lambda>x. x \<noteq> CHR ''/'') (rev c @ ys) = dropWhile (\<lambda>x. x \<noteq> CHR ''/'') ys" for ys
    using assms by (intro dropWhile_append2) auto
  then show "rev (dropWhile (\<lambda>x. x \<noteq> CHR ''/'') (rev (a @ ''/'' @ c))) = a @ ''/''"
    by simp
  show "rev (dropWhile (\<lambda>x. x \<noteq> CHR ''/'') (rev c)) = []"
    using assms by auto
qed

lemma Dir_components:
  assumes "clean_components p = cs @ [c]" and "c \<noteq> ''..''"
  shows "clean_components (filepath_Dir (Clean p)) = cs \<and> IsAbs (filepath_Dir (Clean p)) = IsAbs p"
proof -
  have cl: "clean_list (IsAbs p) (cs @ [c])" using clean_components_clean [of p] assms by simp
  then have pl: "\<forall>d\<in>set cs. plain d" "plain c" by (auto simp: clean_list_def)
  have cs: "rev (clean_stack (IsAbs p) cs []) = cs"
    using clean_stack_fixed [OF cl] assms(2) by (simp add: clean_stack_append)
  have nc: "CHR ''/'' \<notin> set c" using pl by (simp add: plain_def)
  define q where "q = (if IsAbs p then ''/'' else []) @ (if cs = [] then [] else join_slash cs @ ''/'')"
  have "rev (dropWhile (\<lambda>x. x \<noteq> CHR ''/'') (rev (Clean p))) = q"
    using takeDir(1) [OF nc, of "''/'' @ join_slash cs"] takeDir(1) [OF nc, of "join_slash cs"]
      takeDir(1) [OF nc, of "[]"] join_slash_last [of cs c] takeDir(2) [OF nc]
    by (auto simp: Clean_def assms q_def)
  then have D: "filepath_Dir (Clean p) = Clean q" by (simp add: filepath_Dir_def)
  have "join_slash cs \<noteq> []" if "cs \<noteq> []" using join_slash_hd [OF that pl(1)] by simp
  then have abs: "IsAbs q = IsAbs p"
    using join_slash_hd [OF _ pl(1)] by (auto simp: q_def IsAbs_iff hd_append)
  have "components q = cs"
    using components_append [of "join_slash cs" "[]"] components_join [OF pl(1)]
    by (auto simp: q_def components_slash)
  with cs abs show ?thesis by (simp add: D clean_components_def [of q])
qed

end
