(* ===== verification/Opm_Source.thy ===== *)
theory Opm_Source
  imports Opm_Kube Opm_Sha256 Opm_Path
begin

text \<open>
  \<open>internal/source\<close>: resolution of a Flux source to an artifact, the download with its size
  and digest checks, the zip and tar.gz extraction, and the check for a CUE module. The file
  system, the HTTP client and the decoders of \<open>archive/tar\<close>, \<open>archive/zip\<close> and
  \<open>compress/gzip\<close> are parameters acting on the world \<open>'w\<close>; a decoded archive is the
  sequence of its entries.
\<close>

subsection \<open>Resolution (\<open>artifact.go\<close>, \<open>resolve.go\<close>)\<close>

record ArtifactRef =
  art_Kind :: string
  art_URL :: string
  art_Revision :: string
  art_Digest :: string

definition ErrSourceNotFound :: goerr where
  "ErrSourceNotFound = GoErr ''source not found'' (Sentinel ''ErrSourceNotFound'') []"

definition ErrSourceNotReady :: goerr where
  "ErrSourceNotReady = GoErr ''source not ready'' (Sentinel ''ErrSourceNotReady'') []"

definition ErrUnsupportedSourceKind :: goerr where
  "ErrUnsupportedSourceKind =
     GoErr ''unsupported source kind'' (Sentinel ''ErrUnsupportedSourceKind'') []"

definition ErrMissingCUEModule :: goerr where
  "ErrMissingCUEModule =
     GoErr ''artifact does not contain a cue module'' (Sentinel ''ErrMissingCUEModule'') []"

datatype source_type = OCIRepository | GitRepository | Bucket

text \<open>The part of a Flux source the controller reads: its conditions and its artifact pointer.\<close>

record fluxArtifact =
  fa_URL :: string
  fa_Revision :: string
  fa_Digest :: string

record fluxSource =
  src_Conditions :: "Condition list"
  src_Artifact :: "fluxArtifact option"

type_synonym 'w get_source = "source_type \<Rightarrow> NamespacedName \<Rightarrow> 'w \<Rightarrow> (goerr + fluxSource) \<times> 'w"

definition newSourceObject :: "string \<Rightarrow> goerr + source_type" where
  "newSourceObject kind =
     (if kind = ''OCIRepository'' then Inr OCIRepository
      else if kind = ''GitRepository'' then Inr GitRepository
      else if kind = ''Bucket'' then Inr Bucket
      else Inl (Errorf_w (''source kind '' @ Quote kind @ '': '') ErrUnsupportedSourceKind []))"

definition Resolve ::
  "kube_lib \<Rightarrow> 'w get_source \<Rightarrow> SourceReference \<Rightarrow> string \<Rightarrow> 'w \<Rightarrow> (goerr + ArtifactRef) \<times> 'w" where
  "Resolve K get sourceRef releaseNamespace w =
     (let ns = (if sr_Namespace sourceRef \<noteq> [] then sr_Namespace sourceRef else releaseNamespace);
          who = ns @ ''/'' @ sr_Name sourceRef;
          kwho = sr_Kind sourceRef @ '' '' @ who
      in case newSourceObject (sr_Kind sourceRef) of
           Inl e \<Rightarrow> (Inl (Errorf_w (who @ '': '') e []), w)
         | Inr t \<Rightarrow>
             (case get t \<lparr>nn_Namespace = ns, nn_Name = sr_Name sourceRef\<rparr> w of
                (Inl getErr, w1) \<Rightarrow>
                  (Inl (if k_IgnoreNotFound K getErr = None
                        then Errorf_w (kwho @ '': '') ErrSourceNotFound []
                        else Errorf_w (''getting '' @ kwho @ '': '') getErr []), w1)
              | (Inr obj, w1) \<Rightarrow>
                  (case k_FindStatusCondition K (src_Conditions obj) ''Ready'' of
                     None \<Rightarrow> (Inl (Errorf_w (kwho @ '': '') ErrSourceNotReady []), w1)
                   | Some ready \<Rightarrow>
                       if c_Status ready \<noteq> ConditionTrue
                       then (Inl (Errorf_w (kwho @ '': '') ErrSourceNotReady []), w1)
                       else (case src_Artifact obj of
                           None \<Rightarrow> (Inl (Errorf_w (kwho @ '' has no artifact: '') ErrSourceNotReady []), w1)
                         | Some a \<Rightarrow>
                             (Inr \<lparr>art_Kind = sr_Kind sourceRef, art_URL = fa_URL a,
                                art_Revision = fa_Revision a, art_Digest = fa_Digest a\<rparr>, w1)))))"

subsection \<open>The file system and the archive decoders\<close>

record FileInfo =
  fi_IsDir :: bool
  fi_Size :: int64

text \<open>\<open>os\<close> calls; \<open>fs_Write\<close> writes to a file opened by the call before it.\<close>

record 'w fs_api =
  fs_MkdirAll :: "string \<Rightarrow> 'w \<Rightarrow> goerr option \<times> 'w"
  fs_OpenFile :: "string \<Rightarrow> 32 word \<Rightarrow> 'w \<Rightarrow> goerr option \<times> 'w"
  fs_Write :: "string \<Rightarrow> string \<Rightarrow> 'w \<Rightarrow> goerr option \<times> 'w"
  fs_Symlink :: "string \<Rightarrow> string \<Rightarrow> 'w \<Rightarrow> goerr option \<times> 'w"
  fs_CreateTemp :: "string \<Rightarrow> 'w \<Rightarrow> (goerr + string) \<times> 'w"
  fs_MkdirTemp :: "string \<Rightarrow> 'w \<Rightarrow> (goerr + string) \<times> 'w"
  fs_Remove :: "string \<Rightarrow> 'w \<Rightarrow> goerr option \<times> 'w"
  fs_RemoveAll :: "string \<Rightarrow> 'w \<Rightarrow> goerr option \<times> 'w"
  fs_Stat :: "string \<Rightarrow> 'w \<Rightarrow> (goerr + FileInfo) \<times> 'w"
  fs_Open :: "string \<Rightarrow> 'w \<Rightarrow> (goerr + string) \<times> 'w"
  fs_IsNotExist :: "goerr \<Rightarrow> bool"

text \<open>The readable content of a stream and the error it ends with, if not EOF.\<close>

type_synonym stream = "string \<times> goerr option"

record tar_header =
  th_Name :: string
  th_Typeflag :: char
  th_Linkname :: string
  th_Mode :: int64
  th_Body :: stream

record zip_file =
  zf_Name :: string
  zf_IsDir :: bool
  zf_Open :: "goerr + stream"

text \<open>A list of tar entries ends with EOF; an error entry is an error of \<open>tr.Next\<close>.\<close>

record 'w archive_api =
  ar_Gzip :: "string \<Rightarrow> goerr + string"
  ar_Tar :: "string \<Rightarrow> (goerr + tar_header) list"
  ar_Zip :: "string \<Rightarrow> 'w \<Rightarrow> (goerr + zip_file list) \<times> 'w"

text \<open>\<open>if err := ...; err != nil { return fmt.Errorf(pre + "%w", err) }\<close>.\<close>

definition or_fail ::
  "string \<Rightarrow> goerr option \<times> 'w \<Rightarrow> ('w \<Rightarrow> goerr option \<times> 'w) \<Rightarrow> goerr option \<times> 'w" where
  "or_fail pre r k = (case r of (Some e, w) \<Rightarrow> (Some (Errorf_w pre e []), w) | (None, w) \<Rightarrow> k w)"

definition io_Copy :: "'w fs_api \<Rightarrow> string \<Rightarrow> stream \<Rightarrow> 'w \<Rightarrow> goerr option \<times> 'w" where
  "io_Copy FS path src w =
     (case fs_Write FS path (fst src) w of
        (Some e, w1) \<Rightarrow> (Some e, w1)
      | (None, w1) \<Rightarrow> (snd src, w1))"

subsection \<open>Extraction (\<open>extract.go\<close>)\<close>

definition MaxZipFiles :: nat where "MaxZipFiles = 10000"
definition MaxTarFiles :: nat where "MaxTarFiles = 10000"

definition extractZipFile :: "'w fs_api \<Rightarrow> zip_file \<Rightarrow> string \<Rightarrow> 'w \<Rightarrow> goerr option \<times> 'w" where
  "extractZipFile FS f target w =
     (case zf_Open f of
        Inl e \<Rightarrow> (Some (Errorf_w (''opening zip entry '' @ zf_Name f @ '': '') e []), w)
      | Inr rc \<Rightarrow>
          or_fail (''creating file '' @ target @ '': '') (fs_OpenFile FS target 438 w) (\<lambda>w1.
          or_fail (''extracting '' @ zf_Name f @ '': '') (io_Copy FS target rc w1) (\<lambda>w2.
          (None, w2))))"

definition zip_entry :: "'w fs_api \<Rightarrow> string \<Rightarrow> zip_file \<Rightarrow> 'w \<Rightarrow> goerr option \<times> 'w" where
  "zip_entry FS destDir f w =
     (let name = Clean (zf_Name f) in
      if IsAbs name \<or> HasPrefix name ''..''
      then (Some (errors_New (''zip entry '' @ Quote (zf_Name f) @ '' contains path traversal'')), w)
      else
        (let target = filepath_Join [destDir, name] in
         if zf_IsDir f
         then or_fail (''creating directory '' @ target @ '': '') (fs_MkdirAll FS target w) (\<lambda>w1. (None, w1))
         else or_fail (''creating parent directory for '' @ target @ '': '')
                (fs_MkdirAll FS (filepath_Dir target) w) (extractZipFile FS f target)))"

fun zip_loop :: "'w fs_api \<Rightarrow> string \<Rightarrow> zip_file list \<Rightarrow> 'w \<Rightarrow> goerr option \<times> 'w" where
  "zip_loop FS destDir [] w = (None, w)"
| "zip_loop FS destDir (f # fs) w =
     (case zip_entry FS destDir f w of
        (Some e, w1) \<Rightarrow> (Some e, w1)
      | (None, w1) \<Rightarrow> zip_loop FS destDir fs w1)"

definition extractZip ::
  "'w fs_api \<Rightarrow> 'w archive_api \<Rightarrow> string \<Rightarrow> string \<Rightarrow> 'w \<Rightarrow> goerr option \<times> 'w" where
  "extractZip FS AR zipPath destDir w =
     (case ar_Zip AR zipPath w of
        (Inl e, w1) \<Rightarrow> (Some (Errorf_w ''opening zip archive: '' e []), w1)
      | (Inr files, w1) \<Rightarrow>
          if length files > MaxZipFiles
          then (Some (errors_New (''zip archive contains '' @ nat_str (length files)
                  @ '' files, exceeds limit of '' @ nat_str MaxZipFiles)), w1)
          else zip_loop FS destDir files w1)"

definition file_mode :: "int64 \<Rightarrow> 32 word" where
  "file_mode m = take_bit 9 (ucast m)"

definition extractTarFile ::
  "'w fs_api \<Rightarrow> stream \<Rightarrow> string \<Rightarrow> int64 \<Rightarrow> 'w \<Rightarrow> goerr option \<times> 'w" where
  "extractTarFile FS body target mode w =
     or_fail (''creating file '' @ target @ '': '') (fs_OpenFile FS target (file_mode mode) w) (\<lambda>w1.
     or_fail (''extracting '' @ target @ '': '') (io_Copy FS target body w1) (\<lambda>w2. (None, w2)))"

definition extract_symlink ::
  "'w fs_api \<Rightarrow> string \<Rightarrow> tar_header \<Rightarrow> string \<Rightarrow> 'w \<Rightarrow> goerr option \<times> 'w" where
  "extract_symlink FS destDir hdr target w =
     (let linkTarget = Clean (filepath_Join [filepath_Dir target, th_Linkname hdr]) in
      if \<not> HasPrefix linkTarget (Clean destDir @ ''/'') \<and> linkTarget \<noteq> Clean destDir
      then (Some (errors_New (''tar symlink '' @ Quote (th_Name hdr) @ '' escapes destination'')), w)
      else or_fail (''creating symlink '' @ target @ '': '')
             (fs_Symlink FS (th_Linkname hdr) target w) (\<lambda>w1. (None, w1)))"

definition tar_entry :: "'w fs_api \<Rightarrow> string \<Rightarrow> tar_header \<Rightarrow> 'w \<Rightarrow> goerr option \<times> 'w" where
  "tar_entry FS destDir hdr w =
     (let name = Clean (th_Name hdr) in
      if IsAbs name \<or> HasPrefix name ''..'' \<or> name = ''..''
      then (Some (errors_New (''tar entry '' @ Quote (th_Name hdr) @ '' contains path traversal'')), w)
      else
        (let target = filepath_Join [destDir, name];
             parent = ''creating parent directory for '' @ target @ '': ''
         in if th_Typeflag hdr = CHR ''5''
            then or_fail (''creating directory '' @ target @ '': '') (fs_MkdirAll FS target w) (\<lambda>w1. (None, w1))
            else if th_Typeflag hdr = CHR ''0''
            then or_fail parent (fs_MkdirAll FS (filepath_Dir target) w)
                   (extractTarFile FS (th_Body hdr) target (th_Mode hdr))
            else if th_Typeflag hdr = CHR ''2''
            then or_fail parent (fs_MkdirAll FS (filepath_Dir target) w)
                   (extract_symlink FS destDir hdr target)
            else (None, w)))"

fun tar_loop ::
  "'w fs_api \<Rightarrow> string \<Rightarrow> nat \<Rightarrow> (goerr + tar_header) list \<Rightarrow> 'w \<Rightarrow> goerr option \<times> 'w" where
  "tar_loop FS destDir n [] w = (None, w)"
| "tar_loop FS destDir n (Inl e # hs) w = (Some (Errorf_w ''reading tar entry: '' e []), w)"
| "tar_loop FS destDir n (Inr hdr # hs) w =
     (if n + 1 > MaxTarFiles
      then (Some (errors_New (''tar archive contains more than '' @ nat_str MaxTarFiles @ '' files'')), w)
      else (case tar_entry FS destDir hdr w of
              (Some e, w1) \<Rightarrow> (Some e, w1)
            | (None, w1) \<Rightarrow> tar_loop FS destDir (n + 1) hs w1))"

definition extractTarGz ::
  "'w fs_api \<Rightarrow> 'w archive_api \<Rightarrow> string \<Rightarrow> string \<Rightarrow> 'w \<Rightarrow> goerr option \<times> 'w" where
  "extractTarGz FS AR tarPath destDir w =
     (case fs_Open FS tarPath w of
        (Inl e, w1) \<Rightarrow> (Some (Errorf_w ''opening tar.gz archive: '' e []), w1)
      | (Inr bytes, w1) \<Rightarrow>
          (case ar_Gzip AR bytes of
             Inl e \<Rightarrow> (Some (Errorf_w ''opening gzip stream: '' e []), w1)
           | Inr plain_bytes \<Rightarrow> tar_loop FS destDir 0 (ar_Tar AR plain_bytes) w1))"

subsection \<open>CUE module check (\<open>validate.go\<close>)\<close>

definition ValidateCUEModule :: "'w fs_api \<Rightarrow> string \<Rightarrow> 'w \<Rightarrow> goerr option \<times> 'w" where
  "ValidateCUEModule FS dir w =
     (let modDir = filepath_Join [dir, ''cue.mod''] in
      case fs_Stat FS modDir w of
        (Inl e, w1) \<Rightarrow>
          (Some (if fs_IsNotExist FS e
                 then Errorf_w ''cue.mod directory missing: '' ErrMissingCUEModule []
                 else Errorf_w ''checking cue.mod: '' e []), w1)
      | (Inr info, w1) \<Rightarrow>
          if \<not> fi_IsDir info
          then (Some (Errorf_w ''cue.mod is not a directory: '' ErrMissingCUEModule []), w1)
          else
            (case fs_Stat FS (filepath_Join [modDir, ''module.cue'']) w1 of
               (Inl e, w2) \<Rightarrow>
                 (Some (if fs_IsNotExist FS e
                        then Errorf_w ''cue.mod/module.cue missing: '' ErrMissingCUEModule []
                        else Errorf_w ''checking cue.mod/module.cue: '' e []), w2)
             | (Inr fi, w2) \<Rightarrow>
                 if fi_Size fi = 0
                 then (Some (Errorf_w ''cue.mod/module.cue is empty: '' ErrMissingCUEModule []), w2)
                 else (None, w2)))"

subsection \<open>Download (\<open>fetch.go\<close>)\<close>

definition MaxArtifactSize :: int64 where
  "MaxArtifactSize = push_bit 20 64"

text \<open>A Go \<open>int\<close> type: a value may be neither of the two constants.\<close>

datatype ArchiveFormat = ArchiveFormatZip | ArchiveFormatTarGz | OtherFormat int

record FetchOptions =
  fo_Format :: ArchiveFormat
  fo_SkipRootCUEModuleValidation :: bool

definition FormatForKind :: "string \<Rightarrow> ArchiveFormat" where
  "FormatForKind kind = ArchiveFormatTarGz"

record http_response =
  hr_StatusCode :: int
  hr_Body :: stream

text \<open>\<open>http.NewRequestWithContext\<close> can reject a URL; \<open>client.Do\<close> returns a response.\<close>

type_synonym 'w http_client = "string \<Rightarrow> 'w \<Rightarrow> (goerr + http_response) \<times> 'w"

record 'w source_env =
  se_FS :: "'w fs_api"
  se_Archive :: "'w archive_api"
  se_NewRequest :: "string \<Rightarrow> goerr option"
  se_DefaultClient :: "'w http_client"

record 'w ArtifactFetcher =
  af_HTTPClient :: "'w http_client option"
  af_MaxSize :: int64

text \<open>\<open>io.LimitReader\<close>: an error behind the limit is not seen.\<close>

definition LimitReader :: "stream \<Rightarrow> int64 \<Rightarrow> stream" where
  "LimitReader src n =
     (if sint n \<le> 0 then ([], None)
      else if int (length (fst src)) < sint n then src
      else (take (nat (sint n)) (fst src), None))"

definition max_size :: "'w ArtifactFetcher \<Rightarrow> int64" where
  "max_size f = (if af_MaxSize f = 0 then MaxArtifactSize else af_MaxSize f)"

definition fetch_extract ::
  "'w source_env \<Rightarrow> string \<Rightarrow> string \<Rightarrow> FetchOptions \<Rightarrow> 'w \<Rightarrow> goerr option \<times> 'w" where
  "fetch_extract E tmpPath dir opts w =
     (let validate = (\<lambda>w1. if fo_SkipRootCUEModuleValidation opts then (None, w1)
                             else ValidateCUEModule (se_FS E) dir w1)
      in case fo_Format opts of
           ArchiveFormatZip \<Rightarrow>
             or_fail ''extracting artifact: '' (extractZip (se_FS E) (se_Archive E) tmpPath dir w) validate
         | ArchiveFormatTarGz \<Rightarrow>
             or_fail ''extracting artifact: '' (extractTarGz (se_FS E) (se_Archive E) tmpPath dir w) validate
         | OtherFormat i \<Rightarrow> (Some (errors_New (''unknown archive format: '' @ int_str i)), w))"

text \<open>From the copy into the temporary file on; the file is removed on every path.\<close>

definition fetch_body ::
  "'w source_env \<Rightarrow> 'w ArtifactFetcher \<Rightarrow> string \<Rightarrow> string \<Rightarrow> FetchOptions \<Rightarrow> stream \<Rightarrow> string \<Rightarrow> 'w
     \<Rightarrow> goerr option \<times> 'w" where
  "fetch_body E f artifactDigest dir opts body tmpPath w =
     (let maxSize = max_size f;
          data = LimitReader body (maxSize + 1);
          written = (of_nat (length (fst data)) :: int64);
          got = digest_of (fst data)
      in or_fail ''downloading artifact: '' (io_Copy (se_FS E) tmpPath data w) (\<lambda>w1.
           if maxSize <s written
           then (Some (errors_New (''artifact size exceeds limit of '' @ int_str (sint maxSize) @ '' bytes'')), w1)
           else if got \<noteq> artifactDigest
           then (Some (errors_New (''artifact digest mismatch: got '' @ got @ '', want '' @ artifactDigest)), w1)
           else fetch_extract E tmpPath dir opts w1))"

definition Fetch ::
  "'w source_env \<Rightarrow> 'w ArtifactFetcher \<Rightarrow> string \<Rightarrow> string \<Rightarrow> string \<Rightarrow> FetchOptions \<Rightarrow> 'w
     \<Rightarrow> goerr option \<times> 'w" where
  "Fetch E f artifactURL artifactDigest dir opts w =
     (let client = (case af_HTTPClient f of None \<Rightarrow> se_DefaultClient E | Some c \<Rightarrow> c) in
      case se_NewRequest E artifactURL of
        Some e \<Rightarrow> (Some (Errorf_w ''creating request: '' e []), w)
      | None \<Rightarrow>
          (case client artifactURL w of
             (Inl e, w1) \<Rightarrow> (Some (Errorf_w ''downloading artifact: '' e []), w1)
           | (Inr resp, w1) \<Rightarrow>
               if hr_StatusCode resp \<noteq> 200
               then (Some (errors_New (''downloading artifact: status '' @ int_str (hr_StatusCode resp))), w1)
               else
                 (case fs_CreateTemp (se_FS E) ''artifact-*'' w1 of
                    (Inl e, w2) \<Rightarrow> (Some (Errorf_w ''creating temp file: '' e []), w2)
                  | (Inr tmpPath, w2) \<Rightarrow>
                      (case fetch_body E f artifactDigest dir opts (hr_Body resp) tmpPath w2 of
                         (r, w3) \<Rightarrow> (r, snd (fs_Remove (se_FS E) tmpPath w3))))))"

subsection \<open>Confinement of the extraction\<close>

text \<open>The mutating file-system calls, and what an extraction into \<open>dest\<close> may do.\<close>

datatype fs_op =
    MkdirAllOp string
  | OpenOp string
  | WriteOp string
  | SymlinkOp string string
  | CreateTempOp
  | MkdirTempOp
  | RemoveOp string
  | RemoveAllOp string

fun confined :: "string \<Rightarrow> fs_op \<Rightarrow> bool" where
  "confined dest (MkdirAllOp p) \<longleftrightarrow> within dest p \<or> p = filepath_Dir (Clean dest)"
| "confined dest (OpenOp p) \<longleftrightarrow> within dest p"
| "confined dest (WriteOp p) \<longleftrightarrow> within dest p"
| "confined dest (SymlinkOp l p) \<longleftrightarrow> within dest p
     \<and> (IsAbs dest \<longrightarrow> within dest (filepath_Join [filepath_Dir p, l]))"
| "confined dest _ \<longleftrightarrow> False"

text \<open>The guard on archive names, and the paths it lets through.\<close>

definition name_ok :: "string \<Rightarrow> bool" where
  "name_ok p \<longleftrightarrow> \<not> IsAbs (Clean p) \<and> \<not> HasPrefix (Clean p) ''..''"

lemma Join_is_clean: "b \<noteq> [] \<Longrightarrow> Clean (filepath_Join [a, b]) = filepath_Join [a, b]"
  by (simp add: Join2)

lemma target_within:
  assumes "name_ok p"
  shows "within dest (filepath_Join [dest, Clean p])"
  using assms relative_clean_no_dots [of p] by (intro Join_within) (auto simp: name_ok_def)

lemma parent_within:
  assumes "name_ok p"
  shows "within dest (filepath_Dir (filepath_Join [dest, Clean p]))
    \<or> filepath_Dir (filepath_Join [dest, Clean p]) = filepath_Dir (Clean dest)"
proof -
  let ?t = "filepath_Join [dest, Clean p]"
  have nd: "''..'' \<notin> set (components (Clean p))" "\<not> IsAbs (Clean p)"
    using assms relative_clean_no_dots [of p] by (auto simp: name_ok_def)
  have t: "clean_components ?t = clean_components dest @ components (Clean p)" "IsAbs ?t = IsAbs dest"
    using Join_components [of "Clean p" dest] nd by auto
  have cl: "Clean ?t = ?t" by (simp add: Join_is_clean)
  show ?thesis
  proof (cases "components (Clean p)" rule: rev_cases)
    case Nil
    then have "Clean ?t = Clean dest" using t by (intro Clean_eqI) simp_all
    with cl show ?thesis by simp
  next
    case (snoc cs c)
    then have "clean_components (filepath_Dir (Clean ?t)) = clean_components dest @ cs
        \<and> IsAbs (filepath_Dir (Clean ?t)) = IsAbs ?t"
      using t(1) nd(1) by (intro Dir_components) auto
    then show ?thesis using cl t(2) snoc nd(1) by (auto simp: within_def)
  qed
qed

lemma prefix_within:
  assumes "IsAbs dest" and "HasPrefix (Clean q) (Clean dest @ ''/'') \<or> Clean q = Clean dest"
  shows "within dest q"
  using assms(2)
proof
  assume "Clean q = Clean dest"
  then have "clean_components q = clean_components dest" "IsAbs q = IsAbs dest"
    by (metis clean_components_Clean) (metis \<open>Clean q = Clean dest\<close> IsAbs_Clean)
  then show ?thesis by (simp add: within_def)
next
  assume "HasPrefix (Clean q) (Clean dest @ ''/'')"
  then obtain t where t: "Clean q = Clean dest @ ''/'' @ t" by (auto simp: HasPrefix_iff)
  have q: "IsAbs q" using t assms(1) by (metis IsAbs_Clean IsAbs_append Clean_nonempty)
  have "clean_components q = clean_components dest @ components t"
    using components_append [of "Clean dest" t] t by (metis components_Clean)
  moreover have "''..'' \<notin> set (clean_components q)"
    using clean_components_clean [of q] q by (simp add: clean_list_rooted)
  ultimately show ?thesis using q assms(1) by (auto simp: within_def)
qed

text \<open>
  What extraction relies on: calls that are confined to \<open>dest\<close> keep \<open>I\<close>. Then
  the whole extraction keeps it, whatever the archive holds.
\<close>

locale confined_fs =
  fixes FS :: "'w fs_api" and dest :: string and I :: "'w \<Rightarrow> bool"
  assumes MkdirAll: "confined dest (MkdirAllOp p) \<Longrightarrow> I w \<Longrightarrow> I (snd (fs_MkdirAll FS p w))"
    and OpenFile: "confined dest (OpenOp p) \<Longrightarrow> I w \<Longrightarrow> I (snd (fs_OpenFile FS p m w))"
    and Write: "confined dest (WriteOp p) \<Longrightarrow> I w \<Longrightarrow> I (snd (fs_Write FS p b w))"
    and Symlink: "confined dest (SymlinkOp l p) \<Longrightarrow> I w \<Longrightarrow> I (snd (fs_Symlink FS l p w))"
    and Open: "I w \<Longrightarrow> I (snd (fs_Open FS p w))"
begin

lemma or_fail: "I (snd r) \<Longrightarrow> (\<And>w. I w \<Longrightarrow> I (snd (k w))) \<Longrightarrow> I (snd (or_fail pre r k))"
  by (auto simp: or_fail_def split: prod.splits option.splits)

lemma io_Copy:
  assumes "within dest p" and "I w"
  shows "I (snd (io_Copy FS p src w))"
  using Write [of p w "fst src"] assms by (auto simp: io_Copy_def split: prod.splits option.splits)

lemma extractTarFile: "within dest p \<Longrightarrow> I w \<Longrightarrow> I (snd (extractTarFile FS b p m w))"
  unfolding extractTarFile_def by (intro or_fail io_Copy OpenFile) simp_all

lemma extractZipFile: "within dest p \<Longrightarrow> I w \<Longrightarrow> I (snd (extractZipFile FS f p w))"
  unfolding extractZipFile_def by (cases "zf_Open f") (auto intro!: or_fail io_Copy OpenFile)

lemma extract_symlink:
  assumes "within dest t" and "I w"
  shows "I (snd (extract_symlink FS dest h t w))"
proof -
  let ?q = "filepath_Join [filepath_Dir t, th_Linkname h]"
  have "confined dest (SymlinkOp (th_Linkname h) t)"
    if "HasPrefix (Clean ?q) (Clean dest @ ''/'') \<or> Clean ?q = Clean dest"
    using prefix_within [of dest ?q] that assms(1) by auto
  then show ?thesis
    unfolding extract_symlink_def Let_def using assms(2) by (auto intro!: or_fail Symlink simp del: confined.simps)
qed

lemma tar_entry: "I w \<Longrightarrow> I (snd (tar_entry FS dest h w))"
proof (cases "name_ok (th_Name h)")
  case True
  assume "I w"
  then show ?thesis
    unfolding tar_entry_def Let_def
    using target_within [OF True] parent_within [OF True]
    by (auto intro!: or_fail MkdirAll extractTarFile extract_symlink)
next
  case False
  assume "I w"
  with False show ?thesis by (auto simp: tar_entry_def name_ok_def)
qed

lemma zip_entry: "I w \<Longrightarrow> I (snd (zip_entry FS dest f w))"
proof (cases "name_ok (zf_Name f)")
  case True
  assume "I w"
  then show ?thesis
    unfolding zip_entry_def Let_def
    using target_within [OF True] parent_within [OF True]
    by (auto intro!: or_fail MkdirAll extractZipFile)
next
  case False
  assume "I w"
  with False show ?thesis by (auto simp: zip_entry_def name_ok_def)
qed

lemma tar_loop: "I w \<Longrightarrow> I (snd (tar_loop FS dest n hs w))"
proof (induction hs arbitrary: n w)
  case (Cons x hs)
  show ?case
  proof (cases x)
    case (Inr h)
    obtain r w1 where e: "tar_entry FS dest h w = (r, w1)" by fastforce
    then have "I w1" using tar_entry [OF Cons.prems, of h] by simp
    then show ?thesis using Inr e Cons.IH Cons.prems by (cases r) simp_all
  qed (simp add: Cons.prems)
qed simp

lemma zip_loop: "I w \<Longrightarrow> I (snd (zip_loop FS dest fs w))"
proof (induction fs arbitrary: w)
  case (Cons f fs)
  obtain r w1 where e: "zip_entry FS dest f w = (r, w1)" by fastforce
  then have "I w1" using zip_entry [OF Cons.prems, of f] by simp
  then show ?case using e Cons.IH by (cases r) simp_all
qed simp

lemma extractTarGz: "I w \<Longrightarrow> I (snd (extractTarGz FS AR tarPath dest w))"
  using Open [of w tarPath]
  by (auto simp: extractTarGz_def tar_loop split: prod.splits sum.splits)

lemma extractZip: "I w \<Longrightarrow> (\<And>w. I w \<Longrightarrow> I (snd (ar_Zip AR zipPath w))) \<Longrightarrow> I (snd (extractZip FS AR zipPath dest w))"
  unfolding extractZip_def using zip_loop by (fastforce split: prod.splits sum.splits)

end

text \<open>Any file system with a record of its mutating calls.\<close>

definition log_op :: "fs_op \<Rightarrow> ('w \<Rightarrow> 'r \<times> 'w) \<Rightarrow> 'w \<times> fs_op list \<Rightarrow> 'r \<times> 'w \<times> fs_op list" where
  "log_op op f s = (case f (fst s) of (r, w) \<Rightarrow> (r, w, snd s @ [op]))"

definition no_op :: "('w \<Rightarrow> 'r \<times> 'w) \<Rightarrow> 'w \<times> fs_op list \<Rightarrow> 'r \<times> 'w \<times> fs_op list" where
  "no_op f s = (case f (fst s) of (r, w) \<Rightarrow> (r, w, snd s))"

definition logged :: "'w fs_api \<Rightarrow> ('w \<times> fs_op list) fs_api" where
  "logged FS = \<lparr>
     fs_MkdirAll = (\<lambda>p. log_op (MkdirAllOp p) (fs_MkdirAll FS p)),
     fs_OpenFile = (\<lambda>p m. log_op (OpenOp p) (fs_OpenFile FS p m)),
     fs_Write = (\<lambda>p b. log_op (WriteOp p) (fs_Write FS p b)),
     fs_Symlink = (\<lambda>l p. log_op (SymlinkOp l p) (fs_Symlink FS l p)),
     fs_CreateTemp = (\<lambda>p. log_op CreateTempOp (fs_CreateTemp FS p)),
     fs_MkdirTemp = (\<lambda>p. log_op MkdirTempOp (fs_MkdirTemp FS p)),
     fs_Remove = (\<lambda>p. log_op (RemoveOp p) (fs_Remove FS p)),
     fs_RemoveAll = (\<lambda>p. log_op (RemoveAllOp p) (fs_RemoveAll FS p)),
     fs_Stat = (\<lambda>p. no_op (fs_Stat FS p)),
     fs_Open = (\<lambda>p. no_op (fs_Open FS p)),
     fs_IsNotExist = fs_IsNotExist FS\<rparr>"

definition logged_archive :: "'w archive_api \<Rightarrow> ('w \<times> fs_op list) archive_api" where
  "logged_archive AR = \<lparr>ar_Gzip = ar_Gzip AR, ar_Tar = ar_Tar AR, ar_Zip = (\<lambda>p. no_op (ar_Zip AR p))\<rparr>"

lemma log_op_snd [simp]: "snd (snd (log_op op f s)) = snd s @ [op]"
  by (simp add: log_op_def split: prod.splits)

lemma no_op_snd [simp]: "snd (snd (no_op f s)) = snd s"
  by (simp add: no_op_def split: prod.splits)

interpretation logged_fs: confined_fs "logged FS" dest "\<lambda>s. list_all (confined dest) (snd s)"
  for FS dest
  by unfold_locales (simp_all add: logged_def)

text \<open>
  C16: Archive extraction cannot be steered out of its destination by entry names. Whatever
  entries a tar.gz or zip archive holds, on any file system and whatever its calls return,
  each file opened or written and each link created by \<open>extractTarGz\<close> or
  \<open>extractZip\<close> has a path lexically inside the destination, each directory created is
  inside it or is its parent, and each link's target, joined to the link's own directory, is
  inside an absolute destination.
\<close>

theorem extraction_confined:
  "list_all (confined dest) (snd (snd (extractTarGz (logged FS) AR path dest (w, []))))
   \<and> list_all (confined dest) (snd (snd (extractZip (logged FS) (logged_archive AZ) path dest (w, []))))"
proof
  show "list_all (confined dest) (snd (snd (extractTarGz (logged FS) AR path dest (w, []))))"
    using logged_fs.extractTarGz [of dest "(w, [])" FS AR path] by simp
  show "list_all (confined dest) (snd (snd (extractZip (logged FS) (logged_archive AZ) path dest (w, []))))"
    using logged_fs.extractZip [of dest "(w, [])" "logged_archive AZ" path FS]
    by (simp add: logged_archive_def)
qed

subsection \<open>Verification before extraction\<close>

definition logged_client :: "'w http_client \<Rightarrow> ('w \<times> fs_op list) http_client" where
  "logged_client c url = no_op (c url)"

definition logged_env :: "'w source_env \<Rightarrow> ('w \<times> fs_op list) source_env" where
  "logged_env E = \<lparr>se_FS = logged (se_FS E), se_Archive = logged_archive (se_Archive E),
     se_NewRequest = se_NewRequest E, se_DefaultClient = logged_client (se_DefaultClient E)\<rparr>"

definition logged_fetcher :: "'w ArtifactFetcher \<Rightarrow> ('w \<times> fs_op list) ArtifactFetcher" where
  "logged_fetcher f = \<lparr>af_HTTPClient = map_option logged_client (af_HTTPClient f),
     af_MaxSize = af_MaxSize f\<rparr>"

text \<open>The calls that only extraction makes.\<close>

fun extracts :: "fs_op \<Rightarrow> bool" where
  "extracts (MkdirAllOp p) = True"
| "extracts (OpenOp p) = True"
| "extracts (SymlinkOp l p) = True"
| "extracts _ = False"

lemma LimitReader_within:
  assumes "sint m < int64_max"
    and "\<not> m <s (of_nat (length (fst (LimitReader src (m + 1)))) :: int64)"
  shows "fst (LimitReader src (m + 1)) = fst src \<and> int (length (fst src)) \<le> sint m"
proof -
  have m1: "sint (m + 1) = sint m + 1" using assms(1) by (rule sint_plus1_int64)
  have of_nat: "sint (of_nat k :: int64) = int k" if "int k \<le> int64_max" for k
    using that by (simp add: signed_of_nat signed_take_bit_int_eq_self int64_max_def)
  show ?thesis
  proof (cases "sint (m + 1) \<le> 0")
    case True
    then show ?thesis using assms(2) m1 by (simp add: LimitReader_def word_sless_alt)
  next
    case pos: False
    show ?thesis
    proof (cases "int (length (fst src)) < sint (m + 1)")
      case True
      then show ?thesis using pos m1 by (simp add: LimitReader_def)
    next
      case False
      then have "length (fst (LimitReader src (m + 1))) = nat (sint m + 1)"
        using pos m1 by (simp add: LimitReader_def)
      then have "sint (of_nat (length (fst (LimitReader src (m + 1)))) :: int64) = sint m + 1"
        using of_nat [of "nat (sint m + 1)"] assms(1) pos m1 by simp
      with assms(2) show ?thesis by (simp add: word_sless_alt)
    qed
  qed
qed

lemma io_Copy_logged:
  "io_Copy (logged FS) p src s = (r, s') \<Longrightarrow> snd s' = snd s @ [WriteOp p]"
  by (auto simp: io_Copy_def logged_def log_op_def split: prod.splits option.splits)

lemma fetch_body_verified:
  assumes "fetch_body (logged_env E) (logged_fetcher f) digest dir opts body tmp s = (r, s')"
    and "r = None \<or> (\<exists>op\<in>set (snd s'). extracts op)" and "\<not> (\<exists>op\<in>set (snd s). extracts op)"
    and "sint (max_size f) < int64_max"
  shows "digest_of (fst body) = digest \<and> int (length (fst body)) \<le> sint (max_size f)"
proof -
  have m: "max_size (logged_fetcher f) = max_size f" by (simp add: max_size_def logged_fetcher_def)
  let ?d = "LimitReader body (max_size f + 1)"
  have "\<not> max_size f <s (of_nat (length (fst ?d)) :: int64)" "digest_of (fst ?d) = digest"
    using assms(1-3)
    by (auto simp: fetch_body_def Let_def m or_fail_def logged_env_def
        split: prod.splits option.splits if_splits dest!: io_Copy_logged)
  with LimitReader_within [OF assms(4), of body] show ?thesis by simp
qed

lemma MaxArtifactSize_eq: "MaxArtifactSize = 67108864"
  by (simp add: MaxArtifactSize_def)

lemma fetch_body_ok:
  assumes "fetch_body E f digest dir opts body tmp w = (None, w')" and "sint (max_size f) < int64_max"
  shows "digest_of (fst body) = digest \<and> int (length (fst body)) \<le> sint (max_size f)"
proof -
  let ?d = "LimitReader body (max_size f + 1)"
  have "\<not> max_size f <s (of_nat (length (fst ?d)) :: int64)" "digest_of (fst ?d) = digest"
    using assms(1)
    by (auto simp: fetch_body_def Let_def or_fail_def split: prod.splits option.splits if_splits)
  with LimitReader_within [OF assms(2), of body] show ?thesis by simp
qed

lemma Fetch_ok:
  assumes "Fetch E f url digest dir opts w = (None, w')" and "sint (max_size f) < int64_max"
  shows "\<exists>resp. fst (case_option (se_DefaultClient E) (\<lambda>c. c) (af_HTTPClient f) url w) = Inr resp
    \<and> hr_StatusCode resp = 200 \<and> digest_of (fst (hr_Body resp)) = digest
    \<and> int (length (fst (hr_Body resp))) \<le> sint (max_size f)"
proof -
  let ?c = "case_option (se_DefaultClient E) (\<lambda>c. c) (af_HTTPClient f)"
  obtain x w1 where x: "?c url w = (x, w1)" by fastforce
  have n: "se_NewRequest E url = None"
    using assms(1) by (cases "se_NewRequest E url") (auto simp: Fetch_def)
  obtain resp where resp: "x = Inr resp" "hr_StatusCode resp = 200"
    using assms(1) by (cases x) (auto simp: Fetch_def n x split: if_splits)
  obtain t w2 where t: "fs_CreateTemp (se_FS E) ''artifact-*'' w1 = (t, w2)" by fastforce
  obtain tmp where tmp: "t = Inr tmp"
    using assms(1) by (cases t) (auto simp: Fetch_def n x resp t)
  obtain w3 where "fetch_body E f digest dir opts (hr_Body resp) tmp w2 = (None, w3)"
    using assms(1) by (auto simp: Fetch_def n x resp t tmp split: prod.splits)
  from fetch_body_ok [OF this assms(2)] resp x show ?thesis by simp
qed

text \<open>
  C17: An artifact is verified before anything is extracted. If \<open>Fetch\<close> succeeds, or makes
  a single extraction call on the file system, then the server answered 200 with a body of at
  most the maximum size whose SHA-256 digest is the expected one; so a corrupted, substituted
  or oversized artifact never reaches the destination. (A size limit of the largest
  \<open>int64\<close> is excluded: the reader's limit is one more.)
\<close>

theorem Fetch_verifies_first:
  fixes f :: "'w ArtifactFetcher"
  assumes "Fetch (logged_env E) (logged_fetcher f) url digest dir opts (w, []) = (r, w', ops)"
    and "r = None \<or> (\<exists>op\<in>set ops. extracts op)"
    and "sint (max_size f) < int64_max"
  shows "\<exists>resp. fst (case_option (se_DefaultClient E) (\<lambda>c. c) (af_HTTPClient f) url w) = Inr resp
    \<and> hr_StatusCode resp = 200 \<and> digest_of (fst (hr_Body resp)) = digest
    \<and> int (length (fst (hr_Body resp))) \<le> sint (max_size f)"
proof -
  let ?c = "case_option (se_DefaultClient E) (\<lambda>c. c) (af_HTTPClient f)"
  have c: "(case af_HTTPClient (logged_fetcher f) of None \<Rightarrow> se_DefaultClient (logged_env E) | Some c \<Rightarrow> c)
      = logged_client ?c"
    by (cases "af_HTTPClient f") (simp_all add: logged_fetcher_def logged_env_def)
  obtain x w1 where x: "?c url w = (x, w1)" by fastforce
  then have cl: "logged_client ?c url (w, []) = (x, w1, [])" by (simp add: logged_client_def no_op_def)
  have new: "se_NewRequest (logged_env E) = se_NewRequest E" by (simp add: logged_env_def)
  have ops: "r = None \<or> ops \<noteq> [] \<and> ops \<noteq> [CreateTempOp]" using assms(2) by auto
  have n: "se_NewRequest E url = None"
    using assms(1) ops by (cases "se_NewRequest E url") (auto simp: Fetch_def new)
  obtain resp where resp: "x = Inr resp" "hr_StatusCode resp = 200"
    using assms(1) ops by (cases x) (auto simp: Fetch_def new n c cl split: if_splits)
  obtain t w2 where t: "fs_CreateTemp (se_FS E) ''artifact-*'' w1 = (t, w2)" by fastforce
  then have tl: "fs_CreateTemp (se_FS (logged_env E)) ''artifact-*'' (w1, []) = (t, w2, [CreateTempOp])"
    by (simp add: logged_env_def logged_def log_op_def)
  obtain tmp where tmp: "t = Inr tmp"
    using assms(1) ops by (cases t) (auto simp: Fetch_def new n c cl resp tl)
  obtain r3 s3 where b: "fetch_body (logged_env E) (logged_fetcher f) digest dir opts (hr_Body resp) tmp
      (w2, [CreateTempOp]) = (r3, s3)" by (metis surj_pair)
  have F: "(r3, snd (fs_Remove (se_FS (logged_env E)) tmp s3)) = (r, w', ops)"
    using assms(1) by (simp add: Fetch_def new n c cl resp tl tmp b)
  then have "r3 = r" and "ops = snd s3 @ [RemoveOp tmp]"
    using log_op_snd [of "RemoveOp tmp" "fs_Remove (se_FS E) tmp" s3]
    by (auto simp: logged_env_def logged_def)
  then have "digest_of (fst (hr_Body resp)) = digest \<and> int (length (fst (hr_Body resp))) \<le> sint (max_size f)"
    using fetch_body_verified [OF b _ _ assms(3)] assms(2) by auto
  with resp x show ?thesis by simp
qed

text \<open>
  A concrete environment: a file system on which every call succeeds, and a server and
  decoders that know one archive.
\<close>

definition demo_fs :: "'w fs_api" where
  "demo_fs = \<lparr>fs_MkdirAll = (\<lambda>p w. (None, w)), fs_OpenFile = (\<lambda>p m w. (None, w)),
     fs_Write = (\<lambda>p b w. (None, w)), fs_Symlink = (\<lambda>l p w. (None, w)),
     fs_CreateTemp = (\<lambda>p w. (Inr ''/tmp/artifact-1'', w)),
     fs_MkdirTemp = (\<lambda>p w. (Inr ''/tmp/dest'', w)), fs_Remove = (\<lambda>p w. (None, w)),
     fs_RemoveAll = (\<lambda>p w. (None, w)),
     fs_Stat = (\<lambda>p w. (Inr \<lparr>fi_IsDir = True, fi_Size = 1\<rparr>, w)),
     fs_Open = (\<lambda>p w. (Inr ''bytes'', w)), fs_IsNotExist = (\<lambda>e. False)\<rparr>"

definition demo_env :: "(goerr + tar_header) list \<Rightarrow> string \<Rightarrow> 'w source_env" where
  "demo_env entries body = \<lparr>se_FS = demo_fs,
     se_Archive = \<lparr>ar_Gzip = Inr, ar_Tar = (\<lambda>b. entries), ar_Zip = (\<lambda>p w. (Inr [], w))\<rparr>,
     se_NewRequest = (\<lambda>u. None),
     se_DefaultClient = (\<lambda>u w. (Inr \<lparr>hr_StatusCode = 200, hr_Body = (body, None)\<rparr>, w))\<rparr>"

definition demo_entry :: "string \<Rightarrow> char \<Rightarrow> string \<Rightarrow> tar_header" where
  "demo_entry name flag link = \<lparr>th_Name = name, th_Typeflag = flag, th_Linkname = link, th_Mode = 420,
     th_Body = (''package release'', None)\<rparr>"

lemmas source_run = Fetch_def fetch_body_def fetch_extract_def extractTarGz_def MaxTarFiles_def
  tar_entry_def extractTarFile_def extract_symlink_def io_Copy_def or_fail_def
  logged_env_def logged_def logged_archive_def logged_client_def logged_fetcher_def
  log_op_def no_op_def demo_env_def demo_fs_def demo_entry_def
  filepath_Join_def filepath_Dir_def Clean_def clean_components_def components_def IsAbs_def
  HasPrefix_def Let_def

lemma Fetch_demo:
  "Fetch (logged_env (demo_env [Inr (demo_entry ''apps/release.cue'' (CHR ''0'') [])] ''tgz''))
     (logged_fetcher \<lparr>af_HTTPClient = None, af_MaxSize = 8\<rparr>) ''http://source/a.tgz'' (digest_of ''tgz'')
     ''/tmp/dest'' \<lparr>fo_Format = ArchiveFormatTarGz, fo_SkipRootCUEModuleValidation = True\<rparr> ((), [])
   = (None, (), [CreateTempOp, WriteOp ''/tmp/artifact-1'', MkdirAllOp ''/tmp/dest/apps'',
       OpenOp ''/tmp/dest/apps/release.cue'', WriteOp ''/tmp/dest/apps/release.cue'',
       RemoveOp ''/tmp/artifact-1''])"
  by (simp add: source_run max_size_def LimitReader_def word_sless_alt)

theorem Fetch_verifies_first_witness:
  "\<exists>resp. fst (se_DefaultClient (demo_env [Inr (demo_entry ''apps/release.cue'' (CHR ''0'') [])] ''tgz'')
       ''http://source/a.tgz'' ()) = Inr resp
    \<and> hr_StatusCode resp = 200 \<and> digest_of (fst (hr_Body resp)) = digest_of ''tgz''
    \<and> int (length (fst (hr_Body resp))) \<le> 8"
  using Fetch_verifies_first [OF Fetch_demo] by (simp add: max_size_def int64_max_def)

text \<open>
  An example of what the lexical confinement does not cover: the symlink check joins the link
  name to the link's directory, which makes an absolute target look relative, and the link is
  then created with the raw name. An archive holding a link \<open>x\<close> to \<open>/etc\<close> followed by
  a file \<open>x/passwd\<close> is accepted.
\<close>

lemma tar_absolute_symlink_accepted:
  "extractTarGz (logged demo_fs)
     (logged_archive (se_Archive (demo_env [Inr (demo_entry ''x'' (CHR ''2'') ''/etc''),
        Inr (demo_entry ''x/passwd'' (CHR ''0'') [])] [])))
     ''/tmp/artifact-1'' ''/tmp/dest'' ((), [])
   = (None, (), [MkdirAllOp ''/tmp/dest'', SymlinkOp ''/etc'' ''/tmp/dest/x'',
       MkdirAllOp ''/tmp/dest/x'', OpenOp ''/tmp/dest/x/passwd'', WriteOp ''/tmp/dest/x/passwd''])"
  by code_simp

subsection \<open>Resolution\<close>

text \<open>
  What \<open>Resolve\<close> reads: the object of the referenced kind in the reference's own namespace,
  or in the release's when it names none.
\<close>

definition source_key :: "SourceReference \<Rightarrow> string \<Rightarrow> NamespacedName" where
  "source_key ref ns = \<lparr>nn_Namespace = (if sr_Namespace ref \<noteq> [] then sr_Namespace ref else ns),
     nn_Name = sr_Name ref\<rparr>"

definition usable_artifact :: "kube_lib \<Rightarrow> fluxSource \<Rightarrow> fluxArtifact option" where
  "usable_artifact K src =
     (case k_FindStatusCondition K (src_Conditions src) ''Ready'' of
        None \<Rightarrow> None
      | Some c \<Rightarrow> if c_Status c = ConditionTrue then src_Artifact src else None)"

lemma errors_Is_sentinels [simp]:
  "errors_Is ErrSourceNotFound n \<longleftrightarrow> n = ''ErrSourceNotFound''"
  "errors_Is ErrSourceNotReady n \<longleftrightarrow> n = ''ErrSourceNotReady''"
  "errors_Is ErrUnsupportedSourceKind n \<longleftrightarrow> n = ''ErrUnsupportedSourceKind''"
  by (auto simp: errors_Is_def ErrSourceNotFound_def ErrSourceNotReady_def ErrUnsupportedSourceKind_def)



end
