(* ===== verification/Opm_Errors.thy ===== *)
theory Opm_Errors
  imports Opm_Prelude "HOL-Library.AList"
begin

text \<open>
  \<open>pkg/errors\<close>: sentinels, structured errors and the grouping of CUE errors for display.
  A CUE error is what its accessors return: positions (\<open>cueerrors.Positions\<close>), field path,
  message format with its rendering by \<open>fmt.Sprintf\<close>, and the text of
  \<open>cueerrors.Details\<close>. A \<open>cueerrors.Error\<close> is the list of its individual errors, the
  empty list being \<open>nil\<close>.
\<close>

subsection \<open>Strings\<close>

fun strings_Join :: "string list \<Rightarrow> string \<Rightarrow> string" where
  "strings_Join [] sep = []"
| "strings_Join [x] sep = x"
| "strings_Join (x # xs) sep = x @ sep @ strings_Join xs sep"

text \<open>\<open>%v\<close> of a \<open>[]string\<close>.\<close>

definition strings_v :: "string list \<Rightarrow> string" where
  "strings_v xs = ''['' @ strings_Join xs '' '' @ '']''"

definition newline :: string where
  "newline = [CHR 0x0A]"

definition is_space :: "char \<Rightarrow> bool" where
  "is_space c \<longleftrightarrow> (let n = of_char c :: nat in n = 32 \<or> (9 \<le> n \<and> n \<le> 13))"

definition TrimSpace :: "string \<Rightarrow> string" where
  "TrimSpace s = rev (dropWhile is_space (rev (dropWhile is_space s)))"

definition TrimRight_newline :: "string \<Rightarrow> string" where
  "TrimRight_newline s = rev (dropWhile (\<lambda>c. c = CHR 0x0A) (rev s))"

text \<open>\<open>filepath.Base\<close>.\<close>

definition filepath_Base :: "string \<Rightarrow> string" where
  "filepath_Base p =
     (if p = [] then ''.''
      else let q = rev (dropWhile (\<lambda>c. c = CHR ''/'') (rev p)) in
           if q = [] then ''/'' else rev (takeWhile (\<lambda>c. c \<noteq> CHR ''/'') (rev q)))"

subsection \<open>Sentinels and structured errors (\<open>sentinel.go\<close>, \<open>errors.go\<close>, \<open>domain.go\<close>)\<close>

definition ErrValidation :: goerr where
  "ErrValidation = GoErr ''validation error'' (Sentinel ''ErrValidation'') []"

definition ErrConnectivity :: goerr where
  "ErrConnectivity = GoErr ''connectivity error'' (Sentinel ''ErrConnectivity'') []"

definition ErrPermission :: goerr where
  "ErrPermission = GoErr ''permission denied'' (Sentinel ''ErrPermission'') []"

definition ErrNotFound :: goerr where
  "ErrNotFound = GoErr ''not found'' (Sentinel ''ErrNotFound'') []"

text \<open>\<open>Context\<close> is a Go map: an association list in the order one iteration happens to take.\<close>

record DetailError =
  de_Type :: string
  de_Message :: string
  de_Location :: string
  de_Field :: string
  de_Context :: "(string \<times> string) list"
  de_Hint :: string
  de_Cause :: "goerr option"

definition DetailError_Error :: "DetailError \<Rightarrow> string" where
  "DetailError_Error e =
     ''Error: '' @ de_Type e @ newline
     @ (if de_Location e \<noteq> [] then ''  Location: '' @ de_Location e @ newline else [])
     @ (if de_Field e \<noteq> [] then ''  Field: '' @ de_Field e @ newline else [])
     @ concat (map (\<lambda>(k, v). ''  '' @ k @ '': '' @ v @ newline) (de_Context e))
     @ newline @ ''  '' @ de_Message e @ newline
     @ (if de_Hint e \<noteq> [] then newline @ ''Hint: '' @ de_Hint e @ newline else [])"

definition DetailError_Unwrap :: "DetailError \<Rightarrow> goerr option" where
  "DetailError_Unwrap e = de_Cause e"

definition DetailError_err :: "DetailError \<Rightarrow> goerr" where
  "DetailError_err e = GoErr (DetailError_Error e) Anonymous
     (case DetailError_Unwrap e of None \<Rightarrow> [] | Some c \<Rightarrow> [c])"

definition NewValidationError :: "string \<Rightarrow> string \<Rightarrow> string \<Rightarrow> string \<Rightarrow> goerr" where
  "NewValidationError message location field hint =
     DetailError_err \<lparr>de_Type = ''validation failed'', de_Message = message, de_Location = location,
       de_Field = field, de_Context = [], de_Hint = hint, de_Cause = Some ErrValidation\<rparr>"

definition Wrap :: "goerr \<Rightarrow> string \<Rightarrow> goerr" where
  "Wrap sentinel message = Errorf_w (message @ '': '') sentinel []"

record TransformError =
  te_ComponentName :: string
  te_TransformerFQN :: string
  te_Cause :: goerr

definition TransformError_err :: "TransformError \<Rightarrow> goerr" where
  "TransformError_err e =
     GoErr (''component '' @ Quote (te_ComponentName e) @ '', transformer '' @ Quote (te_TransformerFQN e)
        @ '': '' @ err_msg (te_Cause e)) Anonymous [te_Cause e]"

record ValidationError =
  ve_Message :: string
  ve_Cause :: "goerr option"
  ve_Details :: string

definition ValidationError_err :: "ValidationError \<Rightarrow> goerr" where
  "ValidationError_err e =
     (case ve_Cause e of
        Some c \<Rightarrow> GoErr (''release validation failed: '' @ ve_Message e @ '': '' @ err_msg c) Anonymous [c]
      | None \<Rightarrow> GoErr (''release validation failed: '' @ ve_Message e) Anonymous [])"

record ErrorLocation =
  loc_File :: string
  loc_Line :: int
  loc_Column :: int
  loc_Path :: string

record GroupedError =
  ge_Message :: string
  ge_Locations :: "ErrorLocation list"

subsection \<open>CUE errors and their grouping (\<open>config_error.go\<close>)\<close>

record token_pos =
  tp_IsValid :: bool
  tp_Filename :: string
  tp_Line :: int
  tp_Column :: int
  tp_String :: string

record cue_error =
  ce_Position :: token_pos
  ce_Positions :: "token_pos list"
  ce_Path :: "string list"
  ce_Format :: string
  ce_HasArgs :: bool
  ce_Formatted :: string
  ce_Details :: string

record ConfigError =
  cfe_Context :: string
  cfe_Name :: string
  cfe_RawError :: "cue_error list"

definition ConfigError_Error :: "ConfigError \<Rightarrow> string" where
  "ConfigError_Error e = TrimRight_newline
     (cfe_Context e @ '' '' @ Quote (cfe_Name e) @ '': values do not satisfy #config:'' @ newline
      @ concat (map (\<lambda>ce.
          if tp_IsValid (ce_Position ce)
          then ''  - '' @ tp_String (ce_Position ce) @ '': '' @ TrimSpace (ce_Details ce) @ newline
          else ''  - '' @ TrimSpace (ce_Details ce) @ newline) (cfe_RawError e)))"

text \<open>
  As an \<open>error\<close>: \<open>Unwrap\<close> leads to CUE errors only, which carry no sentinel and no
  API status the controller looks for.
\<close>

definition ConfigError_err :: "ConfigError \<Rightarrow> goerr" where
  "ConfigError_err e = errors_New (ConfigError_Error e)"

definition trim_config :: "string \<Rightarrow> string" where
  "trim_config path =
     (let path = TrimPrefix path ''#module.#config.'';
          path = TrimPrefix path ''#module.#config'';
          path = TrimPrefix path ''#config.'';
          path = TrimPrefix path ''#config''
      in TrimPrefix path ''.'')"

definition normalizeCUEPath :: "string list \<Rightarrow> string" where
  "normalizeCUEPath parts =
     (if parts = [] then []
      else let path = trim_config (strings_Join parts ''.'')
           in if path = [] then ''values''
              else if HasPrefix path ''values.'' \<or> path = ''values'' then path
              else ''values.'' @ path)"

definition cue_msg :: "cue_error \<Rightarrow> string" where
  "cue_msg ce = (if \<not> ce_HasArgs ce then ce_Format ce else ce_Formatted ce)"

definition is_summary :: "cue_error \<Rightarrow> bool" where
  "is_summary ce = Contains (cue_msg ce) ''errors in empty disjunction''"

definition loc_key :: "string \<Rightarrow> int \<Rightarrow> int \<Rightarrow> string" where
  "loc_key file line col = file @ '':'' @ int_str line @ '':'' @ int_str col"

fun collect_positions :: "string \<Rightarrow> token_pos list \<Rightarrow> string set \<Rightarrow> ErrorLocation list \<Rightarrow> ErrorLocation list" where
  "collect_positions path [] seen locs = locs"
| "collect_positions path (pos # ps) seen locs =
     (if \<not> tp_IsValid pos then collect_positions path ps seen locs
      else let file = filepath_Base (tp_Filename pos);
               k = loc_key file (tp_Line pos) (tp_Column pos)
           in if k \<in> seen then collect_positions path ps seen locs
              else collect_positions path ps (insert k seen)
                     (locs @ [\<lparr>loc_File = file, loc_Line = tp_Line pos, loc_Column = tp_Column pos,
                               loc_Path = path\<rparr>]))"

definition key_of_loc :: "ErrorLocation \<Rightarrow> string" where
  "key_of_loc l = loc_key (loc_File l) (loc_Line l) (loc_Column l)"

text \<open>
  The group map keeps its keys in insertion order, which is \<open>groupOrder\<close>; updating a
  group through its pointer keeps its place.
\<close>

type_synonym groups = "((string \<times> string) \<times> GroupedError) list"

definition group_error :: "groups \<Rightarrow> cue_error \<Rightarrow> groups" where
  "group_error gs ce =
     (let path = normalizeCUEPath (ce_Path ce); msg = cue_msg ce in
      if is_summary ce then gs
      else let ge = (case map_of gs (msg, path) of
                       Some g \<Rightarrow> g | None \<Rightarrow> \<lparr>ge_Message = msg, ge_Locations = []\<rparr>);
               locs = collect_positions path (ce_Positions ce) (key_of_loc ` set (ge_Locations ge))
                        (ge_Locations ge);
               locs = (if locs = [] then [\<lparr>loc_File = [], loc_Line = 0, loc_Column = 0, loc_Path = path\<rparr>]
                       else locs)
           in AList.update (msg, path) (ge\<lparr>ge_Locations := locs\<rparr>) gs)"

definition groupCUEErrors :: "cue_error list \<Rightarrow> GroupedError list" where
  "groupCUEErrors cueErrs = map snd (foldl group_error [] cueErrs)"

definition ConfigError_GroupedErrors :: "ConfigError \<Rightarrow> GroupedError list" where
  "ConfigError_GroupedErrors e = (if cfe_RawError e = [] then [] else groupCUEErrors (cfe_RawError e))"

definition GroupedErrorsFromError :: "(goerr \<Rightarrow> cue_error list) \<Rightarrow> goerr option \<Rightarrow> GroupedError list" where
  "GroupedErrorsFromError Errors err =
     (case err of None \<Rightarrow> [] | Some e \<Rightarrow> groupCUEErrors (Errors e))"

subsection \<open>Normal form of paths\<close>

lemma TrimPrefix_id: "\<not> HasPrefix s p \<Longrightarrow> TrimPrefix s p = s"
  by (simp add: TrimPrefix_def)

lemma normalizeCUEPath_cases:
  obtains "parts = []" "normalizeCUEPath parts = []"
  | "parts \<noteq> []" "normalizeCUEPath parts = ''values''"
  | t where "parts \<noteq> []" "normalizeCUEPath parts = ''values.'' @ t"
proof (cases "parts = []")
  case False
  let ?p = "trim_config (strings_Join parts ''.'')"
  consider "?p = []" | "?p = ''values''" | "HasPrefix ?p ''values.''"
    | "?p \<noteq> []" "?p \<noteq> ''values''" "\<not> HasPrefix ?p ''values.''" by blast
  then show ?thesis
  proof cases
    case 3
    then obtain t where "?p = ''values.'' @ t" by (auto simp only: HasPrefix_iff)
    with 3 False that(3) [of t] show ?thesis by (simp add: normalizeCUEPath_def Let_def)
  next
    case 4
    with False that(3) [of ?p] show ?thesis by (simp add: normalizeCUEPath_def Let_def)
  qed (use False that(2) in \<open>simp_all add: normalizeCUEPath_def Let_def\<close>)
qed (use that(1) in \<open>simp add: normalizeCUEPath_def\<close>)

lemma normalizeCUEPath_values: "normalizeCUEPath [''values''] = ''values''"
  by code_simp

lemma not_HasPrefix_values:
  "\<not> HasPrefix (''values.'' @ t) ''#module.#config.''" "\<not> HasPrefix (''values.'' @ t) ''#module.#config''"
  "\<not> HasPrefix (''values.'' @ t) ''#config.''" "\<not> HasPrefix (''values.'' @ t) ''#config''"
  "\<not> HasPrefix (''values.'' @ t) ''.''"
  by (simp_all add: HasPrefix_def)

lemma trim_config_values: "trim_config (''values.'' @ t) = ''values.'' @ t"
  unfolding trim_config_def Let_def
  by (simp only: TrimPrefix_id [OF not_HasPrefix_values(1)] TrimPrefix_id [OF not_HasPrefix_values(2)]
        TrimPrefix_id [OF not_HasPrefix_values(3)] TrimPrefix_id [OF not_HasPrefix_values(4)]
        TrimPrefix_id [OF not_HasPrefix_values(5)])

lemma normalizeCUEPath_prefixed:
  assumes "parts \<noteq> []" and "strings_Join parts ''.'' = ''values.'' @ t"
  shows "normalizeCUEPath parts = ''values.'' @ t"
  using assms(1) unfolding normalizeCUEPath_def assms(2) trim_config_values Let_def
  by (simp only: HasPrefix_append append_is_Nil_conv list.distinct simp_thms if_True if_False)

lemma normalizeCUEPath_idem:
  assumes "parts \<noteq> []"
  shows "normalizeCUEPath [normalizeCUEPath parts] = normalizeCUEPath parts"
proof (cases parts rule: normalizeCUEPath_cases)
  case 2
  then show ?thesis by (simp only: normalizeCUEPath_values)
next
  case (3 t)
  then show ?thesis using normalizeCUEPath_prefixed [of "[''values.'' @ t]" t] by simp
qed (use assms in simp)

subsection \<open>Grouping\<close>

definition err_key :: "cue_error \<Rightarrow> string \<times> string" where
  "err_key ce = (cue_msg ce, normalizeCUEPath (ce_Path ce))"

definition pos_key :: "token_pos \<Rightarrow> string" where
  "pos_key pos = loc_key (filepath_Base (tp_Filename pos)) (tp_Line pos) (tp_Column pos)"

definition first_seen :: "'a list \<Rightarrow> 'a list" where
  "first_seen xs = rev (remdups (rev xs))"

lemma first_seen_simps [simp]:
  "first_seen [] = []"
  "first_seen (xs @ [x]) = (if x \<in> set xs then first_seen xs else first_seen xs @ [x])"
  "set (first_seen xs) = set xs" "distinct (first_seen xs)"
  by (simp_all add: first_seen_def)

definition locations_ok :: "string \<Rightarrow> ErrorLocation list \<Rightarrow> bool" where
  "locations_ok p ls \<longleftrightarrow> list_all (\<lambda>l. loc_Path l = p) ls \<and> distinct (map key_of_loc ls)"

lemma collect_positions_spec:
  assumes "locations_ok path locs" and "seen = key_of_loc ` set locs"
  shows "locations_ok path (collect_positions path ps seen locs)
    \<and> key_of_loc ` set (collect_positions path ps seen locs)
        = key_of_loc ` set locs \<union> pos_key ` {p \<in> set ps. tp_IsValid p}"
  using assms
proof (induction ps arbitrary: seen locs)
  case (Cons p ps)
  let ?new = "\<lparr>loc_File = filepath_Base (tp_Filename p), loc_Line = tp_Line p,
    loc_Column = tp_Column p, loc_Path = path\<rparr>"
  have key: "key_of_loc ?new = pos_key p" by (simp add: key_of_loc_def pos_key_def)
  consider "\<not> tp_IsValid p" | "tp_IsValid p" "pos_key p \<in> seen" | "tp_IsValid p" "pos_key p \<notin> seen" by blast
  then show ?case
  proof cases
    case 3
    then have "locations_ok path (locs @ [?new])" "insert (pos_key p) seen = key_of_loc ` set (locs @ [?new])"
      using Cons.prems key by (auto simp: locations_ok_def)
    from Cons.IH [OF this] 3 show ?thesis
      by (auto simp: Let_def pos_key_def [symmetric] key)
  qed (use Cons in \<open>auto simp: Let_def pos_key_def [symmetric]\<close>)
qed simp

definition group_ok :: "(string \<times> string) \<times> GroupedError \<Rightarrow> bool" where
  "group_ok e = (case e of ((m, p), g) \<Rightarrow>
     ge_Message g = m \<and> ge_Locations g \<noteq> [] \<and> locations_ok p (ge_Locations g))"

definition group_keys :: "groups \<Rightarrow> string \<times> string \<Rightarrow> string set" where
  "group_keys gs k = (case map_of gs k of None \<Rightarrow> {} | Some g \<Rightarrow> key_of_loc ` set (ge_Locations g))"

lemma group_error_skip: "is_summary ce \<Longrightarrow> group_error gs ce = gs"
  by (simp add: group_error_def Let_def)

lemma group_error_step:
  assumes ok: "list_all group_ok gs" and ns: "\<not> is_summary ce"
  obtains g where "group_error gs ce = AList.update (err_key ce) g gs" "group_ok (err_key ce, g)"
    "group_keys gs (err_key ce) \<union> pos_key ` {p \<in> set (ce_Positions ce). tp_IsValid p}
       \<subseteq> key_of_loc ` set (ge_Locations g)"
proof -
  define ge where "ge = (case map_of gs (err_key ce) of
      Some g \<Rightarrow> g | None \<Rightarrow> \<lparr>ge_Message = cue_msg ce, ge_Locations = []\<rparr>)"
  define p where "p = normalizeCUEPath (ce_Path ce)"
  define locs where "locs = collect_positions p (ce_Positions ce) (key_of_loc ` set (ge_Locations ge)) (ge_Locations ge)"
  define locs' where "locs' = (if locs = [] then [\<lparr>loc_File = [], loc_Line = 0, loc_Column = 0, loc_Path = p\<rparr>] else locs)"
  have ge: "locations_ok p (ge_Locations ge)" "ge_Message ge = cue_msg ce"
    "group_keys gs (err_key ce) = key_of_loc ` set (ge_Locations ge)"
    using ok by (auto simp: ge_def p_def err_key_def group_ok_def locations_ok_def group_keys_def list_all_iff
        split: option.splits dest!: map_of_SomeD)
  note col = collect_positions_spec [OF ge(1) refl, of "ce_Positions ce", folded locs_def]
  have "group_error gs ce = AList.update (err_key ce) (ge\<lparr>ge_Locations := locs'\<rparr>) gs"
    using ns by (simp add: group_error_def Let_def ge_def p_def locs_def locs'_def err_key_def)
  moreover have "group_ok (err_key ce, ge\<lparr>ge_Locations := locs'\<rparr>)"
    using ge(2) col by (auto simp: group_ok_def err_key_def locs'_def p_def locations_ok_def)
  moreover have "group_keys gs (err_key ce) \<union> pos_key ` {p \<in> set (ce_Positions ce). tp_IsValid p}
       \<subseteq> key_of_loc ` set (ge_Locations (ge\<lparr>ge_Locations := locs'\<rparr>))"
    using ge(3) col by (auto simp: locs'_def)
  ultimately show ?thesis by (rule that)
qed

lemma update_preserves_all: "list_all P al \<Longrightarrow> P (k, v) \<Longrightarrow> list_all P (AList.update k v al)"
  by (induction al) auto

lemma group_errors_invariant:
  "list_all group_ok (foldl group_error [] errs)
   \<and> map fst (foldl group_error [] errs) = first_seen (map err_key (filter (\<lambda>ce. \<not> is_summary ce) errs))
   \<and> (\<forall>ce \<in> set errs. \<not> is_summary ce \<longrightarrow>
        pos_key ` {p \<in> set (ce_Positions ce). tp_IsValid p} \<subseteq> group_keys (foldl group_error [] errs) (err_key ce))"
proof (induction errs rule: rev_induct)
  case (snoc ce errs)
  let ?gs = "foldl group_error [] errs"
  show ?case
  proof (cases "is_summary ce")
    case True
    with snoc show ?thesis by (simp add: group_error_skip)
  next
    case False
    obtain g where g: "group_error ?gs ce = AList.update (err_key ce) g ?gs" "group_ok (err_key ce, g)"
      "group_keys ?gs (err_key ce) \<union> pos_key ` {p \<in> set (ce_Positions ce). tp_IsValid p}
         \<subseteq> key_of_loc ` set (ge_Locations g)"
      using group_error_step [OF _ False] snoc by blast
    have step: "foldl group_error [] (errs @ [ce]) = AList.update (err_key ce) g ?gs"
      using g(1) by simp
    have "list_all group_ok (AList.update (err_key ce) g ?gs)"
      using snoc g(2) by (simp add: update_preserves_all)
    moreover have "map fst (AList.update (err_key ce) g ?gs)
        = first_seen (map err_key (filter (\<lambda>ce. \<not> is_summary ce) (errs @ [ce])))"
      using snoc False by (simp add: update_keys)
    moreover have "pos_key ` {p \<in> set (ce_Positions x). tp_IsValid p}
        \<subseteq> group_keys (AList.update (err_key ce) g ?gs) (err_key x)"
      if "x \<in> set (errs @ [ce])" "\<not> is_summary x" for x
    proof (cases "err_key x = err_key ce")
      case True
      then have "group_keys (AList.update (err_key ce) g ?gs) (err_key x) = key_of_loc ` set (ge_Locations g)"
        by (simp add: group_keys_def update_conv')
      moreover have "x = ce \<or> pos_key ` {p \<in> set (ce_Positions x). tp_IsValid p} \<subseteq> group_keys ?gs (err_key ce)"
        using snoc that True by (metis UnE set_append empty_iff list.set(1) set_ConsD)
      ultimately show ?thesis using g(3) by auto
    next
      case False
      then have "group_keys (AList.update (err_key ce) g ?gs) (err_key x) = group_keys ?gs (err_key x)"
        by (simp add: group_keys_def update_conv')
      with snoc that False show ?thesis by auto
    qed
    ultimately show ?thesis unfolding step by blast
  qed
qed simp

definition group_key :: "GroupedError \<Rightarrow> string \<times> string" where
  "group_key g = (ge_Message g, loc_Path (hd (ge_Locations g)))"

lemma group_ok_key: "group_ok (k, g) \<Longrightarrow> group_key g = k"
  by (cases "ge_Locations g") (auto simp: group_ok_def group_key_def locations_ok_def split: prod.splits)

lemma group_ok_locations:
  "group_ok (k, g) \<Longrightarrow> ge_Locations g \<noteq> [] \<and> locations_ok (snd (group_key g)) (ge_Locations g)"
  using group_ok_key [of k g] by (auto simp: group_ok_def split: prod.splits)

subsection \<open>Property\<close>


definition demo_pos :: "int \<Rightarrow> token_pos" where
  "demo_pos n = \<lparr>tp_IsValid = True, tp_Filename = ''/srv/values.cue'', tp_Line = n, tp_Column = 3, tp_String = []\<rparr>"

definition demo_error :: "string \<Rightarrow> string list \<Rightarrow> token_pos list \<Rightarrow> cue_error" where
  "demo_error msg path ps = \<lparr>ce_Position = demo_pos 1, ce_Positions = ps, ce_Path = path, ce_Format = msg,
     ce_HasArgs = False, ce_Formatted = [], ce_Details = msg\<rparr>"

definition demo_errors :: "cue_error list" where
  "demo_errors =
     [demo_error ''conflict'' [''#config'', ''port''] [demo_pos 4, demo_pos 9],
      demo_error ''2 errors in empty disjunction:'' [''#config'', ''port''] [demo_pos 4],
      demo_error ''conflict'' [''values'', ''port''] [demo_pos 9, demo_pos 11],
      demo_error ''conflict'' [''values'', ''host''] []]"


end
