(* ===== verification/Opm_Cue.thy ===== *)
theory Opm_Cue
  imports Opm_Core Opm_Errors
begin

text \<open>
  The CUE evaluator as the render pipeline uses it. CUE is a third-party library: its values
  have an abstract type \<open>'v\<close> and its operations are the fields of a \<open>cue_eval\<close>. The
  locale \<open>cue_laws\<close> states the documented behaviour the proofs rely on; \<open>tree_cue\<close>
  is a concrete evaluator of finite data trees that satisfies it. The Go types that cross
  the boundary, the metadata of modules, releases and providers (\<open>pkg/module\<close>,
  \<open>pkg/provider\<close>) and the transformer contexts of \<open>pkg/render/execute.go\<close>, are
  declared here.
\<close>

subsection \<open>Metadata types\<close>

record ModuleMetadata =
  mm_Name :: string
  mm_Description :: string
  mm_ModulePath :: string
  mm_DefaultNamespace :: string
  mm_FQN :: string
  mm_Version :: string
  mm_UUID :: string
  mm_Labels :: "string \<rightharpoonup> string"
  mm_Annotations :: "string \<rightharpoonup> string"

record ReleaseMetadata =
  rmd_Name :: string
  rmd_Namespace :: string
  rmd_UUID :: string
  rmd_Labels :: "string \<rightharpoonup> string"
  rmd_Annotations :: "string \<rightharpoonup> string"

record ProviderMetadata =
  pmd_Name :: string
  pmd_Description :: string
  pmd_Version :: string
  pmd_Labels :: "string \<rightharpoonup> string"
  pmd_Annotations :: "string \<rightharpoonup> string"

record 'v Provider =
  pv_Metadata :: ProviderMetadata
  pv_Data :: 'v

text \<open>
  \<open>Module.Metadata\<close> is a pointer that \<open>extractModuleFromRelease\<close>, the only place that
  builds a \<open>Module\<close>, always sets.
\<close>

record 'v Module =
  mo_Metadata :: ModuleMetadata
  mo_Config :: 'v
  mo_Raw :: 'v
  mo_ModulePath :: string

text \<open>\<open>module.Release\<close>, the prepared release.\<close>

record 'v PreparedRelease =
  pr_Metadata :: ReleaseMetadata
  pr_Module :: "'v Module"
  pr_Spec :: 'v
  pr_Values :: 'v

record moduleReleaseContextData =
  mrc_Name :: string
  mrc_Namespace :: string
  mrc_FQN :: string
  mrc_Version :: string
  mrc_UUID :: string
  mrc_Labels :: "string \<rightharpoonup> string"
  mrc_Annotations :: "string \<rightharpoonup> string"

record componentContextData =
  ccd_Name :: string
  ccd_Labels :: "string \<rightharpoonup> string"
  ccd_Annotations :: "string \<rightharpoonup> string"

subsection \<open>The evaluator\<close>

text \<open>
  A selector is seen through its unquoted and its source form. A syntax node is its Go type
  name, whether it is an expression, and its text. \<open>cv_Fields\<close> takes the
  \<open>Optional\<close> option, \<open>cv_Validate\<close> the \<open>Concrete\<close> one. \<open>cv_LookupStr\<close> is
  \<open>LookupPath(MakePath(Str(k)))\<close>, \<open>cv_LookupSel\<close> is \<open>LookupPath(MakePath(sel))\<close>;
  other paths are given by their source text. \<open>cv_Details\<close> is the text
  \<open>cueerrors.Details\<close> prints for an error with the given position, path and message. \<open>cv_Decode...\<close> is \<open>Decode\<close> into the Go
  struct, with the destination's earlier content where the caller sets it.
\<close>

record cue_selector =
  sel_Unquoted :: string
  sel_String :: string

datatype cue_kind = ListKind | StructKind | OtherKind (kind_name: string)

record ast_node =
  an_Type :: string
  an_IsExpr :: bool
  an_Text :: string

type_synonym 'v cue_fields = "(cue_selector \<times> 'v) list"

record 'v cue_eval =
  cv_Lib :: "'v cue_lib"
  cv_Nil :: 'v
  cv_Fields :: "bool \<Rightarrow> 'v \<Rightarrow> goerr + 'v cue_fields"
  cv_List :: "'v \<Rightarrow> goerr + 'v list"
  cv_LookupStr :: "string \<Rightarrow> 'v \<Rightarrow> 'v"
  cv_LookupSel :: "cue_selector \<Rightarrow> 'v \<Rightarrow> 'v"
  cv_Kind :: "'v \<Rightarrow> cue_kind"
  cv_IncompleteKind :: "'v \<Rightarrow> cue_kind"
  cv_FillPath :: "string \<Rightarrow> 'v \<Rightarrow> 'v \<Rightarrow> 'v"
  cv_Unify :: "'v \<Rightarrow> 'v \<Rightarrow> 'v"
  cv_Allows :: "'v \<Rightarrow> cue_selector \<Rightarrow> bool"
  cv_Pos :: "'v \<Rightarrow> token_pos"
  cv_Validate :: "bool \<Rightarrow> 'v \<Rightarrow> goerr option"
  cv_Errors :: "goerr \<Rightarrow> cue_error list"
  cv_Append :: "cue_error list \<Rightarrow> cue_error \<Rightarrow> cue_error list"
  cv_Details :: "token_pos \<Rightarrow> string list \<Rightarrow> string \<Rightarrow> string"
  cv_Syntax :: "'v \<Rightarrow> ast_node"
  cv_BuildExpr :: "ast_node \<Rightarrow> 'v"
  cv_CompileBytes :: "string \<Rightarrow> 'v"
  cv_EncodeRelease :: "moduleReleaseContextData \<Rightarrow> 'v"
  cv_EncodeComponent :: "componentContextData \<Rightarrow> 'v"
  cv_EncodeString :: "string \<Rightarrow> 'v"
  cv_DecodeModule :: "'v \<Rightarrow> goerr + ModuleMetadata"
  cv_DecodeRelease :: "'v \<Rightarrow> goerr + ReleaseMetadata"
  cv_DecodeProvider :: "ProviderMetadata \<Rightarrow> 'v \<Rightarrow> goerr + ProviderMetadata"

abbreviation cv_Lookup :: "'v cue_eval \<Rightarrow> string \<Rightarrow> 'v \<Rightarrow> 'v" where
  "cv_Lookup C \<equiv> cue_LookupPath (cv_Lib C)"

abbreviation cv_Exists :: "'v cue_eval \<Rightarrow> 'v \<Rightarrow> bool" where
  "cv_Exists C \<equiv> cue_Exists (cv_Lib C)"

abbreviation cv_String :: "'v cue_eval \<Rightarrow> 'v \<Rightarrow> string \<times> goerr option" where
  "cv_String C \<equiv> cue_String (cv_Lib C)"

abbreviation cv_Err :: "'v cue_eval \<Rightarrow> 'v \<Rightarrow> goerr option" where
  "cv_Err C \<equiv> cue_Err (cv_Lib C)"

abbreviation cv_DecodeMap :: "'v cue_eval \<Rightarrow> 'v \<Rightarrow> (string \<rightharpoonup> string) \<times> goerr option" where
  "cv_DecodeMap C \<equiv> cue_DecodeMap (cv_Lib C)"

definition field_name :: "cue_selector \<times> 'v \<Rightarrow> string" where
  "field_name f = sel_Unquoted (fst f)"

text \<open>
  The laws: the regular fields of a struct have distinct labels, looking a label up returns
  the field; appending to an error list adds the error, an error has at least one individual
  error; the zero value does not exist. Nothing is said about optional fields: a definition may
  be recursive through them (\<open>#L: {next?: #L}\<close>), and then iterating them never bottoms out.
\<close>

locale cue_laws =
  fixes C :: "'v cue_eval"
  assumes fields_distinct: "cv_Fields C False v = Inr fs \<Longrightarrow> distinct (map field_name fs)"
    and lookup_field: "cv_Fields C False v = Inr fs \<Longrightarrow> f \<in> set fs \<Longrightarrow> cv_LookupStr C (field_name f) v = snd f"
    and append_errors: "set (cv_Append C acc e) = insert e (set acc)"
    and errors_nonempty: "cv_Errors C e' \<noteq> []"
    and nil_not_exists: "\<not> cv_Exists C (cv_Nil C)"
begin

lemma append_nonempty: "cv_Append C acc e \<noteq> []"
  using append_errors [of acc e] by auto

lemma append_mono: "set acc \<subseteq> set (cv_Append C acc e)"
  by (auto simp: append_errors)

end

text \<open>
  An evaluator all of whose values are finite data: a field, optional or not, is smaller than its
  struct. This holds of values without recursive definitions, and of no evaluator of full CUE.
\<close>

locale finite_cue = cue_laws +
  fixes sz :: "'v \<Rightarrow> nat"
  assumes field_smaller: "cv_Fields C opt v = Inr fs \<Longrightarrow> f \<in> set fs \<Longrightarrow> sz (snd f) < sz v"

subsection \<open>Data trees\<close>

text \<open>
  A small evaluator on finite trees, complete enough to run the pipeline: structs with
  regular and definition (\<open>#\<close>) labels, lists, strings, the missing value and errors.
\<close>

datatype cval =
    CNone
  | CErr string
  | CStr string
  | CList "cval list"
  | CStruct "(string \<times> cval) list"

fun split_dot :: "string \<Rightarrow> string \<Rightarrow> string list" where
  "split_dot [] cur = [rev cur]"
| "split_dot (c # s) cur = (if c = CHR ''.'' then rev cur # split_dot s [] else split_dot s (c # cur))"

fun tree_field :: "string \<Rightarrow> cval \<Rightarrow> cval" where
  "tree_field k (CStruct fs) = (case map_of fs k of None \<Rightarrow> CNone | Some v \<Rightarrow> v)"
| "tree_field k v = CNone"

definition tree_lookup :: "string \<Rightarrow> cval \<Rightarrow> cval" where
  "tree_lookup p v = foldl (\<lambda>x k. tree_field k x) v (split_dot p [])"

definition tree_selector :: "string \<Rightarrow> cue_selector" where
  "tree_selector k = \<lparr>sel_Unquoted = k, sel_String = k\<rparr>"

definition is_regular :: "string \<Rightarrow> bool" where
  "is_regular k = (\<not> HasPrefix k ''#'')"

text \<open>The first occurrence of every label.\<close>

fun first_fields :: "string list \<Rightarrow> (string \<times> cval) list \<Rightarrow> (string \<times> cval) list" where
  "first_fields seen [] = []"
| "first_fields seen ((k, v) # fs) =
     (if k \<in> set seen then first_fields seen fs else (k, v) # first_fields (k # seen) fs)"

fun tree_fields :: "bool \<Rightarrow> cval \<Rightarrow> goerr + cval cue_fields" where
  "tree_fields opt (CStruct fs) = Inr (map (\<lambda>(k, v). (tree_selector k, v))
     (filter (\<lambda>(k, v). is_regular k) (first_fields [] fs)))"
| "tree_fields opt v = Inl (errors_New ''not a struct'')"

fun tree_fill :: "string list \<Rightarrow> cval \<Rightarrow> cval \<Rightarrow> cval" where
  "tree_fill [] x v = x"
| "tree_fill (k # ks) x (CStruct fs) =
     CStruct (AList.update k (tree_fill ks x (tree_field k (CStruct fs))) fs)"
| "tree_fill (k # ks) x v = CStruct [(k, tree_fill ks x CNone)]"

fun tree_kind :: "cval \<Rightarrow> cue_kind" where
  "tree_kind (CList vs) = ListKind"
| "tree_kind (CStruct fs) = StructKind"
| "tree_kind (CStr s) = OtherKind ''string''"
| "tree_kind (CErr m) = OtherKind ''_|_''"
| "tree_kind CNone = OtherKind ''_|_''"

definition tree_err :: "cval \<Rightarrow> goerr option" where
  "tree_err v = (case v of CErr m \<Rightarrow> Some (errors_New m) | _ \<Rightarrow> None)"

definition tree_string :: "cval \<Rightarrow> string \<times> goerr option" where
  "tree_string v = (case v of CStr s \<Rightarrow> (s, None) | _ \<Rightarrow> ([], Some (errors_New ''not a string'')))"

fun string_entries :: "(string \<times> cval) list \<Rightarrow> (string \<times> string) list" where
  "string_entries [] = []"
| "string_entries ((k, CStr s) # fs) = (k, s) # string_entries fs"
| "string_entries (f # fs) = string_entries fs"

definition tree_decode_map :: "cval \<Rightarrow> (string \<rightharpoonup> string) \<times> goerr option" where
  "tree_decode_map v = (case v of CStruct fs \<Rightarrow> (map_of (string_entries fs), None)
     | _ \<Rightarrow> (Map.empty, Some (errors_New ''not a struct'')))"

definition tree_text :: "string \<Rightarrow> cval \<Rightarrow> string" where
  "tree_text p v = fst (tree_string (tree_lookup p v))"

text \<open>An object travels as its kind and name, enough to tell resources apart.\<close>

definition tree_json :: "cval \<Rightarrow> goerr + string" where
  "tree_json v = Inr (tree_text ''kind'' v @ ''/'' @ tree_text ''metadata.name'' v)"

definition tree_object :: "string \<Rightarrow> goerr + unstructured" where
  "tree_object j = Inr \<lparr>u_GVK = \<lparr>gvk_Group = [], gvk_Version = ''v1'', gvk_Kind = fst (parseAPIVersion j)\<rparr>,
     u_Namespace = ''default'', u_Name = snd (parseAPIVersion j), u_Labels = Map.empty, u_Content = j\<rparr>"

fun tree_ok :: "cval \<Rightarrow> bool" where
  "tree_ok (CErr m) = False"
| "tree_ok (CList vs) = list_all tree_ok vs"
| "tree_ok (CStruct fs) = list_all (\<lambda>(k, v). tree_ok v) fs"
| "tree_ok v = True"

definition tree_lib :: "cval cue_lib" where
  "tree_lib = \<lparr>cue_LookupPath = tree_lookup, cue_Exists = (\<lambda>v. v \<noteq> CNone), cue_String = tree_string,
     cue_Err = tree_err, cue_MarshalJSON = tree_json, cue_DecodeMap = tree_decode_map,
     cue_ToObject = tree_object\<rparr>"

definition tree_pos :: token_pos where
  "tree_pos = \<lparr>tp_IsValid = False, tp_Filename = [], tp_Line = 0, tp_Column = 0, tp_String = []\<rparr>"

text \<open>
  Unification keeps the second tree, a schema allows the labels it has, a tree is valid if it
  holds no error; \<open>Syntax\<close> and \<open>BuildExpr\<close> carry a tree through a fixed text.
\<close>

definition tree_cue :: "cval cue_eval" where
  "tree_cue = \<lparr>cv_Lib = tree_lib, cv_Nil = CNone, cv_Fields = tree_fields,
     cv_List = (\<lambda>v. case v of CList vs \<Rightarrow> Inr vs | _ \<Rightarrow> Inl (errors_New ''not a list'')),
     cv_LookupStr = tree_field, cv_LookupSel = (\<lambda>sel. tree_field (sel_Unquoted sel)),
     cv_Kind = tree_kind, cv_IncompleteKind = tree_kind,
     cv_FillPath = (\<lambda>p x v. tree_fill (split_dot p []) x v),
     cv_Unify = (\<lambda>a b. b),
     cv_Allows = (\<lambda>v sel. tree_field (sel_Unquoted sel) v \<noteq> CNone),
     cv_Pos = (\<lambda>v. tree_pos),
     cv_Validate = (\<lambda>conc v. if tree_ok v then None else Some (errors_New ''invalid value'')),
     cv_Errors = (\<lambda>e. [\<lparr>ce_Position = tree_pos, ce_Positions = [], ce_Path = [], ce_Format = err_msg e,
        ce_HasArgs = False, ce_Formatted = [], ce_Details = err_msg e\<rparr>]),
     cv_Append = (\<lambda>acc e. acc @ [e]),
     cv_Details = (\<lambda>pos path msg. msg),
     cv_Syntax = (\<lambda>v. \<lparr>an_Type = ''*ast.StructLit'', an_IsExpr = True, an_Text = []\<rparr>),
     cv_BuildExpr = (\<lambda>n. CStruct [(''web'', CStruct [])]),
     cv_CompileBytes = (\<lambda>b. CStr b),
     cv_EncodeRelease = (\<lambda>d. CStruct [(''name'', CStr (mrc_Name d))]),
     cv_EncodeComponent = (\<lambda>d. CStruct [(''name'', CStr (ccd_Name d))]),
     cv_EncodeString = CStr,
     cv_DecodeModule = (\<lambda>v. Inr \<lparr>mm_Name = tree_text ''name'' v, mm_Description = [], mm_ModulePath = [],
        mm_DefaultNamespace = [], mm_FQN = [], mm_Version = [], mm_UUID = [], mm_Labels = Map.empty,
        mm_Annotations = Map.empty\<rparr>),
     cv_DecodeRelease = (\<lambda>v. Inr \<lparr>rmd_Name = tree_text ''name'' v, rmd_Namespace = tree_text ''namespace'' v,
        rmd_UUID = [], rmd_Labels = Map.empty, rmd_Annotations = Map.empty\<rparr>),
     cv_DecodeProvider = (\<lambda>d v. Inr (d\<lparr>pmd_Name := tree_text ''name'' v\<rparr>))\<rparr>"

lemma tree_cue_simps [simp]:
  "cv_Lib tree_cue = tree_lib" "cv_Nil tree_cue = CNone" "cv_Fields tree_cue = tree_fields"
  "cv_LookupStr tree_cue = tree_field" "cv_Append tree_cue acc e = acc @ [e]"
  "cue_Exists tree_lib v \<longleftrightarrow> v \<noteq> CNone" "cv_Errors tree_cue ge \<noteq> []"
  by (simp_all add: tree_cue_def tree_lib_def)

lemma first_fields_keys:
  "distinct (map fst (first_fields seen fs)) \<and> fst ` set (first_fields seen fs) \<inter> set seen = {}"
  by (induction seen fs rule: first_fields.induct) auto

lemma first_fields_map_of: "k \<notin> set seen \<Longrightarrow> map_of (first_fields seen fs) k = map_of fs k"
  by (induction seen fs rule: first_fields.induct) auto

lemma first_fields_subset: "set (first_fields seen fs) \<subseteq> set fs"
  by (induction seen fs rule: first_fields.induct) auto

lemma field_size: "(k, v) \<in> set fs \<Longrightarrow> size v < size (CStruct fs)"
  by (induction fs) auto

lemma tree_fields_Inr:
  assumes "tree_fields opt v = Inr fs"
  obtains gs where "v = CStruct gs" "fs = map (\<lambda>(k, x). (tree_selector k, x))
    (filter (\<lambda>(k, x). is_regular k) (first_fields [] gs))"
  using assms by (cases v) auto

lemma field_name_tree [simp]: "field_name (tree_selector k, x) = k"
  by (simp add: field_name_def tree_selector_def)

interpretation tree: finite_cue tree_cue size
proof
  fix v :: cval and fs
  assume fs: "cv_Fields tree_cue False v = Inr fs"
  then obtain gs where gs: "v = CStruct gs" "fs = map (\<lambda>(k, x). (tree_selector k, x))
      (filter (\<lambda>(k, x). is_regular k) (first_fields [] gs))"
    by (auto elim: tree_fields_Inr)
  have "map field_name fs = map fst (filter (\<lambda>(k, x). is_regular k) (first_fields [] gs))"
    by (auto simp: gs)
  then show "distinct (map field_name fs)"
    using first_fields_keys [of "[]" gs] by (simp add: distinct_map_filter)
  fix f
  assume "f \<in> set fs"
  then obtain k x where f: "f = (tree_selector k, x)" "(k, x) \<in> set (first_fields [] gs)" by (auto simp: gs)
  then have "map_of gs k = Some x"
    using first_fields_keys [of "[]" gs] first_fields_map_of [of k "[]" gs] by auto
  with f show "cv_LookupStr tree_cue (field_name f) v = snd f" by (simp add: gs)
next
  fix opt and v :: cval and fs f
  assume "cv_Fields tree_cue opt v = Inr fs" "f \<in> set fs"
  then obtain gs k x where "v = CStruct gs" "f = (tree_selector k, x)" "(k, x) \<in> set (first_fields [] gs)"
    by (auto elim!: tree_fields_Inr)
  then show "size (snd f) < size v"
    using first_fields_subset [of "[]" gs] field_size [of k x gs] by auto
qed auto

subsection \<open>A recursive definition\<close>

text \<open>
  Data trees with one more value, the definition \<open>#L: {next?: #L}\<close>: it has no regular field, and
  its optional field \<open>next\<close> holds the definition itself.
\<close>

definition rec_schema :: cval where
  "rec_schema = CStruct []"

definition rec_cue :: "cval cue_eval" where
  "rec_cue = tree_cue\<lparr>
     cv_Fields := (\<lambda>opt v. if opt \<and> v = rec_schema then Inr [(tree_selector ''next'', rec_schema)] else tree_fields opt v),
     cv_LookupSel := (\<lambda>sel v. if v = rec_schema \<and> sel_Unquoted sel = ''next'' then rec_schema
       else tree_field (sel_Unquoted sel) v),
     cv_Allows := (\<lambda>v sel. v = rec_schema \<and> sel_Unquoted sel = ''next'' \<or> tree_field (sel_Unquoted sel) v \<noteq> CNone)\<rparr>"

lemma rec_cue_simps [simp]:
  "cv_Lib rec_cue = tree_lib" "cv_Nil rec_cue = CNone" "cv_Fields rec_cue False = tree_fields False"
  "cv_LookupStr rec_cue = tree_field" "cv_Append rec_cue acc e = acc @ [e]" "cv_Errors rec_cue ge \<noteq> []"
  by (simp_all add: rec_cue_def tree_cue_def)

interpretation rec: cue_laws rec_cue
  using tree.fields_distinct tree.lookup_field by unfold_locales auto

end
