(* ===== verification/Opm_Match.thy ===== *)
theory Opm_Match
  imports Opm_Cue
begin

text \<open>
  \<open>pkg/render/match.go\<close>: which transformers apply to which components. A Go map is an
  association list with distinct keys in the order one iteration takes; the lemmas show
  that the exported results do not depend on that order.
\<close>

record MatchResult =
  mres_Matched :: bool
  mres_MissingLabels :: "string list"
  mres_MissingResources :: "string list"
  mres_MissingTraits :: "string list"

record MatchPlan =
  mp_Matches :: "(string \<times> (string \<times> MatchResult) list) list"
  mp_Unmatched :: "string list"
  mp_UnhandledTraits :: "(string \<times> string list) list"

record MatchedPair =
  pair_ComponentName :: string
  pair_TransformerFQN :: string

record NonMatchedPair =
  nmp_ComponentName :: string
  nmp_TransformerFQN :: string
  nmp_MissingLabels :: "string list"
  nmp_MissingResources :: "string list"
  nmp_MissingTraits :: "string list"

subsection \<open>Reading components and transformers\<close>

text \<open>The \<open>key=value\<close> pairs of the string fields; other fields are skipped.\<close>

definition string_pairs :: "'v cue_eval \<Rightarrow> 'v cue_fields \<Rightarrow> string list" where
  "string_pairs C fs = concat (map (\<lambda>(sel, v).
     case cv_String C v of
       (str, None) \<Rightarrow> [sel_Unquoted sel @ ''='' @ str]
     | (_, Some _) \<Rightarrow> []) fs)"

definition labelPairs :: "'v cue_eval \<Rightarrow> 'v \<Rightarrow> string set" where
  "labelPairs C v =
     (case cv_Fields C True v of
        Inl _ \<Rightarrow> {}
      | Inr fs \<Rightarrow> set (string_pairs C fs))"

definition fieldKeys :: "'v cue_eval \<Rightarrow> 'v \<Rightarrow> string list" where
  "fieldKeys C v =
     (case cv_Fields C False v of
        Inl _ \<Rightarrow> []
      | Inr fs \<Rightarrow> sort_Strings (map field_name fs))"

definition missingMapLabels :: "'v cue_eval \<Rightarrow> 'v \<Rightarrow> string set \<Rightarrow> string list" where
  "missingMapLabels C required have =
     (case cv_Fields C True required of
        Inl _ \<Rightarrow> []
      | Inr fs \<Rightarrow> sort_Strings (filter (\<lambda>pair. pair \<notin> have) (string_pairs C fs)))"

definition missingKeys :: "'v cue_eval \<Rightarrow> 'v \<Rightarrow> string list \<Rightarrow> string list" where
  "missingKeys C required have =
     (case cv_Fields C True required of
        Inl _ \<Rightarrow> []
      | Inr fs \<Rightarrow> sort_Strings (filter (\<lambda>key. key \<notin> set have) (map field_name fs)))"

subsection \<open>Match\<close>

definition match_result :: "'v cue_eval \<Rightarrow> string set \<Rightarrow> string list \<Rightarrow> string list \<Rightarrow> 'v \<Rightarrow> MatchResult" where
  "match_result C labels resources traits tfVal =
     (let missingLabels = missingMapLabels C (cv_Lookup C ''requiredLabels'' tfVal) labels;
          missingResources = missingKeys C (cv_Lookup C ''requiredResources'' tfVal) resources;
          missingTraits = missingKeys C (cv_Lookup C ''requiredTraits'' tfVal) traits
      in \<lparr>mres_Matched = (missingLabels = [] \<and> missingResources = [] \<and> missingTraits = []),
          mres_MissingLabels = missingLabels, mres_MissingResources = missingResources,
          mres_MissingTraits = missingTraits\<rparr>)"

fun transformer_loop ::
  "'v cue_eval \<Rightarrow> string set \<Rightarrow> string list \<Rightarrow> string list \<Rightarrow> 'v cue_fields
     \<Rightarrow> (string \<times> MatchResult) list \<Rightarrow> string list \<Rightarrow> (string \<times> MatchResult) list \<times> string list" where
  "transformer_loop C labels resources traits [] results matchedTFs = (results, matchedTFs)"
| "transformer_loop C labels resources traits (tf # tfs) results matchedTFs =
     (let result = match_result C labels resources traits (snd tf)
      in transformer_loop C labels resources traits tfs
           (AList.update (field_name tf) result results)
           (if mres_Matched result then matchedTFs @ [field_name tf] else matchedTFs))"

definition handled_traits :: "'v cue_eval \<Rightarrow> 'v \<Rightarrow> string list \<Rightarrow> string set" where
  "handled_traits C transformers matchedTFs =
     (\<Union>tfFQN \<in> set matchedTFs.
        (let tfVal = cv_LookupStr C tfFQN transformers
         in set (fieldKeys C (cv_Lookup C ''requiredTraits'' tfVal))
            \<union> set (fieldKeys C (cv_Lookup C ''optionalTraits'' tfVal))))"

definition map_get :: "(string \<times> 'a list) list \<Rightarrow> string \<Rightarrow> 'a list" where
  "map_get m k = (case map_of m k of None \<Rightarrow> [] | Some v \<Rightarrow> v)"

text \<open>Appending to a map entry, once per unhandled trait, and sorting the entry afterwards.\<close>

fun unhandled_loop :: "string \<Rightarrow> string set \<Rightarrow> string list \<Rightarrow> (string \<times> string list) list
    \<Rightarrow> (string \<times> string list) list" where
  "unhandled_loop compName handled [] m = m"
| "unhandled_loop compName handled (fqn # fqns) m =
     unhandled_loop compName handled fqns
       (if fqn \<in> handled then m else AList.update compName (map_get m compName @ [fqn]) m)"

definition sort_entry :: "string \<Rightarrow> (string \<times> string list) list \<Rightarrow> (string \<times> string list) list" where
  "sort_entry k m = (case map_of m k of None \<Rightarrow> m | Some v \<Rightarrow> AList.update k (sort_Strings v) m)"

definition match_component ::
  "'v cue_eval \<Rightarrow> 'v \<Rightarrow> cue_selector \<times> 'v \<Rightarrow> MatchPlan \<Rightarrow> goerr + MatchPlan" where
  "match_component C transformers component plan =
     (let compName = field_name component; compVal = snd component;
          labels = labelPairs C (cv_Lookup C ''metadata.labels'' compVal);
          resources = fieldKeys C (cv_Lookup C ''#resources'' compVal);
          traits = fieldKeys C (cv_Lookup C ''#traits'' compVal)
      in case cv_Fields C False transformers of
           Inl e \<Rightarrow> Inl (Errorf_w ''iterating transformers: '' e [])
         | Inr tfs \<Rightarrow>
             (let (results, matchedTFs) = transformer_loop C labels resources traits tfs [] [];
                  unmatched = (if matchedTFs = [] then mp_Unmatched plan @ [compName] else mp_Unmatched plan);
                  handled = handled_traits C transformers matchedTFs
              in Inr \<lparr>mp_Matches = AList.update compName results (mp_Matches plan),
                      mp_Unmatched = unmatched,
                      mp_UnhandledTraits =
                        sort_entry compName (unhandled_loop compName handled traits (mp_UnhandledTraits plan))\<rparr>))"

fun match_loop :: "'v cue_eval \<Rightarrow> 'v \<Rightarrow> 'v cue_fields \<Rightarrow> MatchPlan \<Rightarrow> goerr + MatchPlan" where
  "match_loop C transformers [] plan = Inr (plan\<lparr>mp_Unmatched := sort_Strings (mp_Unmatched plan)\<rparr>)"
| "match_loop C transformers (component # comps) plan =
     (case match_component C transformers component plan of
        Inl e \<Rightarrow> Inl e
      | Inr plan' \<Rightarrow> match_loop C transformers comps plan')"

definition empty_plan :: MatchPlan where
  "empty_plan = \<lparr>mp_Matches = [], mp_Unmatched = [], mp_UnhandledTraits = []\<rparr>"

definition Match :: "'v cue_eval \<Rightarrow> 'v \<Rightarrow> 'v Provider option \<Rightarrow> goerr + MatchPlan" where
  "Match C comps p =
     (case p of
        None \<Rightarrow> Inl (errors_New ''provider is required'')
      | Some prov \<Rightarrow>
          (case cv_Fields C False comps of
             Inl e \<Rightarrow> Inl (Errorf_w ''iterating components: '' e [])
           | Inr compIter \<Rightarrow>
               (let transformers = cv_Lookup C ''#transformers'' (pv_Data prov)
                in if \<not> cv_Exists C transformers then Inr empty_plan
                   else match_loop C transformers compIter empty_plan)))"

subsection \<open>Reading a plan\<close>

definition pair_less :: "MatchedPair \<Rightarrow> MatchedPair \<Rightarrow> bool" where
  "pair_less a b =
     (if pair_ComponentName a \<noteq> pair_ComponentName b then pair_ComponentName a < pair_ComponentName b
      else pair_TransformerFQN a < pair_TransformerFQN b)"

definition MatchedPairs :: "MatchPlan \<Rightarrow> MatchedPair list" where
  "MatchedPairs p = SliceStable pair_less
     (concat (map (\<lambda>(compName, tfResults). concat (map (\<lambda>(tfFQN, result).
        if mres_Matched result
        then [\<lparr>pair_ComponentName = compName, pair_TransformerFQN = tfFQN\<rparr>] else []) tfResults))
      (mp_Matches p)))"

definition nonmatched_less :: "NonMatchedPair \<Rightarrow> NonMatchedPair \<Rightarrow> bool" where
  "nonmatched_less a b =
     (if nmp_ComponentName a \<noteq> nmp_ComponentName b then nmp_ComponentName a < nmp_ComponentName b
      else nmp_TransformerFQN a < nmp_TransformerFQN b)"

definition NonMatchedPairs :: "MatchPlan \<Rightarrow> NonMatchedPair list" where
  "NonMatchedPairs p = SliceStable nonmatched_less
     (concat (map (\<lambda>(compName, tfResults). concat (map (\<lambda>(tfFQN, result).
        if \<not> mres_Matched result
        then [\<lparr>nmp_ComponentName = compName, nmp_TransformerFQN = tfFQN,
               nmp_MissingLabels = mres_MissingLabels result,
               nmp_MissingResources = mres_MissingResources result,
               nmp_MissingTraits = mres_MissingTraits result\<rparr>] else []) tfResults))
      (mp_Matches p)))"

definition unhandled_warning :: "string \<Rightarrow> string \<Rightarrow> string" where
  "unhandled_warning compName fqn =
     ''component '' @ Quote compName @ '': trait '' @ Quote fqn
     @ '' is not handled by any matched transformer (values will be ignored)''"

definition Warnings :: "MatchPlan \<Rightarrow> string list" where
  "Warnings p =
     (if mp_UnhandledTraits p = [] then []
      else concat (map (\<lambda>compName.
             map (unhandled_warning compName) (sort_Strings (map_get (mp_UnhandledTraits p) compName)))
           (sort_Strings (map fst (mp_UnhandledTraits p)))))"

subsection \<open>The loops in closed form\<close>

lemma update_new_key: "k \<notin> fst ` set al \<Longrightarrow> AList.update k v al = al @ [(k, v)]"
  by (induction al) auto

lemma transformer_loop_eq:
  assumes "distinct (map fst results @ map field_name tfs)"
  shows "transformer_loop C ls rs ts tfs results matched =
    (results @ map (\<lambda>tf. (field_name tf, match_result C ls rs ts (snd tf))) tfs,
     matched @ map field_name (filter (\<lambda>tf. mres_Matched (match_result C ls rs ts (snd tf))) tfs))"
  using assms
proof (induction tfs arbitrary: results matched)
  case (Cons tf tfs)
  then have "AList.update (field_name tf) x results = results @ [(field_name tf, x)]" for x
    by (intro update_new_key) auto
  with Cons show ?case by (simp add: Let_def)
qed simp

lemma unhandled_loop_eq:
  "unhandled_loop c handled fqns m =
     (let us = filter (\<lambda>f. f \<notin> handled) fqns in
      if us = [] then m else AList.update c (map_get m c @ us) m)"
proof (induction fqns arbitrary: m)
  case (Cons f fqns)
  then show ?case by (auto simp: map_get_def update_conv' Let_def)
qed simp

lemma sort_entry_unhandled:
  assumes "c \<notin> fst ` set m"
  shows "sort_entry c (unhandled_loop c handled fqns m) =
    (let us = filter (\<lambda>f. f \<notin> handled) fqns in if us = [] then m else m @ [(c, sort us)])"
proof -
  have none: "map_of m c = None" using assms by (simp add: map_of_eq_None_iff)
  have get: "map_of (m @ [(c, us)]) c = Some us" for us using none by (simp add: map_add_def)
  have upd: "AList.update c v (m @ [(c, us)]) = m @ [(c, v)]" for v us
    by (metis assms update_last update_new_key)
  show ?thesis
    using none get assms
    by (simp add: unhandled_loop_eq Let_def sort_entry_def map_get_def update_new_key upd sort_Strings_eq)
qed

subsection \<open>When a transformer applies\<close>

text \<open>
  The specification: a transformer applies to a component that has its required label pairs,
  resources and traits. A field that is missing or is no struct requires nothing.
\<close>

definition required_keys :: "'v cue_eval \<Rightarrow> 'v \<Rightarrow> string set" where
  "required_keys C v = (case cv_Fields C True v of Inl _ \<Rightarrow> {} | Inr fs \<Rightarrow> field_name ` set fs)"

definition applies :: "'v cue_eval \<Rightarrow> 'v \<Rightarrow> 'v \<Rightarrow> bool" where
  "applies C compVal tfVal \<longleftrightarrow>
     labelPairs C (cv_Lookup C ''requiredLabels'' tfVal) \<subseteq> labelPairs C (cv_Lookup C ''metadata.labels'' compVal)
   \<and> required_keys C (cv_Lookup C ''requiredResources'' tfVal) \<subseteq> set (fieldKeys C (cv_Lookup C ''#resources'' compVal))
   \<and> required_keys C (cv_Lookup C ''requiredTraits'' tfVal) \<subseteq> set (fieldKeys C (cv_Lookup C ''#traits'' compVal))"

definition handles :: "'v cue_eval \<Rightarrow> 'v \<Rightarrow> string \<Rightarrow> bool" where
  "handles C tfVal f \<longleftrightarrow> f \<in> set (fieldKeys C (cv_Lookup C ''requiredTraits'' tfVal))
     \<or> f \<in> set (fieldKeys C (cv_Lookup C ''optionalTraits'' tfVal))"

definition unhandled :: "'v cue_eval \<Rightarrow> 'v cue_fields \<Rightarrow> 'v \<Rightarrow> string list" where
  "unhandled C tfs compVal = filter (\<lambda>f. \<not> list_ex (\<lambda>tf. applies C compVal (snd tf) \<and> handles C (snd tf) f) tfs)
     (fieldKeys C (cv_Lookup C ''#traits'' compVal))"

definition result_of :: "'v cue_eval \<Rightarrow> 'v \<Rightarrow> 'v \<Rightarrow> MatchResult" where
  "result_of C compVal = match_result C (labelPairs C (cv_Lookup C ''metadata.labels'' compVal))
     (fieldKeys C (cv_Lookup C ''#resources'' compVal)) (fieldKeys C (cv_Lookup C ''#traits'' compVal))"

lemma set_sort_Strings [simp]: "set (sort_Strings xs) = set xs"
  and sort_Strings_Nil [simp]: "sort_Strings xs = [] \<longleftrightarrow> xs = []"
  and sorted_sort_Strings [simp]: "sorted (sort_Strings xs)"
  by (simp_all add: sort_Strings_eq) (metis length_0_conv length_sort)

lemma missing_Nil:
  "missingMapLabels C req have = [] \<longleftrightarrow> labelPairs C req \<subseteq> have"
  "missingKeys C req ks = [] \<longleftrightarrow> required_keys C req \<subseteq> set ks"
  by (auto simp: missingMapLabels_def labelPairs_def missingKeys_def required_keys_def filter_empty_conv
      split: sum.splits)

lemma matched_iff_applies: "mres_Matched (result_of C compVal tfVal) \<longleftrightarrow> applies C compVal tfVal"
  by (simp add: result_of_def match_result_def Let_def applies_def missing_Nil)

lemma sorted_unhandled: "sorted (unhandled C tfs v)"
  by (auto simp: unhandled_def fieldKeys_def intro: sorted_wrt_filter split: sum.splits)

definition component_plan :: "'v cue_eval \<Rightarrow> 'v cue_fields \<Rightarrow> cue_selector \<times> 'v \<Rightarrow> MatchPlan \<Rightarrow> MatchPlan" where
  "component_plan C tfs c plan =
    \<lparr>mp_Matches = mp_Matches plan @ [(field_name c, map (\<lambda>tf. (field_name tf, result_of C (snd c) (snd tf))) tfs)],
     mp_Unmatched = mp_Unmatched plan
       @ (if list_ex (\<lambda>tf. applies C (snd c) (snd tf)) tfs then [] else [field_name c]),
     mp_UnhandledTraits = mp_UnhandledTraits plan
       @ (if unhandled C tfs (snd c) = [] then [] else [(field_name c, unhandled C tfs (snd c))])\<rparr>"

context cue_laws
begin

lemma handled_traits_eq:
  assumes "cv_Fields C False transformers = Inr tfs"
  shows "f \<in> handled_traits C transformers (map field_name (filter P tfs))
     \<longleftrightarrow> list_ex (\<lambda>tf. P tf \<and> handles C (snd tf) f) tfs"
proof -
  have "cv_LookupStr C (field_name tf) transformers = snd tf" if "tf \<in> set tfs" for tf
    by (rule lookup_field [OF assms that])
  then show ?thesis
    by (fastforce simp: handled_traits_def handles_def list_ex_iff Let_def)
qed

lemma match_component_eq:
  assumes tfs: "cv_Fields C False transformers = Inr tfs"
    and new: "field_name c \<notin> fst ` set (mp_Matches plan)" "field_name c \<notin> fst ` set (mp_UnhandledTraits plan)"
  shows "match_component C transformers c plan = Inr (component_plan C tfs c plan)"
proof -
  let ?ls = "labelPairs C (cv_Lookup C ''metadata.labels'' (snd c))"
  let ?rs = "fieldKeys C (cv_Lookup C ''#resources'' (snd c))"
  let ?ts = "fieldKeys C (cv_Lookup C ''#traits'' (snd c))"
  let ?m = "map field_name (filter (\<lambda>tf. applies C (snd c) (snd tf)) tfs)"
  have loop: "transformer_loop C ?ls ?rs ?ts tfs [] []
      = (map (\<lambda>tf. (field_name tf, result_of C (snd c) (snd tf))) tfs, ?m)"
    using fields_distinct [OF tfs]
    by (simp add: transformer_loop_eq result_of_def [symmetric] matched_iff_applies)
  have us: "filter (\<lambda>f. f \<notin> handled_traits C transformers ?m) ?ts = unhandled C tfs (snd c)"
    by (simp add: unhandled_def handled_traits_eq [OF tfs])
  have "sort_entry (field_name c) (unhandled_loop (field_name c) (handled_traits C transformers ?m) ?ts
        (mp_UnhandledTraits plan))
      = mp_UnhandledTraits plan
        @ (if unhandled C tfs (snd c) = [] then [] else [(field_name c, unhandled C tfs (snd c))])"
    using sorted_unhandled [of C tfs "snd c"]
    by (simp add: sort_entry_unhandled [OF new(2)] us sorted_sort_id)
  then show ?thesis
    using tfs loop
    by (auto simp: match_component_def Let_def component_plan_def update_new_key [OF new(1)]
        filter_empty_conv list_ex_iff)
qed

lemma match_loop_eq:
  assumes tfs: "cv_Fields C False transformers = Inr tfs"
    and "distinct (map fst (mp_Matches plan) @ map field_name comps)"
    and "fst ` set (mp_UnhandledTraits plan) \<subseteq> fst ` set (mp_Matches plan)"
  shows "match_loop C transformers comps plan = Inr
    \<lparr>mp_Matches = mp_Matches plan
       @ map (\<lambda>c. (field_name c, map (\<lambda>tf. (field_name tf, result_of C (snd c) (snd tf))) tfs)) comps,
     mp_Unmatched = sort (mp_Unmatched plan
       @ map field_name (filter (\<lambda>c. \<not> list_ex (\<lambda>tf. applies C (snd c) (snd tf)) tfs) comps)),
     mp_UnhandledTraits = mp_UnhandledTraits plan
       @ map (\<lambda>c. (field_name c, unhandled C tfs (snd c)))
           (filter (\<lambda>c. unhandled C tfs (snd c) \<noteq> []) comps)\<rparr>"
  using assms(2,3)
proof (induction comps arbitrary: plan)
  case (Cons c comps)
  then have "match_component C transformers c plan = Inr (component_plan C tfs c plan)"
    by (intro match_component_eq [OF tfs]) auto
  moreover have "distinct (map fst (mp_Matches (component_plan C tfs c plan)) @ map field_name comps)"
    "fst ` set (mp_UnhandledTraits (component_plan C tfs c plan)) \<subseteq> fst ` set (mp_Matches (component_plan C tfs c plan))"
    using Cons.prems by (auto simp: component_plan_def)
  note Cons.IH [OF this]
  ultimately show ?case by (simp add: component_plan_def)
qed (simp add: sort_Strings_eq)

lemma Match_closed_form:
  assumes "cv_Fields C False cs = Inr comps"
    and "cv_Exists C (cv_Lookup C ''#transformers'' (pv_Data p))"
    and "cv_Fields C False (cv_Lookup C ''#transformers'' (pv_Data p)) = Inr tfs"
  shows "Match C cs (Some p) = Inr
    \<lparr>mp_Matches = map (\<lambda>c. (field_name c, map (\<lambda>tf. (field_name tf, result_of C (snd c) (snd tf))) tfs)) comps,
     mp_Unmatched = sort (map field_name (filter (\<lambda>c. \<not> list_ex (\<lambda>tf. applies C (snd c) (snd tf)) tfs) comps)),
     mp_UnhandledTraits = map (\<lambda>c. (field_name c, unhandled C tfs (snd c)))
        (filter (\<lambda>c. unhandled C tfs (snd c) \<noteq> []) comps)\<rparr>"
  using assms fields_distinct [OF assms(1)]
  by (simp add: Match_def Let_def match_loop_eq empty_plan_def)

end

subsection \<open>Order of the results\<close>

definition pair_key :: "MatchedPair \<Rightarrow> string \<times> string" where
  "pair_key p = (pair_ComponentName p, pair_TransformerFQN p)"

definition nonmatched_key :: "NonMatchedPair \<Rightarrow> string \<times> string" where
  "nonmatched_key p = (nmp_ComponentName p, nmp_TransformerFQN p)"

interpretation pair_order: slice_order pair_less pair_key
  by unfold_locales (auto simp: pair_less_def pair_key_def)

interpretation nonmatched_order: slice_order nonmatched_less nonmatched_key
  by unfold_locales (auto simp: nonmatched_less_def nonmatched_key_def)

lemma inj_pair_key: "inj pair_key"
  by (auto simp: inj_def pair_key_def)

text \<open>
  The content of a plan, in the order of one iteration over its two levels of maps, and when
  two iterations see the same plan.
\<close>

definition plan_entries :: "MatchPlan \<Rightarrow> (string \<times> string \<times> MatchResult) list" where
  "plan_entries p = concat (map (\<lambda>(c, rs). map (\<lambda>(t, r). (c, t, r)) rs) (mp_Matches p))"

definition same_plan :: "MatchPlan \<Rightarrow> MatchPlan \<Rightarrow> bool" where
  "same_plan p q \<longleftrightarrow> mset (plan_entries p) = mset (plan_entries q)
     \<and> mset (mp_UnhandledTraits p) = mset (mp_UnhandledTraits q)"

definition plan_ok :: "MatchPlan \<Rightarrow> bool" where
  "plan_ok p \<longleftrightarrow> distinct (map (\<lambda>(c, t, r). (c, t)) (plan_entries p)) \<and> distinct (map fst (mp_UnhandledTraits p))"

definition entry_pair :: "string \<times> string \<times> MatchResult \<Rightarrow> MatchedPair" where
  "entry_pair e = (case e of (c, t, r) \<Rightarrow> \<lparr>pair_ComponentName = c, pair_TransformerFQN = t\<rparr>)"

definition entry_nonmatched :: "string \<times> string \<times> MatchResult \<Rightarrow> NonMatchedPair" where
  "entry_nonmatched e = (case e of (c, t, r) \<Rightarrow>
     \<lparr>nmp_ComponentName = c, nmp_TransformerFQN = t, nmp_MissingLabels = mres_MissingLabels r,
      nmp_MissingResources = mres_MissingResources r, nmp_MissingTraits = mres_MissingTraits r\<rparr>)"

lemma concat_if_singleton: "concat (map (\<lambda>x. if P x then [f x] else []) xs) = map f (filter P xs)"
  by (induction xs) auto

lemma MatchedPairs_eq:
  "MatchedPairs p = SliceStable pair_less (map entry_pair (filter (\<lambda>(c, t, r). mres_Matched r) (plan_entries p)))"
proof -
  have "(\<lambda>(c, rs). concat (map (\<lambda>(t, r). if mres_Matched r
        then [\<lparr>pair_ComponentName = c, pair_TransformerFQN = t\<rparr>] else []) rs))
      = (\<lambda>(c, rs). map entry_pair (filter (\<lambda>(c, t, r). mres_Matched r) (map (\<lambda>(t, r). (c, t, r)) rs)))"
    by (auto simp: fun_eq_iff entry_pair_def filter_map comp_def case_prod_unfold concat_if_singleton)
  then show ?thesis
    unfolding MatchedPairs_def plan_entries_def
    by (simp add: filter_concat map_concat comp_def case_prod_unfold)
qed

lemma NonMatchedPairs_eq:
  "NonMatchedPairs p = SliceStable nonmatched_less
     (map entry_nonmatched (filter (\<lambda>(c, t, r). \<not> mres_Matched r) (plan_entries p)))"
proof -
  have "(\<lambda>(c, rs). concat (map (\<lambda>(t, r). if \<not> mres_Matched r
        then [\<lparr>nmp_ComponentName = c, nmp_TransformerFQN = t, nmp_MissingLabels = mres_MissingLabels r,
          nmp_MissingResources = mres_MissingResources r, nmp_MissingTraits = mres_MissingTraits r\<rparr>] else []) rs))
      = (\<lambda>(c, rs). map entry_nonmatched (filter (\<lambda>(c, t, r). \<not> mres_Matched r) (map (\<lambda>(t, r). (c, t, r)) rs)))"
    by (auto simp: fun_eq_iff entry_nonmatched_def filter_map comp_def case_prod_unfold concat_if_singleton)
  then show ?thesis
    unfolding NonMatchedPairs_def plan_entries_def
    by (simp add: filter_concat map_concat comp_def case_prod_unfold)
qed

lemma MatchedPairs_perm:
  assumes "mset (plan_entries p) = mset (plan_entries q)"
  shows "MatchedPairs p = MatchedPairs q"
  unfolding MatchedPairs_eq
  by (rule pair_order.SliceStable_perm) (use assms inj_pair_key in \<open>auto intro: inj_on_subset simp: mset_filter\<close>)

lemma NonMatchedPairs_perm:
  assumes "mset (plan_entries p) = mset (plan_entries q)" and "plan_ok p"
  shows "NonMatchedPairs p = NonMatchedPairs q"
  unfolding NonMatchedPairs_eq
proof (rule nonmatched_order.SliceStable_perm)
  have "inj_on (\<lambda>(c, t, r). (c, t)) (set (plan_entries p))"
    using assms(2) by (simp add: plan_ok_def distinct_map)
  then show "inj_on nonmatched_key (set (map entry_nonmatched (filter (\<lambda>(c, t, r). \<not> mres_Matched r) (plan_entries p))))"
    by (fastforce simp: inj_on_def nonmatched_key_def entry_nonmatched_def)
qed (use assms in \<open>simp add: mset_filter\<close>)

lemma sort_Strings_perm: "mset xs = mset ys \<Longrightarrow> sort_Strings xs = sort_Strings ys"
  unfolding sort_Strings_def by (rule strings_order.SliceStable_perm) (simp_all add: inj_on_def)

lemma Warnings_perm:
  assumes "mset (mp_UnhandledTraits p) = mset (mp_UnhandledTraits q)" and "plan_ok p"
  shows "Warnings p = Warnings q"
proof -
  have keys: "mset (map fst (mp_UnhandledTraits p)) = mset (map fst (mp_UnhandledTraits q))"
    using assms(1) by simp
  have "map_of (mp_UnhandledTraits p) = map_of (mp_UnhandledTraits q)"
  proof (subst map_of_inject_set)
    show "distinct (map fst (mp_UnhandledTraits p))" using assms(2) by (simp add: plan_ok_def)
    then show "distinct (map fst (mp_UnhandledTraits q))" using mset_eq_imp_distinct_iff [OF keys] by simp
    show "set (mp_UnhandledTraits p) = set (mp_UnhandledTraits q)" using assms(1) by (rule mset_eq_setD)
  qed
  then show ?thesis
    using assms(1) sort_Strings_perm [OF keys] by (auto simp: Warnings_def map_get_def)
qed

context cue_laws
begin

lemma MatchedPairs_of_Match:
  assumes "cv_Fields C False cs = Inr comps"
    and "cv_Exists C (cv_Lookup C ''#transformers'' (pv_Data p))"
    and "cv_Fields C False (cv_Lookup C ''#transformers'' (pv_Data p)) = Inr tfs"
    and "Match C cs (Some p) = Inr plan"
  shows "set (MatchedPairs plan) = {\<lparr>pair_ComponentName = field_name c, pair_TransformerFQN = field_name t\<rparr> | c t.
      c \<in> set comps \<and> t \<in> set tfs \<and> applies C (snd c) (snd t)}"
    and "plan_ok plan"
proof -
  have plan: "mp_Matches plan = map (\<lambda>c. (field_name c, map (\<lambda>tf. (field_name tf, result_of C (snd c) (snd tf))) tfs)) comps"
    "mp_UnhandledTraits plan = map (\<lambda>c. (field_name c, unhandled C tfs (snd c))) (filter (\<lambda>c. unhandled C tfs (snd c) \<noteq> []) comps)"
    using assms(4) unfolding Match_closed_form [OF assms(1-3)] by auto
  have entries: "plan_entries plan = concat (map (\<lambda>c. map (\<lambda>t. (field_name c, field_name t, result_of C (snd c) (snd t))) tfs) comps)"
    by (simp add: plan_entries_def plan comp_def)
  have pairs: "map entry_pair (filter (\<lambda>(c, t, r). mres_Matched r) (plan_entries plan))
      = concat (map (\<lambda>c. map (\<lambda>t. \<lparr>pair_ComponentName = field_name c, pair_TransformerFQN = field_name t\<rparr>)
          (filter (\<lambda>t. applies C (snd c) (snd t)) tfs)) comps)"
    unfolding entries by (induction comps) (simp_all add: filter_map comp_def matched_iff_applies entry_pair_def)
  show "set (MatchedPairs plan) = {\<lparr>pair_ComponentName = field_name c, pair_TransformerFQN = field_name t\<rparr> | c t.
      c \<in> set comps \<and> t \<in> set tfs \<and> applies C (snd c) (snd t)}"
    unfolding MatchedPairs_eq pair_order.set_SliceStable pairs by (auto simp del: split_paired_Ex)
  have "map (\<lambda>(c, t, r). (c, t)) (plan_entries plan) = List.product (map field_name comps) (map field_name tfs)"
    unfolding entries by (induction comps) (simp_all add: comp_def)
  then show "plan_ok plan"
    using fields_distinct [OF assms(1)] fields_distinct [OF assms(3)]
    by (simp add: plan_ok_def distinct_product plan comp_def distinct_map_filter)
qed

lemma Warnings_of_Match:
  assumes "cv_Fields C False cs = Inr comps"
    and "cv_Exists C (cv_Lookup C ''#transformers'' (pv_Data p))"
    and "cv_Fields C False (cv_Lookup C ''#transformers'' (pv_Data p)) = Inr tfs"
    and "Match C cs (Some p) = Inr plan"
  shows "set (Warnings plan) = {unhandled_warning (field_name c) f | c f. c \<in> set comps \<and> f \<in> set (unhandled C tfs (snd c))}"
proof -
  have plan: "mp_UnhandledTraits plan = map (\<lambda>c. (field_name c, unhandled C tfs (snd c))) (filter (\<lambda>c. unhandled C tfs (snd c) \<noteq> []) comps)"
    using assms(4) unfolding Match_closed_form [OF assms(1-3)] by auto
  have get: "map_get (mp_UnhandledTraits plan) (field_name c) = unhandled C tfs (snd c)"
    if "c \<in> set comps" "unhandled C tfs (snd c) \<noteq> []" for c
  proof -
    have "distinct (map fst (mp_UnhandledTraits plan))"
      using fields_distinct [OF assms(1)] by (simp add: plan comp_def distinct_map_filter)
    moreover have "(field_name c, unhandled C tfs (snd c)) \<in> set (mp_UnhandledTraits plan)"
      using that by (auto simp: plan)
    ultimately show ?thesis by (simp add: map_get_def)
  qed
  have "set (Warnings plan) = (\<Union>k \<in> fst ` set (mp_UnhandledTraits plan).
      unhandled_warning k ` set (map_get (mp_UnhandledTraits plan) k))"
    by (auto simp: Warnings_def)
  also have "\<dots> = (\<Union>c \<in> set (filter (\<lambda>c. unhandled C tfs (snd c) \<noteq> []) comps).
      unhandled_warning (field_name c) ` set (map_get (mp_UnhandledTraits plan) (field_name c)))"
    unfolding plan by simp
  also have "\<dots> = (\<Union>c \<in> set (filter (\<lambda>c. unhandled C tfs (snd c) \<noteq> []) comps).
      unhandled_warning (field_name c) ` set (unhandled C tfs (snd c)))"
    using get by (intro SUP_cong) auto
  also have "\<dots> = {unhandled_warning (field_name c) f | c f. c \<in> set comps \<and> f \<in> set (unhandled C tfs (snd c))}"
    by (auto simp del: split_paired_Ex split_paired_All)
  finally show ?thesis .
qed

end

lemma MatchedPairs_strict:
  assumes "plan_ok p"
  shows "sorted_wrt pair_less (MatchedPairs p)"
proof -
  let ?es = "filter (\<lambda>(c, t, r). mres_Matched r) (plan_entries p)"
  have "map pair_key (map entry_pair ?es) = map (\<lambda>(c, t, r). (c, t)) ?es"
    by (auto simp: pair_key_def entry_pair_def)
  then have "distinct (map pair_key (map entry_pair ?es))"
    using assms by (simp only: plan_ok_def distinct_map_filter)
  moreover have "mset (map pair_key (MatchedPairs p)) = mset (map pair_key (map entry_pair ?es))"
    by (simp add: MatchedPairs_eq pair_order.mset_SliceStable image_mset.compositionality)
  ultimately have "distinct (map pair_key (MatchedPairs p))"
    using mset_eq_imp_distinct_iff by blast
  moreover have "sorted (map pair_key (MatchedPairs p))"
    unfolding MatchedPairs_eq by (rule pair_order.sorted_SliceStable)
  ultimately have "sorted_wrt (<) (map pair_key (MatchedPairs p))" by (simp add: strict_sorted_iff)
  then show ?thesis by (simp add: sorted_wrt_map pair_order.lt_key [abs_def])
qed

subsection \<open>Properties\<close>

text \<open>
  C15: matching decides exactly the specification. For a provider with transformers,
  \<open>Match\<close> succeeds; the matched pairs, strictly sorted by component and transformer, are
  exactly the pairs where the component has every label pair, resource and trait the
  transformer requires; the unmatched components are, in order, those no transformer applies
  to; and there is a warning exactly for every trait of a component that none of its matched
  transformers requires or supports.
\<close>

theorem Match_exact:
  assumes "cue_laws C"
    and "cv_Fields C False cs = Inr comps"
    and "cv_Exists C (cv_Lookup C ''#transformers'' (pv_Data p))"
    and "cv_Fields C False (cv_Lookup C ''#transformers'' (pv_Data p)) = Inr tfs"
  shows "\<exists>plan. Match C cs (Some p) = Inr plan
    \<and> sorted_wrt pair_less (MatchedPairs plan)
    \<and> set (MatchedPairs plan) = {\<lparr>pair_ComponentName = field_name c, pair_TransformerFQN = field_name t\<rparr> | c t.
          c \<in> set comps \<and> t \<in> set tfs \<and> applies C (snd c) (snd t)}
    \<and> mp_Unmatched plan = sort (map field_name (filter (\<lambda>c. \<not> list_ex (\<lambda>t. applies C (snd c) (snd t)) tfs) comps))
    \<and> set (Warnings plan) = {unhandled_warning (field_name c) f | c f.
          c \<in> set comps \<and> f \<in> set (unhandled C tfs (snd c))}"
proof -
  note closed = cue_laws.Match_closed_form [OF assms]
  then obtain plan where plan: "Match C cs (Some p) = Inr plan" by blast
  have "mp_Unmatched plan = sort (map field_name (filter (\<lambda>c. \<not> list_ex (\<lambda>t. applies C (snd c) (snd t)) tfs) comps))"
    using plan unfolding closed by auto
  with plan show ?thesis
    using cue_laws.MatchedPairs_of_Match [OF assms plan] cue_laws.Warnings_of_Match [OF assms plan]
      MatchedPairs_strict by blast
qed

text \<open>
  Two transformers on two components: the deployment transformer needs a container and a
  label that only \<open>web\<close> has, nothing applies to \<open>job\<close>, and no transformer handles
  the \<open>backup\<close> trait of \<open>web\<close>.
\<close>

definition demo_components :: cval where
  "demo_components = CStruct
     [(''web'', CStruct [(''metadata'', CStruct [(''labels'', CStruct [(''type'', CStr ''stateless'')])]),
        (''#resources'', CStruct [(''container'', CStruct [])]),
        (''#traits'', CStruct [(''expose'', CStruct []), (''backup'', CStruct [])])]),
      (''job'', CStruct [(''#resources'', CStruct [(''script'', CStruct [])])])]"

definition demo_transform :: "string \<Rightarrow> cval" where
  "demo_transform kind = CStruct [(''output'', CStruct [(''apiVersion'', CStr ''v1''), (''kind'', CStr kind),
     (''metadata'', CStruct [(''name'', CStr ''web'')])])]"

definition demo_transformers :: cval where
  "demo_transformers = CStruct
     [(''service'', CStruct [(''requiredTraits'', CStruct [(''expose'', CStruct [])]),
        (''#transform'', demo_transform ''Service'')]),
      (''deployment'', CStruct [(''requiredLabels'', CStruct [(''type'', CStr ''stateless'')]),
        (''requiredResources'', CStruct [(''container'', CStruct [])]),
        (''#transform'', demo_transform ''Deployment'')])]"

definition demo_provider :: "cval Provider" where
  "demo_provider = \<lparr>pv_Metadata = \<lparr>pmd_Name = ''kubernetes'', pmd_Description = [], pmd_Version = ''1'',
       pmd_Labels = Map.empty, pmd_Annotations = Map.empty\<rparr>,
     pv_Data = CStruct [(''#transformers'', demo_transformers)]\<rparr>"

definition demo_fields :: "cval \<Rightarrow> cval cue_fields" where
  "demo_fields v = (case tree_fields False v of Inr fs \<Rightarrow> fs | Inl _ \<Rightarrow> [])"

lemma demo_match_facts:
  "cv_Fields tree_cue False demo_components = Inr (demo_fields demo_components)"
  "cv_Lookup tree_cue ''#transformers'' (pv_Data demo_provider) = demo_transformers"
  "cv_Fields tree_cue False demo_transformers = Inr (demo_fields demo_transformers)"
  by (simp_all add: demo_fields_def demo_components_def demo_transformers_def demo_provider_def tree_lib_def
      tree_lookup_def HasPrefix_def)

theorem Match_exact_witness:
  "\<exists>plan. Match tree_cue demo_components (Some demo_provider) = Inr plan
     \<and> mp_Unmatched plan = [''job'']
     \<and> \<lparr>pair_ComponentName = ''web'', pair_TransformerFQN = ''deployment''\<rparr> \<in> set (MatchedPairs plan)
     \<and> Warnings plan = [unhandled_warning ''web'' ''backup'']"
proof -
  have ex: "cv_Exists tree_cue (cv_Lookup tree_cue ''#transformers'' (pv_Data demo_provider))"
    unfolding demo_match_facts by (simp add: demo_transformers_def)
  have tfs: "cv_Fields tree_cue False (cv_Lookup tree_cue ''#transformers'' (pv_Data demo_provider))
      = Inr (demo_fields demo_transformers)"
    by (simp only: demo_match_facts)
  obtain plan where plan: "Match tree_cue demo_components (Some demo_provider) = Inr plan"
    "mp_Unmatched plan = sort (map field_name (filter (\<lambda>c. \<not> list_ex (\<lambda>t. applies tree_cue (snd c) (snd t))
       (demo_fields demo_transformers)) (demo_fields demo_components)))"
    using Match_exact [OF tree.cue_laws_axioms demo_match_facts(1) ex tfs] by blast
  have "mp_Unmatched plan = [''job'']" unfolding plan(2) by code_simp
  moreover have "(case Match tree_cue demo_components (Some demo_provider) of Inl _ \<Rightarrow> False
     | Inr plan \<Rightarrow> \<lparr>pair_ComponentName = ''web'', pair_TransformerFQN = ''deployment''\<rparr> \<in> set (MatchedPairs plan)
         \<and> Warnings plan = [unhandled_warning ''web'' ''backup''])"
    by code_simp
  ultimately show ?thesis using plan(1) by auto
qed

text \<open>
  A plan read through any iteration order of its Go maps gives the same matched pairs,
  the same non-matched pairs and the same warnings, in the same order: the sorting removes
  the randomness of map iteration.
\<close>

theorem plan_order_independent:
  assumes "plan_ok p" and "same_plan p q"
  shows "MatchedPairs p = MatchedPairs q \<and> NonMatchedPairs p = NonMatchedPairs q \<and> Warnings p = Warnings q"
  using assms MatchedPairs_perm NonMatchedPairs_perm Warnings_perm unfolding same_plan_def by blast

definition demo_result :: "bool \<Rightarrow> MatchResult" where
  "demo_result m = \<lparr>mres_Matched = m, mres_MissingLabels = [], mres_MissingResources = (if m then [] else [''container'']),
     mres_MissingTraits = []\<rparr>"

definition demo_plan :: MatchPlan where
  "demo_plan = \<lparr>mp_Matches = [(''web'', [(''deployment'', demo_result True), (''service'', demo_result False)]),
       (''api'', [(''deployment'', demo_result True)])],
     mp_Unmatched = [], mp_UnhandledTraits = [(''web'', [''backup'']), (''api'', [''tls''])]\<rparr>"

definition demo_plan_shuffled :: MatchPlan where
  "demo_plan_shuffled = \<lparr>mp_Matches = [(''api'', [(''deployment'', demo_result True)]),
       (''web'', [(''service'', demo_result False), (''deployment'', demo_result True)])],
     mp_Unmatched = [], mp_UnhandledTraits = [(''api'', [''tls'']), (''web'', [''backup''])]\<rparr>"

theorem plan_order_independent_witness:
  "MatchedPairs demo_plan = MatchedPairs demo_plan_shuffled
   \<and> map pair_key (MatchedPairs demo_plan) = [(''api'', ''deployment''), (''web'', ''deployment'')]"
proof -
  have "plan_ok demo_plan" by code_simp
  moreover have "same_plan demo_plan demo_plan_shuffled"
    by (simp add: same_plan_def plan_entries_def demo_plan_def demo_plan_shuffled_def)
  ultimately have "MatchedPairs demo_plan = MatchedPairs demo_plan_shuffled"
    using plan_order_independent by blast
  moreover have "map pair_key (MatchedPairs demo_plan) = [(''api'', ''deployment''), (''web'', ''deployment'')]"
    by code_simp
  ultimately show ?thesis by simp
qed

end
