(* ===== verification/Opm_Execute.thy ===== *)
theory Opm_Execute
  imports Opm_Match
begin

text \<open>
  \<open>pkg/render\<close>: execution of a match plan (\<open>execute.go\<close>), the render pipeline of a
  prepared release (\<open>module_renderer.go\<close>, \<open>finalize.go\<close>,
  \<open>process_modulerelease.go\<close>) and the error for components nothing matches
  (\<open>errors.go\<close>). The context is the answer of \<open>ctx.Err()\<close> at the n-th poll.
\<close>

subsection \<open>Unmatched components (\<open>errors.go\<close>)\<close>

record UnmatchedComponentsError =
  uce_Components :: "string list"
  uce_Matches :: "(string \<times> (string \<times> MatchResult) list) list"

definition missing_line :: "string \<Rightarrow> string list \<Rightarrow> string" where
  "missing_line title xs = (if xs \<noteq> [] then title @ strings_v xs @ newline else [])"

definition UnmatchedComponentsError_Error :: "UnmatchedComponentsError \<Rightarrow> string" where
  "UnmatchedComponentsError_Error e =
     nat_str (length (uce_Components e)) @ '' component(s) have no matching transformer: ''
     @ strings_v (uce_Components e) @ newline
     @ concat (map (\<lambda>compName.
         case map_of (uce_Matches e) compName of
           None \<Rightarrow> []
         | Some tfResults \<Rightarrow>
             ''  component '' @ Quote compName @ '':'' @ newline
             @ concat (map (\<lambda>(tfFQN, result).
                 if mres_Matched result then []
                 else ''    transformer '' @ Quote tfFQN @ '' did not match:'' @ newline
                      @ missing_line ''      missing labels:    '' (mres_MissingLabels result)
                      @ missing_line ''      missing resources: '' (mres_MissingResources result)
                      @ missing_line ''      missing traits:    '' (mres_MissingTraits result)) tfResults))
       (uce_Components e))"

text \<open>The first non-matching transformer an iteration over the component's results meets.\<close>

definition first_nonmatching :: "(string \<times> MatchResult) list \<Rightarrow> string" where
  "first_nonmatching compMatches =
     (case find (\<lambda>(fqn, result). \<not> mres_Matched result) compMatches of
        None \<Rightarrow> [] | Some (fqn, _) \<Rightarrow> fqn)"

definition UnmatchedComponentsError_Unwrap :: "UnmatchedComponentsError \<Rightarrow> TransformError list" where
  "UnmatchedComponentsError_Unwrap e = map (\<lambda>compName.
     \<lparr>te_ComponentName = compName,
      te_TransformerFQN = first_nonmatching (map_get (uce_Matches e) compName),
      te_Cause = errors_New (''component '' @ Quote compName @ '' has no matching transformer'')\<rparr>)
     (uce_Components e)"

definition UnmatchedComponentsError_err :: "UnmatchedComponentsError \<Rightarrow> goerr" where
  "UnmatchedComponentsError_err e = GoErr (UnmatchedComponentsError_Error e) Anonymous
     (map TransformError_err (UnmatchedComponentsError_Unwrap e))"

subsection \<open>The transformer context\<close>

definition decode_warning :: "string \<Rightarrow> string \<Rightarrow> goerr \<Rightarrow> string" where
  "decode_warning compName what e =
     ''component '' @ Quote compName @ '': metadata.'' @ what @ '' could not be decoded; '' @ what
     @ '' will be empty in transformer context: '' @ err_msg e"

text \<open>Decoding an optional string map of the component: the destination and a warning.\<close>

definition decode_metadata :: "'v cue_eval \<Rightarrow> string \<Rightarrow> string \<Rightarrow> 'v \<Rightarrow> (string \<rightharpoonup> string) \<times> string list" where
  "decode_metadata C compName what compVal =
     (let v = cv_Lookup C (''metadata.'' @ what) compVal in
      if cv_Exists C v
      then (case cv_DecodeMap C v of
              (m, Some e) \<Rightarrow> (m, [decode_warning compName what e])
            | (m, None) \<Rightarrow> (m, []))
      else (Map.empty, []))"

definition injectContext ::
  "'v cue_eval \<Rightarrow> 'v \<Rightarrow> 'v PreparedRelease \<Rightarrow> string \<Rightarrow> 'v \<Rightarrow> string \<Rightarrow> goerr + 'v \<times> string list" where
  "injectContext C unified rel compName compVal runtimeNameOverride =
     (let meta = pr_Metadata rel; modmeta = mo_Metadata (pr_Module rel);
          mrmData = \<lparr>mrc_Name = rmd_Name meta, mrc_Namespace = rmd_Namespace meta, mrc_FQN = mm_FQN modmeta,
            mrc_Version = mm_Version modmeta, mrc_UUID = rmd_UUID meta, mrc_Labels = rmd_Labels meta,
            mrc_Annotations = rmd_Annotations meta\<rparr>;
          unified = cv_FillPath C ''#context.#moduleReleaseMetadata'' (cv_EncodeRelease C mrmData) unified;
          (labels, w1) = decode_metadata C compName ''labels'' compVal;
          (annotations, w2) = decode_metadata C compName ''annotations'' compVal;
          compMeta = \<lparr>ccd_Name = compName, ccd_Labels = labels, ccd_Annotations = annotations\<rparr>;
          unified = cv_FillPath C ''#context.#componentMetadata'' (cv_EncodeComponent C compMeta) unified;
          runtimeName = (if runtimeNameOverride = [] then LabelManagedByValue else runtimeNameOverride);
          unified = cv_FillPath C ''#context.#runtimeName'' (cv_EncodeString C runtimeName) unified
      in case cv_Err C unified of
           Some e \<Rightarrow> Inl e
         | None \<Rightarrow> Inr (unified, w1 @ w2))"

subsection \<open>Collecting the output\<close>

definition isSingleResource :: "'v cue_eval \<Rightarrow> 'v \<Rightarrow> bool" where
  "isSingleResource C v \<longleftrightarrow> cv_Exists C (cv_Lookup C ''apiVersion'' v) \<and> cv_Exists C (cv_Lookup C ''kind'' v)"

definition new_resource :: "string \<Rightarrow> string \<Rightarrow> string \<Rightarrow> 'v \<Rightarrow> 'v Resource" where
  "new_resource releaseName compName tfFQN v =
     \<lparr>r_Value = v, r_Release = releaseName, r_Component = compName, r_Transformer = tfFQN\<rparr>"

definition pair_msg :: "string \<Rightarrow> string \<Rightarrow> string \<Rightarrow> string" where
  "pair_msg compName tfFQN what =
     ''component '' @ Quote compName @ '' / transformer '' @ Quote tfFQN @ '': '' @ what"

definition collectResourceList ::
  "'v cue_eval \<Rightarrow> 'v \<Rightarrow> string \<Rightarrow> string \<Rightarrow> string \<Rightarrow> goerr + 'v Resource list" where
  "collectResourceList C v releaseName compName tfFQN =
     (case cv_List C v of
        Inl e \<Rightarrow> Inl (Errorf_w (pair_msg compName tfFQN ''iterating output list: '') e [])
      | Inr items \<Rightarrow> Inr (map (new_resource releaseName compName tfFQN) items))"

definition collectResourceMap ::
  "'v cue_eval \<Rightarrow> 'v \<Rightarrow> string \<Rightarrow> string \<Rightarrow> string \<Rightarrow> goerr + 'v Resource list" where
  "collectResourceMap C v releaseName compName tfFQN =
     (case cv_Fields C False v of
        Inl e \<Rightarrow> Inl (Errorf_w (pair_msg compName tfFQN ''iterating output map: '') e [])
      | Inr fs \<Rightarrow> Inr (map (new_resource releaseName compName tfFQN \<circ> snd) fs))"

definition with_warnings :: "string list \<Rightarrow> goerr + 'r list \<Rightarrow> goerr + 'r list \<times> string list" where
  "with_warnings ws r = (case r of Inl e \<Rightarrow> Inl e | Inr rs \<Rightarrow> Inr (rs, ws))"

definition decode_output ::
  "'v cue_eval \<Rightarrow> 'v \<Rightarrow> string list \<Rightarrow> string \<Rightarrow> string \<Rightarrow> string \<Rightarrow> goerr + 'v Resource list \<times> string list" where
  "decode_output C outputVal warnings releaseName compName tfFQN =
     (case cv_Kind C outputVal of
        ListKind \<Rightarrow> with_warnings warnings (collectResourceList C outputVal releaseName compName tfFQN)
      | StructKind \<Rightarrow>
          (if isSingleResource C outputVal
           then Inr ([new_resource releaseName compName tfFQN outputVal], warnings)
           else with_warnings warnings (collectResourceMap C outputVal releaseName compName tfFQN))
      | OtherKind k \<Rightarrow>
          Inl (errors_New (pair_msg compName tfFQN (''unexpected output kind '' @ k))))"

subsection \<open>Executing pairs\<close>

definition executePair ::
  "'v cue_eval \<Rightarrow> 'v \<Rightarrow> 'v \<Rightarrow> 'v \<Rightarrow> 'v PreparedRelease \<Rightarrow> string \<Rightarrow> MatchedPair
     \<Rightarrow> goerr + 'v Resource list \<times> string list" where
  "executePair C providerVal schemaComponents dataComponents rel runtimeName pair =
     (let compName = pair_ComponentName pair; tfFQN = pair_TransformerFQN pair;
          transformVal = cv_Lookup C ''#transform''
            (cv_LookupStr C tfFQN (cv_Lookup C ''#transformers'' providerVal))
      in if \<not> cv_Exists C transformVal
         then Inl (errors_New (pair_msg compName tfFQN ''#transform not found in provider''))
         else case cv_Err C transformVal of
           Some e \<Rightarrow> Inl (Errorf_w (pair_msg compName tfFQN ''#transform error: '') e [])
         | None \<Rightarrow>
             (let dataComp = cv_LookupStr C compName dataComponents in
              if \<not> cv_Exists C dataComp
              then Inl (errors_New (''component '' @ Quote compName @ '' not found in data components value''))
              else
                (let schemaComp = cv_LookupStr C compName schemaComponents;
                     unified = cv_FillPath C ''#component'' dataComp transformVal
                 in case cv_Err C unified of
                      Some e \<Rightarrow> Inl (Errorf_w (pair_msg compName tfFQN ''filling #component: '') e [])
                    | None \<Rightarrow>
                        (case injectContext C unified rel compName schemaComp runtimeName of
                           Inl e \<Rightarrow> Inl (Errorf_w (pair_msg compName tfFQN ''injecting #context: '') e [])
                         | Inr (unified, warnings) \<Rightarrow>
                             (let outputVal = cv_Lookup C ''output'' unified in
                              if \<not> cv_Exists C outputVal then Inr ([], warnings)
                              else case cv_Err C outputVal of
                                Some e \<Rightarrow> Inl (Errorf_w (pair_msg compName tfFQN ''evaluating output: '') e [])
                              | None \<Rightarrow> decode_output C outputVal warnings (rmd_Name (pr_Metadata rel))
                                          compName tfFQN)))))"

type_synonym poll = "nat \<Rightarrow> goerr option"

fun execute_loop ::
  "(MatchedPair \<Rightarrow> goerr + 'v Resource list \<times> string list) \<Rightarrow> poll \<Rightarrow> MatchedPair list \<Rightarrow> nat
     \<Rightarrow> 'v Resource list \<Rightarrow> string list \<Rightarrow> goerr list \<Rightarrow> 'v Resource list \<times> string list \<times> goerr list" where
  "execute_loop run ctx [] n resources warnings errs = (resources, warnings, errs)"
| "execute_loop run ctx (pair # pairs) n resources warnings errs =
     (case ctx n of
        Some e \<Rightarrow> (resources, warnings, errs @ [e])
      | None \<Rightarrow>
          (case run pair of
             Inl e \<Rightarrow> execute_loop run ctx pairs (n + 1) resources warnings (errs @ [e])
           | Inr (res, pairWarnings) \<Rightarrow>
               execute_loop run ctx pairs (n + 1) (resources @ res) (warnings @ pairWarnings) errs))"

definition executeTransforms ::
  "'v cue_eval \<Rightarrow> poll \<Rightarrow> MatchPlan \<Rightarrow> 'v \<Rightarrow> 'v \<Rightarrow> 'v \<Rightarrow> 'v PreparedRelease \<Rightarrow> string
     \<Rightarrow> 'v Resource list \<times> string list \<times> goerr list" where
  "executeTransforms C ctx plan providerVal schemaComponents dataComponents rel runtimeName =
     execute_loop (executePair C providerVal schemaComponents dataComponents rel runtimeName) ctx
       (MatchedPairs plan) 0 [] [] []"

subsection \<open>The renderer (\<open>module_renderer.go\<close>)\<close>

record ComponentSummary =
  cs_Name :: string
  cs_Labels :: "string \<rightharpoonup> string"
  cs_ResourceFQNs :: "string list"
  cs_TraitFQNs :: "string list"

record 'v RenderModule =
  rmo_provider :: "'v Provider"
  rmo_runtimeName :: string

record 'v ModuleResult =
  mr_Resources :: "'v Resource list"
  mr_MatchPlan :: MatchPlan
  mr_Components :: "ComponentSummary list"
  mr_Warnings :: "string list"

definition NewModule :: "'v Provider \<Rightarrow> 'v RenderModule" where
  "NewModule p = \<lparr>rmo_provider = p, rmo_runtimeName = []\<rparr>"

definition summary_fqns :: "'v cue_eval \<Rightarrow> string \<Rightarrow> 'v \<Rightarrow> string list" where
  "summary_fqns C path compVal =
     (let v = cv_Lookup C path compVal in
      if cv_Exists C v
      then (case cv_Fields C False v of Inl _ \<Rightarrow> [] | Inr fs \<Rightarrow> sort_Strings (map field_name fs))
      else [])"

definition component_summary :: "'v cue_eval \<Rightarrow> cue_selector \<times> 'v \<Rightarrow> ComponentSummary" where
  "component_summary C component =
     (let compVal = snd component; labelsVal = cv_Lookup C ''metadata.labels'' compVal
      in \<lparr>cs_Name = field_name component,
          cs_Labels = (if cv_Exists C labelsVal
             then (case cv_DecodeMap C labelsVal of (m, None) \<Rightarrow> m | (_, Some _) \<Rightarrow> Map.empty)
             else Map.empty),
          cs_ResourceFQNs = summary_fqns C ''#resources'' compVal,
          cs_TraitFQNs = summary_fqns C ''#traits'' compVal\<rparr>)"

definition extractComponentSummaries :: "'v cue_eval \<Rightarrow> 'v \<Rightarrow> ComponentSummary list" where
  "extractComponentSummaries C schemaComponents =
     (case cv_Fields C False schemaComponents of
        Inl _ \<Rightarrow> []
      | Inr comps \<Rightarrow> SliceStable (\<lambda>a b. cs_Name a < cs_Name b) (map (component_summary C) comps))"

definition Execute ::
  "'v cue_eval \<Rightarrow> poll \<Rightarrow> 'v RenderModule \<Rightarrow> 'v PreparedRelease \<Rightarrow> 'v \<Rightarrow> 'v \<Rightarrow> MatchPlan option
     \<Rightarrow> goerr + 'v ModuleResult" where
  "Execute C ctx r rel schemaComponents dataComponents plan =
     (case plan of
        None \<Rightarrow> Inl (errors_New ''match plan is required'')
      | Some pl \<Rightarrow>
          if mp_Unmatched pl \<noteq> []
          then Inl (UnmatchedComponentsError_err
                 \<lparr>uce_Components = mp_Unmatched pl, uce_Matches = mp_Matches pl\<rparr>)
          else
            (case executeTransforms C ctx pl (pv_Data (rmo_provider r)) schemaComponents dataComponents rel
                    (rmo_runtimeName r) of
               (resources, warnings, errs) \<Rightarrow>
                 (case errors_Join errs of
                    Some e \<Rightarrow> Inl (Errorf_w ''executing transforms: '' e [])
                  | None \<Rightarrow> Inr \<lparr>mr_Resources = resources, mr_MatchPlan = pl,
                       mr_Components = extractComponentSummaries C schemaComponents,
                       mr_Warnings = Warnings pl @ warnings\<rparr>)))"

subsection \<open>The pipeline (\<open>finalize.go\<close>, \<open>process_modulerelease.go\<close>)\<close>

definition FinalizeValue :: "'v cue_eval \<Rightarrow> 'v \<Rightarrow> goerr + 'v" where
  "FinalizeValue C v =
     (let syntaxNode = cv_Syntax C v in
      if \<not> an_IsExpr syntaxNode
      then Inl (errors_New (''finalization produced '' @ an_Type syntaxNode
             @ '' instead of ast.Expr; value likely contains unresolved imports or definition fields''))
      else let dataVal = cv_BuildExpr C syntaxNode in
           case cv_Err C dataVal of
             Some e \<Rightarrow> Inl (Errorf_w ''building finalized value: '' e [])
           | None \<Rightarrow> Inr dataVal)"

definition MatchComponents :: "'v cue_eval \<Rightarrow> 'v PreparedRelease \<Rightarrow> 'v" where
  "MatchComponents C r = cv_Lookup C ''components'' (pr_Spec r)"

definition ProcessModuleRelease ::
  "'v cue_eval \<Rightarrow> poll \<Rightarrow> 'v PreparedRelease \<Rightarrow> 'v Provider \<Rightarrow> string \<Rightarrow> goerr + 'v ModuleResult" where
  "ProcessModuleRelease C ctx rel p runtimeName =
     (let schemaComponents = MatchComponents C rel in
      if \<not> cv_Exists C schemaComponents
      then Inl (errors_New (''release '' @ Quote (rmd_Name (pr_Metadata rel)) @ '': no components field in release spec''))
      else case FinalizeValue C schemaComponents of
        Inl e \<Rightarrow> Inl (Errorf_w ''finalizing components: '' e [])
      | Inr dataComponents \<Rightarrow>
          (case Match C schemaComponents (Some p) of
             Inl e \<Rightarrow> Inl e
           | Inr plan \<Rightarrow>
               Execute C ctx ((NewModule p)\<lparr>rmo_runtimeName := runtimeName\<rparr>) rel schemaComponents
                 dataComponents (Some plan)))"

subsection \<open>The execution loop\<close>

definition all_succeed ::
  "(MatchedPair \<Rightarrow> goerr + 'v Resource list \<times> string list) \<Rightarrow> poll \<Rightarrow> MatchedPair list \<Rightarrow> nat \<Rightarrow> bool" where
  "all_succeed run ctx pairs n \<longleftrightarrow>
     (\<forall>i < length pairs. ctx (n + i) = None \<and> (\<exists>x. run (pairs ! i) = Inr x))"

lemma all_succeed_Cons:
  "all_succeed run ctx (p # ps) n \<longleftrightarrow>
     ctx n = None \<and> (\<exists>x. run p = Inr x) \<and> all_succeed run ctx ps (n + 1)"
  by (simp add: all_succeed_def All_less_Suc2)

lemma all_succeed_mem: "all_succeed run ctx pairs n \<Longrightarrow> p \<in> set pairs \<Longrightarrow> \<exists>x. run p = Inr x"
  by (auto simp: all_succeed_def in_set_conv_nth)

lemma execute_loop_all:
  assumes "all_succeed run ctx pairs n"
  shows "execute_loop run ctx pairs n rs ws errs =
    (rs @ concat (map (fst \<circ> projr \<circ> run) pairs), ws @ concat (map (snd \<circ> projr \<circ> run) pairs), errs)"
  using assms
proof (induction pairs arbitrary: n rs ws)
  case (Cons p ps)
  then obtain res w where "run p = Inr (res, w)" by (auto simp: all_succeed_Cons)
  with Cons show ?case by (simp add: all_succeed_Cons)
qed simp

lemma execute_loop_errs:
  "snd (snd (execute_loop run ctx pairs n rs ws errs)) = [] \<longleftrightarrow> errs = [] \<and> all_succeed run ctx pairs n"
proof (induction pairs arbitrary: n rs ws errs)
  case (Cons p ps)
  show ?case
  proof (cases "run p")
    case (Inr x)
    then show ?thesis by (cases x) (auto simp: all_succeed_Cons Cons.IH split: option.splits)
  qed (auto simp: all_succeed_Cons Cons.IH split: option.splits)
qed (simp add: all_succeed_def)

lemma execute_loop_cases:
  obtains "all_succeed run ctx pairs 0" "execute_loop run ctx pairs 0 [] [] [] =
      (concat (map (fst \<circ> projr \<circ> run) pairs), concat (map (snd \<circ> projr \<circ> run) pairs), [])"
  | rs ws e errs where "\<not> all_succeed run ctx pairs 0" "execute_loop run ctx pairs 0 [] [] [] = (rs, ws, e # errs)"
proof (cases "all_succeed run ctx pairs 0")
  case True
  then show ?thesis using execute_loop_all [OF True, of "[]" "[]" "[]"] that(1) by simp
next
  case False
  moreover obtain rs ws es where "execute_loop run ctx pairs 0 [] [] [] = (rs, ws, es)" by (metis surj_pair)
  ultimately show ?thesis
    using execute_loop_errs [of run ctx pairs 0 "[]" "[]" "[]"] that(2) by (cases es) auto
qed

lemma Execute_cases:
  obtains "plan = None" "\<exists>e. Execute C ctx r rel sc dc plan = Inl e"
  | pl where "plan = Some pl" "mp_Unmatched pl \<noteq> []" "Execute C ctx r rel sc dc plan =
        Inl (UnmatchedComponentsError_err \<lparr>uce_Components = mp_Unmatched pl, uce_Matches = mp_Matches pl\<rparr>)"
  | pl where "plan = Some pl" "mp_Unmatched pl = []"
      "\<not> all_succeed (executePair C (pv_Data (rmo_provider r)) sc dc rel (rmo_runtimeName r)) ctx (MatchedPairs pl) 0"
      "\<exists>e. Execute C ctx r rel sc dc plan = Inl e"
  | pl where "plan = Some pl" "mp_Unmatched pl = []"
      "all_succeed (executePair C (pv_Data (rmo_provider r)) sc dc rel (rmo_runtimeName r)) ctx (MatchedPairs pl) 0"
      "Execute C ctx r rel sc dc plan = Inr \<lparr>
         mr_Resources = concat (map (fst \<circ> projr \<circ> executePair C (pv_Data (rmo_provider r)) sc dc rel (rmo_runtimeName r)) (MatchedPairs pl)),
         mr_MatchPlan = pl, mr_Components = extractComponentSummaries C sc,
         mr_Warnings = Warnings pl @ concat (map (snd \<circ> projr \<circ> executePair C (pv_Data (rmo_provider r)) sc dc rel (rmo_runtimeName r)) (MatchedPairs pl))\<rparr>"
proof (cases plan)
  case (Some pl)
  show ?thesis
  proof (cases "mp_Unmatched pl = []")
    case True
    show ?thesis
      by (rule execute_loop_cases [of "executePair C (pv_Data (rmo_provider r)) sc dc rel (rmo_runtimeName r)" ctx "MatchedPairs pl"])
        (use Some True that(3,4) in \<open>simp_all add: Execute_def executeTransforms_def errors_Join_def\<close>)
  qed (use Some that(2) in \<open>simp add: Execute_def\<close>)
qed (use that(1) in \<open>simp add: Execute_def\<close>)

subsection \<open>Provenance\<close>

definition from_pair :: "string \<Rightarrow> MatchedPair \<Rightarrow> 'v Resource \<Rightarrow> bool" where
  "from_pair name p r \<longleftrightarrow> r_Release r = name \<and> r_Component r = pair_ComponentName p
     \<and> r_Transformer r = pair_TransformerFQN p"

lemma decode_output_from_pair:
  assumes "decode_output C v ws name (pair_ComponentName p) (pair_TransformerFQN p) = Inr (rs, ws')"
  shows "list_all (from_pair name p) rs"
  using assms
  by (auto simp: decode_output_def with_warnings_def collectResourceList_def collectResourceMap_def
      new_resource_def from_pair_def list_all_iff split: cue_kind.splits if_splits sum.splits)

lemma executePair_from_pair:
  assumes "executePair C pv sc dc rel rt p = Inr (rs, ws)"
  shows "list_all (from_pair (rmd_Name (pr_Metadata rel)) p) rs"
  using assms
  by (auto simp: executePair_def Let_def split: if_splits option.splits sum.splits prod.splits
      dest: decode_output_from_pair)

lemma all_succeed_resources:
  assumes "all_succeed (executePair C pv sc dc rel rt) ctx pairs n"
    and "r \<in> set (concat (map (fst \<circ> projr \<circ> executePair C pv sc dc rel rt) pairs))"
  obtains p where "p \<in> set pairs" "from_pair (rmd_Name (pr_Metadata rel)) p r"
proof -
  from assms(2) obtain p where p: "p \<in> set pairs" "r \<in> set (fst (projr (executePair C pv sc dc rel rt p)))" by auto
  with all_succeed_mem [OF assms(1)] obtain rs ws where "executePair C pv sc dc rel rt p = Inr (rs, ws)"
    by (metis surj_pair)
  with p executePair_from_pair [OF this] that show ?thesis by (auto simp: list_all_iff)
qed

lemma ProcessModuleRelease_ok:
  assumes "ProcessModuleRelease C ctx rel p rt = Inr res"
  obtains dc plan where "cv_Exists C (MatchComponents C rel)" "FinalizeValue C (MatchComponents C rel) = Inr dc"
    "Match C (MatchComponents C rel) (Some p) = Inr plan" "mp_Unmatched plan = []"
    "all_succeed (executePair C (pv_Data p) (MatchComponents C rel) dc rel rt) ctx (MatchedPairs plan) 0"
    "mr_Resources res = concat (map (fst \<circ> projr \<circ> executePair C (pv_Data p) (MatchComponents C rel) dc rel rt) (MatchedPairs plan))"
proof -
  from assms obtain dc plan where steps: "cv_Exists C (MatchComponents C rel)"
      "FinalizeValue C (MatchComponents C rel) = Inr dc" "Match C (MatchComponents C rel) (Some p) = Inr plan"
    and ex: "Execute C ctx ((NewModule p)\<lparr>rmo_runtimeName := rt\<rparr>) rel (MatchComponents C rel) dc (Some plan) = Inr res"
    by (auto simp: ProcessModuleRelease_def Let_def split: if_splits sum.splits)
  have "mp_Unmatched plan = [] \<and> all_succeed (executePair C (pv_Data p) (MatchComponents C rel) dc rel rt) ctx (MatchedPairs plan) 0
      \<and> mr_Resources res = concat (map (fst \<circ> projr \<circ> executePair C (pv_Data p) (MatchComponents C rel) dc rel rt) (MatchedPairs plan))"
    by (rule Execute_cases [of "Some plan" C ctx "(NewModule p)\<lparr>rmo_runtimeName := rt\<rparr>" rel "MatchComponents C rel" dc])
      (use ex in \<open>auto simp: NewModule_def\<close>)
  with steps that show ?thesis by blast
qed

subsection \<open>Properties\<close>

text \<open>
  C18: rendering is all or nothing. \<open>Execute\<close> returns a result exactly if no component is
  unmatched, the context is never cancelled and every matched pair's transform succeeds; the
  result then holds, in the order of the matched pairs, exactly the resources of all
  transforms, and the warnings of the plan followed by those of the transforms. A single
  failure leaves no partial result. Every resource carries the release's name and the component
  and transformer of a matched pair.
\<close>

theorem Execute_all_or_nothing:
  defines "run \<equiv> \<lambda>C r rel sc dc. executePair C (pv_Data (rmo_provider r)) sc dc rel (rmo_runtimeName r)"
  shows "(Execute C ctx r rel sc dc (Some plan) = Inr res \<longleftrightarrow>
      mp_Unmatched plan = [] \<and> all_succeed (run C r rel sc dc) ctx (MatchedPairs plan) 0
      \<and> res = \<lparr>mr_Resources = concat (map (fst \<circ> projr \<circ> run C r rel sc dc) (MatchedPairs plan)),
               mr_MatchPlan = plan, mr_Components = extractComponentSummaries C sc,
               mr_Warnings = Warnings plan @ concat (map (snd \<circ> projr \<circ> run C r rel sc dc) (MatchedPairs plan))\<rparr>)
    \<and> (Execute C ctx r rel sc dc (Some plan) = Inr res \<longrightarrow>
        list_all (\<lambda>x. list_ex (\<lambda>p. from_pair (rmd_Name (pr_Metadata rel)) p x) (MatchedPairs plan)) (mr_Resources res))"
proof (intro conjI impI)
  show eq: "Execute C ctx r rel sc dc (Some plan) = Inr res \<longleftrightarrow>
      mp_Unmatched plan = [] \<and> all_succeed (run C r rel sc dc) ctx (MatchedPairs plan) 0
      \<and> res = \<lparr>mr_Resources = concat (map (fst \<circ> projr \<circ> run C r rel sc dc) (MatchedPairs plan)),
               mr_MatchPlan = plan, mr_Components = extractComponentSummaries C sc,
               mr_Warnings = Warnings plan @ concat (map (snd \<circ> projr \<circ> run C r rel sc dc) (MatchedPairs plan))\<rparr>"
    unfolding run_def
    by (rule Execute_cases [of "Some plan" C ctx r rel sc dc]) auto
  assume "Execute C ctx r rel sc dc (Some plan) = Inr res"
  with eq show "list_all (\<lambda>x. list_ex (\<lambda>p. from_pair (rmd_Name (pr_Metadata rel)) p x) (MatchedPairs plan)) (mr_Resources res)"
    unfolding run_def list_all_iff list_ex_iff by (auto elim!: all_succeed_resources simp del: set_concat)
qed

text \<open>The release of the witnesses, with the component \<open>web\<close> only.\<close>

definition demo_release :: "cval PreparedRelease" where
  "demo_release = \<lparr>
     pr_Metadata = \<lparr>rmd_Name = ''shop'', rmd_Namespace = ''prod'', rmd_UUID = [], rmd_Labels = Map.empty,
       rmd_Annotations = Map.empty\<rparr>,
     pr_Module = \<lparr>mo_Metadata = \<lparr>mm_Name = ''shop'', mm_Description = [], mm_ModulePath = [], mm_DefaultNamespace = [],
         mm_FQN = [], mm_Version = [], mm_UUID = [], mm_Labels = Map.empty, mm_Annotations = Map.empty\<rparr>,
       mo_Config = CNone, mo_Raw = CNone, mo_ModulePath = []\<rparr>,
     pr_Spec = CStruct [(''components'', CStruct [(''web'', tree_field ''web'' demo_components)])],
     pr_Values = CNone\<rparr>"

definition demo_schema :: cval where
  "demo_schema = CStruct [(''web'', tree_field ''web'' demo_components)]"

definition ok_plan :: MatchPlan where
  "ok_plan = (case Match tree_cue demo_schema (Some demo_provider) of Inr pl \<Rightarrow> pl | Inl _ \<Rightarrow> empty_plan)"

definition demo_rendered :: "(string \<times> string) list" where
  "demo_rendered =
     (case Execute tree_cue (\<lambda>n. None) (NewModule demo_provider) demo_release demo_schema
         (CStruct [(''web'', CStruct [])]) (Some ok_plan) of
        Inl _ \<Rightarrow> [] | Inr res \<Rightarrow> map (\<lambda>x. (r_Component x, r_Transformer x)) (mr_Resources res))"

theorem Execute_all_or_nothing_witness:
  "demo_rendered = [(''web'', ''deployment''), (''web'', ''service'')]
   \<and> (\<exists>res. Execute tree_cue (\<lambda>n. None) (NewModule demo_provider) demo_release demo_schema
        (CStruct [(''web'', CStruct [])]) (Some ok_plan) = Inr res
      \<and> list_all (\<lambda>x. list_ex (\<lambda>p. from_pair ''shop'' p x) (MatchedPairs ok_plan)) (mr_Resources res))"
proof
  show run: "demo_rendered = [(''web'', ''deployment''), (''web'', ''service'')]" by code_simp
  then obtain res where "Execute tree_cue (\<lambda>n. None) (NewModule demo_provider) demo_release demo_schema
      (CStruct [(''web'', CStruct [])]) (Some ok_plan) = Inr res"
    by (auto simp: demo_rendered_def split: sum.splits)
  moreover have "rmd_Name (pr_Metadata demo_release) = ''shop''" by (simp add: demo_release_def)
  ultimately show "\<exists>res. Execute tree_cue (\<lambda>n. None) (NewModule demo_provider) demo_release demo_schema
        (CStruct [(''web'', CStruct [])]) (Some ok_plan) = Inr res
      \<and> list_all (\<lambda>x. list_ex (\<lambda>p. from_pair ''shop'' p x) (MatchedPairs ok_plan)) (mr_Resources res)"
    using Execute_all_or_nothing [of tree_cue "\<lambda>n. None" "NewModule demo_provider" demo_release demo_schema
        "CStruct [(''web'', CStruct [])]" ok_plan res] by auto
qed

text \<open>
  C19: what a release renders to. If the pipeline succeeds for a provider with transformers, then
  every component of the release has a transformer that applies to it, and every rendered
  resource was produced for a component of the release by a transformer of the provider that
  applies to that component, and carries the names of both and of the release.
\<close>

theorem rendered_from_matching:
  assumes laws: "cue_laws C"
    and res: "ProcessModuleRelease C ctx rel p rt = Inr res"
    and comps: "cv_Fields C False (MatchComponents C rel) = Inr comps"
    and ex: "cv_Exists C (cv_Lookup C ''#transformers'' (pv_Data p))"
    and tfs: "cv_Fields C False (cv_Lookup C ''#transformers'' (pv_Data p)) = Inr tfs"
  shows "(\<forall>c \<in> set comps. \<exists>t \<in> set tfs. applies C (snd c) (snd t))
    \<and> (\<forall>r \<in> set (mr_Resources res). \<exists>c \<in> set comps. \<exists>t \<in> set tfs. applies C (snd c) (snd t)
        \<and> r_Component r = field_name c \<and> r_Transformer r = field_name t \<and> r_Release r = rmd_Name (pr_Metadata rel))"
proof -
  from res obtain dc plan where m: "Match C (MatchComponents C rel) (Some p) = Inr plan" "mp_Unmatched plan = []"
    and all: "all_succeed (executePair C (pv_Data p) (MatchComponents C rel) dc rel rt) ctx (MatchedPairs plan) 0"
    and rs: "mr_Resources res = concat (map (fst \<circ> projr \<circ> executePair C (pv_Data p) (MatchComponents C rel) dc rel rt) (MatchedPairs plan))"
    by (rule ProcessModuleRelease_ok)
  have "sort (map field_name (filter (\<lambda>c. \<not> list_ex (\<lambda>t. applies C (snd c) (snd t)) tfs) comps)) = []"
    using m cue_laws.Match_closed_form [OF laws comps ex tfs] by auto
  then have "map field_name (filter (\<lambda>c. \<not> list_ex (\<lambda>t. applies C (snd c) (snd t)) tfs) comps) = []"
    using sort_Strings_Nil unfolding sort_Strings_eq by blast
  then have "\<forall>c \<in> set comps. \<exists>t \<in> set tfs. applies C (snd c) (snd t)"
    unfolding map_is_Nil_conv filter_empty_conv list_ex_iff by blast
  moreover have "\<exists>c \<in> set comps. \<exists>t \<in> set tfs. applies C (snd c) (snd t)
        \<and> r_Component r = field_name c \<and> r_Transformer r = field_name t \<and> r_Release r = rmd_Name (pr_Metadata rel)"
    if "r \<in> set (mr_Resources res)" for r
  proof -
    from that obtain q where q: "q \<in> set (MatchedPairs plan)" "from_pair (rmd_Name (pr_Metadata rel)) q r"
      unfolding rs by (rule all_succeed_resources [OF all])
    from q(1) obtain c t where "c \<in> set comps" "t \<in> set tfs" "applies C (snd c) (snd t)"
      "q = \<lparr>pair_ComponentName = field_name c, pair_TransformerFQN = field_name t\<rparr>"
      unfolding cue_laws.MatchedPairs_of_Match(1) [OF laws comps ex tfs m(1)] by blast
    with q(2) show ?thesis by (auto simp: from_pair_def)
  qed
  ultimately show ?thesis by blast
qed

definition demo_result_names :: "(string \<times> string) list" where
  "demo_result_names =
     (case ProcessModuleRelease tree_cue (\<lambda>n. None) demo_release demo_provider ''opm-controller'' of
        Inl _ \<Rightarrow> [] | Inr res \<Rightarrow> map (\<lambda>x. (r_Component x, r_Transformer x)) (mr_Resources res))"

theorem rendered_from_matching_witness:
  "\<exists>res. ProcessModuleRelease tree_cue (\<lambda>n. None) demo_release demo_provider ''opm-controller'' = Inr res
     \<and> length (mr_Resources res) = 2
     \<and> (\<forall>r \<in> set (mr_Resources res). \<exists>c \<in> set (demo_fields demo_schema). \<exists>t \<in> set (demo_fields demo_transformers).
          applies tree_cue (snd c) (snd t))"
proof -
  have names: "demo_result_names = [(''web'', ''deployment''), (''web'', ''service'')]" by code_simp
  then obtain res where res: "ProcessModuleRelease tree_cue (\<lambda>n. None) demo_release demo_provider ''opm-controller'' = Inr res"
    by (auto simp: demo_result_names_def split: sum.splits)
  have "length demo_result_names = 2" unfolding names by simp
  with res have "length (mr_Resources res) = 2" by (simp add: demo_result_names_def)
  have comps: "cv_Fields tree_cue False (MatchComponents tree_cue demo_release) = Inr (demo_fields demo_schema)"
    by (simp add: MatchComponents_def demo_release_def demo_schema_def demo_fields_def tree_lib_def tree_lookup_def
        HasPrefix_def)
  have ex: "cv_Exists tree_cue (cv_Lookup tree_cue ''#transformers'' (pv_Data demo_provider))"
    unfolding demo_match_facts by (simp add: demo_transformers_def)
  have tfs: "cv_Fields tree_cue False (cv_Lookup tree_cue ''#transformers'' (pv_Data demo_provider))
      = Inr (demo_fields demo_transformers)"
    by (simp only: demo_match_facts)
  from rendered_from_matching [OF tree.cue_laws_axioms res comps ex tfs] res \<open>length (mr_Resources res) = 2\<close>
  show ?thesis by blast
qed

end
