(* ===== verification/Opm_Validate.thy ===== *)
theory Opm_Validate
  imports Opm_Cue
begin

text \<open>
  \<open>pkg/validate/config.go\<close> and \<open>pkg/module/parse.go\<close>: user values are checked against
  the module's \<open>#config\<close> schema, merged, filled into the release and the result is
  required to be concrete. Walking a value for disallowed fields recurses through optional
  fields too and is a \<open>partial_function\<close>: it returns exactly when the descent is well-founded
  (\<open>walk_ends\<close>), and a recursive definition makes it run forever.
\<close>

subsection \<open>Disallowed fields\<close>

definition fieldNotAllowed :: string where
  "fieldNotAllowed = ''field not allowed''"

definition normalizeFieldPath :: "string list \<Rightarrow> string list" where
  "normalizeFieldPath path =
     (if path = [] then []
      else let joined = trim_config (strings_Join path ''.'')
           in if joined = [] then [] else split_dot joined [])"

definition fieldNotAllowedError :: "'v cue_eval \<Rightarrow> token_pos \<Rightarrow> string list \<Rightarrow> cue_error" where
  "fieldNotAllowedError C pos path =
     (let p = ''values'' # normalizeFieldPath path in
      \<lparr>ce_Position = pos, ce_Positions = (if tp_IsValid pos then [pos] else []), ce_Path = p,
       ce_Format = fieldNotAllowed, ce_HasArgs = False, ce_Formatted = fieldNotAllowed,
       ce_Details = cv_Details C pos p fieldNotAllowed\<rparr>)"

partial_function (option) walk_fields ::
  "'v cue_eval \<Rightarrow> 'v \<Rightarrow> 'v cue_fields \<Rightarrow> string list \<Rightarrow> cue_error list \<Rightarrow> cue_error list option" where
  "walk_fields C schema fs pathPrefix acc =
     (case fs of
        [] \<Rightarrow> Some acc
      | f # rest \<Rightarrow>
          (let sel = fst f; child = snd f; fieldPath = pathPrefix @ [sel_String sel] in
           if \<not> cv_Allows C schema sel
           then walk_fields C schema rest pathPrefix
                  (cv_Append C acc (fieldNotAllowedError C (cv_Pos C child) fieldPath))
           else if cv_IncompleteKind C child = StructKind
           then (let childSchema = cv_LookupSel C sel schema in
                 if \<not> cv_Exists C childSchema then walk_fields C schema rest pathPrefix acc
                 else case cv_Fields C True child of
                   Inl _ \<Rightarrow> walk_fields C schema rest pathPrefix acc
                 | Inr cfs \<Rightarrow>
                     Option.bind (walk_fields C childSchema cfs fieldPath acc)
                       (\<lambda>acc1. walk_fields C schema rest pathPrefix acc1))
           else walk_fields C schema rest pathPrefix acc))"

lemma walk_fields_code [code]:
  "walk_fields C schema [] pathPrefix acc = Some acc"
  "walk_fields C schema (f # rest) pathPrefix acc =
     (let sel = fst f; child = snd f; fieldPath = pathPrefix @ [sel_String sel] in
      if \<not> cv_Allows C schema sel
      then walk_fields C schema rest pathPrefix
             (cv_Append C acc (fieldNotAllowedError C (cv_Pos C child) fieldPath))
      else if cv_IncompleteKind C child = StructKind
      then (let childSchema = cv_LookupSel C sel schema in
            if \<not> cv_Exists C childSchema then walk_fields C schema rest pathPrefix acc
            else case cv_Fields C True child of
              Inl _ \<Rightarrow> walk_fields C schema rest pathPrefix acc
            | Inr cfs \<Rightarrow>
                Option.bind (walk_fields C childSchema cfs fieldPath acc)
                  (\<lambda>acc1. walk_fields C schema rest pathPrefix acc1))
      else walk_fields C schema rest pathPrefix acc)"
  by (subst walk_fields.simps, simp)+

definition walkDisallowed ::
  "'v cue_eval \<Rightarrow> 'v \<Rightarrow> 'v \<Rightarrow> string list \<Rightarrow> cue_error list \<Rightarrow> cue_error list option" where
  "walkDisallowed C schema val pathPrefix acc =
     (case cv_Fields C True val of
        Inl _ \<Rightarrow> Some acc
      | Inr fs \<Rightarrow> walk_fields C schema fs pathPrefix acc)"

subsection \<open>Validating values\<close>

fun append_others :: "'v cue_eval \<Rightarrow> cue_error list \<Rightarrow> cue_error list \<Rightarrow> bool \<Rightarrow> cue_error list \<times> bool" where
  "append_others C [] acc changed = (acc, changed)"
| "append_others C (ce # ces) acc changed =
     (if ce_Format ce = fieldNotAllowed then append_others C ces acc changed
      else append_others C ces (cv_Append C acc ce) True)"

definition appendSchemaErrors ::
  "'v cue_eval \<Rightarrow> 'v \<Rightarrow> 'v \<Rightarrow> cue_error list \<Rightarrow> bool \<Rightarrow> (cue_error list \<times> bool) option" where
  "appendSchemaErrors C schema val acc requireConcrete =
     Option.bind (walkDisallowed C schema val [] acc) (\<lambda>acc1.
       let (acc2, changed) =
         (case cv_Validate C requireConcrete (cv_Unify C schema val) of
            None \<Rightarrow> (acc1, False)
          | Some err \<Rightarrow> append_others C (cv_Errors C err) acc1 False)
       in Some (acc2, changed \<or> length acc2 > length acc))"

fun schema_loop ::
  "'v cue_eval \<Rightarrow> 'v \<Rightarrow> 'v list \<Rightarrow> cue_error list \<Rightarrow> bool \<Rightarrow> (cue_error list \<times> bool) option" where
  "schema_loop C schema [] combined hasSchemaErrors = Some (combined, hasSchemaErrors)"
| "schema_loop C schema (val # vals) combined hasSchemaErrors =
     Option.bind (appendSchemaErrors C schema val combined False) (\<lambda>(combined1, changed).
       schema_loop C schema vals combined1 (hasSchemaErrors \<or> changed))"

fun merge_loop ::
  "'v cue_eval \<Rightarrow> 'v list \<Rightarrow> 'v \<Rightarrow> cue_error list \<Rightarrow> bool \<Rightarrow> 'v \<times> cue_error list \<times> bool" where
  "merge_loop C [] merged combined conflicts = (merged, combined, conflicts)"
| "merge_loop C (v # vs) merged combined conflicts =
     (let merged = cv_Unify C merged v in
      case cv_Err C merged of
        None \<Rightarrow> merge_loop C vs merged combined conflicts
      | Some err \<Rightarrow> merge_loop C vs merged (foldl (cv_Append C) combined (cv_Errors C err)) True)"

definition Config ::
  "'v cue_eval \<Rightarrow> 'v \<Rightarrow> 'v list \<Rightarrow> string \<Rightarrow> string \<Rightarrow> (ConfigError + 'v) option" where
  "Config C schema vals context name =
     (if \<not> cv_Exists C schema \<or> vals = [] then Some (Inr (cv_Nil C))
      else Option.bind (schema_loop C schema vals [] False) (\<lambda>(combined, hasSchemaErrors).
        let (merged, combined, hasMergeConflicts) = merge_loop C (tl vals) (hd vals) combined False
        in Option.bind
             (if \<not> hasSchemaErrors \<and> \<not> hasMergeConflicts
              then map_option fst (appendSchemaErrors C schema merged combined True)
              else Some combined) (\<lambda>combined.
             if combined \<noteq> []
             then Some (Inl \<lparr>cfe_Context = context, cfe_Name = name, cfe_RawError = combined\<rparr>)
             else Some (Inr merged))))"

subsection \<open>Preparing a release (\<open>parse.go\<close>)\<close>

definition bestEffortReleaseName :: "'v cue_eval \<Rightarrow> 'v \<Rightarrow> 'v Module \<Rightarrow> string" where
  "bestEffortReleaseName C spec m =
     (let nameVal = cv_Lookup C ''metadata.name'' spec;
          fallback = (if mm_Name (mo_Metadata m) \<noteq> [] then mm_Name (mo_Metadata m) else ''<unknown>'')
      in if cv_Exists C nameVal
         then (case cv_String C nameVal of (s, None) \<Rightarrow> s | (_, Some _) \<Rightarrow> fallback)
         else fallback)"

definition decodeReleaseMetadata :: "'v cue_eval \<Rightarrow> 'v \<Rightarrow> string \<Rightarrow> goerr + ReleaseMetadata" where
  "decodeReleaseMetadata C spec name =
     (let metaVal = cv_Lookup C ''metadata'' spec in
      if \<not> cv_Exists C metaVal
      then Inl (errors_New (''release '' @ Quote name @ '': metadata field is required''))
      else case cv_DecodeRelease C metaVal of
        Inl e \<Rightarrow> Inl (Errorf_w (''release '' @ Quote name @ '': decoding metadata: '') e [])
      | Inr meta \<Rightarrow> Inr meta)"

definition fill_values :: "'v cue_eval \<Rightarrow> 'v \<Rightarrow> 'v \<Rightarrow> goerr + 'v" where
  "fill_values C merged spec =
     (if cv_Exists C merged
      then (let spec' = cv_FillPath C ''values'' merged spec in
            case cv_Err C spec' of
              Some e \<Rightarrow> Inl (Errorf_w ''filling values into release spec: '' e [])
            | None \<Rightarrow> Inr spec')
      else Inr spec)"

definition ParseModuleRelease ::
  "'v cue_eval \<Rightarrow> 'v \<Rightarrow> 'v Module \<Rightarrow> 'v list \<Rightarrow> (goerr + 'v PreparedRelease) option" where
  "ParseModuleRelease C spec m vals =
     (let name = bestEffortReleaseName C spec m in
      Option.bind (Config C (mo_Config m) vals ''module'' name) (\<lambda>cfg. Some
        (case cfg of
           Inl cfgErr \<Rightarrow> Inl (ConfigError_err cfgErr)
         | Inr merged \<Rightarrow>
             (case fill_values C merged spec of
                Inl e \<Rightarrow> Inl e
              | Inr spec1 \<Rightarrow>
                  (case cv_Validate C True spec1 of
                     Some e \<Rightarrow> Inl (Errorf_w (''release '' @ Quote name @ '': not fully concrete: '') e [])
                   | None \<Rightarrow>
                       (case decodeReleaseMetadata C spec1 name of
                          Inl e \<Rightarrow> Inl e
                        | Inr metadata \<Rightarrow> Inr \<lparr>pr_Metadata = metadata, pr_Module = m, pr_Spec = spec1,
                             pr_Values = merged\<rparr>))))))"

subsection \<open>What is allowed\<close>

text \<open>
  A value is allowed by a schema if the schema allows every field of it and, for struct fields
  whose schema exists, every field below; values that are not structs, list elements among
  them, are not looked into.
\<close>

inductive allowed :: "'v cue_eval \<Rightarrow> 'v \<Rightarrow> 'v \<Rightarrow> bool" for C where
  allowed_plain: "cv_Fields C True v = Inl e \<Longrightarrow> allowed C schema v"
| allowed_struct: "cv_Fields C True v = Inr fs \<Longrightarrow> (\<And>f. f \<in> set fs \<Longrightarrow> cv_Allows C schema (fst f)) \<Longrightarrow>
    (\<And>f. f \<in> set fs \<Longrightarrow> cv_IncompleteKind C (snd f) = StructKind \<Longrightarrow> cv_Exists C (cv_LookupSel C (fst f) schema)
       \<Longrightarrow> allowed C (cv_LookupSel C (fst f) schema) (snd f)) \<Longrightarrow> allowed C schema v"

inductive_simps allowed_iff: "allowed C schema v"

definition field_allowed :: "'v cue_eval \<Rightarrow> 'v \<Rightarrow> cue_selector \<times> 'v \<Rightarrow> bool" where
  "field_allowed C schema f \<longleftrightarrow> cv_Allows C schema (fst f)
     \<and> (cv_IncompleteKind C (snd f) = StructKind \<longrightarrow> cv_Exists C (cv_LookupSel C (fst f) schema)
          \<longrightarrow> allowed C (cv_LookupSel C (fst f) schema) (snd f))"

lemma allowed_fields:
  "cv_Fields C True v = Inr fs \<Longrightarrow> allowed C schema v \<longleftrightarrow> (\<forall>f \<in> set fs. field_allowed C schema f)"
  by (subst allowed_iff) (auto simp: field_allowed_def)

lemma allowed_no_fields: "cv_Fields C True v = Inl e \<Longrightarrow> allowed C schema v"
  by (rule allowed_plain)

text \<open>
  The fields the walk enters, and the values on which it ends: the descent through these fields is
  well-founded.
\<close>

definition descends :: "'v cue_eval \<Rightarrow> 'v \<Rightarrow> cue_selector \<times> 'v \<Rightarrow> bool" where
  "descends C schema f \<longleftrightarrow> cv_Allows C schema (fst f) \<and> cv_IncompleteKind C (snd f) = StructKind
     \<and> cv_Exists C (cv_LookupSel C (fst f) schema)"

inductive walk_ends :: "'v cue_eval \<Rightarrow> 'v \<Rightarrow> 'v \<Rightarrow> bool" for C where
  ends_plain: "cv_Fields C True v = Inl e \<Longrightarrow> walk_ends C schema v"
| ends_struct: "cv_Fields C True v = Inr fs \<Longrightarrow>
    (\<And>f. f \<in> set fs \<Longrightarrow> descends C schema f \<Longrightarrow> walk_ends C (cv_LookupSel C (fst f) schema) (snd f)) \<Longrightarrow>
    walk_ends C schema v"

inductive_simps walk_ends_iff: "walk_ends C schema v"

lemma walk_fields_Cons:
  "walk_fields C schema (f # rest) p acc =
     (if \<not> cv_Allows C schema (fst f)
      then walk_fields C schema rest p
             (cv_Append C acc (fieldNotAllowedError C (cv_Pos C (snd f)) (p @ [sel_String (fst f)])))
      else if descends C schema f
      then Option.bind (walkDisallowed C (cv_LookupSel C (fst f) schema) (snd f) (p @ [sel_String (fst f)]) acc)
             (walk_fields C schema rest p)
      else walk_fields C schema rest p acc)"
  by (auto simp: walk_fields_code(2) walkDisallowed_def descends_def Let_def split: sum.splits)

text \<open>A walk that returned has returned from every field it entered.\<close>

lemma walk_fields_returned:
  assumes "walk_fields C schema fs p acc = Some r"
  shows "\<forall>f\<in>set fs. descends C schema f \<longrightarrow> walk_ends C (cv_LookupSel C (fst f) schema) (snd f)"
proof (rule walk_fields.raw_induct [where P = "\<lambda>C schema fs p acc r.
    \<forall>f\<in>set fs. descends C schema f \<longrightarrow> walk_ends C (cv_LookupSel C (fst f) schema) (snd f)", OF _ assms],
    goal_cases)
  case (1 walk C schema fs p acc r)
  show ?case
  proof (cases fs)
    case (Cons f rest)
    let ?sub = "cv_LookupSel C (fst f) schema"
    have rest: "\<forall>g\<in>set rest. descends C schema g \<longrightarrow> walk_ends C (cv_LookupSel C (fst g) schema) (snd g)"
      using 1(2) unfolding Cons
      by (auto simp: Let_def bind_eq_Some_conv split: if_splits sum.splits dest!: 1(1))
    have "walk_ends C ?sub (snd f)" if d: "descends C schema f"
    proof (cases "cv_Fields C True (snd f)")
      case (Inl e)
      then show ?thesis by (rule ends_plain)
    next
      case (Inr cfs)
      then obtain acc1 where "walk C ?sub cfs (p @ [sel_String (fst f)]) acc = Some acc1"
        using 1(2) Cons d by (auto simp: Let_def descends_def bind_eq_Some_conv)
      note entered = 1(1) [OF this]
      show ?thesis by (rule ends_struct [OF Inr]) (use entered in simp)
    qed
    with rest show ?thesis using Cons by simp
  qed simp
qed

lemma walkDisallowed_returned:
  assumes "walkDisallowed C schema v p acc = Some r" shows "walk_ends C schema v"
proof (cases "cv_Fields C True v")
  case (Inr fs)
  with assms have "walk_fields C schema fs p acc = Some r" by (simp add: walkDisallowed_def)
  note entered = walk_fields_returned [OF this]
  show ?thesis by (rule ends_struct [OF Inr]) (use entered in simp)
qed (rule ends_plain)

context finite_cue
begin

lemma walk_always_ends: "walk_ends C schema v"
  by (induction v arbitrary: schema rule: measure_induct_rule [of sz])
    (metis field_smaller sum.exhaust walk_ends.intros)

end

text \<open>An outcome of a collecting step: errors are only added, and none iff the check passes.\<close>

definition collects :: "cue_error list \<Rightarrow> bool \<Rightarrow> cue_error list \<Rightarrow> bool" where
  "collects acc ok r \<longleftrightarrow> set acc \<subseteq> set r \<and> (r = [] \<longleftrightarrow> acc = [] \<and> ok)"

lemma collects_trans: "collects a p b \<Longrightarrow> collects b q c \<Longrightarrow> collects a (p \<and> q) c"
  by (auto simp: collects_def)

lemma collects_refl: "collects a True a"
  by (simp add: collects_def)

context cue_laws
begin

lemma collects_append: "collects a False (cv_Append C a e)"
  by (simp add: collects_def append_mono append_nonempty)

lemma collects_after_append: "collects (cv_Append C a e) q r \<Longrightarrow> collects a False r"
  using collects_trans [OF collects_append] by fastforce

lemma walk_fields_collects:
  assumes "\<And>f p acc. f \<in> set fs \<Longrightarrow> descends C schema f \<Longrightarrow>
    \<exists>r. walkDisallowed C (cv_LookupSel C (fst f) schema) (snd f) p acc = Some r
      \<and> collects acc (allowed C (cv_LookupSel C (fst f) schema) (snd f)) r"
  shows "\<exists>r. walk_fields C schema fs p acc = Some r \<and> collects acc (\<forall>f \<in> set fs. field_allowed C schema f) r"
  using assms
proof (induction fs arbitrary: acc)
  case Nil
  then show ?case by (simp add: walk_fields_code(1) collects_refl)
next
  case (Cons f rest)
  have tail: "\<exists>r. walk_fields C schema rest p a = Some r
      \<and> collects a (\<forall>f \<in> set rest. field_allowed C schema f) r" for a
    using Cons by auto
  have whole: ?case if "walk_fields C schema (f # rest) p acc = walk_fields C schema rest p a"
    "collects acc (field_allowed C schema f) a" for a
    using tail [of a] that collects_trans [OF that(2)] by fastforce
  consider "\<not> cv_Allows C schema (fst f)" | "cv_Allows C schema (fst f)" "\<not> descends C schema f" | "descends C schema f"
    by blast
  then show ?case
  proof cases
    case 1
    show ?thesis
      by (rule whole [where a = "cv_Append C acc (fieldNotAllowedError C (cv_Pos C (snd f)) (p @ [sel_String (fst f)]))"])
        (use 1 in \<open>simp_all add: walk_fields_Cons field_allowed_def collects_append\<close>)
  next
    case 2
    show ?thesis
      by (rule whole [where a = acc])
        (use 2 in \<open>auto simp: walk_fields_Cons field_allowed_def descends_def collects_refl\<close>)
  next
    case 3
    obtain a where "walkDisallowed C (cv_LookupSel C (fst f) schema) (snd f) (p @ [sel_String (fst f)]) acc = Some a"
      "collects acc (allowed C (cv_LookupSel C (fst f) schema) (snd f)) a"
      using Cons.prems [of f] 3 by auto
    then show ?thesis
      by (intro whole [where a = a])
        (use 3 in \<open>auto simp: walk_fields_Cons field_allowed_def descends_def\<close>)
  qed
qed

lemma walkDisallowed_collects:
  "walk_ends C schema v \<Longrightarrow> \<exists>r. walkDisallowed C schema v p acc = Some r \<and> collects acc (allowed C schema v) r"
proof (induction arbitrary: p acc rule: walk_ends.induct)
  case (ends_plain v e schema)
  then show ?case by (simp add: walkDisallowed_def collects_refl allowed_no_fields)
next
  case (ends_struct v fs schema)
  then show ?case
    using walk_fields_collects [of fs schema p acc] by (simp add: walkDisallowed_def allowed_fields)
qed

lemma walkDisallowed_returns: "walkDisallowed C schema v p acc = None \<longleftrightarrow> \<not> walk_ends C schema v"
  using walkDisallowed_collects [of schema v p acc] walkDisallowed_returned [of C schema v p acc] by fastforce

lemma append_others_collects:
  "collects acc (list_all (\<lambda>ce. ce_Format ce = fieldNotAllowed) ces) (fst (append_others C ces acc changed))
   \<and> (fst (append_others C ces acc changed) = [] \<longrightarrow> snd (append_others C ces acc changed) = changed)"
proof (induction ces arbitrary: acc changed)
  case (Cons ce ces)
  show ?case
  proof (cases "ce_Format ce = fieldNotAllowed")
    case False
    have "collects acc False (fst (append_others C ces (cv_Append C acc ce) True))"
      using Cons.IH [of "cv_Append C acc ce" True] collects_after_append by blast
    with False show ?thesis by (simp add: collects_def)
  qed (use Cons.IH in simp)
qed (simp add: collects_refl)

end

text \<open>
  What \<open>Config\<close> asks of a value: it is allowed field by field, and unified with the schema
  it validates up to errors with the text of a disallowed field.
\<close>

definition value_ok :: "'v cue_eval \<Rightarrow> 'v \<Rightarrow> bool \<Rightarrow> 'v \<Rightarrow> bool" where
  "value_ok C schema conc v \<longleftrightarrow> allowed C schema v
     \<and> (case cv_Validate C conc (cv_Unify C schema v) of
          None \<Rightarrow> True
        | Some err \<Rightarrow> list_all (\<lambda>ce. ce_Format ce = fieldNotAllowed) (cv_Errors C err))"

fun merges_ok :: "'v cue_eval \<Rightarrow> 'v \<Rightarrow> 'v list \<Rightarrow> bool" where
  "merges_ok C merged [] = True"
| "merges_ok C merged (v # vs) =
     (cv_Err C (cv_Unify C merged v) = None \<and> merges_ok C (cv_Unify C merged v) vs)"

definition config_ok :: "'v cue_eval \<Rightarrow> 'v \<Rightarrow> 'v list \<Rightarrow> bool" where
  "config_ok C schema vals \<longleftrightarrow> list_all (value_ok C schema False) vals \<and> merges_ok C (hd vals) (tl vals)
     \<and> value_ok C schema True (foldl (cv_Unify C) (hd vals) (tl vals))"

lemma merge_loop_merged: "fst (merge_loop C vs merged combined k) = foldl (cv_Unify C) merged vs"
  by (induction vs arbitrary: merged combined k) (simp_all add: Let_def split: option.splits)

text \<open>The validation ends: it walks every value and, if they are all good, their unification.\<close>

definition config_walks :: "'v cue_eval \<Rightarrow> 'v \<Rightarrow> 'v list \<Rightarrow> bool" where
  "config_walks C schema vals \<longleftrightarrow> list_all (walk_ends C schema) vals
     \<and> (list_all (value_ok C schema False) vals \<longrightarrow> merges_ok C (hd vals) (tl vals)
          \<longrightarrow> walk_ends C schema (foldl (cv_Unify C) (hd vals) (tl vals)))"

context cue_laws
begin

lemma appendSchemaErrors_collects:
  assumes "walk_ends C schema v"
  shows "\<exists>r changed. appendSchemaErrors C schema v acc conc = Some (r, changed)
     \<and> collects acc (value_ok C schema conc v) r \<and> (r = [] \<longrightarrow> \<not> changed) \<and> (acc = [] \<longrightarrow> r \<noteq> [] \<longrightarrow> changed)"
proof -
  obtain a where a: "walkDisallowed C schema v [] acc = Some a" "collects acc (allowed C schema v) a"
    using walkDisallowed_collects [OF assms] by blast
  show ?thesis
  proof (cases "cv_Validate C conc (cv_Unify C schema v)")
    case None
    with a show ?thesis by (simp add: appendSchemaErrors_def value_ok_def)
  next
    case (Some err)
    let ?o = "append_others C (cv_Errors C err) a False"
    have o: "collects a (list_all (\<lambda>ce. ce_Format ce = fieldNotAllowed) (cv_Errors C err)) (fst ?o)"
      "fst ?o = [] \<longrightarrow> snd ?o = False"
      using append_others_collects by blast+
    from collects_trans [OF a(2) o(1)] o(2) a(1) Some show ?thesis
      by (auto simp: appendSchemaErrors_def value_ok_def split: prod.splits)
  qed
qed

lemma appendSchemaErrors_diverges: "\<not> walk_ends C schema v \<Longrightarrow> appendSchemaErrors C schema v acc conc = None"
  using walkDisallowed_returns [of schema v "[]" acc] by (simp add: appendSchemaErrors_def)

lemma schema_loop_collects:
  assumes "list_all (walk_ends C schema) vals" and "acc = [] \<longleftrightarrow> \<not> h0"
  shows "\<exists>r h. schema_loop C schema vals acc h0 = Some (r, h)
     \<and> collects acc (list_all (value_ok C schema False) vals) r \<and> (r = [] \<longleftrightarrow> \<not> h)"
  using assms
proof (induction vals arbitrary: acc h0)
  case (Cons v vals)
  obtain a ch where a: "appendSchemaErrors C schema v acc False = Some (a, ch)"
    "collects acc (value_ok C schema False v) a" "a = [] \<longrightarrow> \<not> ch" "acc = [] \<longrightarrow> a \<noteq> [] \<longrightarrow> ch"
    using appendSchemaErrors_collects [of schema v acc False] Cons.prems(1) by auto
  have "a = [] \<longleftrightarrow> \<not> (h0 \<or> ch)" using a(2-4) Cons.prems(2) by (auto simp: collects_def)
  then obtain r h where r: "schema_loop C schema vals a (h0 \<or> ch) = Some (r, h)"
    "collects a (list_all (value_ok C schema False) vals) r" "r = [] \<longleftrightarrow> \<not> h"
    using Cons.IH [of a "h0 \<or> ch"] Cons.prems(1) by auto
  from collects_trans [OF a(2) r(2)] a(1) r show ?case by simp
qed (simp add: collects_refl)

lemma schema_loop_diverges:
  "\<not> list_all (walk_ends C schema) vals \<Longrightarrow> schema_loop C schema vals acc h0 = None"
proof (induction vals arbitrary: acc h0)
  case (Cons v vals)
  show ?case
  proof (cases "appendSchemaErrors C schema v acc False")
    case (Some q)
    then have "walk_ends C schema v" using appendSchemaErrors_diverges by fastforce
    with Cons show ?thesis by (auto simp: Some split: prod.splits)
  qed simp
qed simp

lemma foldl_append_collects: "es \<noteq> [] \<Longrightarrow> collects acc False (foldl (cv_Append C) acc es)"
proof (induction es arbitrary: acc)
  case (Cons e es)
  show ?case
  proof (cases "es = []")
    case False
    then have "collects (cv_Append C acc e) False (foldl (cv_Append C) (cv_Append C acc e) es)"
      by (rule Cons.IH)
    then show ?thesis using collects_after_append by simp
  qed (simp add: collects_append)
qed simp

lemma merge_loop_collects:
  "\<exists>r k. merge_loop C vs merged acc k0 = (foldl (cv_Unify C) merged vs, r, k)
     \<and> collects acc (merges_ok C merged vs) r \<and> (k \<longleftrightarrow> k0 \<or> \<not> merges_ok C merged vs)"
proof (induction vs arbitrary: merged acc k0)
  case (Cons v vs)
  let ?m = "cv_Unify C merged v"
  show ?case
  proof (cases "cv_Err C ?m")
    case None
    then show ?thesis using Cons.IH [of ?m acc k0] by (simp add: Let_def)
  next
    case (Some err)
    have f: "collects acc False (foldl (cv_Append C) acc (cv_Errors C err))"
      by (rule foldl_append_collects [OF errors_nonempty])
    obtain r k where "merge_loop C vs ?m (foldl (cv_Append C) acc (cv_Errors C err)) True = (foldl (cv_Unify C) ?m vs, r, k)"
      "collects (foldl (cv_Append C) acc (cv_Errors C err)) (merges_ok C ?m vs) r"
      "k \<longleftrightarrow> True \<or> \<not> merges_ok C ?m vs"
      using Cons.IH by blast
    moreover from collects_trans [OF f this(2)] have "collects acc False r" by simp
    ultimately show ?thesis using Some by (auto simp: Let_def collects_def)
  qed
qed (simp add: collects_refl)

lemma Config_cases:
  obtains (trivial) "\<not> cv_Exists C schema \<or> vals = []" "Config C schema vals ctxt name = Some (Inr (cv_Nil C))"
  | (diverges) "cv_Exists C schema" "vals \<noteq> []" "\<not> config_walks C schema vals" "Config C schema vals ctxt name = None"
  | (accepts) "cv_Exists C schema" "vals \<noteq> []" "config_walks C schema vals" "config_ok C schema vals"
      "Config C schema vals ctxt name = Some (Inr (foldl (cv_Unify C) (hd vals) (tl vals)))"
  | (rejects) es where "cv_Exists C schema" "vals \<noteq> []" "config_walks C schema vals" "\<not> config_ok C schema vals"
      "es \<noteq> []" "Config C schema vals ctxt name = Some (Inl \<lparr>cfe_Context = ctxt, cfe_Name = name, cfe_RawError = es\<rparr>)"
proof (cases "cv_Exists C schema \<and> vals \<noteq> []")
  case False
  then show ?thesis using trivial by (simp add: Config_def)
next
  case ex: True
  let ?m = "foldl (cv_Unify C) (hd vals) (tl vals)"
  show ?thesis
  proof (cases "list_all (walk_ends C schema) vals")
    case False
    then show ?thesis using diverges ex schema_loop_diverges [OF False] by (simp add: Config_def config_walks_def)
  next
    case walks: True
    obtain a h where a: "schema_loop C schema vals [] False = Some (a, h)"
      "collects [] (list_all (value_ok C schema False) vals) a" "a = [] \<longleftrightarrow> \<not> h"
      using schema_loop_collects [OF walks, of "[]" False] by auto
    obtain b k where b: "merge_loop C (tl vals) (hd vals) a False = (?m, b, k)"
      "collects a (merges_ok C (hd vals) (tl vals)) b" "k \<longleftrightarrow> \<not> merges_ok C (hd vals) (tl vals)"
      using merge_loop_collects [of "tl vals" "hd vals" a False] by auto
    define good where "good \<longleftrightarrow> list_all (value_ok C schema False) vals \<and> merges_ok C (hd vals) (tl vals)"
    have good: "good \<longleftrightarrow> \<not> h \<and> \<not> k" "good \<longleftrightarrow> b = []"
      using a(2,3) b(2,3) by (auto simp: good_def collects_def)
    have stop: "Config C schema vals ctxt name = Some (Inl \<lparr>cfe_Context = ctxt, cfe_Name = name, cfe_RawError = b\<rparr>)"
      if "\<not> good" using that good ex a(1) b(1) by (auto simp: Config_def)
    have go: "Config C schema vals ctxt name = Option.bind (map_option fst (appendSchemaErrors C schema ?m [] True))
        (\<lambda>e. Some (if e \<noteq> [] then Inl \<lparr>cfe_Context = ctxt, cfe_Name = name, cfe_RawError = e\<rparr> else Inr ?m))"
      if good using that good ex a(1) b(1) by (auto simp: Config_def intro!: arg_cong2 [where f = Option.bind])
    consider "\<not> good" | "good" "\<not> walk_ends C schema ?m" | "good" "walk_ends C schema ?m" by blast
    then show ?thesis
    proof cases
      case 1
      then show ?thesis using rejects [of b] stop good ex walks
        by (auto simp: config_walks_def config_ok_def good_def)
    next
      case 2
      then show ?thesis using diverges go ex appendSchemaErrors_diverges [OF 2(2)]
        by (auto simp: config_walks_def good_def)
    next
      case 3
      obtain c ch where c: "appendSchemaErrors C schema ?m [] True = Some (c, ch)"
        "collects [] (value_ok C schema True ?m) c"
        using appendSchemaErrors_collects [OF 3(2)] by blast
      have w: "config_walks C schema vals" using walks 3(2) by (simp add: config_walks_def)
      have ok: "config_ok C schema vals \<longleftrightarrow> c = []" using 3(1) c(2) by (auto simp: config_ok_def good_def collects_def)
      show ?thesis
      proof (cases "c = []")
        case True
        then show ?thesis using accepts ex w ok go 3(1) c(1) by simp
      next
        case False
        then show ?thesis using rejects [of c] ex w ok go 3(1) c(1) by simp
      qed
    qed
  qed
qed

end

text \<open>The recursive definition as its own value: the walk enters \<open>next\<close> for ever.\<close>

lemma rec_walk_never_ends: "\<not> walk_ends rec_cue rec_schema rec_schema"
proof
  have "s = rec_schema \<Longrightarrow> v \<noteq> rec_schema" if "walk_ends rec_cue s v" for s v
    using that
  proof (induction rule: walk_ends.induct)
    case (ends_plain v e s)
    then show ?case by (auto simp: rec_cue_def)
  next
    case (ends_struct v fs s)
    show ?case
    proof
      assume v: "v = rec_schema"
      let ?f = "(tree_selector ''next'', rec_schema)"
      have "?f \<in> set fs" using ends_struct(1) v by (auto simp: rec_cue_def)
      moreover have "descends rec_cue s ?f"
        using ends_struct(4) by (simp add: descends_def rec_cue_def tree_cue_def tree_lib_def rec_schema_def tree_selector_def)
      moreover have "cv_LookupSel rec_cue (fst ?f) s = rec_schema"
        using ends_struct(4) by (simp add: rec_cue_def tree_selector_def)
      ultimately show False using ends_struct(3) [of ?f] by simp
    qed
  qed
  then show "walk_ends rec_cue rec_schema rec_schema \<Longrightarrow> False" by blast
qed

subsection \<open>Properties\<close>

text \<open>
  C30: checking values against \<open>#config\<close> returns exactly when its walks end, and then accepts
  exactly what it should. Without a schema or values the result is the zero value. Otherwise
  the call does not return if and only if the descent through the fields the walk enters, in one of
  the values or, when they are all good, in their unification, is not well-founded, which
  a recursive definition among the optional fields brings about. If it returns, the values are
  accepted if and only if each is allowed field by field and validates against the schema, they
  unify without conflict, and the merged value is allowed and validates as a concrete value,
  and then the result is their unification in order. A rejection carries at least one error. Errors
  whose text is that of a disallowed field are left to the field walk, which does not enter
  lists.
\<close>

theorem Config_exact:
  assumes "cue_laws C"
  shows "case Config C schema vals ctxt name of
      None \<Rightarrow> cv_Exists C schema \<and> vals \<noteq> [] \<and> \<not> config_walks C schema vals
    | Some (Inl e) \<Rightarrow> cv_Exists C schema \<and> vals \<noteq> [] \<and> config_walks C schema vals \<and> \<not> config_ok C schema vals
        \<and> cfe_RawError e \<noteq> [] \<and> cfe_Context e = ctxt \<and> cfe_Name e = name
    | Some (Inr m) \<Rightarrow>
        if cv_Exists C schema \<and> vals \<noteq> []
        then config_walks C schema vals \<and> config_ok C schema vals \<and> m = foldl (cv_Unify C) (hd vals) (tl vals)
        else m = cv_Nil C"
  by (rule cue_laws.Config_cases [OF assms, of schema vals ctxt name]) auto

definition port_schema :: cval where
  "port_schema = CStruct [(''port'', CStr ''8080''), (''db'', CStruct [(''host'', CStr ''local'')])]"

definition good_values :: cval where
  "good_values = CStruct [(''port'', CStr ''80''), (''db'', CStruct [(''host'', CStr ''pg'')])]"

definition bad_values :: cval where
  "bad_values = CStruct [(''db'', CStruct [(''hots'', CStr ''pg'')])]"

theorem Config_exact_witness:
  "config_ok tree_cue port_schema [good_values] \<and> \<not> config_ok tree_cue port_schema [good_values, bad_values]
   \<and> Config rec_cue rec_schema [rec_schema] ''module'' ''shop'' = None"
proof (intro conjI)
  have ex: "cv_Exists tree_cue port_schema" by (simp add: port_schema_def)
  have "Config tree_cue port_schema [good_values] ''module'' ''shop'' = Some (Inr good_values)" by code_simp
  with Config_exact [OF tree.cue_laws_axioms, of port_schema "[good_values]" "''module''" "''shop''"] ex
  show "config_ok tree_cue port_schema [good_values]" by simp
  have "(case Config tree_cue port_schema [good_values, bad_values] ''module'' ''shop'' of
      Some (Inl e) \<Rightarrow> map ce_Path (cfe_RawError e) = [[''values'', ''db'', ''hots'']] | _ \<Rightarrow> False)" by code_simp
  then obtain e where "Config tree_cue port_schema [good_values, bad_values] ''module'' ''shop'' = Some (Inl e)"
    by (auto split: option.splits sum.splits)
  with Config_exact [OF tree.cue_laws_axioms, of port_schema "[good_values, bad_values]" "''module''" "''shop''"] ex
  show "\<not> config_ok tree_cue port_schema [good_values, bad_values]" by simp
  have "\<not> config_walks rec_cue rec_schema [rec_schema]" "cv_Exists rec_cue rec_schema"
    using rec_walk_never_ends by (simp_all add: config_walks_def rec_schema_def)
  with Config_exact [OF rec.cue_laws_axioms, of rec_schema "[rec_schema]" "''module''" "''shop''"]
  show "Config rec_cue rec_schema [rec_schema] ''module'' ''shop'' = None"
    by (auto split: option.splits sum.splits)
qed

text \<open>
  C32: what a prepared release is. Preparing returns unless a walk over the values does not end.
  If it succeeds, the release's spec validates as concrete, its metadata is decoded from that spec
  and its module is the given one. With a schema and values, its values are the accepted values
  merged in order and the spec is the given spec with exactly those filled in. Without a schema or
  without values its \<open>Values\<close> is the zero value and the spec is left as it is, although
  the type's comment calls \<open>Values\<close> concrete and merged: no defaults are filled in.
\<close>

theorem ParseModuleRelease_prepared:
  assumes "cue_laws C"
  shows "(ParseModuleRelease C spec m vals = None
      \<longleftrightarrow> cv_Exists C (mo_Config m) \<and> vals \<noteq> [] \<and> \<not> config_walks C (mo_Config m) vals)
    \<and> (\<forall>rel. ParseModuleRelease C spec m vals = Some (Inr rel) \<longrightarrow>
        cv_Validate C True (pr_Spec rel) = None
      \<and> cv_DecodeRelease C (cv_Lookup C ''metadata'' (pr_Spec rel)) = Inr (pr_Metadata rel)
      \<and> pr_Module rel = m
      \<and> (if cv_Exists C (mo_Config m) \<and> vals \<noteq> []
         then config_ok C (mo_Config m) vals \<and> pr_Values rel = foldl (cv_Unify C) (hd vals) (tl vals)
         else pr_Values rel = cv_Nil C)
      \<and> pr_Spec rel = (if cv_Exists C (pr_Values rel) then cv_FillPath C ''values'' (pr_Values rel) spec else spec))"
proof (intro conjI allI impI)
  let ?name = "bestEffortReleaseName C spec m"
  note cases = cue_laws.Config_cases [OF assms, of "mo_Config m" vals "''module''" ?name]
  show "ParseModuleRelease C spec m vals = None
      \<longleftrightarrow> cv_Exists C (mo_Config m) \<and> vals \<noteq> [] \<and> \<not> config_walks C (mo_Config m) vals"
    by (rule cases) (auto simp: ParseModuleRelease_def Let_def)
  fix rel
  assume run: "ParseModuleRelease C spec m vals = Some (Inr rel)"
  then obtain y where y: "Config C (mo_Config m) vals ''module'' ?name = Some y"
    by (auto simp: ParseModuleRelease_def Let_def bind_eq_Some_conv)
  with run obtain v where cfg: "Config C (mo_Config m) vals ''module'' ?name = Some (Inr v)"
    and p: "fill_values C v spec = Inr (pr_Spec rel)" "cv_Validate C True (pr_Spec rel) = None"
      "decodeReleaseMetadata C (pr_Spec rel) ?name = Inr (pr_Metadata rel)" "pr_Module rel = m" "pr_Values rel = v"
    by (cases y) (auto simp: ParseModuleRelease_def Let_def split: sum.splits option.splits)
  show "cv_Validate C True (pr_Spec rel) = None" "pr_Module rel = m" by (fact p)+
  show "cv_DecodeRelease C (cv_Lookup C ''metadata'' (pr_Spec rel)) = Inr (pr_Metadata rel)"
    using p(3) by (auto simp: decodeReleaseMetadata_def Let_def split: if_splits sum.splits)
  show "if cv_Exists C (mo_Config m) \<and> vals \<noteq> []
     then config_ok C (mo_Config m) vals \<and> pr_Values rel = foldl (cv_Unify C) (hd vals) (tl vals)
     else pr_Values rel = cv_Nil C"
    by (rule cases) (use cfg p(5) in auto)
  show "pr_Spec rel = (if cv_Exists C (pr_Values rel) then cv_FillPath C ''values'' (pr_Values rel) spec else spec)"
    using p(1,5) by (auto simp: fill_values_def Let_def split: if_splits option.splits)
qed

definition demo_module :: "cval Module" where
  "demo_module = \<lparr>mo_Metadata = \<lparr>mm_Name = ''shop'', mm_Description = [], mm_ModulePath = [], mm_DefaultNamespace = [],
       mm_FQN = [], mm_Version = [], mm_UUID = [], mm_Labels = Map.empty, mm_Annotations = Map.empty\<rparr>,
     mo_Config = port_schema, mo_Raw = CNone, mo_ModulePath = []\<rparr>"

definition demo_spec_value :: cval where
  "demo_spec_value = CStruct [(''metadata'', CStruct [(''name'', CStr ''shop''), (''namespace'', CStr ''prod'')])]"

theorem ParseModuleRelease_prepared_witness:
  "\<exists>rel. ParseModuleRelease tree_cue demo_spec_value demo_module [good_values] = Some (Inr rel)
     \<and> pr_Values rel = good_values \<and> cv_Validate tree_cue True (pr_Spec rel) = None"
proof -
  have "(case ParseModuleRelease tree_cue demo_spec_value demo_module [good_values] of
      Some (Inr rel) \<Rightarrow> True | _ \<Rightarrow> False)" by code_simp
  then obtain rel where rel: "ParseModuleRelease tree_cue demo_spec_value demo_module [good_values] = Some (Inr rel)"
    by (auto split: option.splits sum.splits)
  have "cv_Exists tree_cue (mo_Config demo_module)" by (simp add: demo_module_def port_schema_def)
  with rel ParseModuleRelease_prepared [OF tree.cue_laws_axioms, of demo_spec_value demo_module "[good_values]"]
  show ?thesis by auto
qed

end
