(* ===== verification/Opm_Synthesis.thy ===== *)
theory Opm_Synthesis
  imports Opm_Source Opm_Execute Opm_Validate
begin

text \<open>
  \<open>internal/synthesis\<close>, \<open>pkg/loader\<close> and \<open>internal/catalog\<close>: the temporary CUE module
  that imports the target module, loading of a CUE package from a directory, and selection of
  the provider. File system calls are those of \<open>Opm_Source\<close>; \<open>filepath.Abs\<close>, the CUE
  loader (which may reach the OCI registry) and the evaluator are fields of a
  \<open>render_env\<close>.
\<close>

subsection \<open>Environment\<close>

text \<open>A loaded \<open>build.Instance\<close>: its error and its source, which \<open>BuildInstance\<close> evaluates.\<close>

record build_instance =
  bi_Err :: "goerr option"
  bi_Source :: string

record ('w, 'v) render_env =
  re_FS :: "'w fs_api"
  re_Abs :: "string \<Rightarrow> goerr + string"
  re_Instances :: "string \<Rightarrow> 'w \<Rightarrow> build_instance list \<times> 'w"
  re_BuildInstance :: "build_instance \<Rightarrow> 'v"
  re_Cue :: "'v cue_eval"
  re_Poll :: poll

subsection \<open>Synthesis (\<open>synthesis.go\<close>)\<close>

definition CatalogVersion :: string where
  "CatalogVersion = ''v1.3.4''"

definition CUELanguageVersion :: string where
  "CUELanguageVersion = ''v0.16.1''"

definition SynthesisModule :: string where
  "SynthesisModule = ''opmodel.dev/controller/release@v0''"

record SynthesisParams =
  sy_Name :: string
  sy_Namespace :: string
  sy_ModulePath :: string
  sy_ModuleVersion :: string

text \<open>Template text between double quotes, inserted as it is; a tab; a line.\<close>

definition dq :: "string \<Rightarrow> string" where
  "dq s = [CHR 0x22] @ s @ [CHR 0x22]"

definition tab :: string where
  "tab = [CHR 0x09]"

definition lines_of :: "string list \<Rightarrow> string" where
  "lines_of ls = concat (map (\<lambda>l. l @ newline) ls)"

definition moduleTmpl :: "SynthesisParams \<Rightarrow> string" where
  "moduleTmpl p = lines_of
     [''module: '' @ dq SynthesisModule,
      ''language: version: '' @ dq CUELanguageVersion,
      ''deps: {'',
      tab @ dq ''opmodel.dev/core/v1alpha1@v1'' @ '': v: '' @ dq CatalogVersion,
      tab @ dq (sy_ModulePath p) @ '': v: '' @ dq (sy_ModuleVersion p),
      ''}'']"

definition releaseTmpl :: "SynthesisParams \<Rightarrow> string" where
  "releaseTmpl p = lines_of
     [''package release'', [], ''import ('',
      tab @ ''mr '' @ dq ''opmodel.dev/core/v1alpha1/modulerelease@v1'',
      tab @ ''mod '' @ dq (sy_ModulePath p),
      '')'', [], ''mr.#ModuleRelease'', [], ''metadata: {'',
      tab @ ''name:      '' @ dq (sy_Name p),
      tab @ ''namespace: '' @ dq (sy_Namespace p),
      ''}'', [], ''#module: mod'']"

text \<open>\<open>os.Create\<close> followed by writing the rendered template.\<close>

definition create_file :: "'w fs_api \<Rightarrow> string \<Rightarrow> string \<Rightarrow> 'w \<Rightarrow> goerr option \<times> 'w" where
  "create_file FS path content w =
     (case fs_OpenFile FS path 438 w of
        (Some e, w1) \<Rightarrow> (Some e, w1)
      | (None, w1) \<Rightarrow> fs_Write FS path content w1)"

definition writeModuleFile :: "'w fs_api \<Rightarrow> string \<Rightarrow> SynthesisParams \<Rightarrow> 'w \<Rightarrow> goerr option \<times> 'w" where
  "writeModuleFile FS dir p w =
     (let modDir = filepath_Join [dir, ''cue.mod''] in
      case fs_MkdirAll FS modDir w of
        (Some e, w1) \<Rightarrow> (Some e, w1)
      | (None, w1) \<Rightarrow> create_file FS (filepath_Join [modDir, ''module.cue'']) (moduleTmpl p) w1)"

definition writeReleaseFile :: "'w fs_api \<Rightarrow> string \<Rightarrow> SynthesisParams \<Rightarrow> 'w \<Rightarrow> goerr option \<times> 'w" where
  "writeReleaseFile FS dir p w = create_file FS (filepath_Join [dir, ''release.cue'']) (releaseTmpl p) w"

definition SynthesizeRelease :: "'w fs_api \<Rightarrow> SynthesisParams \<Rightarrow> 'w \<Rightarrow> (goerr + string) \<times> 'w" where
  "SynthesizeRelease FS p w =
     (if sy_Name p = [] then (Inl (errors_New ''name is required''), w)
      else if sy_Namespace p = [] then (Inl (errors_New ''namespace is required''), w)
      else if sy_ModulePath p = [] then (Inl (errors_New ''module path is required''), w)
      else if sy_ModuleVersion p = [] then (Inl (errors_New ''module version is required''), w)
      else case fs_MkdirTemp FS ''opm-release-*'' w of
        (Inl e, w1) \<Rightarrow> (Inl (Errorf_w ''creating temp directory: '' e []), w1)
      | (Inr tmpDir, w1) \<Rightarrow>
          (case writeModuleFile FS tmpDir p w1 of
             (Some e, w2) \<Rightarrow>
               (Inl (Errorf_w ''writing module file: '' e []), snd (fs_RemoveAll FS tmpDir w2))
           | (None, w2) \<Rightarrow>
               (case writeReleaseFile FS tmpDir p w2 of
                  (Some e, w3) \<Rightarrow>
                    (Inl (Errorf_w ''writing release file: '' e []), snd (fs_RemoveAll FS tmpDir w3))
                | (None, w3) \<Rightarrow> (Inr tmpDir, w3))))"

subsection \<open>Loading packages (\<open>pkg/loader/module.go\<close>)\<close>

text \<open>
  \<open>LoadModulePackage\<close> and \<open>loadRegistry\<close> load a directory the same way and differ in
  the words of their errors: how they call the directory and the package.
\<close>

definition load_package ::
  "('w, 'v) render_env \<Rightarrow> string \<Rightarrow> string \<Rightarrow> string \<Rightarrow> string \<Rightarrow> 'w \<Rightarrow> (goerr + 'v) \<times> 'w" where
  "load_package E dirWord pathWord pkgWord dirPath w =
     (case re_Abs E dirPath of
        Inl e \<Rightarrow> (Inl (Errorf_w (''resolving '' @ dirWord @ '' directory: '') e []), w)
      | Inr absDir \<Rightarrow>
          (case fs_Stat (re_FS E) absDir w of
             (Inl e, w1) \<Rightarrow>
               (Inl (Errorf_w (''accessing '' @ dirWord @ '' directory '' @ Quote absDir @ '': '') e []), w1)
           | (Inr info, w1) \<Rightarrow>
               if \<not> fi_IsDir info
               then (Inl (errors_New (pathWord @ '' path '' @ Quote absDir @ '' is not a directory'')), w1)
               else case re_Instances E absDir w1 of
                 (instances, w2) \<Rightarrow>
                   (if instances = []
                    then Inl (errors_New (''no CUE instances found in '' @ absDir))
                    else case bi_Err (hd instances) of
                      Some e \<Rightarrow> Inl (Errorf_w (''loading '' @ pkgWord @ '' package from '' @ absDir @ '': '') e [])
                    | None \<Rightarrow>
                        (let val = re_BuildInstance E (hd instances) in
                         case cv_Err (re_Cue E) val of
                           Some e \<Rightarrow> Inl (Errorf_w (''building '' @ pkgWord @ '' package from '' @ absDir @ '': '') e [])
                         | None \<Rightarrow> Inr val), w2)))"

definition LoadModulePackage :: "('w, 'v) render_env \<Rightarrow> string \<Rightarrow> 'w \<Rightarrow> (goerr + 'v) \<times> 'w" where
  "LoadModulePackage E dirPath w = load_package E ''module'' ''module'' ''module'' dirPath w"

subsection \<open>Providers (\<open>pkg/loader/provider.go\<close>, \<open>internal/catalog\<close>)\<close>

definition sortedKeys :: "(string \<times> 'v) list \<Rightarrow> string list" where
  "sortedKeys m = sort_Strings (map fst m)"

definition empty_provider_metadata :: "string \<Rightarrow> ProviderMetadata" where
  "empty_provider_metadata n = \<lparr>pmd_Name = n, pmd_Description = [], pmd_Version = [], pmd_Labels = Map.empty,
     pmd_Annotations = Map.empty\<rparr>"

definition extractProviderMetadata :: "'v cue_eval \<Rightarrow> 'v \<Rightarrow> string \<Rightarrow> goerr + ProviderMetadata" where
  "extractProviderMetadata C v configKeyName =
     (let meta = empty_provider_metadata configKeyName; metaVal = cv_Lookup C ''metadata'' v in
      if \<not> cv_Exists C metaVal then Inr meta
      else case cv_DecodeProvider C meta metaVal of
        Inl e \<Rightarrow> Inl (Errorf_w ''decoding provider metadata: '' e [])
      | Inr meta1 \<Rightarrow> Inr (if pmd_Name meta1 = [] then meta1\<lparr>pmd_Name := configKeyName\<rparr> else meta1))"

definition loader_LoadProvider :: "'v cue_eval \<Rightarrow> string \<Rightarrow> (string \<times> 'v) list \<Rightarrow> goerr + 'v Provider" where
  "loader_LoadProvider C providerName providers =
     (if providers = []
      then Inl (errors_New (''no providers configured '' @ [CHR 0xE2, CHR 0x80, CHR 0x94]
             @ '' add a providers block to config.cue''))
      else let providerName = (if providerName = [] then ''kubernetes'' else providerName) in
        case map_of providers providerName of
          None \<Rightarrow> Inl (errors_New (''provider '' @ Quote providerName @ '' not found (available: ''
                    @ strings_v (sortedKeys providers) @ '')''))
        | Some providerVal \<Rightarrow>
            (case extractProviderMetadata C providerVal providerName of
               Inl e \<Rightarrow> Inl (Errorf_w (''extracting provider metadata for '' @ Quote providerName @ '': '') e [])
             | Inr meta \<Rightarrow> Inr \<lparr>pv_Metadata = meta, pv_Data = providerVal\<rparr>))"

text \<open>The registry map is keyed by the selector's source form, as the code has it.\<close>

definition registry_of :: "'v cue_fields \<Rightarrow> (string \<times> 'v) list" where
  "registry_of fs = foldl (\<lambda>m f. AList.update (sel_String (fst f)) (snd f) m) [] fs"

definition loadRegistry :: "('w, 'v) render_env \<Rightarrow> string \<Rightarrow> 'w \<Rightarrow> (goerr + (string \<times> 'v) list) \<times> 'w" where
  "loadRegistry E catalogDir w =
     (let C = re_Cue E in
      case load_package E ''catalog'' ''catalog'' ''composition'' catalogDir w of
        (Inl e, w1) \<Rightarrow> (Inl e, w1)
      | (Inr val, w1) \<Rightarrow>
          (let providersVal = cv_Lookup C ''providers'' val in
           (if \<not> cv_Exists C providersVal
            then Inl (errors_New ''composition package missing providers definition'')
            else case cv_Fields C False providersVal of
              Inl e \<Rightarrow> Inl (Errorf_w ''iterating providers fields: '' e [])
            | Inr fs \<Rightarrow>
                if registry_of fs = [] then Inl (errors_New ''catalog providers is empty'')
                else Inr (registry_of fs), w1)))"

definition LoadProvider :: "('w, 'v) render_env \<Rightarrow> string \<Rightarrow> string \<Rightarrow> 'w \<Rightarrow> (goerr + 'v Provider) \<times> 'w" where
  "LoadProvider E catalogDir providerName w =
     (case loadRegistry E catalogDir w of
        (Inl e, w1) \<Rightarrow> (Inl (Errorf_w (''loading catalog registry from '' @ catalogDir @ '': '') e []), w1)
      | (Inr registry, w1) \<Rightarrow>
          (case loader_LoadProvider (re_Cue E) providerName registry of
             Inl e \<Rightarrow> (Inl (Errorf_w (''loading provider '' @ Quote providerName @ '' from catalog: '') e []), w1)
           | Inr p \<Rightarrow> (Inr p, w1)))"

end
