(* ===== verification/Opm_Render.thy ===== *)
theory Opm_Render
  imports Opm_Synthesis Opm_Reconcile
begin

text \<open>
  \<open>internal/render\<close>: the two production renderers that the reconcile loops call, from
  module coordinates (\<open>module.go\<close>) and from a package in an extracted artifact
  (\<open>release.go\<close>, \<open>renderer.go\<close>). A renderer returns in option: \<open>None\<close> is a walk over
  values that does not end. It happens in the registry renderer, which passes the module's
  \<open>#config\<close> as the value when the release gives none; the package renderer passes no values and
  always returns.
\<close>

subsection \<open>Shared steps\<close>

definition extractModuleFromRelease :: "'v cue_eval \<Rightarrow> 'v \<Rightarrow> string \<Rightarrow> goerr + 'v Module" where
  "extractModuleFromRelease C raw moduleDir =
     (let metaVal = cv_Lookup C ''metadata'' raw in
      if \<not> cv_Exists C metaVal then Inl (errors_New ''release missing metadata field'')
      else case cv_DecodeModule C metaVal of
        Inl e \<Rightarrow> Inl (Errorf_w ''decoding module metadata from release: '' e [])
      | Inr meta \<Rightarrow>
          (let moduleVal = cv_Lookup C ''#module'' raw;
               config = cv_Lookup C ''#config'' moduleVal
           in Inr \<lparr>mo_Metadata = meta, mo_Config = config, mo_Raw = raw, mo_ModulePath = moduleDir\<rparr>))"

fun inventory_loop ::
  "'v cue_lib \<Rightarrow> 'v Resource list \<Rightarrow> InventoryEntry list \<Rightarrow> goerr + InventoryEntry list" where
  "inventory_loop C [] entries = Inr entries"
| "inventory_loop C (r # rs) entries =
     (case ToUnstructured C r of
        Inl e \<Rightarrow> Inl (Errorf_w (''converting resource '' @ Resource_String C r @ '' to unstructured: '') e [])
      | Inr u \<Rightarrow> inventory_loop C rs (entries @ [NewEntryFromResource u]))"

definition buildInventoryEntries :: "'v cue_lib \<Rightarrow> 'v Resource list \<Rightarrow> goerr + InventoryEntry list" where
  "buildInventoryEntries C resources = inventory_loop C resources []"

text \<open>What both renderers do with a loaded release: prepare, process, build the inventory.\<close>

definition render_prepared ::
  "'v cue_eval \<Rightarrow> poll \<Rightarrow> 'v \<Rightarrow> 'v Module \<Rightarrow> 'v list \<Rightarrow> 'v Provider \<Rightarrow> (ReleaseMetadata \<Rightarrow> string)
     \<Rightarrow> (goerr + 'v RenderResult) option" where
  "render_prepared C ctx raw m vals prov emptyMsg =
     Option.bind (ParseModuleRelease C raw m vals) (\<lambda>parsed. Some
       (case parsed of
          Inl e \<Rightarrow> Inl (Errorf_w ''parsing module release: '' e [])
        | Inr rel \<Rightarrow>
            (case ProcessModuleRelease C ctx rel prov LabelManagedByControllerValue of
               Inl e \<Rightarrow> Inl (Errorf_w ''processing module release: '' e [])
             | Inr result \<Rightarrow>
                 if mr_Resources result = []
                 then Inl (errors_New (emptyMsg (pr_Metadata rel)))
                 else (case buildInventoryEntries (cv_Lib C) (mr_Resources result) of
                         Inl e \<Rightarrow> Inl (Errorf_w ''building inventory entries: '' e [])
                       | Inr entries \<Rightarrow> Inr \<lparr>rr_Resources = mr_Resources result, rr_InventoryEntries = entries,
                            rr_Warnings = mr_Warnings result\<rparr>))))"

subsection \<open>From the registry (\<open>module.go\<close>)\<close>

definition registry_values :: "'v cue_eval \<Rightarrow> 'v Module \<Rightarrow> RawValues option \<Rightarrow> goerr + 'v list" where
  "registry_values C m vals =
     (case Option.bind vals rv_Raw of
        Some raw \<Rightarrow>
          (let compiled = cv_CompileBytes C raw in
           case cv_Err C compiled of
             Some e \<Rightarrow> Inl (Errorf_w ''compiling values: '' e [])
           | None \<Rightarrow> Inr [compiled])
      | None \<Rightarrow> Inr (if cv_Exists C (mo_Config m) then [mo_Config m] else []))"

definition registry_body ::
  "('w, 'v) render_env \<Rightarrow> string \<Rightarrow> string \<Rightarrow> RawValues option \<Rightarrow> 'v Provider \<Rightarrow> 'w
     \<Rightarrow> ((goerr + 'v RenderResult) \<times> 'w) option" where
  "registry_body E name dir vals prov w =
     (let C = re_Cue E in
      case LoadModulePackage E dir w of
        (Inl e, w1) \<Rightarrow> Some (Inl (Errorf_w ''loading synthesized release: '' e []), w1)
      | (Inr raw, w1) \<Rightarrow>
          (case extractModuleFromRelease C raw dir of
             Inl e \<Rightarrow> Some (Inl (Errorf_w ''extracting module from release: '' e []), w1)
           | Inr m \<Rightarrow>
               (case registry_values C m vals of
                  Inl e \<Rightarrow> Some (Inl e, w1)
                | Inr cueValues \<Rightarrow>
                    map_option (\<lambda>r. (r, w1)) (render_prepared C (re_Poll E) raw m cueValues prov
                      (\<lambda>_. ''module '' @ Quote name @ '': no resources rendered'')))))"

text \<open>The deferred \<open>os.RemoveAll\<close> runs on every return after the synthesis.\<close>

definition RenderModuleFromRegistry ::
  "('w, 'v) render_env \<Rightarrow> string \<Rightarrow> string \<Rightarrow> string \<Rightarrow> string \<Rightarrow> RawValues option \<Rightarrow> 'v Provider \<Rightarrow> 'w
     \<Rightarrow> ((goerr + 'v RenderResult) \<times> 'w) option" where
  "RenderModuleFromRegistry E name namespace modulePath moduleVersion vals prov w =
     (case SynthesizeRelease (re_FS E) \<lparr>sy_Name = name, sy_Namespace = namespace, sy_ModulePath = modulePath,
             sy_ModuleVersion = moduleVersion\<rparr> w of
        (Inl e, w1) \<Rightarrow> Some (Inl (Errorf_w ''synthesizing release: '' e []), w1)
      | (Inr dir, w1) \<Rightarrow>
          map_option (\<lambda>(r, w2). (r, snd (fs_RemoveAll (re_FS E) dir w2))) (registry_body E name dir vals prov w1))"

text \<open>\<open>RegistryRenderer.RenderModule\<close>, as the parameter of the ModuleRelease loop.\<close>

definition RegistryRenderer ::
  "('w, 'v) render_env \<Rightarrow> 'v Provider \<Rightarrow> string \<Rightarrow> string \<Rightarrow> string \<Rightarrow> string \<Rightarrow> RawValues option \<Rightarrow> 'w
     \<Rightarrow> ((goerr + 'v RenderResult) \<times> 'w) option" where
  "RegistryRenderer E prov name namespace modulePath moduleVersion vals w =
     RenderModuleFromRegistry E name namespace modulePath moduleVersion vals prov w"

subsection \<open>From an artifact (\<open>release.go\<close>, \<open>renderer.go\<close>)\<close>

definition KindModuleRelease :: string where
  "KindModuleRelease = ''ModuleRelease''"

definition ErrUnsupportedKind :: goerr where
  "ErrUnsupportedKind = GoErr ''unsupported release kind'' (Sentinel ''ErrUnsupportedKind'') []"

definition KindBundleRelease :: string where
  "KindBundleRelease = ''BundleRelease''"

definition LoadReleaseFromPath :: "('w, 'v) render_env \<Rightarrow> string \<Rightarrow> 'w \<Rightarrow> (goerr + 'v \<times> string) \<times> 'w" where
  "LoadReleaseFromPath E packageDir w =
     (let C = re_Cue E in
      case LoadModulePackage E packageDir w of
        (Inl e, w1) \<Rightarrow> (Inl (Errorf_w ''loading release package: '' e []), w1)
      | (Inr raw, w1) \<Rightarrow>
          (let kindVal = cv_Lookup C ''kind'' raw in
           (if \<not> cv_Exists C kindVal
            then Inl (errors_New (''release package at '' @ Quote packageDir @ '' has no kind field''))
            else case cv_String C kindVal of
              (_, Some e) \<Rightarrow> Inl (Errorf_w ''reading kind field: '' e [])
            | (kind, None) \<Rightarrow> Inr (raw, kind), w1)))"

definition RenderLoadedModuleRelease ::
  "'v cue_eval \<Rightarrow> poll \<Rightarrow> 'v \<Rightarrow> string \<Rightarrow> 'v Provider \<Rightarrow> (goerr + 'v RenderResult) option" where
  "RenderLoadedModuleRelease C ctx raw packageDir prov =
     (case extractModuleFromRelease C raw packageDir of
        Inl e \<Rightarrow> Some (Inl (Errorf_w ''extracting module from release: '' e []))
      | Inr m \<Rightarrow> render_prepared C ctx raw m [] prov
          (\<lambda>meta. ''release '' @ Quote (rmd_Name meta) @ '': no resources rendered''))"

text \<open>
  \<open>PackageReleaseRenderer.Render\<close>; the kind it returns beside an error is dropped, as its
  caller does.
\<close>

definition package_render ::
  "('w, 'v) render_env \<Rightarrow> string \<Rightarrow> 'v Provider \<Rightarrow> 'w \<Rightarrow> ((goerr + string \<times> 'v RenderResult) \<times> 'w) option" where
  "package_render E packageDir prov w =
     (case LoadReleaseFromPath E packageDir w of
        (Inl e, w1) \<Rightarrow> Some (Inl e, w1)
      | (Inr (raw, kind), w1) \<Rightarrow>
          if kind = KindModuleRelease
          then map_option (\<lambda>r. (map_sum id (Pair kind) r, w1))
                 (RenderLoadedModuleRelease (re_Cue E) (re_Poll E) raw packageDir prov)
          else if kind = KindBundleRelease
          then Some (Inl (Errorf_w [] ErrUnsupportedKind '': BundleRelease rendering is not yet implemented''), w1)
          else Some (Inl (Errorf_w [] ErrUnsupportedKind ('': '' @ Quote kind)), w1))"

text \<open>Without values there is nothing to walk: this renderer returns on every input.\<close>

lemma ParseModuleRelease_no_values: "\<exists>r. ParseModuleRelease C spec m [] = Some r"
  by (simp add: ParseModuleRelease_def Config_def Let_def)

lemma RenderLoadedModuleRelease_returns: "\<exists>r. RenderLoadedModuleRelease C ctx raw dir prov = Some r"
  using ParseModuleRelease_no_values [of C raw]
  by (auto simp: RenderLoadedModuleRelease_def render_prepared_def bind_eq_Some_conv split: sum.splits)

lemma package_render_returns: "\<exists>r w'. package_render E dir prov w = Some (r, w')"
  using RenderLoadedModuleRelease_returns [of "re_Cue E" "re_Poll E" _ dir prov]
  by (auto simp: package_render_def split: prod.splits sum.splits)

text \<open>So its value exists, and the Release loop takes it as a function.\<close>

definition PackageReleaseRenderer ::
  "('w, 'v) render_env \<Rightarrow> string \<Rightarrow> 'v Provider \<Rightarrow> 'w \<Rightarrow> (goerr + string \<times> 'v RenderResult) \<times> 'w" where
  "PackageReleaseRenderer E packageDir prov w = the (package_render E packageDir prov w)"

lemma PackageReleaseRenderer_eq:
  "package_render E dir prov w = Some (PackageReleaseRenderer E dir prov w)"
  using package_render_returns [of E dir prov w] by (auto simp: PackageReleaseRenderer_def)

subsection \<open>Inventory entries\<close>

lemma inventory_loop_converts:
  "inventory_loop C rs es = Inr entries \<Longrightarrow>
     \<exists>us. to_unstructured_loop C rs acc = Inr (acc @ us) \<and> entries = es @ map NewEntryFromResource us"
proof (induction rs arbitrary: es acc)
  case (Cons r rs)
  then obtain u where u: "ToUnstructured C r = Inr u" "inventory_loop C rs (es @ [NewEntryFromResource u]) = Inr entries"
    by (auto split: sum.splits)
  from Cons.IH [OF this(2), of "acc @ [u]"] u(1) show ?case by auto
qed simp

lemma buildInventoryEntries_converts:
  "buildInventoryEntries C rs = Inr entries \<Longrightarrow>
     \<exists>us. toUnstructuredSlice C rs = Inr us \<and> entries = map NewEntryFromResource us"
  using inventory_loop_converts [of C rs "[]" entries "[]"]
  by (simp add: buildInventoryEntries_def toUnstructuredSlice_def)

text \<open>
  The contract between a renderer and a reconcile loop: something was rendered, all of it converts,
  and the inventory lists the converted objects one by one.
\<close>

definition sound_result :: "'v cue_lib \<Rightarrow> 'v RenderResult \<Rightarrow> bool" where
  "sound_result C rr \<longleftrightarrow> rr_Resources rr \<noteq> []
     \<and> (case toUnstructuredSlice C (rr_Resources rr) of
          Inl _ \<Rightarrow> False
        | Inr us \<Rightarrow> rr_InventoryEntries rr = map NewEntryFromResource us)"

lemma sound_resultD:
  "sound_result C rr \<Longrightarrow> toUnstructuredSlice C (rr_Resources rr) = Inr us
     \<Longrightarrow> rr_InventoryEntries rr = map NewEntryFromResource us"
  by (simp add: sound_result_def)

lemma render_prepared_sound:
  assumes "render_prepared C ctx raw m vals prov msg = Some (Inr rr)" shows "sound_result (cv_Lib C) rr"
proof -
  obtain parsed where "ParseModuleRelease C raw m vals = Some parsed"
    using assms by (auto simp: render_prepared_def bind_eq_Some_conv)
  with assms show ?thesis
    by (auto simp: render_prepared_def sound_result_def split: sum.splits if_splits
        dest!: buildInventoryEntries_converts)
qed

lemma registry_body_sound:
  assumes "registry_body E name dir vals prov w = Some (Inr rr, w')"
  shows "sound_result (cv_Lib (re_Cue E)) rr"
  using assms
  by (auto simp: registry_body_def Let_def split: prod.splits sum.splits dest: render_prepared_sound)

lemma RenderModuleFromRegistry_sound:
  assumes "RenderModuleFromRegistry E name ns path ver vals prov w = Some (Inr rr, w')"
  shows "sound_result (cv_Lib (re_Cue E)) rr"
  using assms
  by (auto simp: RenderModuleFromRegistry_def split: prod.splits sum.splits dest: registry_body_sound)

lemma RenderLoadedModuleRelease_sound:
  "RenderLoadedModuleRelease C ctx raw dir prov = Some (Inr rr) \<Longrightarrow> sound_result (cv_Lib C) rr"
  by (auto simp: RenderLoadedModuleRelease_def split: sum.splits dest: render_prepared_sound)

lemma map_sum_Pair_Inr: "map_sum id (Pair k) r = Inr (kind, rr) \<longleftrightarrow> r = Inr rr \<and> kind = k"
  by (cases r) auto

lemma package_render_sound:
  assumes "package_render E dir prov w = Some (Inr (kind, rr), w')"
  shows "kind = KindModuleRelease \<and> sound_result (cv_Lib (re_Cue E)) rr"
  using assms
  by (auto simp: package_render_def map_sum_Pair_Inr split: prod.splits sum.splits if_splits
      dest: RenderLoadedModuleRelease_sound)

text \<open>The values a registry render validates against the module it has loaded.\<close>

definition registry_input ::
  "('w, 'v) render_env \<Rightarrow> string \<Rightarrow> string \<Rightarrow> string \<Rightarrow> string \<Rightarrow> RawValues option \<Rightarrow> 'w \<Rightarrow> ('v Module \<times> 'v list) option" where
  "registry_input E name ns path ver vals w =
     (case SynthesizeRelease (re_FS E) \<lparr>sy_Name = name, sy_Namespace = ns, sy_ModulePath = path, sy_ModuleVersion = ver\<rparr> w of
        (Inl e, w1) \<Rightarrow> None
      | (Inr dir, w1) \<Rightarrow>
          (case LoadModulePackage E dir w1 of
             (Inl e, w2) \<Rightarrow> None
           | (Inr raw, w2) \<Rightarrow>
               (case extractModuleFromRelease (re_Cue E) raw dir of
                  Inl e \<Rightarrow> None
                | Inr m \<Rightarrow>
                    (case registry_values (re_Cue E) m vals of Inl e \<Rightarrow> None | Inr vs \<Rightarrow> Some (m, vs)))))"

lemma ParseModuleRelease_returns:
  assumes "cue_laws C"
  shows "ParseModuleRelease C spec m vals = None
    \<longleftrightarrow> cv_Exists C (mo_Config m) \<and> vals \<noteq> [] \<and> \<not> config_walks C (mo_Config m) vals"
  by (rule cue_laws.Config_cases [OF assms, of "mo_Config m" vals "''module''" "bestEffortReleaseName C spec m"])
    (auto simp: ParseModuleRelease_def Let_def)

lemma RenderModuleFromRegistry_returns:
  assumes "cue_laws (re_Cue E)"
  shows "RenderModuleFromRegistry E name ns path ver vals prov w = None \<longleftrightarrow>
    (case registry_input E name ns path ver vals w of
       None \<Rightarrow> False
     | Some (m, vs) \<Rightarrow> cv_Exists (re_Cue E) (mo_Config m) \<and> vs \<noteq> [] \<and> \<not> config_walks (re_Cue E) (mo_Config m) vs)"
proof -
  have rp: "render_prepared (re_Cue E) ctx raw m vs prov msg = None \<longleftrightarrow>
      cv_Exists (re_Cue E) (mo_Config m) \<and> vs \<noteq> [] \<and> \<not> config_walks (re_Cue E) (mo_Config m) vs" for ctx raw m vs msg
    using ParseModuleRelease_returns [OF assms, of raw m vs] by (simp add: render_prepared_def bind_eq_None_conv)
  show ?thesis
    by (auto simp: RenderModuleFromRegistry_def registry_input_def registry_body_def Let_def rp
        split: prod.splits sum.splits)
qed

subsection \<open>Properties\<close>

text \<open>
  C31: the production renderers keep the contract of the reconcile loops, and when they return. A
  rendered result is never empty, every rendered resource converts to an API object, and the
  inventory entries are those of the converted objects, one by one and in order. The package
  renderer returns on every input, for packages of kind ModuleRelease only with a result. The
  registry renderer does not return if and only if the module it has loaded has a \<open>#config\<close> and the
  walk over the values (the release's, or \<open>#config\<close> itself when the release has none) does not
  end.
\<close>

theorem renderers_sound:
  assumes "cue_laws (re_Cue E)"
  shows "(\<forall>rr w'. RenderModuleFromRegistry E name ns path ver vals prov w = Some (Inr rr, w') \<longrightarrow>
      sound_result (cv_Lib (re_Cue E)) rr)
    \<and> (RenderModuleFromRegistry E name ns path ver vals prov w = None \<longleftrightarrow>
        (case registry_input E name ns path ver vals w of
           None \<Rightarrow> False
         | Some (m, vs) \<Rightarrow> cv_Exists (re_Cue E) (mo_Config m) \<and> vs \<noteq> [] \<and> \<not> config_walks (re_Cue E) (mo_Config m) vs))
    \<and> (\<exists>r w'. package_render E dir prov w = Some (r, w')
        \<and> (\<forall>kind rr. r = Inr (kind, rr) \<longrightarrow> kind = KindModuleRelease \<and> sound_result (cv_Lib (re_Cue E)) rr))"
proof (intro conjI)
  show "\<forall>rr w'. RenderModuleFromRegistry E name ns path ver vals prov w = Some (Inr rr, w') \<longrightarrow>
      sound_result (cv_Lib (re_Cue E)) rr"
    by (intro allI impI) (rule RenderModuleFromRegistry_sound)
  obtain r w' where r: "package_render E dir prov w = Some (r, w')"
    using package_render_returns [of E dir prov w] by blast
  then have "\<forall>kind rr. r = Inr (kind, rr) \<longrightarrow> kind = KindModuleRelease \<and> sound_result (cv_Lib (re_Cue E)) rr"
    by (auto dest: package_render_sound)
  with r show "\<exists>r w'. package_render E dir prov w = Some (r, w')
      \<and> (\<forall>kind rr. r = Inr (kind, rr) \<longrightarrow> kind = KindModuleRelease \<and> sound_result (cv_Lib (re_Cue E)) rr)"
    by blast
qed (rule RenderModuleFromRegistry_returns [OF assms])

text \<open>The environment of the witnesses: the package is a data tree with the component \<open>web\<close>.\<close>

definition demo_package :: cval where
  "demo_package = CStruct [(''kind'', CStr ''ModuleRelease''),
     (''metadata'', CStruct [(''name'', CStr ''shop''), (''namespace'', CStr ''prod'')]),
     (''#module'', CStruct [(''#config'', port_schema)]),
     (''components'', demo_schema)]"

definition tree_env :: "'w fs_api \<Rightarrow> ('w, cval) render_env" where
  "tree_env FS = \<lparr>re_FS = FS, re_Abs = Inr, re_Instances = (\<lambda>dir w. ([\<lparr>bi_Err = None, bi_Source = []\<rparr>], w)),
     re_BuildInstance = (\<lambda>i. demo_package), re_Cue = tree_cue, re_Poll = (\<lambda>n. None)\<rparr>"

lemma re_Cue_tree_env [simp]: "re_Cue (tree_env FS) = tree_cue" "re_FS (tree_env FS) = FS"
  by (simp_all add: tree_env_def)

text \<open>The same module with the recursive definition as its \<open>#config\<close>.\<close>

definition rec_env :: "'w fs_api \<Rightarrow> ('w, cval) render_env" where
  "rec_env FS = (tree_env FS)\<lparr>re_Cue := rec_cue,
     re_BuildInstance := (\<lambda>i. CStruct [(''metadata'', CStruct [(''name'', CStr ''shop'')]),
       (''#module'', CStruct [(''#config'', rec_schema)])])\<rparr>"

theorem renderers_sound_witness:
  "(\<exists>rr w'. RenderModuleFromRegistry (tree_env demo_fs) ''shop'' ''prod'' ''m@v0'' ''v1'' None demo_provider () = Some (Inr rr, w')
     \<and> length (rr_Resources rr) = 2 \<and> sound_result tree_lib rr)
   \<and> RenderModuleFromRegistry (rec_env demo_fs) ''shop'' ''prod'' ''m@v0'' ''v1'' None demo_provider () = None"
proof
  have "(case RenderModuleFromRegistry (tree_env demo_fs) ''shop'' ''prod'' ''m@v0'' ''v1'' None demo_provider () of
      Some (Inr rr, w') \<Rightarrow> length (rr_Resources rr) = 2 | _ \<Rightarrow> False)" by code_simp
  then obtain rr w' where run: "RenderModuleFromRegistry (tree_env demo_fs) ''shop'' ''prod'' ''m@v0'' ''v1'' None demo_provider ()
      = Some (Inr rr, w')" "length (rr_Resources rr) = 2"
    by (auto split: option.splits prod.splits sum.splits)
  have "cue_laws (re_Cue (tree_env demo_fs))" using tree.cue_laws_axioms by simp
  from renderers_sound [OF this, of "''shop''" "''prod''" "''m@v0''" "''v1''" None demo_provider "()"] run
  show "\<exists>rr w'. RenderModuleFromRegistry (tree_env demo_fs) ''shop'' ''prod'' ''m@v0'' ''v1'' None demo_provider () = Some (Inr rr, w')
     \<and> length (rr_Resources rr) = 2 \<and> sound_result tree_lib rr" by auto
  have E: "re_Cue (rec_env demo_fs) = rec_cue" by (simp add: rec_env_def)
  have input: "(case registry_input (rec_env demo_fs) ''shop'' ''prod'' ''m@v0'' ''v1'' None () of
      Some (m, vs) \<Rightarrow> mo_Config m = rec_schema \<and> vs = [rec_schema] | None \<Rightarrow> False)" by code_simp
  have "\<not> config_walks rec_cue rec_schema [rec_schema]" "cv_Exists rec_cue rec_schema"
    using rec_walk_never_ends by (simp_all add: config_walks_def rec_schema_def)
  with input renderers_sound [of "rec_env demo_fs" "''shop''" "''prod''" "''m@v0''" "''v1''" None demo_provider "()", unfolded E,
      OF rec.cue_laws_axioms]
  show "RenderModuleFromRegistry (rec_env demo_fs) ''shop'' ''prod'' ''m@v0'' ''v1'' None demo_provider () = None"
    by (auto split: option.splits)
qed

text \<open>
  The temporary module of a registry render does not outlive the call. With an empty
  coordinate nothing is created; otherwise, whatever fails and wherever, the last thing the
  call does is to remove the directory it created.
\<close>

theorem registry_render_cleans_up:
  assumes "RenderModuleFromRegistry E name ns path ver vals prov w = Some (r, w')"
  shows "if name = [] \<or> ns = [] \<or> path = [] \<or> ver = [] then w' = w \<and> (\<exists>e. r = Inl e)
    else case fs_MkdirTemp (re_FS E) ''opm-release-*'' w of
        (Inl e, w1) \<Rightarrow> w' = w1 \<and> (\<exists>e. r = Inl e)
      | (Inr dir, w1) \<Rightarrow> \<exists>w2. w' = snd (fs_RemoveAll (re_FS E) dir w2)"
  using assms
  by (auto simp: RenderModuleFromRegistry_def SynthesizeRelease_def split: if_splits prod.splits sum.splits option.splits)

definition removing_fs :: "string list fs_api" where
  "removing_fs = demo_fs\<lparr>fs_RemoveAll := (\<lambda>p w. (None, w @ [p])),
     fs_OpenFile := (\<lambda>p m w. (if p = ''/tmp/dest/release.cue'' then Some (errors_New ''disk full'') else None, w))\<rparr>"

theorem registry_render_cleans_up_witness:
  "\<exists>r w2. RenderModuleFromRegistry (tree_env removing_fs) ''shop'' ''prod'' ''m@v0'' ''v1'' None demo_provider []
     = Some (r, w2 @ [''/tmp/dest''])"
proof -
  have laws: "cue_laws (re_Cue (tree_env removing_fs))" using tree.cue_laws_axioms by simp
  have "config_walks tree_cue c vs" for c vs by (simp add: config_walks_def tree.walk_always_ends list_all_iff)
  then obtain r w' where run: "RenderModuleFromRegistry (tree_env removing_fs) ''shop'' ''prod'' ''m@v0'' ''v1'' None demo_provider []
      = Some (r, w')"
    using RenderModuleFromRegistry_returns [OF laws, of "''shop''" "''prod''" "''m@v0''" "''v1''" None demo_provider "[]"]
    by (cases "RenderModuleFromRegistry (tree_env removing_fs) ''shop'' ''prod'' ''m@v0'' ''v1'' None demo_provider []")
      (auto split: option.splits)
  have fs: "fs_MkdirTemp removing_fs ''opm-release-*'' [] = (Inr ''/tmp/dest'', [])"
    "snd (fs_RemoveAll removing_fs dir w2) = w2 @ [dir]" for dir w2
    by (simp_all add: removing_fs_def demo_fs_def)
  from registry_render_cleans_up [OF run] run show ?thesis by (simp add: fs)
qed

end
