(* ===== verification/Opm_Release.thy ===== *)
theory Opm_Release
  imports Opm_ModuleRelease Opm_Render
begin

text \<open>
  \<open>internal/reconcile/release.go\<close>: the Release reconcile loop, which takes its package from
  a Flux source artifact. Each phase function of the source is a definition that returns its
  value or a \<open>phaseFail\<close>, with the object and the process state it leaves; the local
  variables of \<open>ReconcileRelease\<close> and its deferred commit are those of the shared record
  \<open>Locals\<close>. The deferred removal of the extraction directory runs before the commit.
\<close>

subsection \<open>Dependencies\<close>

text \<open>
  A missing fetcher is replaced by an \<open>ArtifactFetcher\<close>, which works in \<open>rp_Env\<close>, and a
  missing renderer by the \<open>PackageReleaseRenderer\<close>, which works in \<open>rp_RenderEnv\<close>; a renderer
  evaluates the CUE package at a directory with the provider and returns its kind with the
  result.
\<close>

record ('w, 'o, 'v) ReleaseParams = "('w, 'o, 'v) ReconcileParams" +
  rp_GetSource :: "'w get_source"
  rp_Env :: "'w source_env"
  rp_Fetcher :: "(string \<Rightarrow> string \<Rightarrow> string \<Rightarrow> FetchOptions \<Rightarrow> 'w \<Rightarrow> goerr option \<times> 'w) option"
  rp_RenderEnv :: "('w, 'v) render_env"
  rp_Provider :: "'v Provider"
  rp_Renderer :: "(string \<Rightarrow> 'v Provider \<Rightarrow> 'w \<Rightarrow> (goerr + string \<times> 'v RenderResult) \<times> 'w) option"

type_synonym ('w, 'v) rel_params = "('w, Release, 'v) ReleaseParams"
type_synonym 'w rel_state = "('w, Release) pstate"
type_synonym rel_locals = "Release Locals"

definition DefaultReleaseInterval :: duration where
  "DefaultReleaseInterval = 5 * Minute"

definition rel_owned :: "string list" where
  "rel_owned = [ReadyCondition, ReconcilingCondition, StalledCondition, DriftedCondition]"

record phaseFail =
  pf_outcome :: Outcome
  pf_errMsg :: string
  pf_retryAfter :: duration

definition stalled_fail :: "string \<Rightarrow> phaseFail" where
  "stalled_fail msg = \<lparr>pf_outcome = FailedStalled, pf_errMsg = msg, pf_retryAfter = StalledRecheckInterval\<rparr>"

definition transient_fail :: "string \<Rightarrow> duration \<Rightarrow> phaseFail" where
  "transient_fail msg d = \<lparr>pf_outcome = FailedTransient, pf_errMsg = msg, pf_retryAfter = d\<rparr>"

subsection \<open>Phase 1: resolve the source\<close>

definition resolveReleaseSource ::
  "('w, 'v) rel_params \<Rightarrow> Release \<Rightarrow> duration \<Rightarrow> 'w rel_state
     \<Rightarrow> (phaseFail + ArtifactRef) \<times> Release \<times> 'w rel_state" where
  "resolveReleaseSource P rel interval s =
     (let K = pa_Kube P in
      case call (Resolve K (rp_GetSource P) (sp_SourceRef (cr_Spec rel)) (obj_namespace rel)) s of
        (Inr artifactRef, s1) \<Rightarrow> (Inr artifactRef, rel, s1)
      | (Inl e, s1) \<Rightarrow>
          (let s2 = Eventf EventTypeWarning SourceNotReadyReason ''Resolve'' (err_msg e) s1
           in if errors_Is e ''ErrSourceNotFound'' \<or> errors_Is e ''ErrUnsupportedSourceKind''
              then (Inl (stalled_fail (err_msg e)),
                    on_conditions (MarkStalled K SourceNotReadyReason (err_msg e)) rel, s2)
              else (Inl (transient_fail (err_msg e) interval),
                    on_conditions (MarkNotReady K SourceNotReadyReason (err_msg e)) rel, s2)))"

subsection \<open>Phase 2: fetch the artifact\<close>

definition effective_fetcher ::
  "('w, 'v) rel_params \<Rightarrow> string \<Rightarrow> string \<Rightarrow> string \<Rightarrow> FetchOptions \<Rightarrow> 'w \<Rightarrow> goerr option \<times> 'w" where
  "effective_fetcher P =
     (case rp_Fetcher P of
        None \<Rightarrow> Fetch (rp_Env P) \<lparr>af_HTTPClient = None, af_MaxSize = 0\<rparr>
      | Some f \<Rightarrow> f)"

definition fetchReleaseArtifact ::
  "('w, 'v) rel_params \<Rightarrow> Release \<Rightarrow> ArtifactRef \<Rightarrow> duration \<Rightarrow> 'w rel_state
     \<Rightarrow> (phaseFail + string) \<times> Release \<times> 'w rel_state" where
  "fetchReleaseArtifact P rel art interval s =
     (let K = pa_Kube P; FS = se_FS (rp_Env P) in
      case call (fs_MkdirTemp FS ''opm-release-artifact-*'') s of
        (Inl e, s1) \<Rightarrow>
          (Inl (transient_fail (err_msg e) interval),
           on_conditions (MarkNotReady K FetchFailedReason (''creating temp dir: '' @ err_msg e)) rel, s1)
      | (Inr extractDir, s1) \<Rightarrow>
          (let opts = \<lparr>fo_Format = FormatForKind (art_Kind art), fo_SkipRootCUEModuleValidation = True\<rparr>
           in case call (effective_fetcher P (art_URL art) (art_Digest art) extractDir opts) s1 of
                (Some e, s2) \<Rightarrow>
                  (let s3 = snd (call (fs_RemoveAll FS extractDir) s2);
                       s4 = Eventf EventTypeWarning FetchFailedReason ''Fetch'' (err_msg e) s3
                   in (Inl (transient_fail (err_msg e) interval),
                       on_conditions (MarkNotReady K FetchFailedReason (err_msg e)) rel, s4))
              | (None, s2) \<Rightarrow> (Inr extractDir, rel, s2)))"

subsection \<open>Phase 3: navigate to the package\<close>

definition errReleaseFileMissing :: goerr where
  "errReleaseFileMissing = GoErr ''release.cue not found'' (Sentinel ''errReleaseFileMissing'') []"

definition resolvePackagePath :: "'w fs_api \<Rightarrow> string \<Rightarrow> string \<Rightarrow> 'w \<Rightarrow> (goerr + string) \<times> 'w" where
  "resolvePackagePath FS root relPath w =
     (let cleaned = Clean (''/'' @ relPath) in
      if Contains cleaned ''..''
      then (Inl (errors_New (''path '' @ Quote relPath @ '' contains traversal'')), w)
      else
        (let target = filepath_Join [root, TrimPrefix cleaned ''/''] in
         case fs_Stat FS target w of
           (Inl e, w1) \<Rightarrow>
             (Inl (if fs_IsNotExist FS e
                   then errors_New (''path '' @ Quote relPath @ '' does not exist in artifact'')
                   else Errorf_w (''stat '' @ Quote relPath @ '': '') e []), w1)
         | (Inr info, w1) \<Rightarrow>
             if \<not> fi_IsDir info
             then (Inl (errors_New (''path '' @ Quote relPath @ '' is not a directory'')), w1)
             else
               (case fs_Stat FS (filepath_Join [target, ''release.cue'']) w1 of
                  (Inl e, w2) \<Rightarrow>
                    (Inl (if fs_IsNotExist FS e
                          then Errorf_w [] errReleaseFileMissing ('' at '' @ Quote relPath)
                          else Errorf_w ''stat release.cue: '' e []), w2)
                | (Inr fi, w2) \<Rightarrow> (Inr target, w2))))"

definition navigateReleasePath ::
  "('w, 'v) rel_params \<Rightarrow> Release \<Rightarrow> string \<Rightarrow> 'w rel_state
     \<Rightarrow> (phaseFail + string) \<times> Release \<times> 'w rel_state" where
  "navigateReleasePath P rel extractDir s =
     (case call (resolvePackagePath (se_FS (rp_Env P)) extractDir (sp_Path (cr_Spec rel))) s of
        (Inr packageDir, s1) \<Rightarrow> (Inr packageDir, rel, s1)
      | (Inl e, s1) \<Rightarrow>
          (let reason = (if errors_Is e ''errReleaseFileMissing'' then ReleaseFileNotFoundReason
                         else PathNotFoundReason)
           in (Inl (stalled_fail (err_msg e)),
               on_conditions (MarkStalled (pa_Kube P) reason (err_msg e)) rel,
               Eventf EventTypeWarning reason ''Load'' (err_msg e) s1)))"

subsection \<open>Phases 4 and 5: render\<close>

definition isResolutionErrorMsg :: "goerr \<Rightarrow> bool" where
  "isResolutionErrorMsg e \<longleftrightarrow> Contains (err_msg e) ''loading synthesized release''
     \<or> Contains (err_msg e) ''loading release package'' \<or> Contains (err_msg e) ''resolving''"

definition renderErrorReason :: "goerr \<Rightarrow> string" where
  "renderErrorReason e =
     (if errors_Is e ''ErrUnsupportedKind'' then UnsupportedKindReason
      else if isResolutionErrorMsg e then ResolutionFailedReason
      else RenderFailedReason)"

definition effective_renderer ::
  "('w, 'v) rel_params \<Rightarrow> string \<Rightarrow> 'v Provider \<Rightarrow> 'w \<Rightarrow> (goerr + string \<times> 'v RenderResult) \<times> 'w" where
  "effective_renderer P =
     (case rp_Renderer P of
        None \<Rightarrow> PackageReleaseRenderer (rp_RenderEnv P)
      | Some f \<Rightarrow> f)"

definition renderReleasePackage ::
  "('w, 'v) rel_params \<Rightarrow> Release \<Rightarrow> string \<Rightarrow> 'w rel_state
     \<Rightarrow> (phaseFail + 'v RenderResult) \<times> Release \<times> 'w rel_state" where
  "renderReleasePackage P rel packageDir s =
     (let K = pa_Kube P in
      case call (effective_renderer P packageDir (rp_Provider P)) s of
        (Inl e, s1) \<Rightarrow>
          (let reason = renderErrorReason e
           in (Inl (stalled_fail (err_msg e)),
               on_conditions (MarkStalled K reason (err_msg e)) rel,
               Eventf EventTypeWarning reason ''Render'' (err_msg e) s1))
      | (Inr (kind, result), s1) \<Rightarrow>
          if kind \<noteq> KindModuleRelease then
            (let msg = ''unexpected release kind '' @ Quote kind
             in (Inl (stalled_fail msg),
                 on_conditions (MarkStalled K UnsupportedKindReason msg) rel, s1))
          else (Inr result, rel, s1))"

definition computeReleaseDigests ::
  "('w, 'v) rel_params \<Rightarrow> Release \<Rightarrow> 'v RenderResult \<Rightarrow> DigestSet
     \<Rightarrow> phaseFail option \<times> Release \<times> DigestSet" where
  "computeReleaseDigests P rel rr digests =
     (case RenderDigest (pa_Cue P) (rr_Resources rr) of
        Inl e \<Rightarrow>
          (Some (stalled_fail (err_msg e)),
           on_conditions (MarkStalled (pa_Kube P) RenderFailedReason
             (''computing render digest: '' @ err_msg e)) rel, digests)
      | Inr renderDigest \<Rightarrow>
          (None, rel, digests\<lparr>ds_Render := renderDigest,
             ds_Inventory := ComputeDigest (rr_InventoryEntries rr),
             ds_Config := ConfigDigest Map.empty None\<rparr>))"

subsection \<open>Apply and prune\<close>

definition releaseBackoff :: "Release \<Rightarrow> duration" where
  "releaseBackoff rel =
     ComputeBackoff ((case st_FailureCounters (cr_Status rel) of None \<Rightarrow> 0 | Some c \<Rightarrow> fc_Reconcile c) + 1)"

record applyPruneResult =
  ap_outcome :: Outcome
  ap_entries :: "InventoryEntry list"

definition release_prune ::
  "('w, 'v) rel_params \<Rightarrow> kclient \<Rightarrow> InventoryEntry list \<Rightarrow> 'v RenderResult \<Rightarrow> Release \<Rightarrow> phaseOutcomes
     \<Rightarrow> 'w rel_state \<Rightarrow> (phaseFail + applyPruneResult) option \<times> Release \<times> phaseOutcomes \<times> 'w rel_state" where
  "release_prune P c staleSet rr rel phases s =
     (let K = pa_Kube P; ph = phases\<lparr>pruneRan := True\<rparr>; entries = rr_InventoryEntries rr in
      if sp_Prune (cr_Spec rel) \<and> staleSet \<noteq> [] then
        (case Prune K (pa_Live P) c [] staleSet s of
           (res, Some e, s1) \<Rightarrow>
             (Some (Inl (transient_fail (err_msg e) (releaseBackoff rel))),
              on_conditions (MarkNotReady K PruneFailedReason (err_msg e)) rel,
              ph\<lparr>pruneFailed := True\<rparr>,
              Eventf EventTypeWarning PruneFailedReason ''Prune'' (err_msg e) s1)
         | (res, None, s1) \<Rightarrow>
             (Some (Inr \<lparr>ap_outcome = AppliedAndPruned, ap_entries = entries\<rparr>), rel, ph,
              if pr_Deleted res > 0
              then Eventf EventTypeNormal PrunedReason ''Prune''
                     (''Pruned '' @ nat_str (pr_Deleted res) @ '' stale resources'') s1
              else s1))
      else (Some (Inr \<lparr>ap_outcome = Applied, ap_entries = entries\<rparr>), rel, ph, s))"

definition buildReleaseApplyClient ::
  "('w, 'v) rel_params \<Rightarrow> Release \<Rightarrow> 'w rel_state
     \<Rightarrow> (goerr + ResourceManager \<times> kclient) option \<times> 'w rel_state" where
  "buildReleaseApplyClient P rel s =
     (case resolveEffectiveSA (sp_ServiceAccountName (cr_Spec rel)) (pa_DefaultServiceAccount P) of
        (effectiveSA, source) \<Rightarrow>
          if effectiveSA = [] then (Some (Inr (pa_ResourceManager P, ControllerClient)), s)
          else (case NewImpersonatedClient (pa_Kube P) (pa_Auth P) (pa_RestConfig P) (obj_namespace rel) effectiveSA s of
                  (None, s1) \<Rightarrow> (None, s1)
                | (Some (Inl e), s1) \<Rightarrow> (Some (Inl e), s1)
                | (Some (Inr impClient), s1) \<Rightarrow>
                    (Some (Inr (NewResourceManager impClient ''opm-controller'', impClient)), s1)))"

lemma buildReleaseApplyClient_eq [simp]: "buildReleaseApplyClient P rel s = buildApplyClient P rel s"
  by (simp add: buildReleaseApplyClient_def buildApplyClient_def)

definition applyAndPruneRelease ::
  "('w, 'v) rel_params \<Rightarrow> Release \<Rightarrow> 'v RenderResult \<Rightarrow> phaseOutcomes \<Rightarrow> 'w rel_state
     \<Rightarrow> (phaseFail + applyPruneResult) option \<times> Release \<times> phaseOutcomes \<times> 'w rel_state" where
  "applyAndPruneRelease P rel rr phases s =
     (let K = pa_Kube P in
      case toUnstructuredSlice (pa_Cue P) (rr_Resources rr) of
        Inl e \<Rightarrow>
          (Some (Inl (stalled_fail (err_msg e))),
           on_conditions (MarkStalled K ApplyFailedReason (''converting resources: '' @ err_msg e)) rel,
           phases, s)
      | Inr resources \<Rightarrow>
          (let staleSet = ComputeStaleSet (previousEntries (cr_Status rel)) (rr_InventoryEntries rr) in
           case buildReleaseApplyClient P rel s of
             (None, s1) \<Rightarrow> (None, rel, phases, s1)
           | (Some (Inl impErr), s1) \<Rightarrow>
               (Some (Inl (stalled_fail (err_msg impErr))),
                on_conditions (MarkStalled K ImpersonationFailedReason (err_msg impErr)) rel, phases, s1)
           | (Some (Inr (applyRM, applyClient)), s1) \<Rightarrow>
               (let ph = phases\<lparr>applyRan := True\<rparr> in
                case Apply (pa_Ssa P) applyRM resources (forceConflicts (cr_Spec rel)) s1 of
                  (Inl e, s2) \<Rightarrow>
                    (Some (Inl (transient_fail (err_msg e) (releaseBackoff rel))),
                     on_conditions (MarkNotReady K ApplyFailedReason (err_msg e)) rel,
                     ph\<lparr>applyFailed := True\<rparr>,
                     Eventf EventTypeWarning ApplyFailedReason ''Apply'' (err_msg e) s2)
                | (Inr r, s2) \<Rightarrow>
                    release_prune P applyClient staleSet rr (on_conditions (ClearDrifted K) rel) ph
                      (Eventf EventTypeNormal AppliedReason ''Apply'' (applied_note r) s2))))"

subsection \<open>Dependencies between releases\<close>

text \<open>The first blocking dependency, or the empty string.\<close>

fun depends_loop ::
  "('w, 'v) rel_params \<Rightarrow> string \<Rightarrow> NamespacedName list \<Rightarrow> 'w rel_state
     \<Rightarrow> (goerr + string) \<times> 'w rel_state" where
  "depends_loop P ns [] s = (Inr [], s)"
| "depends_loop P ns (dep # deps) s =
     (if nn_Namespace dep \<noteq> [] \<and> nn_Namespace dep \<noteq> ns then
        (Inl (errors_New (''dependency '' @ nn_Namespace dep @ ''/'' @ nn_Name dep
           @ '': cross-namespace dependencies are not supported'')), s)
      else
        (case call (ca_Get (pa_CR P) \<lparr>nn_Namespace = ns, nn_Name = nn_Name dep\<rparr>) s of
           (Inl e, s1) \<Rightarrow>
             if k_IgnoreNotFound (pa_Kube P) e = None
             then (Inr (ns @ ''/'' @ nn_Name dep @ '' (not found)''), s1)
             else (Inl (Errorf_w (''getting dependency '' @ ns @ ''/'' @ nn_Name dep @ '': '') e []), s1)
         | (Inr other, s1) \<Rightarrow>
             (case k_FindStatusCondition (pa_Kube P) (st_Conditions (cr_Status other)) ReadyCondition of
                None \<Rightarrow> (Inr (ns @ ''/'' @ nn_Name dep), s1)
              | Some ready \<Rightarrow>
                  if c_Status ready \<noteq> ConditionTrue then (Inr (ns @ ''/'' @ nn_Name dep), s1)
                  else depends_loop P ns deps s1)))"

definition checkDependsOn ::
  "('w, 'v) rel_params \<Rightarrow> Release \<Rightarrow> 'w rel_state \<Rightarrow> (goerr + string) \<times> 'w rel_state" where
  "checkDependsOn P rel s = depends_loop P (obj_namespace rel) (sp_DependsOn (cr_Spec rel)) s"

subsection \<open>The body\<close>

definition applyFail :: "phaseFail \<Rightarrow> Release \<Rightarrow> rel_locals \<Rightarrow> rel_locals" where
  "applyFail f rel L = fail_with (pf_outcome f) (pf_errMsg f) (pf_retryAfter f) (L\<lparr>l_obj := rel\<rparr>)"

definition stop_fail ::
  "phaseFail \<Rightarrow> Release \<Rightarrow> rel_locals \<Rightarrow> 'w rel_state \<Rightarrow> exit \<times> rel_locals \<times> 'w rel_state" where
  "stop_fail f rel L s = (Returned (requeue_after (pf_retryAfter f)) None, applyFail f rel L, s)"

text \<open>From the digests on.\<close>

definition rel_deploy ::
  "('w, 'v) rel_params \<Rightarrow> 'v RenderResult \<Rightarrow> duration \<Rightarrow> rel_locals \<Rightarrow> 'w rel_state
     \<Rightarrow> exit \<times> rel_locals \<times> 'w rel_state" where
  "rel_deploy P rr interval L s =
     (case computeReleaseDigests P (l_obj L) rr (l_digests L) of
        (Some f, rel, digests) \<Rightarrow> stop_fail f rel L s
      | (None, rel, digests) \<Rightarrow>
          (let L1 = L\<lparr>l_obj := rel, l_digests := digests\<rparr> in
           if IsNoOp digests (lastApplied (cr_Status rel)) then
             (Returned (requeue_after interval) None, L1\<lparr>l_outcome := NoOp\<rparr>,
              Eventf EventTypeNormal NoOpReason ''Reconcile'' ''No changes detected'' s)
           else
             (case applyAndPruneRelease P rel rr (l_phases L1) s of
                (None, rel2, ph, s1) \<Rightarrow> (Panicked, L1\<lparr>l_obj := rel2, l_phases := ph\<rparr>, s1)
              | (Some (Inl f), rel2, ph, s1) \<Rightarrow> stop_fail f rel2 (L1\<lparr>l_phases := ph\<rparr>) s1
              | (Some (Inr r), rel2, ph, s1) \<Rightarrow>
                  (Returned (requeue_after interval) None,
                   mark (MarkReady (pa_Kube P) ''Reconciliation succeeded'')
                     (L1\<lparr>l_obj := rel2, l_phases := ph, l_outcome := ap_outcome r,
                        l_newEntries := ap_entries r, l_reconciled := True\<rparr>),
                   Eventf EventTypeNormal ReconciliationSucceededReason ''Reconcile''
                     ''Reconciliation succeeded'' s1))))"

definition rel_package ::
  "('w, 'v) rel_params \<Rightarrow> string \<Rightarrow> duration \<Rightarrow> rel_locals \<Rightarrow> 'w rel_state
     \<Rightarrow> exit \<times> rel_locals \<times> 'w rel_state" where
  "rel_package P extractDir interval L s =
     (case navigateReleasePath P (l_obj L) extractDir s of
        (Inl f, rel, s1) \<Rightarrow> stop_fail f rel L s1
      | (Inr packageDir, rel, s1) \<Rightarrow>
          (case renderReleasePackage P rel packageDir s1 of
             (Inl f, rel2, s2) \<Rightarrow> stop_fail f rel2 L s2
           | (Inr rr, rel2, s2) \<Rightarrow> rel_deploy P rr interval (L\<lparr>l_obj := rel2\<rparr>) s2))"

definition source_status :: "ReleaseSpec \<Rightarrow> ArtifactRef \<Rightarrow> SourceStatus" where
  "source_status sp art = \<lparr>ss_Ref = Some (sp_SourceRef sp), ss_ArtifactRevision = art_Revision art,
     ss_ArtifactDigest = art_Digest art, ss_ArtifactURL = art_URL art\<rparr>"

definition rel_body ::
  "('w, 'v) rel_params \<Rightarrow> duration \<Rightarrow> rel_locals \<Rightarrow> 'w rel_state \<Rightarrow> exit \<times> rel_locals \<times> 'w rel_state" where
  "rel_body P interval L0 s =
     (let L = mark (MarkReconciling (pa_Kube P) ''Progressing'' ''Reconciliation in progress'') L0 in
      case resolveReleaseSource P (l_obj L) interval s of
        (Inl f, rel, s1) \<Rightarrow> stop_fail f rel L s1
      | (Inr art, rel, s1) \<Rightarrow>
          (let L1 = L\<lparr>l_obj := map_status (\<lambda>st. st\<lparr>st_Source := Some (source_status (cr_Spec rel) art)\<rparr>) rel,
                 l_digests := (l_digests L)\<lparr>ds_Source := art_Digest art\<rparr>\<rparr>
           in case fetchReleaseArtifact P (l_obj L1) art interval s1 of
                (Inl f, rel2, s2) \<Rightarrow> stop_fail f rel2 L1 s2
              | (Inr extractDir, rel2, s2) \<Rightarrow>
                  (case rel_package P extractDir interval (L1\<lparr>l_obj := rel2\<rparr>) s2 of
                     (x, L2, s3) \<Rightarrow> (x, L2, snd (call (fs_RemoveAll (se_FS (rp_Env P)) extractDir) s3)))))"

subsection \<open>The deferred commit\<close>

definition rel_commit ::
  "('w, 'v) rel_params \<Rightarrow> instant \<Rightarrow> rel_locals \<Rightarrow> 'w rel_state \<Rightarrow> 'w rel_state" where
  "rel_commit P start L s =
     (let (now, s1) = call (pa_Now P) s;
          L1 = update_status (\<lambda>st. st\<lparr>st_ObservedGeneration := om_Generation (cr_Meta (l_obj L))\<rparr>) L
      in if l_outcome L = NoOp then
           (let L2 = update_status (\<lambda>st. (updateReleaseFailureCounters (l_outcome L) (l_phases L) st)
                       \<lparr>st_NextRetryAt := None\<rparr>)
                   (mark (MarkReady (pa_Kube P) ''Reconciliation succeeded'') L1)
            in snd (patch_status rel_owned True P (l_obj L2) s1))
         else
           (let (d, s2) = since P start s1;
                (t, s3) = history_time L P s2;
                L2 = update_status (\<lambda>st. record_outcome L now t (record_attempt now d (l_digests L) st)) L1;
                L3 = update_status (updateReleaseFailureCounters (l_outcome L) (l_phases L)) L2;
                (retryAt, s4) = next_retry L P s3;
                rel = l_obj (update_status (\<lambda>st. st\<lparr>st_NextRetryAt := retryAt\<rparr>) L3)
            in snd (patch_status rel_owned True P rel s4)))"

subsection \<open>Deletion, suspension and the dependency gate\<close>

text \<open>
  \<open>release.go\<close> has its own copies of the finalizer, client and deletion helpers of
  \<open>modulerelease.go\<close>, kept symmetric on purpose. They are translated from those copies; the
  lemmas below show that they agree with the shared definitions.
\<close>

definition addReleaseFinalizer ::
  "('w, 'v) rel_params \<Rightarrow> Release \<Rightarrow> 'w rel_state \<Rightarrow> goerr option \<times> 'w rel_state" where
  "addReleaseFinalizer P rel s =
     (let rel1 = with_finalizers (\<lambda>fs. k_AddFinalizer (pa_Kube P) fs FinalizerName) rel
      in mcall (PatchObject rel rel1) (ca_Patch (pa_CR P) rel rel1) s)"

definition removeReleaseFinalizer ::
  "('w, 'v) rel_params \<Rightarrow> Release \<Rightarrow> 'w rel_state \<Rightarrow> goerr option \<times> 'w rel_state" where
  "removeReleaseFinalizer P rel s =
     (let rel1 = with_finalizers (\<lambda>fs. k_RemoveFinalizer (pa_Kube P) fs FinalizerName) rel
      in mcall (PatchObject rel rel1) (ca_Patch (pa_CR P) rel rel1) s)"

definition patchReleaseDeletionStatus ::
  "('w, 'v) rel_params \<Rightarrow> Release \<Rightarrow> 'w rel_state \<Rightarrow> goerr option \<times> 'w rel_state" where
  "patchReleaseDeletionStatus P rel s =
     patch_status [ReadyCondition, ReconcilingCondition, StalledCondition, DriftedCondition] False P rel s"

text \<open>A nil inventory is dereferenced in the orphan branch; the caller excludes it.\<close>

definition handleReleaseDeletionImpersonationFailure ::
  "('w, 'v) rel_params \<Rightarrow> Release \<Rightarrow> string \<Rightarrow> goerr \<Rightarrow> 'w rel_state \<Rightarrow> exit \<times> 'w rel_state" where
  "handleReleaseDeletionImpersonationFailure P rel effectiveSA impErr s =
     (let K = pa_Kube P; conds = st_Conditions (cr_Status rel) in
      if IsServiceAccountNotFound K impErr then
        (if map_index (om_Annotations (cr_Meta rel)) AnnotationForceDeleteOrphan = ''true'' then
           (case st_Inventory (cr_Status rel) of
              None \<Rightarrow> (Panicked, s)
            | Some inven \<Rightarrow>
                (let s1 = Eventf EventTypeWarning OrphanedOnDeletionReason ''Delete''
                       (''Orphaned '' @ nat_str (length (inv_Entries inven))
                        @ '' managed resources; ServiceAccount '' @ Quote effectiveSA
                        @ '' missing and '' @ AnnotationForceDeleteOrphan @ '' annotation set'') s;
                     rel1 = map_status (\<lambda>st. st\<lparr>st_Inventory := None\<rparr>) rel;
                     (_, s2) = patchReleaseDeletionStatus P rel1 s1
                 in case removeReleaseFinalizer P rel1 s2 of
                      (Some e, s3) \<Rightarrow> (Returned no_requeue (Some (Errorf_w ''removing finalizer: '' e [])), s3)
                    | (None, s3) \<Rightarrow> (Returned no_requeue None, s3)))
         else
           (let msg = deletionSAMissingMessage (obj_namespace rel) effectiveSA;
                rel1 = on_conditions (MarkStalled K DeletionSAMissingReason msg) rel;
                s1 = (if \<not> readyAlreadyStalledWith K conds DeletionSAMissingReason
                      then Eventf EventTypeWarning DeletionSAMissingReason ''Delete'' msg s else s);
                (_, s2) = patchReleaseDeletionStatus P rel1 s1
            in (Returned (requeue_after StalledRecheckInterval) None, s2)))
      else
        (let rel1 = on_conditions (MarkStalled K ImpersonationFailedReason (err_msg impErr)) rel;
             s1 = (if \<not> readyAlreadyStalledWith K conds ImpersonationFailedReason
                   then Eventf EventTypeWarning ImpersonationFailedReason ''Delete'' (err_msg impErr) s else s);
             (_, s2) = patchReleaseDeletionStatus P rel1 s1
         in (Returned (requeue_after StalledRecheckInterval) None, s2)))"

definition release_deletion_prune ::
  "('w, 'v) rel_params \<Rightarrow> Release \<Rightarrow> string \<Rightarrow> kclient \<Rightarrow> InventoryEntry list \<Rightarrow> 'w rel_state
     \<Rightarrow> exit \<times> 'w rel_state" where
  "release_deletion_prune P rel effectiveSA deleteClient entries s =
     (let K = pa_Kube P in
      case Prune K (pa_Live P) deleteClient [] entries s of
        (res, Some e, s1) \<Rightarrow>
          if effectiveSA \<noteq> [] \<and> isForbidden K e then
            (let rel1 = on_conditions (MarkStalled K ImpersonationFailedReason (err_msg e)) rel;
                 s2 = (if \<not> readyAlreadyStalledWith K (st_Conditions (cr_Status rel)) ImpersonationFailedReason
                       then Eventf EventTypeWarning ImpersonationFailedReason ''Delete'' (err_msg e) s1 else s1);
                 (_, s3) = patchReleaseDeletionStatus P rel1 s2
             in (Returned (requeue_after StalledRecheckInterval) None, s3))
          else (Returned no_requeue (Some e), s1)
      | (res, None, s1) \<Rightarrow>
          (case removeReleaseFinalizer P rel s1 of
             (Some e, s2) \<Rightarrow> (Returned no_requeue (Some (Errorf_w ''removing finalizer: '' e [])), s2)
           | (None, s2) \<Rightarrow> (Returned no_requeue None, s2)))"

definition handleReleaseDeletion ::
  "('w, 'v) rel_params \<Rightarrow> Release \<Rightarrow> 'w rel_state \<Rightarrow> exit \<times> 'w rel_state" where
  "handleReleaseDeletion P rel s =
     (let entries = previousEntries (cr_Status rel) in
      if \<not> sp_Prune (cr_Spec rel) \<or> st_Inventory (cr_Status rel) = None \<or> length entries = 0 then
        (case removeReleaseFinalizer P rel s of
           (Some e, s1) \<Rightarrow> (Returned no_requeue (Some (Errorf_w ''removing finalizer: '' e [])), s1)
         | (None, s1) \<Rightarrow> (Returned no_requeue None, s1))
      else
        (case resolveEffectiveSA (sp_ServiceAccountName (cr_Spec rel)) (pa_DefaultServiceAccount P) of
           (effectiveSA, source) \<Rightarrow>
             if effectiveSA \<noteq> [] \<and> pa_RestConfig P then
               (case NewImpersonatedClient (pa_Kube P) (pa_Auth P) (pa_RestConfig P) (obj_namespace rel) effectiveSA s of
                  (None, s1) \<Rightarrow> (Panicked, s1)
                | (Some (Inl impErr), s1) \<Rightarrow>
                    handleReleaseDeletionImpersonationFailure P rel effectiveSA impErr s1
                | (Some (Inr impClient), s1) \<Rightarrow> release_deletion_prune P rel effectiveSA impClient entries s1)
             else release_deletion_prune P rel effectiveSA ControllerClient entries s))"

lemma addReleaseFinalizer_eq [simp]: "addReleaseFinalizer P rel s = addFinalizer P rel s"
  by (simp add: addReleaseFinalizer_def addFinalizer_def)

lemma removeReleaseFinalizer_eq: "removeReleaseFinalizer P rel s = removeFinalizer P rel s"
  by (simp add: removeReleaseFinalizer_def removeFinalizer_def)

lemma patchReleaseDeletionStatus_eq: "patchReleaseDeletionStatus P rel s = patch_status rel_owned False P rel s"
  by (simp add: patchReleaseDeletionStatus_def rel_owned_def)

lemma release_impersonation_failure_eq:
  "st_Inventory (cr_Status rel) = Some inven \<Longrightarrow>
     handleReleaseDeletionImpersonationFailure P rel sa e s = deletion_impersonation_failure rel_owned P rel inven sa e s"
  by (auto simp: handleReleaseDeletionImpersonationFailure_def deletion_impersonation_failure_def stall_deletion_def
      finish_deletion_def removeReleaseFinalizer_eq patchReleaseDeletionStatus_eq Let_def)

lemma handleReleaseDeletion_eq: "handleReleaseDeletion P rel s = deletion_cleanup rel_owned [] P rel s"
proof (cases "sp_Prune (cr_Spec rel) \<and> previousEntries (cr_Status rel) \<noteq> []")
  case False
  then show ?thesis
    by (auto simp: handleReleaseDeletion_def deletion_cleanup_def finish_deletion_def removeReleaseFinalizer_eq
        previousEntries_def Let_def split: option.splits bool.splits)
next
  case True
  then obtain inven where i: "st_Inventory (cr_Status rel) = Some inven" "inv_Entries inven \<noteq> []"
    "sp_Prune (cr_Spec rel)" by (auto simp: previousEntries_def split: option.splits)
  then show ?thesis
    by (auto simp: handleReleaseDeletion_def deletion_cleanup_def deletion_client_def release_deletion_prune_def
        release_impersonation_failure_eq [OF i(1)] stall_deletion_def finish_deletion_def removeReleaseFinalizer_eq
        patchReleaseDeletionStatus_eq previousEntries_def Let_def split: prod.splits option.splits sum.splits)
qed

definition observe :: "Release \<Rightarrow> Release" where
  "observe rel = map_status (\<lambda>st. st\<lparr>st_ObservedGeneration := om_Generation (cr_Meta rel)\<rparr>) rel"

definition rel_suspend ::
  "('w, 'v) rel_params \<Rightarrow> Release \<Rightarrow> 'w rel_state \<Rightarrow> exit \<times> 'w rel_state" where
  "rel_suspend P rel s =
     (let rel1 = observe (on_conditions (MarkSuspended (pa_Kube P)) rel);
          s1 = Eventf EventTypeNormal SuspendedReason ''Suspend'' ''Reconciliation is suspended'' s
      in case patch_status rel_owned True P rel1 s1 of
           (e, s2) \<Rightarrow> (Returned no_requeue e, s2))"

definition rel_blocked ::
  "('w, 'v) rel_params \<Rightarrow> event_type \<Rightarrow> string \<Rightarrow> duration \<Rightarrow> Release \<Rightarrow> 'w rel_state \<Rightarrow> exit \<times> 'w rel_state" where
  "rel_blocked P t msg interval rel s =
     (let rel1 = observe (on_conditions (MarkNotReady (pa_Kube P) DependenciesNotReadyReason msg) rel);
          s1 = Eventf t DependenciesNotReadyReason ''DependsOn'' msg s
      in (Returned (requeue_after interval) None, snd (patch_status rel_owned True P rel1 s1)))"

subsection \<open>The handler\<close>

definition release_interval :: "Release \<Rightarrow> duration" where
  "release_interval rel = (if sp_Interval (cr_Spec rel) = 0 then DefaultReleaseInterval
     else sp_Interval (cr_Spec rel))"

definition rel_active ::
  "('w, 'v) rel_params \<Rightarrow> instant \<Rightarrow> Release \<Rightarrow> 'w rel_state \<Rightarrow> exit \<times> 'w rel_state" where
  "rel_active P start rel s =
     (let interval = release_interval rel;
          s1 = resume_event P (st_Conditions (cr_Status rel)) s
      in case checkDependsOn P rel s1 of
           (Inl e, s2) \<Rightarrow> rel_blocked P EventTypeWarning (err_msg e) interval rel s2
         | (Inr blocker, s2) \<Rightarrow>
             if blocker \<noteq> []
             then rel_blocked P EventTypeNormal (''waiting for dependency '' @ blocker) interval rel s2
             else
               (case rel_body P interval (init_locals rel) s2 of
                  (x, L, s3) \<Rightarrow> (x, rel_commit P start L s3)))"

definition ReconcileRelease ::
  "('w, 'v) rel_params \<Rightarrow> NamespacedName \<Rightarrow> 'w rel_state \<Rightarrow> exit \<times> 'w rel_state" where
  "ReconcileRelease P req s =
     (case call (ca_Get (pa_CR P) req) s of
        (Inl e, s1) \<Rightarrow> (Returned no_requeue (k_IgnoreNotFound (pa_Kube P) e), s1)
      | (Inr rel, s1) \<Rightarrow>
          (case call (pa_Now P) s1 of (start, s2) \<Rightarrow>
             if \<not> k_ContainsFinalizer (pa_Kube P) (om_Finalizers (cr_Meta rel)) FinalizerName then
               (case addReleaseFinalizer P rel s2 of
                  (Some e, s3) \<Rightarrow>
                    (Returned no_requeue (Some (Errorf_w ''adding finalizer: '' e [])), s3)
                | (None, s3) \<Rightarrow>
                    (Returned \<lparr>res_Requeue = True, res_RequeueAfter = 0\<rparr> None, s3))
             else if om_DeletionTimestamp (cr_Meta rel) \<noteq> None then handleReleaseDeletion P rel s2
             else if sp_Suspend (cr_Spec rel) then rel_suspend P rel s2
             else rel_active P start rel s2))"

subsection \<open>Property\<close>

text \<open>
  A live object read for a deletable entry that OPM manages and that names another owner than
  \<open>U\<close>: what the owner check of \<open>Prune\<close>, active for a non-empty \<open>U\<close>, spares.
\<close>

definition foreign_live :: "string \<Rightarrow> InventoryEntry \<Rightarrow> unstructured \<Rightarrow> bool" where
  "foreign_live U entry live \<longleftrightarrow> isSafeToDelete entry \<and> IsOPMManagedBy (map_index (u_Labels live) LabelManagedBy)
     \<and> U \<noteq> [] \<and> map_index (u_Labels live) LabelModuleReleaseUUID \<notin> {[], U}"

text \<open>
  C26: how far the Release copies are symmetric to the ModuleRelease helpers. The deletion
  cleanup of \<open>release.go\<close>, with its stall, orphan and forbidden branches, is the cleanup of
  \<open>modulerelease.go\<close> with the Release's own conditions and with the owner check switched off;
  the impersonation-failure, client and finalizer helpers agree with their counterparts on
  every input. Switching the check off is a real difference and the only one: on each
  entry, the cleanup with an owner UUID does what the one without does, except that it spares
  an object which OPM manages and which carries another owner's UUID, and that the Release
  cleanup tries to delete.
\<close>

theorem release_deletion_mirrors:
  "handleReleaseDeletion P rel s = deletion_cleanup rel_owned [] P rel s
   \<and> (case st_Inventory (cr_Status rel) of
        None \<Rightarrow> True
      | Some inven \<Rightarrow> handleReleaseDeletionImpersonationFailure P rel sa e s
          = deletion_impersonation_failure rel_owned P rel inven sa e s)
   \<and> buildReleaseApplyClient P rel s = buildApplyClient P rel s
   \<and> addReleaseFinalizer P rel s = addFinalizer P rel s
   \<and> removeReleaseFinalizer P rel s = removeFinalizer P rel s
   \<and> (case call (la_Get (pa_Live P) c (entry_gvk entry) (entry_nn entry)) s of
        (Inl e, s1) \<Rightarrow>
          prune_entry (pa_Kube P) (pa_Live P) c U entry (res, errs, s)
            = prune_entry (pa_Kube P) (pa_Live P) c [] entry (res, errs, s)
      | (Inr live, s1) \<Rightarrow>
          if foreign_live U entry live
          then prune_entry (pa_Kube P) (pa_Live P) c U entry (res, errs, s)
                 = (res\<lparr>pr_Skipped := pr_Skipped res + 1\<rparr>, errs, s1)
               \<and> p_Log (snd (snd (prune_entry (pa_Kube P) (pa_Live P) c [] entry (res, errs, s))))
                 = p_Log s @ [DeleteObject c live]
          else prune_entry (pa_Kube P) (pa_Live P) c U entry (res, errs, s)
                 = prune_entry (pa_Kube P) (pa_Live P) c [] entry (res, errs, s))"
proof (intro conjI)
  show "case call (la_Get (pa_Live P) c (entry_gvk entry) (entry_nn entry)) s of
        (Inl e, s1) \<Rightarrow>
          prune_entry (pa_Kube P) (pa_Live P) c U entry (res, errs, s)
            = prune_entry (pa_Kube P) (pa_Live P) c [] entry (res, errs, s)
      | (Inr live, s1) \<Rightarrow>
          if foreign_live U entry live
          then prune_entry (pa_Kube P) (pa_Live P) c U entry (res, errs, s)
                 = (res\<lparr>pr_Skipped := pr_Skipped res + 1\<rparr>, errs, s1)
               \<and> p_Log (snd (snd (prune_entry (pa_Kube P) (pa_Live P) c [] entry (res, errs, s))))
                 = p_Log s @ [DeleteObject c live]
          else prune_entry (pa_Kube P) (pa_Live P) c U entry (res, errs, s)
                 = prune_entry (pa_Kube P) (pa_Live P) c [] entry (res, errs, s)"
    by (auto simp: prune_entry_def foreign_live_def Let_def effect_simps split: prod.splits sum.splits option.splits)
qed (simp_all add: handleReleaseDeletion_eq release_impersonation_failure_eq removeReleaseFinalizer_eq split: option.splits)

end
