(* ===== verification/Opm_Rel_Body.thy ===== *)
theory Opm_Rel_Body
  imports Opm_Release
begin

text \<open>
  Contracts of the Release phases and, composed from them, the ways the body of
  \<open>ReconcileRelease\<close> ends: what it has read and verified by then, what it did to the
  cluster, and what the local variables hold.
\<close>

subsection \<open>Frames\<close>

text \<open>The phases change only the conditions and the source status.\<close>

definition rel_ledger :: "ReleaseStatus \<Rightarrow> ReleaseStatus" where
  "rel_ledger st = st\<lparr>st_Conditions := [], st_Source := None\<rparr>"

definition rel_frame :: "Release \<Rightarrow> Release \<Rightarrow> bool" where
  "rel_frame a b \<longleftrightarrow> cr_Meta b = cr_Meta a \<and> cr_Spec b = cr_Spec a
     \<and> rel_ledger (cr_Status b) = rel_ledger (cr_Status a)"

lemma rel_frame_refl [simp]: "rel_frame a a"
  by (simp add: rel_frame_def)

lemma rel_frame_conditions [simp]: "rel_frame a (on_conditions f b) = rel_frame a b"
  by (auto simp: rel_frame_def rel_ledger_def)

lemma rel_frame_source [simp]:
  "rel_frame a (map_status (\<lambda>st. st\<lparr>st_Source := x\<rparr>) b) = rel_frame a b"
  by (auto simp: rel_frame_def rel_ledger_def)

lemma rel_ledger_fields:
  "st_Inventory (rel_ledger st) = st_Inventory st"
  "st_FailureCounters (rel_ledger st) = st_FailureCounters st"
  "st_History (rel_ledger st) = st_History st"
  "lastApplied (rel_ledger st) = lastApplied st"
  "previousEntries (rel_ledger st) = previousEntries st"
  by (simp_all add: rel_ledger_def lastApplied_def previousEntries_def)

lemma rel_frameD:
  assumes "rel_frame a b"
  shows "cr_Meta b = cr_Meta a" "cr_Spec b = cr_Spec a"
    "st_Inventory (cr_Status b) = st_Inventory (cr_Status a)"
    "st_FailureCounters (cr_Status b) = st_FailureCounters (cr_Status a)"
    "st_History (cr_Status b) = st_History (cr_Status a)"
    "lastApplied (cr_Status b) = lastApplied (cr_Status a)"
    "previousEntries (cr_Status b) = previousEntries (cr_Status a)"
  using assms by (metis rel_frame_def rel_ledger_fields)+

lemma rel_frame_derived:
  assumes "rel_frame a b"
  shows "releaseBackoff b = releaseBackoff a" "expected_client d b = expected_client d a"
    "expected_rm rm d b = expected_rm rm d a"
  using rel_frameD [OF assms]
  by (simp_all add: releaseBackoff_def expected_client_def expected_rm_def Let_def)

text \<open>The conditions while the phases run.\<close>

definition started :: "kube_lib \<Rightarrow> Release \<Rightarrow> Condition list" where
  "started K rel = MarkReconciling K ''Progressing'' ''Reconciliation in progress'' (conds rel)"

definition in_progress :: "kube_lib \<Rightarrow> Release \<Rightarrow> Release \<Rightarrow> bool" where
  "in_progress K rel rel1 \<longleftrightarrow> rel_frame rel rel1
     \<and> (conds rel1 = started K rel \<or> conds rel1 = ClearDrifted K (started K rel))"

text \<open>
  A failing phase marks the object and chooses the outcome and the delay together: a stall
  with the recheck interval, or a transient failure with the release interval or the backoff.
\<close>

definition failing :: "kube_lib \<Rightarrow> Release \<Rightarrow> duration \<Rightarrow> phaseFail \<Rightarrow> Release \<Rightarrow> bool" where
  "failing K rel interval f rel' \<longleftrightarrow> (\<exists>rel1 reason msg. in_progress K rel rel1 \<and>
     ((\<exists>m. f = stalled_fail m) \<and> rel' = on_conditions (MarkStalled K reason msg) rel1
      \<or> (\<exists>m d. f = transient_fail m d \<and> d \<in> {interval, releaseBackoff rel})
        \<and> rel' = on_conditions (MarkNotReady K reason msg) rel1))"

lemma failing_stalled:
  "in_progress K rel rel1 \<Longrightarrow> failing K rel i (stalled_fail m) (on_conditions (MarkStalled K r msg) rel1)"
  unfolding failing_def by blast

lemma failing_transient:
  "in_progress K rel rel1 \<Longrightarrow> d = i \<or> d = releaseBackoff rel1
     \<Longrightarrow> failing K rel i (transient_fail m d) (on_conditions (MarkNotReady K r msg) rel1)"
  unfolding failing_def using rel_frame_derived(1) [of rel rel1] by (fastforce simp: in_progress_def)

lemmas failing_intros = failing_stalled failing_transient

subsection \<open>Phase contracts\<close>

lemma call_result:
  assumes "call f s = (r, s')"
  shows "f (p_World s) = (r, p_World s')" "p_Log s' = p_Log s"
  using assms by (auto simp: call_def split: prod.splits)

lemma resolveReleaseSource_cases:
  assumes "resolveReleaseSource P rel i s = (r, rel', s')" and "in_progress (pa_Kube P) rel0 rel"
  obtains
    (failed) f where "r = Inl f" "failing (pa_Kube P) rel0 i f rel'" "log_ext is_event s s'"
  | (ok) art where "r = Inr art" "rel' = rel" "p_Log s' = p_Log s"
      "Resolve (pa_Kube P) (rp_GetSource P) (sp_SourceRef (cr_Spec rel)) (obj_namespace rel) (p_World s)
        = (Inr art, p_World s')"
proof -
  obtain q s1 where q: "call (Resolve (pa_Kube P) (rp_GetSource P) (sp_SourceRef (cr_Spec rel))
      (obj_namespace rel)) s = (q, s1)" by fastforce
  note w = call_result [OF q]
  show ?thesis
  proof (cases q)
    case (Inr art)
    with q w assms(1) show ?thesis by (intro ok) (auto simp: resolveReleaseSource_def Let_def)
  next
    case (Inl e)
    with q w assms show ?thesis
      by (cases "errors_Is e ''ErrSourceNotFound'' \<or> errors_Is e ''ErrUnsupportedSourceKind''")
        (auto simp: resolveReleaseSource_def Let_def log_ext_def effect_simps
          intro: failed failing_intros)
  qed
qed

definition fetch_opts :: "ArtifactRef \<Rightarrow> FetchOptions" where
  "fetch_opts art = \<lparr>fo_Format = FormatForKind (art_Kind art), fo_SkipRootCUEModuleValidation = True\<rparr>"

lemma fetchReleaseArtifact_cases:
  assumes "fetchReleaseArtifact P rel art i s = (r, rel', s')" and "in_progress (pa_Kube P) rel0 rel"
  obtains
    (failed) f where "r = Inl f" "failing (pa_Kube P) rel0 i f rel'" "log_ext is_event s s'"
  | (ok) dir w where "r = Inr dir" "rel' = rel" "p_Log s' = p_Log s"
      "fs_MkdirTemp (se_FS (rp_Env P)) ''opm-release-artifact-*'' (p_World s) = (Inr dir, w)"
      "effective_fetcher P (art_URL art) (art_Digest art) dir (fetch_opts art) w = (None, p_World s')"
proof -
  let ?FS = "se_FS (rp_Env P)"
  obtain q s1 where q: "call (fs_MkdirTemp ?FS ''opm-release-artifact-*'') s = (q, s1)" by fastforce
  note l1 = call_result [OF q]
  show ?thesis
  proof (cases q)
    case (Inl e)
    with q l1 assms show ?thesis
      by (intro failed) (auto simp: fetchReleaseArtifact_def Let_def log_ext_def intro!: failing_intros)
  next
    case (Inr dir)
    obtain g s2 where g: "call (effective_fetcher P (art_URL art) (art_Digest art) dir (fetch_opts art)) s1 = (g, s2)"
      by fastforce
    note w = call_result [OF g]
    show ?thesis
    proof (cases g)
      case None
      with q Inr g w l1 assms(1) show ?thesis
        by (intro ok) (auto simp: fetchReleaseArtifact_def Let_def fetch_opts_def)
    next
      case (Some e)
      with q Inr g w l1 assms show ?thesis
        by (intro failed) (auto simp: fetchReleaseArtifact_def Let_def fetch_opts_def log_ext_def effect_simps
            intro!: failing_intros)
    qed
  qed
qed

lemma navigateReleasePath_cases:
  assumes "navigateReleasePath P rel dir s = (r, rel', s')" and "in_progress (pa_Kube P) rel0 rel"
  obtains
    (failed) f where "r = Inl f" "failing (pa_Kube P) rel0 i f rel'" "log_ext is_event s s'"
  | (ok) pkg where "r = Inr pkg" "rel' = rel" "p_Log s' = p_Log s"
      "resolvePackagePath (se_FS (rp_Env P)) dir (sp_Path (cr_Spec rel)) (p_World s) = (Inr pkg, p_World s')"
proof -
  obtain q s1 where q: "call (resolvePackagePath (se_FS (rp_Env P)) dir (sp_Path (cr_Spec rel))) s = (q, s1)"
    by fastforce
  note w = call_result [OF q]
  show ?thesis
  proof (cases q)
    case (Inr pkg)
    with q w assms(1) show ?thesis by (intro ok) (auto simp: navigateReleasePath_def)
  next
    case (Inl e)
    with q w assms show ?thesis
      by (intro failed) (auto simp: navigateReleasePath_def Let_def log_ext_def effect_simps intro!: failing_intros)
  qed
qed

lemma renderReleasePackage_cases:
  assumes "renderReleasePackage P rel pkg s = (r, rel', s')" and "in_progress (pa_Kube P) rel0 rel"
  obtains
    (failed) f where "r = Inl f" "failing (pa_Kube P) rel0 i f rel'" "log_ext is_event s s'"
  | (ok) rr where "r = Inr rr" "rel' = rel" "p_Log s' = p_Log s"
      "effective_renderer P pkg (rp_Provider P) (p_World s) = (Inr (KindModuleRelease, rr), p_World s')"
proof -
  obtain q s1 where q: "call (effective_renderer P pkg (rp_Provider P)) s = (q, s1)" by fastforce
  note w = call_result [OF q]
  show ?thesis
  proof (cases q)
    case (Inl e)
    with q w assms show ?thesis
      by (intro failed) (auto simp: renderReleasePackage_def Let_def log_ext_def effect_simps intro!: failing_intros)
  next
    case (Inr kr)
    obtain kind rr where kr: "kr = (kind, rr)" by fastforce
    show ?thesis
    proof (cases "kind = KindModuleRelease")
      case True
      with q w Inr kr assms(1) show ?thesis by (intro ok) (auto simp: renderReleasePackage_def Let_def)
    next
      case False
      with q w Inr kr assms show ?thesis
        by (intro failed) (auto simp: renderReleasePackage_def Let_def log_ext_def intro!: failing_intros)
    qed
  qed
qed

subsection \<open>Apply and prune\<close>

definition rel_apply_call :: "('w, 'v) rel_params \<Rightarrow> Release \<Rightarrow> unstructured list \<Rightarrow> Release effect" where
  "rel_apply_call P rel rs = ApplyAll (expected_rm (pa_ResourceManager P) (pa_DefaultServiceAccount P) rel) rs
     (forceConflicts (cr_Spec rel))"

text \<open>Some apply call of these resources under the expected identity succeeded.\<close>

definition rel_apply_succeeds :: "('w, 'v) rel_params \<Rightarrow> Release \<Rightarrow> unstructured list \<Rightarrow> bool" where
  "rel_apply_succeeds P rel rs \<longleftrightarrow> (\<exists>w as w'. sa_ApplyAllStaged (pa_Ssa P)
     (expected_rm (pa_ResourceManager P) (pa_DefaultServiceAccount P) rel) rs
     (forceConflicts (cr_Spec rel)) w = (Inr as, w'))"

definition rel_prune_effect ::
  "('w, 'v) rel_params \<Rightarrow> Release \<Rightarrow> 'v RenderResult \<Rightarrow> Release effect \<Rightarrow> bool" where
  "rel_prune_effect P rel rr x \<longleftrightarrow> is_event x
     \<or> sp_Prune (cr_Spec rel) \<and> guarded_delete (pa_Live P) (expected_client (pa_DefaultServiceAccount P) rel) []
         (ComputeStaleSet (previousEntries (cr_Status rel)) (rr_InventoryEntries rr)) x"

lemma Apply_ok_succeeds:
  assumes "Apply S rm rs f s = (Inr r, s')"
  shows "\<exists>w as w'. sa_ApplyAllStaged S rm rs f w = (Inr as, w')"
proof -
  obtain a w where "sa_ApplyAllStaged S rm rs f (p_World s) = (a, w)" by fastforce
  with assms show ?thesis
    by (auto simp: Apply_def mcall_def call_def emit_def split: sum.splits)
qed

lemma release_prune_cases:
  assumes "release_prune P c stale rr rel ph s = (r, rel', ph', s')"
    and "c = expected_client (pa_DefaultServiceAccount P) rel"
    and "stale = ComputeStaleSet (previousEntries (cr_Status rel)) (rr_InventoryEntries rr)"
  obtains
    (failed) e where "r = Some (Inl (transient_fail (err_msg e) (releaseBackoff rel)))"
      "rel' = on_conditions (MarkNotReady (pa_Kube P) PruneFailedReason (err_msg e)) rel"
      "ph' = ph\<lparr>pruneRan := True, pruneFailed := True\<rparr>" "log_ext (rel_prune_effect P rel rr) s s'"
  | (ok) oc where "r = Some (Inr \<lparr>ap_outcome = oc, ap_entries = rr_InventoryEntries rr\<rparr>)" "rel' = rel"
      "oc = (if sp_Prune (cr_Spec rel) \<and> stale \<noteq> [] then AppliedAndPruned else Applied)"
      "ph' = ph\<lparr>pruneRan := True\<rparr>" "log_ext (rel_prune_effect P rel rr) s s'"
proof (cases "sp_Prune (cr_Spec rel) \<and> stale \<noteq> []")
  case False
  with assms(1) show ?thesis by (intro ok) (auto simp: release_prune_def Let_def)
next
  case True
  obtain res err s1 where p: "Prune (pa_Kube P) (pa_Live P) c [] stale s = (res, err, s1)" by (metis prod_cases3)
  have l1: "log_ext (rel_prune_effect P rel rr) s s1"
    using Prune_guarded [OF p] by (rule log_ext_mono) (simp add: rel_prune_effect_def True assms(2,3))
  have ev: "log_ext (rel_prune_effect P rel rr) s (Eventf t x a n s1)" for t x a n
    by (rule log_ext_trans [OF l1 log_ext_Eventf]) (simp add: rel_prune_effect_def)
  show ?thesis
  proof (cases err)
    case (Some e)
    with p True assms(1) ev show ?thesis by (intro failed) (auto simp: release_prune_def Let_def)
  next
    case None
    with p True assms(1) ev l1 show ?thesis by (intro ok) (auto simp: release_prune_def Let_def)
  qed
qed

text \<open>
  \<open>blocked\<close>: nothing was applied; \<open>panic\<close>: nil rest config with a ServiceAccount in effect;
  \<open>refused\<close>: the apply call failed; \<open>unpruned\<close>: it succeeded and the prune failed.
\<close>

lemma applyAndPruneRelease_cases:
  assumes run: "applyAndPruneRelease P rel rr ph s = (r, rel', ph', s')"
    and ip: "in_progress (pa_Kube P) rel0 rel" and st: "conds rel = started (pa_Kube P) rel0"
  obtains
    (blocked) f where "r = Some (Inl f)" "failing (pa_Kube P) rel0 i f rel'" "p_Log s' = p_Log s" "ph' = ph"
  | (panic) "r = None" "rel' = rel" "ph' = ph" "p_Log s' = p_Log s" "\<not> pa_RestConfig P"
  | (refused) f rs t n where "r = Some (Inl f)" "failing (pa_Kube P) rel0 i f rel'"
      "ph' = ph\<lparr>applyRan := True, applyFailed := True\<rparr>"
      "toUnstructuredSlice (pa_Cue P) (rr_Resources rr) = Inr rs"
      "p_Log s' = p_Log s @ [rel_apply_call P rel rs, Event t ApplyFailedReason ''Apply'' n]"
  | (unpruned) f rs es where "r = Some (Inl f)" "failing (pa_Kube P) rel0 i f rel'"
      "ph' = ph\<lparr>applyRan := True, pruneRan := True, pruneFailed := True\<rparr>"
      "toUnstructuredSlice (pa_Cue P) (rr_Resources rr) = Inr rs" "rel_apply_succeeds P rel rs"
      "p_Log s' = p_Log s @ rel_apply_call P rel rs # es" "list_all (rel_prune_effect P rel rr) es"
  | (ok) oc rs es where "r = Some (Inr \<lparr>ap_outcome = oc, ap_entries = rr_InventoryEntries rr\<rparr>)"
      "oc = Applied \<or> oc = AppliedAndPruned"
      "rel' = on_conditions (ClearDrifted (pa_Kube P)) rel" "ph' = ph\<lparr>applyRan := True, pruneRan := True\<rparr>"
      "toUnstructuredSlice (pa_Cue P) (rr_Resources rr) = Inr rs" "rel_apply_succeeds P rel rs"
      "p_Log s' = p_Log s @ rel_apply_call P rel rs # es" "list_all (rel_prune_effect P rel rr) es"
proof (cases "toUnstructuredSlice (pa_Cue P) (rr_Resources rr)")
  case (Inl e)
  with run ip show ?thesis
    by (intro blocked) (auto simp: applyAndPruneRelease_def Let_def intro!: failing_intros)
next
  case rs: (Inr rs)
  let ?rel = "on_conditions (ClearDrifted (pa_Kube P)) rel"
  obtain b s1 where b: "buildApplyClient P rel s = (b, s1)" by fastforce
  note log = buildApplyClient_log [OF b]
  consider "b = None" | e where "b = Some (Inl e)" | rm c where "b = Some (Inr (rm, c))"
    by (metis option.exhaust sum.exhaust surj_pair)
  then show ?thesis
  proof cases
    case 1
    then show ?thesis using run rs b log buildApplyClient_no_panic [of P rel s s1]
      by (intro panic) (auto simp: applyAndPruneRelease_def Let_def)
  next
    case 2
    then show ?thesis using run rs b log ip
      by (intro blocked) (auto simp: applyAndPruneRelease_def Let_def intro!: failing_intros)
  next
    case 3
    have rm: "rm = expected_rm (pa_ResourceManager P) (pa_DefaultServiceAccount P) rel"
      and c: "c = expected_client (pa_DefaultServiceAccount P) rel"
      using buildApplyClient_client b 3 by blast+
    obtain a s2 where a: "Apply (pa_Ssa P) rm rs (forceConflicts (cr_Spec rel)) s1 = (a, s2)" by fastforce
    have l2: "p_Log s2 = p_Log s @ [rel_apply_call P rel rs]"
      using Apply_log [OF a] log rm by (simp add: rel_apply_call_def)
    show ?thesis
    proof (cases a)
      case (Inl e)
      with run rs b 3 a l2 ip show ?thesis
        by (intro refused) (auto simp: applyAndPruneRelease_def Let_def effect_simps intro!: failing_intros)
    next
      case (Inr ar)
      have ok1: "rel_apply_succeeds P rel rs"
        using Apply_ok_succeeds a Inr rm unfolding rel_apply_succeeds_def by blast
      let ?s = "Eventf EventTypeNormal AppliedReason ''Apply'' (applied_note ar) s2"
      have pe: "rel_prune_effect P ?rel rr = rel_prune_effect P rel rr"
        by (simp add: rel_prune_effect_def fun_eq_iff previousEntries_def expected_client_def Let_def)
      have ipr: "in_progress (pa_Kube P) rel0 ?rel"
        using ip st by (auto simp: in_progress_def)
      have p: "release_prune P c (ComputeStaleSet (previousEntries (cr_Status rel)) (rr_InventoryEntries rr)) rr
          ?rel (ph\<lparr>applyRan := True\<rparr>) ?s = (r, rel', ph', s')"
        using run rs b 3 a Inr by (simp add: applyAndPruneRelease_def Let_def)
      have p2: "c = expected_client (pa_DefaultServiceAccount P) ?rel"
        "ComputeStaleSet (previousEntries (cr_Status rel)) (rr_InventoryEntries rr)
         = ComputeStaleSet (previousEntries (cr_Status ?rel)) (rr_InventoryEntries rr)"
        using c by (simp_all add: previousEntries_def expected_client_def Let_def)
      have lg: "\<exists>es. p_Log s' = p_Log s @ rel_apply_call P rel rs # es \<and> list_all (rel_prune_effect P rel rr) es"
        if "log_ext (rel_prune_effect P ?rel rr) ?s s'"
        using that l2 by (auto simp: log_ext_def effect_simps pe rel_prune_effect_def)
      from p p2 show ?thesis
      proof (cases rule: release_prune_cases)
        case (failed e)
        have "failing (pa_Kube P) rel0 i (transient_fail (err_msg e) (releaseBackoff ?rel)) rel'"
          unfolding failed(2) using ipr by (rule failing_transient) simp
        with failed rs ok1 lg show ?thesis by (auto intro: unpruned)
      next
        case (ok oc)
        then have "oc = Applied \<or> oc = AppliedAndPruned" by simp
        with ok rs ok1 lg show ?thesis using \<open>rel' = ?rel\<close> by (auto intro: that(5))
      qed
    qed
  qed
qed

subsection \<open>The body by cases\<close>

definition idle :: "rel_locals \<Rightarrow> bool" where
  "idle L \<longleftrightarrow> l_outcome L = NoOp \<and> \<not> l_reconciled L \<and> l_retryAfter L = 0 \<and> l_phases L = no_phases"

definition failed_with :: "phaseFail \<Rightarrow> rel_locals \<Rightarrow> bool" where
  "failed_with f L \<longleftrightarrow> l_outcome L = pf_outcome f \<and> l_errMsg L = pf_errMsg f
     \<and> l_retryAfter L = pf_retryAfter f \<and> \<not> l_reconciled L"

lemma applyFail_simps [simp]:
  "l_obj (applyFail f rel L) = rel" "l_outcome (applyFail f rel L) = pf_outcome f"
  "l_errMsg (applyFail f rel L) = pf_errMsg f" "l_retryAfter (applyFail f rel L) = pf_retryAfter f"
  "l_reconciled (applyFail f rel L) = l_reconciled L" "l_phases (applyFail f rel L) = l_phases L"
  "l_digests (applyFail f rel L) = l_digests L"
  by (simp_all add: applyFail_def fail_with_def)

lemma stop_failD:
  assumes "stop_fail f rel L s = (x, L', s')" and "\<not> l_reconciled L"
  shows "x = Returned (requeue_after (pf_retryAfter f)) None" "failed_with f L'" "l_obj L' = rel"
    "l_phases L' = l_phases L" "s' = s"
  using assms by (auto simp: stop_fail_def failed_with_def)

text \<open>
  What was read, downloaded and rendered on the way to the digests: the artifact of the
  referenced source, fetched into a directory, whose package at \<open>spec.path\<close> rendered to \<open>rr\<close>.
\<close>

definition packaged :: "('w, 'v) rel_params \<Rightarrow> Release \<Rightarrow> ArtifactRef \<Rightarrow> 'v RenderResult \<Rightarrow> bool" where
  "packaged P rel art rr \<longleftrightarrow> (\<exists>dir pkg.
     (\<exists>w w'. Resolve (pa_Kube P) (rp_GetSource P) (sp_SourceRef (cr_Spec rel)) (obj_namespace rel) w = (Inr art, w'))
     \<and> (\<exists>w w'. effective_fetcher P (art_URL art) (art_Digest art) dir (fetch_opts art) w = (None, w'))
     \<and> (\<exists>w w'. resolvePackagePath (se_FS (rp_Env P)) dir (sp_Path (cr_Spec rel)) w = (Inr pkg, w'))
     \<and> (\<exists>w w'. effective_renderer P pkg (rp_Provider P) w = (Inr (KindModuleRelease, rr), w')))"

text \<open>
  The same for one run: the world in which the body starts determines the artifact and the
  rendered result, each step starting from the world that the previous one has left.
\<close>

definition packaged_run ::
  "('w, 'v) rel_params \<Rightarrow> Release \<Rightarrow> 'w \<Rightarrow> ArtifactRef \<Rightarrow> 'v RenderResult \<Rightarrow> bool" where
  "packaged_run P rel w art rr \<longleftrightarrow> (\<exists>w1 w2 w3 w4 w5 dir pkg.
     Resolve (pa_Kube P) (rp_GetSource P) (sp_SourceRef (cr_Spec rel)) (obj_namespace rel) w = (Inr art, w1)
     \<and> fs_MkdirTemp (se_FS (rp_Env P)) ''opm-release-artifact-*'' w1 = (Inr dir, w2)
     \<and> effective_fetcher P (art_URL art) (art_Digest art) dir (fetch_opts art) w2 = (None, w3)
     \<and> resolvePackagePath (se_FS (rp_Env P)) dir (sp_Path (cr_Spec rel)) w3 = (Inr pkg, w4)
     \<and> effective_renderer P pkg (rp_Provider P) w4 = (Inr (KindModuleRelease, rr), w5))"

lemma packaged_run_packaged: "packaged_run P rel w art rr \<Longrightarrow> packaged P rel art rr"
  unfolding packaged_run_def packaged_def by blast

lemma packaged_run_unique:
  "packaged_run P rel w art rr \<Longrightarrow> packaged_run P rel w art' rr' \<Longrightarrow> art' = art \<and> rr' = rr"
  by (auto simp: packaged_run_def)

definition rel_digests :: "ArtifactRef \<Rightarrow> string \<Rightarrow> InventoryEntry list \<Rightarrow> DigestSet" where
  "rel_digests art d es = \<lparr>ds_Source = art_Digest art, ds_Config = ConfigDigest Map.empty None,
     ds_Render = d, ds_Inventory = ComputeDigest es\<rparr>"

text \<open>The end of a deployment of \<open>rr\<close>, from the artifact \<open>art\<close>, with the log it appended.\<close>

inductive deployed ::
  "('w, 'v) rel_params \<Rightarrow> Release \<Rightarrow> duration \<Rightarrow> ArtifactRef \<Rightarrow> 'v RenderResult
     \<Rightarrow> exit \<Rightarrow> rel_locals \<Rightarrow> Release effect list \<Rightarrow> bool"
  for P rel i art rr where
  early: "failing (pa_Kube P) rel i f (l_obj L) \<Longrightarrow> failed_with f L \<Longrightarrow> l_phases L = no_phases
    \<Longrightarrow> list_all is_event es
    \<Longrightarrow> deployed P rel i art rr (Returned (requeue_after (pf_retryAfter f)) None) L es"
| noop: "in_progress (pa_Kube P) rel (l_obj L) \<Longrightarrow> idle L
    \<Longrightarrow> RenderDigest (pa_Cue P) (rr_Resources rr) = Inr d
    \<Longrightarrow> IsNoOp (rel_digests art d (rr_InventoryEntries rr)) (lastApplied (cr_Status rel))
    \<Longrightarrow> list_all is_event es
    \<Longrightarrow> deployed P rel i art rr (Returned (requeue_after i) None) L es"
| panic: "in_progress (pa_Kube P) rel (l_obj L) \<Longrightarrow> idle L \<Longrightarrow> \<not> pa_RestConfig P \<Longrightarrow> list_all is_event es
    \<Longrightarrow> deployed P rel i art rr Panicked L es"
| refused: "failing (pa_Kube P) rel i f (l_obj L) \<Longrightarrow> failed_with f L
    \<Longrightarrow> l_phases L = no_phases\<lparr>applyRan := True, applyFailed := True\<rparr>
    \<Longrightarrow> toUnstructuredSlice (pa_Cue P) (rr_Resources rr) = Inr rs
    \<Longrightarrow> list_all is_event es
    \<Longrightarrow> deployed P rel i art rr (Returned (requeue_after (pf_retryAfter f)) None) L (rel_apply_call P rel rs # es)"
| unpruned: "failing (pa_Kube P) rel i f (l_obj L) \<Longrightarrow> failed_with f L
    \<Longrightarrow> l_phases L = no_phases\<lparr>applyRan := True, pruneRan := True, pruneFailed := True\<rparr>
    \<Longrightarrow> toUnstructuredSlice (pa_Cue P) (rr_Resources rr) = Inr rs \<Longrightarrow> rel_apply_succeeds P rel rs
    \<Longrightarrow> list_all (rel_prune_effect P rel rr) es
    \<Longrightarrow> deployed P rel i art rr (Returned (requeue_after (pf_retryAfter f)) None) L (rel_apply_call P rel rs # es)"
| complete: "rel_frame rel (l_obj L)
    \<Longrightarrow> conds (l_obj L) = MarkReady (pa_Kube P) ''Reconciliation succeeded''
          (ClearDrifted (pa_Kube P) (started (pa_Kube P) rel))
    \<Longrightarrow> l_outcome L = Applied \<or> l_outcome L = AppliedAndPruned
    \<Longrightarrow> l_reconciled L \<Longrightarrow> l_retryAfter L = 0 \<Longrightarrow> l_newEntries L = rr_InventoryEntries rr
    \<Longrightarrow> l_phases L = no_phases\<lparr>applyRan := True, pruneRan := True\<rparr>
    \<Longrightarrow> RenderDigest (pa_Cue P) (rr_Resources rr) = Inr d
    \<Longrightarrow> l_digests L = rel_digests art d (rr_InventoryEntries rr)
    \<Longrightarrow> toUnstructuredSlice (pa_Cue P) (rr_Resources rr) = Inr rs \<Longrightarrow> rel_apply_succeeds P rel rs
    \<Longrightarrow> list_all (rel_prune_effect P rel rr) es
    \<Longrightarrow> deployed P rel i art rr (Returned (requeue_after i) None) L (rel_apply_call P rel rs # es)"

lemma rel_apply_frame:
  assumes "rel_frame a b"
  shows "rel_apply_call P b rs = rel_apply_call P a rs" "rel_apply_succeeds P b rs = rel_apply_succeeds P a rs"
    "rel_prune_effect P b rr = rel_prune_effect P a rr"
  using rel_frameD [OF assms] rel_frame_derived [OF assms]
  by (simp_all add: rel_apply_call_def rel_apply_succeeds_def rel_prune_effect_def fun_eq_iff)

lemma rel_deploy_deployed:
  assumes run: "rel_deploy P rr i L s = (x, L', s')" and idle: "idle L"
    and ip: "rel_frame rel (l_obj L)" "conds (l_obj L) = started (pa_Kube P) rel"
    and src: "ds_Source (l_digests L) = art_Digest art"
  shows "\<exists>es. p_Log s' = p_Log s @ es \<and> deployed P rel i art rr x L' es"
proof (cases "RenderDigest (pa_Cue P) (rr_Resources rr)")
  case (Inl e)
  have "in_progress (pa_Kube P) rel (l_obj L)" using ip by (simp add: in_progress_def)
  note f = failing_stalled [OF this]
  from Inl run have "stop_fail (stalled_fail (err_msg e)) (on_conditions (MarkStalled (pa_Kube P) RenderFailedReason
      (''computing render digest: '' @ err_msg e)) (l_obj L)) L s = (x, L', s')"
    by (simp add: rel_deploy_def computeReleaseDigests_def)
  from stop_failD [OF this] idle f show ?thesis
    by (intro exI [of _ "[]"]) (auto simp: idle_def intro!: deployed.early)
next
  case (Inr d)
  let ?ds = "rel_digests art d (rr_InventoryEntries rr)"
  let ?L = "L\<lparr>l_digests := ?ds\<rparr>"
  have ipr: "in_progress (pa_Kube P) rel (l_obj L)" using ip by (simp add: in_progress_def)
  have c: "computeReleaseDigests P (l_obj L) rr (l_digests L) = (None, l_obj L, ?ds)"
    using Inr src by (simp add: computeReleaseDigests_def rel_digests_def)
  show ?thesis
  proof (cases "IsNoOp ?ds (lastApplied (cr_Status rel))")
    case True
    then have "x = Returned (requeue_after i) None" "L' = ?L\<lparr>l_outcome := NoOp\<rparr>"
      "p_Log s' = p_Log s @ [Event EventTypeNormal NoOpReason ''Reconcile'' ''No changes detected'']"
      using run c rel_frameD(6) [OF ip(1)] by (auto simp: rel_deploy_def Let_def effect_simps)
    then show ?thesis using ipr idle Inr True
      by (intro exI [of _ "[Event EventTypeNormal NoOpReason ''Reconcile'' ''No changes detected'']"])
        (auto simp: idle_def intro!: deployed.noop)
  next
    case False
    obtain r rel2 ph s1 where a: "applyAndPruneRelease P (l_obj L) rr (l_phases L) s = (r, rel2, ph, s1)"
      by (metis prod_cases4)
    note fr = rel_apply_frame [OF ip(1), of P]
    have run': "(case r of None \<Rightarrow> (Panicked, ?L\<lparr>l_obj := rel2, l_phases := ph\<rparr>, s1)
        | Some (Inl f) \<Rightarrow> stop_fail f rel2 (?L\<lparr>l_phases := ph\<rparr>) s1
        | Some (Inr q) \<Rightarrow> (Returned (requeue_after i) None,
             mark (MarkReady (pa_Kube P) ''Reconciliation succeeded'')
               (?L\<lparr>l_obj := rel2, l_phases := ph, l_outcome := ap_outcome q,
                  l_newEntries := ap_entries q, l_reconciled := True\<rparr>),
             Eventf EventTypeNormal ReconciliationSucceededReason ''Reconcile'' ''Reconciliation succeeded'' s1))
        = (x, L', s')"
      using run c False a rel_frameD(6) [OF ip(1)]
      by (simp add: rel_deploy_def Let_def split: option.splits sum.splits)
    have nr: "\<not> l_reconciled (?L\<lparr>l_phases := ph\<rparr>)" using idle by (simp add: idle_def)
    have ph: "l_phases L = no_phases" using idle by (simp add: idle_def)
    from a ipr ip(2) show ?thesis
    proof (cases rule: applyAndPruneRelease_cases [where i = i])
      case (blocked f)
      from blocked(1) run' have "stop_fail f rel2 (?L\<lparr>l_phases := ph\<rparr>) s1 = (x, L', s')" by simp
      from stop_failD [OF this nr] blocked ph show ?thesis
        by (intro exI [of _ "[]"]) (auto intro!: deployed.early)
    next
      case panic
      then show ?thesis using run' idle ipr
        by (intro exI [of _ "[]"]) (auto simp: idle_def intro!: deployed.panic)
    next
      case (refused f rs t n)
      from refused(1) run' have "stop_fail f rel2 (?L\<lparr>l_phases := ph\<rparr>) s1 = (x, L', s')" by simp
      from stop_failD [OF this nr] refused ph show ?thesis
        by (intro exI [of _ "[rel_apply_call P rel rs, Event t ApplyFailedReason ''Apply'' n]"])
          (auto simp: fr intro!: deployed.refused)
    next
      case (unpruned f rs es)
      from unpruned(1) run' have "stop_fail f rel2 (?L\<lparr>l_phases := ph\<rparr>) s1 = (x, L', s')" by simp
      from stop_failD [OF this nr] unpruned ph show ?thesis
        by (intro exI [of _ "rel_apply_call P rel rs # es"]) (auto simp: fr intro!: deployed.unpruned)
    next
      case (ok oc rs es)
      let ?ev = "Event EventTypeNormal ReconciliationSucceededReason ''Reconcile'' ''Reconciliation succeeded''"
      have "list_all (rel_prune_effect P rel rr) (es @ [?ev])"
        using ok(8) by (simp add: fr) (simp add: rel_prune_effect_def)
      then show ?thesis using run' ok ph idle ip Inr
        by (intro exI [of _ "rel_apply_call P rel rs # es @ [?ev]"])
          (auto simp: fr idle_def effect_simps intro!: deployed.complete)
    qed
  qed
qed

lemma rel_package_cases:
  assumes run: "rel_package P dir i L s = (x, L', s')" and idle: "idle L"
    and ip: "rel_frame rel (l_obj L)" "conds (l_obj L) = started (pa_Kube P) rel"
    and src: "ds_Source (l_digests L) = art_Digest art"
  obtains
    (early) f es where "x = Returned (requeue_after (pf_retryAfter f)) None"
      "failing (pa_Kube P) rel i f (l_obj L')" "failed_with f L'" "l_phases L' = no_phases"
      "p_Log s' = p_Log s @ es" "list_all is_event es"
  | (deployed) pkg rr es w w' where
      "resolvePackagePath (se_FS (rp_Env P)) dir (sp_Path (cr_Spec rel)) (p_World s) = (Inr pkg, w)"
      "effective_renderer P pkg (rp_Provider P) w = (Inr (KindModuleRelease, rr), w')"
      "p_Log s' = p_Log s @ es" "deployed P rel i art rr x L' es"
proof -
  have ipr: "in_progress (pa_Kube P) rel (l_obj L)" using ip by (simp add: in_progress_def)
  have nr: "\<not> l_reconciled L" "l_phases L = no_phases" using idle by (simp_all add: idle_def)
  have stop: thesis if "stop_fail f rel1 L s1 = (x, L', s')" "failing (pa_Kube P) rel i f rel1"
    "log_ext is_event s s1" for f rel1 s1
    using stop_failD [OF that(1) nr(1)] that(2,3) nr(2) by (auto simp: log_ext_def intro: early)
  obtain q rel1 s1 where q: "navigateReleasePath P (l_obj L) dir s = (q, rel1, s1)" by (metis prod_cases3)
  from q ipr show ?thesis
  proof (cases rule: navigateReleasePath_cases [where i = i])
    case (failed f)
    with q run have "stop_fail f rel1 L s1 = (x, L', s')" by (simp add: rel_package_def)
    with failed show ?thesis by (intro stop)
  next
    case (ok pkg)
    obtain q2 rel2 s2 where q2: "renderReleasePackage P rel1 pkg s1 = (q2, rel2, s2)" by (metis prod_cases3)
    have ipr1: "in_progress (pa_Kube P) rel rel1" using ipr ok by simp
    from q2 ipr1 show ?thesis
    proof (cases rule: renderReleasePackage_cases [where i = i])
      case (failed f)
      with q q2 ok run have "stop_fail f rel2 L s2 = (x, L', s')" by (simp add: rel_package_def)
      moreover have "log_ext is_event s s2" using failed(3) ok(3) by (simp add: log_ext_def)
      ultimately show ?thesis using failed by (intro stop)
    next
      case ok2: (ok rr)
      have "rel_deploy P rr i L s2 = (x, L', s')" using q q2 ok ok2 run by (simp add: rel_package_def)
      from rel_deploy_deployed [OF this idle ip src] obtain es where
        es: "p_Log s' = p_Log s2 @ es" "deployed P rel i art rr x L' es" by blast
      show ?thesis
        using ok(4) ok2(4) es ok(3) ok2(3) rel_frameD(2) [OF ip(1)] 
        by (intro deployed [of pkg "p_World s1" rr "p_World s2" es]) auto
    qed
  qed
qed

text \<open>
  The body either fails in a phase before the package is rendered, with events only, or
  deploys a rendered package of a fetched artifact.
\<close>

lemma rel_body_cases:
  assumes run: "rel_body P i (init_locals rel) s = (x, L', s')"
  obtains
    (early) f es where "x = Returned (requeue_after (pf_retryAfter f)) None"
      "failing (pa_Kube P) rel i f (l_obj L')" "failed_with f L'" "l_phases L' = no_phases"
      "p_Log s' = p_Log s @ es" "list_all is_event es"
  | (deployed) art rr es where "packaged_run P rel (p_World s) art rr" "p_Log s' = p_Log s @ es"
      "deployed P rel i art rr x L' es"
proof -
  let ?L = "mark (MarkReconciling (pa_Kube P) ''Progressing'' ''Reconciliation in progress'') (init_locals rel)"
  have ipr: "in_progress (pa_Kube P) rel (l_obj ?L)" by (simp add: in_progress_def started_def)
  obtain q rel1 s1 where q: "resolveReleaseSource P (l_obj ?L) i s = (q, rel1, s1)" by (metis prod_cases3)
  from q ipr show ?thesis
  proof (cases rule: resolveReleaseSource_cases)
    case (failed f)
    with q run have "stop_fail f rel1 ?L s1 = (x, L', s')" by (simp add: rel_body_def Let_def)
    from stop_failD [OF this] failed show ?thesis by (auto simp: log_ext_def intro: early)
  next
    case (ok art)
    define L1 where "L1 = ?L\<lparr>l_obj := map_status (\<lambda>st. st\<lparr>st_Source := Some (source_status (cr_Spec rel1) art)\<rparr>) rel1,
        l_digests := (l_digests ?L)\<lparr>ds_Source := art_Digest art\<rparr>\<rparr>"
    have L1: "rel_frame rel (l_obj L1)" "conds (l_obj L1) = started (pa_Kube P) rel"
      "idle L1" "ds_Source (l_digests L1) = art_Digest art"
      using ok(2) by (simp_all add: L1_def started_def idle_def)
    have ipr1: "in_progress (pa_Kube P) rel (l_obj L1)" using L1 by (simp add: in_progress_def)
    obtain q2 rel2 s2 where q2: "fetchReleaseArtifact P (l_obj L1) art i s1 = (q2, rel2, s2)"
      by (metis prod_cases3)
    from q2 ipr1 show ?thesis
    proof (cases rule: fetchReleaseArtifact_cases)
      case (failed f)
      with q q2 ok run have "stop_fail f rel2 L1 s2 = (x, L', s')" by (simp add: rel_body_def Let_def L1_def)
      from stop_failD [OF this] failed L1(3) ok(3) show ?thesis
        by (auto simp: log_ext_def idle_def intro: early)
    next
      case ok2: (ok dir v)
      obtain y L2 s3 where p: "rel_package P dir i L1 s2 = (y, L2, s3)" by (metis prod_cases3)
      have same: "L1\<lparr>l_obj := rel2\<rparr> = L1" using ok2(2) by simp
      have "(case rel_package P dir i (L1\<lparr>l_obj := rel2\<rparr>) s2 of
          (x, L2, s3) \<Rightarrow> (x, L2, snd (call (fs_RemoveAll (se_FS (rp_Env P)) dir) s3))) = (x, L', s')"
        using run q2 unfolding rel_body_def Let_def q ok(1) ok2(1) by (simp add: L1_def)
      then have fin: "x = y" "L' = L2" "p_Log s' = p_Log s3"
        unfolding same p by (auto simp: effect_simps)
      from p L1(3,1,2,4) show ?thesis
      proof (cases rule: rel_package_cases)
        case (early f es)
        with fin ok(3) ok2(3) show ?thesis by (intro that(1)) simp_all
      next
        case (deployed pkg rr es w4 w5)
        have "packaged_run P rel (p_World s) art rr"
          unfolding packaged_run_def using ok(4) ok2(4,5) deployed(1,2) by fastforce
        with deployed fin ok(3) ok2(3) show ?thesis by (intro that(2)) simp_all
      qed
    qed
  qed
qed

subsection \<open>The deferred commit\<close>

definition rel_commit_status ::
  "kube_lib \<Rightarrow> rel_locals \<Rightarrow> instant \<Rightarrow> instant \<Rightarrow> duration \<Rightarrow> instant option \<Rightarrow> ReleaseStatus" where
  "rel_commit_status K L now t d retryAt =
     (let st = (cr_Status (l_obj L))\<lparr>st_ObservedGeneration := om_Generation (cr_Meta (l_obj L))\<rparr> in
      if l_outcome L = NoOp then
        (updateReleaseFailureCounters NoOp (l_phases L)
           (st\<lparr>st_Conditions := MarkReady K ''Reconciliation succeeded'' (st_Conditions st)\<rparr>))
        \<lparr>st_NextRetryAt := None\<rparr>
      else
        (updateReleaseFailureCounters (l_outcome L) (l_phases L)
          (record_outcome L now t (record_attempt now d (l_digests L) st)))
        \<lparr>st_NextRetryAt := retryAt\<rparr>)"

definition rel_committed :: "kube_lib \<Rightarrow> rel_locals \<Rightarrow> Release \<Rightarrow> bool" where
  "rel_committed K L rel' \<longleftrightarrow> (\<exists>now t d retryAt.
     rel' = (l_obj L)\<lparr>cr_Status := rel_commit_status K L now t d retryAt\<rparr>
     \<and> (retryAt = None \<longleftrightarrow> l_retryAfter L \<le> 0))"

lemma snd_patch_status_log:
  "p_Log (snd (patch_status owned g P o1 s)) = p_Log s @ [PatchStatus o1 owned g]"
  by (metis patch_status_log prod.collapse)

lemma rel_commit_log:
  "\<exists>rel'. p_Log (rel_commit P start L s) = p_Log s @ [PatchStatus rel' rel_owned True]
    \<and> rel_committed (pa_Kube P) L rel'"
proof (cases "l_outcome L = NoOp")
  case True
  obtain now s1 where 1: "call (pa_Now P) s = (now, s1)" by fastforce
  let ?rel = "(l_obj L)\<lparr>cr_Status := rel_commit_status (pa_Kube P) L 0 0 0 None\<rparr>"
  have "rel_commit P start L s = snd (patch_status rel_owned True P ?rel s1)"
    using True 1
    by (simp add: rel_commit_def Let_def rel_commit_status_def map_status_def on_conditions_def
        SetConditions_def GetConditions_def)
  then have "p_Log (rel_commit P start L s) = p_Log s @ [PatchStatus ?rel rel_owned True]"
    using 1 by (simp add: snd_patch_status_log effect_simps)
  moreover have "rel_committed (pa_Kube P) L ?rel"
    using True unfolding rel_committed_def
    by (intro exI [of _ 0] exI [of _ "if l_retryAfter L \<le> 0 then None else Some 0"])
      (simp add: rel_commit_status_def)
  ultimately show ?thesis by blast
next
  case False
  obtain now s1 where 1: "call (pa_Now P) s = (now, s1)" by fastforce
  obtain d s2 where 2: "since P start s1 = (d, s2)" by fastforce
  obtain t s3 where 3: "history_time L P s2 = (t, s3)" by fastforce
  obtain ra s4 where 4: "next_retry L P s3 = (ra, s4)" by fastforce
  let ?rel = "(l_obj L)\<lparr>cr_Status := rel_commit_status (pa_Kube P) L now t d ra\<rparr>"
  have "rel_commit P start L s = snd (patch_status rel_owned True P ?rel s4)"
    using False 1 2 3 4 by (simp add: rel_commit_def Let_def rel_commit_status_def map_status_def)
  then have "p_Log (rel_commit P start L s) = p_Log s @ [PatchStatus ?rel rel_owned True]"
    using 1 2 3 4 by (simp add: snd_patch_status_log effect_simps)
  moreover have "rel_committed (pa_Kube P) L ?rel"
    unfolding rel_committed_def using next_retry_None [OF 4] by blast
  ultimately show ?thesis by blast
qed

lemma release_counter_simps [status_simps]:
  "st_Inventory (updateReleaseFailureCounters oc ph st) = st_Inventory st"
  "st_History (updateReleaseFailureCounters oc ph st) = st_History st"
  "st_Conditions (updateReleaseFailureCounters oc ph st) = st_Conditions st"
  "lastApplied (updateReleaseFailureCounters oc ph st) = lastApplied st"
  "st_NextRetryAt (updateReleaseFailureCounters oc ph st) = st_NextRetryAt st"
  "st_ObservedGeneration (updateReleaseFailureCounters oc ph st) = st_ObservedGeneration st"
  by (simp_all add: updateReleaseFailureCounters_def lastApplied_def Let_def)

lemma rel_commit_status_fields [status_simps]:
  "st_Conditions (rel_commit_status K L now t d ra) =
     (if l_outcome L = NoOp then MarkReady K ''Reconciliation succeeded'' (conds (l_obj L))
      else conds (l_obj L))"
  "st_Inventory (rel_commit_status K L now t d ra) =
     (if l_outcome L \<noteq> NoOp \<and> l_reconciled L
      then Some (next_inventory (l_newEntries L) (st_Inventory (cr_Status (l_obj L))))
      else st_Inventory (cr_Status (l_obj L)))"
  "lastApplied (rel_commit_status K L now t d ra) =
     (if l_outcome L \<noteq> NoOp \<and> l_reconciled L
      then (l_digests L)\<lparr>ds_Inventory := ComputeDigest (l_newEntries L)\<rparr>
      else lastApplied (cr_Status (l_obj L)))"
  "st_NextRetryAt (rel_commit_status K L now t d ra) = (if l_outcome L = NoOp then None else ra)"
  "st_ObservedGeneration (rel_commit_status K L now t d ra) = om_Generation (cr_Meta (l_obj L))"
  by (simp_all add: rel_commit_status_def Let_def status_simps)

lemma rel_committedD:
  assumes "rel_committed K L rel'" and "rel_frame rel (l_obj L)"
  shows "cr_Meta rel' = cr_Meta rel" "cr_Spec rel' = cr_Spec rel"
    "st_ObservedGeneration (cr_Status rel') = om_Generation (cr_Meta rel)"
    "conds rel' = (if l_outcome L = NoOp then MarkReady K ''Reconciliation succeeded'' (conds (l_obj L))
       else conds (l_obj L))"
    "st_NextRetryAt (cr_Status rel') = None \<longleftrightarrow> l_outcome L = NoOp \<or> l_retryAfter L \<le> 0"
    "l_outcome L = NoOp \<or> \<not> l_reconciled L \<Longrightarrow>
       st_Inventory (cr_Status rel') = st_Inventory (cr_Status rel)
       \<and> lastApplied (cr_Status rel') = lastApplied (cr_Status rel)"
    "l_outcome L \<noteq> NoOp \<Longrightarrow> l_reconciled L \<Longrightarrow>
       st_Inventory (cr_Status rel') = Some (next_inventory (l_newEntries L) (st_Inventory (cr_Status rel)))
       \<and> lastApplied (cr_Status rel') = (l_digests L)\<lparr>ds_Inventory := ComputeDigest (l_newEntries L)\<rparr>"
  using assms(1) rel_frameD [OF assms(2)] by (auto simp: rel_committed_def status_simps split: if_splits)

end
