(* ===== verification/Opm_Rel_Props.thy ===== *)
theory Opm_Rel_Props
  imports Opm_Rel_Body Opm_Demo
begin

text \<open>
  Properties of the Release handler as a whole, for every behaviour of the API server, the
  source controller, the file system, the renderer and the clock.
\<close>

subsection \<open>The handler by cases\<close>

text \<open>A dependency was read, in the release's own namespace, with Ready True.\<close>

definition dep_ready :: "('w, 'v) rel_params \<Rightarrow> string \<Rightarrow> NamespacedName \<Rightarrow> bool" where
  "dep_ready P ns dep \<longleftrightarrow> (nn_Namespace dep = [] \<or> nn_Namespace dep = ns)
     \<and> (\<exists>w w' other. ca_Get (pa_CR P) \<lparr>nn_Namespace = ns, nn_Name = nn_Name dep\<rparr> w = (Inr other, w')
         \<and> cond_is (pa_Kube P) (conds other) ReadyCondition ConditionTrue)"

lemma depends_loop_log: "depends_loop P ns deps s = (r, s') \<Longrightarrow> p_Log s' = p_Log s"
proof (induction deps arbitrary: s)
  case (Cons dep deps)
  then show ?case
    by (fastforce simp: effect_simps split: if_splits prod.splits sum.splits option.splits)
qed simp

lemma depends_loop_ready:
  "depends_loop P ns deps s = (Inr [], s') \<Longrightarrow> list_all (dep_ready P ns) deps"
proof (induction deps arbitrary: s)
  case (Cons dep deps)
  let ?key = "\<lparr>nn_Namespace = ns, nn_Name = nn_Name dep\<rparr>"
  obtain g s1 where g: "call (ca_Get (pa_CR P) ?key) s = (g, s1)" by fastforce
  note w = call_result(1) [OF g]
  from Cons.prems g obtain other c where o: "g = Inr other"
    "k_FindStatusCondition (pa_Kube P) (conds other) ReadyCondition = Some c" "c_Status c = ConditionTrue"
    "nn_Namespace dep = [] \<or> nn_Namespace dep = ns" "depends_loop P ns deps s1 = (Inr [], s')"
    by (auto split: if_splits sum.splits option.splits)
  have "cond_is (pa_Kube P) (conds other) ReadyCondition ConditionTrue" using o by (simp add: cond_is_def)
  then have "dep_ready P ns dep" unfolding dep_ready_def using o(1,4) w by blast
  with Cons.IH [OF o(5)] show ?case by simp
qed simp

definition suspended_release :: "kube_lib \<Rightarrow> Release \<Rightarrow> Release" where
  "suspended_release K rel = observe (on_conditions (MarkSuspended K) rel)"

definition blocked_release :: "kube_lib \<Rightarrow> string \<Rightarrow> Release \<Rightarrow> Release" where
  "blocked_release K msg rel = observe (on_conditions (MarkNotReady K DependenciesNotReadyReason msg) rel)"

definition rel_suspend_event :: "Release effect" where
  "rel_suspend_event = Event EventTypeNormal SuspendedReason ''Suspend'' ''Reconciliation is suspended''"

text \<open>The world in which the phases of an active run start, after the clock and the dependencies.\<close>

definition rel_run_world :: "('w, 'v) rel_params \<Rightarrow> Release \<Rightarrow> 'w rel_state \<Rightarrow> 'w" where
  "rel_run_world P rel s1 =
     p_World (snd (checkDependsOn P rel (resume_event P (conds rel) (snd (call (pa_Now P) s1)))))"

lemma rel_active_cases:
  assumes "rel_active P start rel s = (x, s')"
  obtains
    (blocked) evs t msg where "x = Returned (requeue_after (release_interval rel)) None" "list_all is_event evs"
      "p_Log s' = p_Log s @ evs @ [Event t DependenciesNotReadyReason ''DependsOn'' msg,
         PatchStatus (blocked_release (pa_Kube P) msg rel) rel_owned True]"
  | (active) evs s2 L s3 rel' where "list_all (dep_ready P (obj_namespace rel)) (sp_DependsOn (cr_Spec rel))"
      "p_Log s2 = p_Log s @ evs" "list_all is_event evs"
      "rel_body P (release_interval rel) (init_locals rel) s2 = (x, L, s3)"
      "p_Log s' = p_Log s3 @ [PatchStatus rel' rel_owned True]" "rel_committed (pa_Kube P) L rel'"
      "s2 = snd (checkDependsOn P rel (resume_event P (conds rel) s))"
proof -
  let ?s1 = "resume_event P (conds rel) s"
  obtain evs where evs: "p_Log ?s1 = p_Log s @ evs" "list_all is_event evs"
    using resume_event_log [of s P "conds rel"] by (auto simp: log_ext_def)
  obtain r s2 where r: "checkDependsOn P rel ?s1 = (r, s2)" by fastforce
  then have l2: "p_Log s2 = p_Log s @ evs"
    using evs by (simp add: checkDependsOn_def depends_loop_log)
  have bl: thesis if "rel_blocked P t msg (release_interval rel) rel s2 = (x, s')" for t msg
    using that l2 evs(2)
    by (intro blocked [of evs t msg])
      (auto simp: rel_blocked_def Let_def blocked_release_def snd_patch_status_log effect_simps)
  show ?thesis
  proof (cases r)
    case (Inl e)
    with assms r show ?thesis by (intro bl) (auto simp: rel_active_def Let_def)
  next
    case (Inr blocker)
    show ?thesis
    proof (cases "blocker = []")
      case False
      with Inr assms r show ?thesis by (intro bl) (auto simp: rel_active_def Let_def)
    next
      case True
      obtain y L s3 where b: "rel_body P (release_interval rel) (init_locals rel) s2 = (y, L, s3)"
        by (metis prod_cases3)
      obtain rel' where rel': "p_Log (rel_commit P start L s3) = p_Log s3 @ [PatchStatus rel' rel_owned True]"
        "rel_committed (pa_Kube P) L rel'" using rel_commit_log by blast
      have "x = y" "s' = rel_commit P start L s3"
        using assms r Inr True b by (auto simp: rel_active_def Let_def)
      moreover have "list_all (dep_ready P (obj_namespace rel)) (sp_DependsOn (cr_Spec rel))"
        using r Inr True by (simp add: checkDependsOn_def depends_loop_ready)
      ultimately show ?thesis using b l2 evs(2) rel' r active by simp
    qed
  qed
qed

lemma rel_run_cases:
  assumes run: "ReconcileRelease P req s = (x, s')"
    and get: "call (ca_Get (pa_CR P) req) s = (Inr rel, s1)"
  obtains
    (finalizer) rel' where "\<not> k_ContainsFinalizer (pa_Kube P) (om_Finalizers (cr_Meta rel)) FinalizerName"
      "rel' = with_finalizers (\<lambda>fs. k_AddFinalizer (pa_Kube P) fs FinalizerName) rel"
      "new_effects s s' = [PatchObject rel rel']"
  | (deleting) s2 where "om_DeletionTimestamp (cr_Meta rel) \<noteq> None"
      "handleReleaseDeletion P rel s2 = (x, s')" "new_effects s s' = new_effects s2 s'"
  | (suspended) "sp_Suspend (cr_Spec rel)" "new_effects s s' =
      [rel_suspend_event, PatchStatus (suspended_release (pa_Kube P) rel) rel_owned True]"
  | (blocked) evs t msg where "x = Returned (requeue_after (release_interval rel)) None"
      "list_all is_event evs" "om_DeletionTimestamp (cr_Meta rel) = None" "\<not> sp_Suspend (cr_Spec rel)"
      "new_effects s s' = evs @ [Event t DependenciesNotReadyReason ''DependsOn'' msg,
         PatchStatus (blocked_release (pa_Kube P) msg rel) rel_owned True]"
  | (active) evs es s2 L s3 rel' where "om_DeletionTimestamp (cr_Meta rel) = None" "\<not> sp_Suspend (cr_Spec rel)"
      "list_all (dep_ready P (obj_namespace rel)) (sp_DependsOn (cr_Spec rel))" "list_all is_event evs"
      "rel_body P (release_interval rel) (init_locals rel) s2 = (x, L, s3)" "p_Log s3 = p_Log s2 @ es"
      "new_effects s s' = evs @ es @ [PatchStatus rel' rel_owned True]" "rel_committed (pa_Kube P) L rel'"
      "p_World s2 = rel_run_world P rel s1"
proof -
  obtain start s2 where now: "call (pa_Now P) s1 = (start, s2)" by fastforce
  have log: "p_Log s2 = p_Log s" using get now by (simp add: effect_simps)
  note r = run [unfolded ReconcileRelease_def get, simplified, unfolded now, simplified]
  consider (f) "\<not> k_ContainsFinalizer (pa_Kube P) (om_Finalizers (cr_Meta rel)) FinalizerName"
    | (d) "k_ContainsFinalizer (pa_Kube P) (om_Finalizers (cr_Meta rel)) FinalizerName"
      "om_DeletionTimestamp (cr_Meta rel) \<noteq> None"
    | (s) "k_ContainsFinalizer (pa_Kube P) (om_Finalizers (cr_Meta rel)) FinalizerName"
      "om_DeletionTimestamp (cr_Meta rel) = None" "sp_Suspend (cr_Spec rel)"
    | (a) "k_ContainsFinalizer (pa_Kube P) (om_Finalizers (cr_Meta rel)) FinalizerName"
      "om_DeletionTimestamp (cr_Meta rel) = None" "\<not> sp_Suspend (cr_Spec rel)"
    by blast
  then show ?thesis
  proof cases
    case f
    then have "s' = snd (addFinalizer P rel s2)" using r by (auto split: prod.splits option.splits)
    then have "p_Log s' = p_Log s @ [PatchObject rel
        (with_finalizers (\<lambda>fs. k_AddFinalizer (pa_Kube P) fs FinalizerName) rel)]"
      using log by (simp add: addFinalizer_def Let_def effect_simps)
    then show ?thesis using f finalizer by simp
  next
    case d
    then have "handleReleaseDeletion P rel s2 = (x, s')" using r by simp
    then show ?thesis using d log by (intro deleting [of s2]) (simp_all add: new_effects_def)
  next
    case s
    then have "rel_suspend P rel s2 = (x, s')" using r by simp
    then have "p_Log s' = p_Log s @ [rel_suspend_event, PatchStatus (suspended_release (pa_Kube P) rel) rel_owned True]"
      using log by (auto simp: rel_suspend_def Let_def suspended_release_def rel_suspend_event_def effect_simps
          split: prod.splits dest!: patch_status_log)
    then show ?thesis using s suspended by simp
  next
    case a
    then have "rel_active P start rel s2 = (x, s')" using r by simp
    then show ?thesis
    proof (cases rule: rel_active_cases)
      case (blocked evs t msg)
      with a log show ?thesis by (intro that(4) [of evs t msg]) simp_all
    next
      case (active evs s3 L s4 rel')
      obtain es where es: "p_Log s4 = p_Log s3 @ es"
        using active(4) by (cases rule: rel_body_cases) auto
      have "p_Log s' = p_Log s @ evs @ es @ [PatchStatus rel' rel_owned True]"
        using active(2,5) es log by simp
      moreover have "p_World s3 = rel_run_world P rel s1"
        using active(7) now by (simp add: rel_run_world_def)
      ultimately show ?thesis using a active(1-6) es by (intro that(5) [of evs s3 L s4 es rel']) simp_all
    qed
  qed
qed

subsection \<open>Shared lemmas\<close>

text \<open>The loop downloads with \<open>ArtifactFetcher\<close>: by default, and as the manager configures it.\<close>

definition built_in_fetcher :: "('w, 'v) rel_params \<Rightarrow> bool" where
  "built_in_fetcher P \<longleftrightarrow>
     (\<forall>url dg dir opts w. effective_fetcher P url dg dir opts w
        = Fetch (rp_Env P) \<lparr>af_HTTPClient = None, af_MaxSize = 0\<rparr> url dg dir opts w)"

lemma built_in_fetcher_None [simp]: "rp_Fetcher P = None \<Longrightarrow> built_in_fetcher P"
  by (simp add: built_in_fetcher_def effective_fetcher_def)

lemma packaged_verified:
  assumes "packaged P rel art rr" and "built_in_fetcher P"
  shows "\<exists>w resp. fst (se_DefaultClient (rp_Env P) (art_URL art) w) = Inr resp \<and> hr_StatusCode resp = 200
    \<and> digest_of (fst (hr_Body resp)) = art_Digest art \<and> length (fst (hr_Body resp)) \<le> 67108864"
proof -
  let ?f = "\<lparr>af_HTTPClient = None, af_MaxSize = 0\<rparr> :: 'a ArtifactFetcher"
  obtain dir w w' where "Fetch (rp_Env P) ?f (art_URL art) (art_Digest art) dir (fetch_opts art) w = (None, w')"
    using assms by (auto simp: packaged_def built_in_fetcher_def)
  moreover have "max_size ?f = 67108864" by (simp add: max_size_def MaxArtifactSize_eq)
  ultimately show ?thesis using Fetch_ok [of "rp_Env P" ?f] by (fastforce simp: int64_max_def)
qed

text \<open>
  The effects of the body: events only, or one apply call of a packaged result followed by
  events and guarded deletes.
\<close>

lemma rel_body_effects:
  assumes "rel_body P i (init_locals rel) s = (x, L, s')" and "p_Log s' = p_Log s @ es"
  obtains
    (quiet) "list_all is_event es"
  | (applies) art rr rs rest where "es = rel_apply_call P rel rs # rest" "packaged_run P rel (p_World s) art rr"
      "toUnstructuredSlice (pa_Cue P) (rr_Resources rr) = Inr rs"
      "list_all is_event rest \<or> rel_apply_succeeds P rel rs" "list_all (rel_prune_effect P rel rr) rest"
  using assms(1)
proof (cases rule: rel_body_cases)
  case (early f es')
  then show ?thesis using assms(2) quiet by simp
next
  case (deployed art rr es')
  have ev: "list_all (rel_prune_effect P rel rr) zs" if "list_all is_event zs" for zs
    using that by (auto simp: list_all_iff rel_prune_effect_def)
  have es: "es' = es" using deployed(2) assms(2) by simp
  from deployed(3) show ?thesis
    by (cases rule: deployed.cases) (use deployed(1) es ev in \<open>auto intro: quiet applies\<close>)
qed

lemma rel_body_kinds:
  assumes "rel_body P i (init_locals rel) s = (x, L, s')" and "p_Log s' = p_Log s @ es"
  shows "list_all (\<lambda>e. is_event e \<or> is_apply e \<or> is_delete e) es"
  using assms
  by (cases rule: rel_body_effects)
    (auto simp: list_all_iff rel_apply_call_def rel_prune_effect_def guarded_delete_def)

subsection \<open>What is deployed\<close>

lemma rel_deploys_packaged:
  assumes run: "ReconcileRelease P req s = (x, s')"
    and get: "call (ca_Get (pa_CR P) req) s = (Inr rel, s1)"
    and live: "om_DeletionTimestamp (cr_Meta rel) = None"
    and eff: "e \<in> set (new_effects s s')" "is_apply e \<or> is_delete e"
    and fetcher: "built_in_fetcher P"
  shows "list_all (dep_ready P (obj_namespace rel)) (sp_DependsOn (cr_Spec rel))
    \<and> (\<exists>art rr rs. packaged_run P rel (rel_run_world P rel s1) art rr \<and> toUnstructuredSlice (pa_Cue P) (rr_Resources rr) = Inr rs
        \<and> rel_apply_call P rel rs \<in> set (new_effects s s')
        \<and> (\<exists>w resp. fst (se_DefaultClient (rp_Env P) (art_URL art) w) = Inr resp \<and> hr_StatusCode resp = 200
             \<and> digest_of (fst (hr_Body resp)) = art_Digest art \<and> length (fst (hr_Body resp)) \<le> 67108864))"
  using run get
proof (cases rule: rel_run_cases)
  case (active evs es s2 L s3 rel')
  have "e \<in> set es" using eff active(4,7) by (auto simp: list_all_iff)
  from active(5,6) show ?thesis
  proof (cases rule: rel_body_effects)
    case quiet
    then show ?thesis using \<open>e \<in> set es\<close> eff(2) by (auto simp: list_all_iff)
  next
    case (applies art rr rs rest)
    have "rel_apply_call P rel rs \<in> set (new_effects s s')" using applies(1) active(7) by simp
    then show ?thesis
      using active(3,9) applies(2,3) packaged_verified [OF packaged_run_packaged [OF applies(2)] fetcher]
      by (metis (no_types, lifting))
  qed
qed (use live eff in \<open>auto simp: rel_suspend_event_def list_all_iff\<close>)

text \<open>
  C4: a Release that is not being deleted applies or deletes objects only if all the releases
  it depends on were read as Ready in its own namespace, and its source was read as Ready
  with an artifact whose bytes the artifact server delivered: at most 64 MiB with exactly
  the digest that the source announces (for the built-in fetcher). The applied objects are
  those rendered from the package fetched in this very run.
\<close>

theorem rel_deploys_only_verified:
  assumes run: "ReconcileRelease P req s = (x, s')"
    and get: "call (ca_Get (pa_CR P) req) s = (Inr rel, s1)"
    and live: "om_DeletionTimestamp (cr_Meta rel) = None"
    and eff: "e \<in> set (new_effects s s')" "is_apply e \<or> is_delete e"
    and fetcher: "built_in_fetcher P"
  shows "list_all (dep_ready P (obj_namespace rel)) (sp_DependsOn (cr_Spec rel))
    \<and> (\<exists>art rr rs. packaged_run P rel (rel_run_world P rel s1) art rr \<and> toUnstructuredSlice (pa_Cue P) (rr_Resources rr) = Inr rs
        \<and> rel_apply_call P rel rs \<in> set (new_effects s s')
        \<and> (\<exists>w resp. fst (se_DefaultClient (rp_Env P) (art_URL art) w) = Inr resp \<and> hr_StatusCode resp = 200
             \<and> digest_of (fst (hr_Body resp)) = art_Digest art \<and> length (fst (hr_Body resp)) \<le> 67108864))"
  using assms by (rule rel_deploys_packaged)

text \<open>The objects a reconcile of a live release may delete.\<close>

definition rel_prune_target ::
  "('w, 'v) rel_params \<Rightarrow> Release \<Rightarrow> InventoryEntry list \<Rightarrow> unstructured \<Rightarrow> bool" where
  "rel_prune_target P rel desired u \<longleftrightarrow>
     (\<exists>entry w w'. entry \<in> set (previousEntries (cr_Status rel)) \<and> isSafeToDelete entry
        \<and> (\<forall>d\<in>set desired. \<not> K8sIdentityEqual entry d)
        \<and> la_Get (pa_Live P) (expected_client (pa_DefaultServiceAccount P) rel) (entry_gvk entry)
             (entry_nn entry) w = (Inr u, w')
        \<and> IsOPMManagedBy (map_index (u_Labels u) LabelManagedBy))"

text \<open>
  C6: while a Release is not being deleted, the handler deletes an object only if
  \<open>spec.prune\<close> is set and an apply call came first in the same run and succeeded, with the
  identity that applied, and only an object just read for an entry of the previous inventory
  that the inventory rendered in this very run no longer contains (the run's own resolution,
  fetch, navigation and render, in the world in which its phases start, determine it, and its
  resources are the ones applied), of a kind other than Namespace and
  CustomResourceDefinition, whose labels say that OPM manages it.
\<close>

theorem rel_deletes_only_stale_managed:
  assumes run: "ReconcileRelease P req s = (x, s')"
    and get: "call (ca_Get (pa_CR P) req) s = (Inr rel, s1)"
    and live: "om_DeletionTimestamp (cr_Meta rel) = None"
    and del: "new_effects s s' = pre @ DeleteObject c u # post"
  shows "sp_Prune (cr_Spec rel) \<and> c = expected_client (pa_DefaultServiceAccount P) rel
    \<and> (\<exists>art rr rs. packaged_run P rel (rel_run_world P rel s1) art rr
         \<and> toUnstructuredSlice (pa_Cue P) (rr_Resources rr) = Inr rs
         \<and> rel_apply_call P rel rs \<in> set pre \<and> rel_apply_succeeds P rel rs
         \<and> rel_prune_target P rel (rr_InventoryEntries rr) u)"
  using run get
proof (cases rule: rel_run_cases)
  case (active evs es s2 L s3 rel')
  have sp: "pre @ DeleteObject c u # post = evs @ es @ [PatchStatus rel' rel_owned True]"
    using del active(7) by simp
  have "DeleteObject c u \<in> set (evs @ es @ [PatchStatus rel' rel_owned True])"
    unfolding sp [symmetric] by simp
  then have del_es: "DeleteObject c u \<in> set es" using active(4) by (auto simp: list_all_iff)
  from active(5,6) show ?thesis
  proof (cases rule: rel_body_effects)
    case quiet
    then show ?thesis using del_es by (auto simp: list_all_iff)
  next
    case (applies art rr rs rest)
    have "DeleteObject c u \<notin> set evs" using active(4) by (auto simp: list_all_iff)
    moreover have "pre @ DeleteObject c u # post = evs @ rel_apply_call P rel rs # (rest @ [PatchStatus rel' rel_owned True])"
      using sp applies(1) by simp
    ultimately have ap: "rel_apply_call P rel rs \<in> set pre"
      using split_at_unique by (fastforce simp: rel_apply_call_def)
    have "DeleteObject c u \<in> set rest" using del_es applies(1) by (simp add: rel_apply_call_def)
    then have pe: "rel_prune_effect P rel rr (DeleteObject c u)" "rel_apply_succeeds P rel rs"
      using applies(4,5) by (auto simp: list_all_iff)
    then have "rel_prune_target P rel (rr_InventoryEntries rr) u"
      by (auto simp: rel_prune_effect_def guarded_delete_def rel_prune_target_def prunable_labels_def
          ComputeStaleSet_filter K8sIdentityEqual_key)
    moreover have "packaged_run P rel (rel_run_world P rel s1) art rr" using applies(2) active(9) by simp
    moreover have "sp_Prune (cr_Spec rel)" "c = expected_client (pa_DefaultServiceAccount P) rel"
      using pe(1) by (auto simp: rel_prune_effect_def guarded_delete_def)
    ultimately show ?thesis using pe(2) ap applies(3) by blast
  qed
next
  case (blocked evs t msg)
  have "DeleteObject c u \<in> set (new_effects s s')" by (simp add: del)
  with blocked show ?thesis by (auto simp: list_all_iff)
qed (use del live in \<open>auto simp: rel_suspend_event_def append_eq_Cons_conv\<close>)

subsection \<open>The ledger\<close>

lemma failing_frame: "failing K rel i f rel' \<Longrightarrow> rel_frame rel rel'"
  by (auto simp: failing_def in_progress_def)

lemma deployed_frame: "deployed P rel i art rr x L es \<Longrightarrow> rel_frame rel (l_obj L)"
  by (erule deployed.cases) (auto simp: in_progress_def dest: failing_frame)

lemma rel_body_frame:
  "rel_body P i (init_locals rel) s = (x, L, s') \<Longrightarrow> rel_frame rel (l_obj L)"
  by (erule rel_body_cases) (auto dest: failing_frame deployed_frame)

definition rel_applied_result ::
  "('w, 'v) rel_params \<Rightarrow> Release \<Rightarrow> ArtifactRef \<Rightarrow> 'v RenderResult \<Rightarrow> unstructured list \<Rightarrow> string \<Rightarrow> bool" where
  "rel_applied_result P rel art rr rs d \<longleftrightarrow> packaged P rel art rr
     \<and> RenderDigest (pa_Cue P) (rr_Resources rr) = Inr d
     \<and> toUnstructuredSlice (pa_Cue P) (rr_Resources rr) = Inr rs \<and> rel_apply_succeeds P rel rs"

lemma rel_body_reconciled:
  assumes "rel_body P i (init_locals rel) s = (x, L, s')" and "p_Log s' = p_Log s @ es" and "l_reconciled L"
  shows "\<exists>art rr rs d. rel_applied_result P rel art rr rs d \<and> rel_apply_call P rel rs \<in> set es
    \<and> l_newEntries L = rr_InventoryEntries rr \<and> l_digests L = rel_digests art d (rr_InventoryEntries rr)"
  using assms(1)
proof (cases rule: rel_body_cases)
  case (early f es')
  then show ?thesis using assms(3) by (simp add: failed_with_def)
next
  case (deployed art rr es')
  have es: "es' = es" using deployed(2) assms(2) by simp
  from deployed(3) show ?thesis
  proof (cases rule: deployed.cases)
    case (complete d rs es2)
    have "rel_applied_result P rel art rr rs d"
      using complete packaged_run_packaged [OF deployed(1)] by (simp add: rel_applied_result_def)
    moreover have "rel_apply_call P rel rs \<in> set es" using complete es by simp
    ultimately show ?thesis using complete by blast
  qed (use assms(3) in \<open>simp_all add: failed_with_def idle_def\<close>)
qed


subsection \<open>What is reported\<close>

lemma in_progress_conds:
  assumes "flux_conditions K" and "conditions_ok (conds rel)" and "in_progress K rel rel1"
  shows "progress_conds K (conds rel1)"
  using assms flux_conditions.progress_intros [OF assms(1)] by (auto simp: in_progress_def started_def)

definition fail_delay :: "Release \<Rightarrow> duration \<Rightarrow> phaseFail \<Rightarrow> bool" where
  "fail_delay rel i f \<longleftrightarrow>
     pf_outcome f = FailedStalled \<and> pf_retryAfter f = StalledRecheckInterval
     \<or> pf_outcome f = FailedTransient \<and> pf_retryAfter f \<in> {i, releaseBackoff rel}"

lemma failing_reports:
  assumes "flux_conditions K" and "conditions_ok (conds rel)" and "failing K rel i f rel'"
  shows "outcome_conds K (pf_outcome f) (conds rel') \<and> fail_delay rel i f"
proof -
  from assms(3) obtain rel1 r m where ip: "in_progress K rel rel1"
    and c: "(\<exists>t. f = stalled_fail t) \<and> rel' = on_conditions (MarkStalled K r m) rel1
      \<or> (\<exists>t d. f = transient_fail t d \<and> d \<in> {i, releaseBackoff rel}) \<and> rel' = on_conditions (MarkNotReady K r m) rel1"
    unfolding failing_def by blast
  note intros = flux_conditions.progress_intros [OF assms(1)]
  have p: "progress_conds K (conds rel1)" by (rule in_progress_conds [OF assms(1,2) ip])
  from c show ?thesis
    using p intros by (auto simp: stalled_fail_def transient_fail_def fail_delay_def)
qed

text \<open>How an active run ends, from its local variables.\<close>

lemma rel_body_reports:
  assumes fc: "flux_conditions (pa_Kube P)" and ok: "conditions_ok (conds rel)" and rc: "pa_RestConfig P"
    and b: "rel_body P i (init_locals rel) s = (x, L, s')"
  shows "(\<exists>f. x = Returned (requeue_after (pf_retryAfter f)) None \<and> failed_with f L
      \<and> failing (pa_Kube P) rel i f (l_obj L))
    \<or> x = Returned (requeue_after i) None \<and> l_retryAfter L = 0 \<and>
      (l_outcome L = NoOp \<and> in_progress (pa_Kube P) rel (l_obj L)
       \<or> l_outcome L \<in> {Applied, AppliedAndPruned} \<and> outcome_conds (pa_Kube P) Applied (conds (l_obj L)))"
  using b
proof (cases rule: rel_body_cases)
  case (early f es)
  then show ?thesis by blast
next
  case (deployed art rr es)
  note intros = flux_conditions.progress_intros [OF fc]
  have "conditions_ok (ClearDrifted (pa_Kube P) (started (pa_Kube P) rel))"
    using ok intros by (simp add: started_def)
  note ready = flux_conditions.outcome_marks(3) [OF fc this]
  from deployed(3) show ?thesis
    by (cases rule: deployed.cases) (use rc ready in \<open>auto simp: idle_def\<close>)
qed

text \<open>
  C24: a run on a live release that is not suspended ends by writing the status, for the
  generation it read, and asks to be called again: after the release interval with Ready True
  and neither Reconciling nor Stalled if the release is deployed or up to date; after the
  recheck interval with Ready False and Stalled True; after the interval or the backoff with
  Ready False and Reconciling True; or after the interval with Ready False for the reason
  DependenciesNotReady. The next-retry time is set exactly with a positive delay after a
  failure.
\<close>

theorem rel_run_reports_outcome:
  assumes run: "ReconcileRelease P req s = (x, s')"
    and get: "call (ca_Get (pa_CR P) req) s = (Inr rel, s1)"
    and live: "om_DeletionTimestamp (cr_Meta rel) = None" "\<not> sp_Suspend (cr_Spec rel)"
    and fin: "k_ContainsFinalizer (pa_Kube P) (om_Finalizers (cr_Meta rel)) FinalizerName"
    and rc: "pa_RestConfig P" and laws: "flux_conditions (pa_Kube P)" and ok: "conditions_ok (conds rel)"
  shows "\<exists>rel' d. last (new_effects s s') = PatchStatus rel' rel_owned True
    \<and> x = Returned (requeue_after d) None
    \<and> st_ObservedGeneration (cr_Status rel') = om_Generation (cr_Meta rel)
    \<and> (outcome_conds (pa_Kube P) Applied (conds rel') \<and> d = release_interval rel \<and> st_NextRetryAt (cr_Status rel') = None
     \<or> outcome_conds (pa_Kube P) FailedStalled (conds rel') \<and> d = StalledRecheckInterval
        \<and> st_NextRetryAt (cr_Status rel') \<noteq> None
     \<or> outcome_conds (pa_Kube P) FailedTransient (conds rel') \<and> d \<in> {release_interval rel, releaseBackoff rel}
        \<and> (st_NextRetryAt (cr_Status rel') = None \<longleftrightarrow> d \<le> 0)
     \<or> (\<exists>msg. k_FindStatusCondition (pa_Kube P) (conds rel') ReadyCondition =
           Some (mk_condition ReadyCondition ConditionFalse DependenciesNotReadyReason msg))
        \<and> d = release_interval rel)"
  using run get
proof (cases rule: rel_run_cases)
  case (blocked evs t msg)
  have "conds (blocked_release (pa_Kube P) msg rel) = MarkNotReady (pa_Kube P) DependenciesNotReadyReason msg (conds rel)"
    "st_ObservedGeneration (cr_Status (blocked_release (pa_Kube P) msg rel)) = om_Generation (cr_Meta rel)"
    by (simp_all add: blocked_release_def observe_def)
  with blocked show ?thesis
    using flux_conditions.Find_MarkFalse [OF laws ok]
    by (intro exI [of _ "blocked_release (pa_Kube P) msg rel"] exI [of _ "release_interval rel"])
      (auto simp: MarkNotReady_def)
next
  case (active evs es s2 L s3 rel')
  note c = rel_committedD(3-5) [OF active(8) rel_body_frame [OF active(5)]]
  have last: "last (new_effects s s') = PatchStatus rel' rel_owned True" by (simp add: active(7))
  from rel_body_reports [OF laws ok rc active(5)] show ?thesis
  proof
    assume "\<exists>f. x = Returned (requeue_after (pf_retryAfter f)) None \<and> failed_with f L
        \<and> failing (pa_Kube P) rel (release_interval rel) f (l_obj L)"
    then obtain f where f: "x = Returned (requeue_after (pf_retryAfter f)) None" "failed_with f L"
      "outcome_conds (pa_Kube P) (pf_outcome f) (conds (l_obj L))" "fail_delay rel (release_interval rel) f"
      using failing_reports [OF laws ok] by blast
    have "StalledRecheckInterval > 0" by (simp add: StalledRecheckInterval_def)
    then show ?thesis using last f c by (auto simp: failed_with_def fail_delay_def)
  next
    assume a: "x = Returned (requeue_after (release_interval rel)) None \<and> l_retryAfter L = 0 \<and>
      (l_outcome L = NoOp \<and> in_progress (pa_Kube P) rel (l_obj L)
       \<or> l_outcome L \<in> {Applied, AppliedAndPruned} \<and> outcome_conds (pa_Kube P) Applied (conds (l_obj L)))"
    have "outcome_conds (pa_Kube P) Applied (MarkReady (pa_Kube P) m (conds (l_obj L)))"
      if "in_progress (pa_Kube P) rel (l_obj L)" for m
      by (intro flux_conditions.outcome_marks(3) [OF laws] flux_conditions.progress_ok [OF laws]
          in_progress_conds [OF laws ok that])
    then show ?thesis using last a c by auto
  qed
qed (use live fin in auto)

subsection \<open>Deletion\<close>

text \<open>
  The finalizer of a Release that is being deleted is given up only if pruning is
  disabled or the inventory is empty, or the prune of the whole inventory under the deletion
  identity reported no error, or the operator set the orphan annotation and the
  ServiceAccount does not exist; giving it up is the last effect of the run and removes no
  other finalizer.
\<close>

theorem rel_finalizer_released_only_when_clean:
  fixes P :: "('w, 'v) rel_params"
  assumes run: "ReconcileRelease P req s = (x, s')"
    and get: "call (ca_Get (pa_CR P) req) s = (Inr rel, s1)"
    and del: "om_DeletionTimestamp (cr_Meta rel) \<noteq> None"
    and fin: "k_ContainsFinalizer (pa_Kube P) (om_Finalizers (cr_Meta rel)) FinalizerName"
    and laws: "kube_finalizers (pa_Kube P)"
    and patch: "PatchObject a b \<in> set (new_effects s s')"
  shows "(\<not> sp_Prune (cr_Spec rel) \<or> previousEntries (cr_Status rel) = []
      \<or> (\<exists>res (t :: 'w rel_state) t'. Prune (pa_Kube P) (pa_Live P) (deletion_identity P rel)
           [] (previousEntries (cr_Status rel)) t = (res, None, t'))
      \<or> (map_index (om_Annotations (cr_Meta rel)) AnnotationForceDeleteOrphan = ''true''
          \<and> (\<exists>sa e (t :: 'w rel_state) t'. NewImpersonatedClient (pa_Kube P) (pa_Auth P) True
               (obj_namespace rel) sa t = (Some (Inl e), t') \<and> k_IsNotFound (pa_Kube P) e)))
    \<and> last (new_effects s s') = PatchObject a b
    \<and> set (om_Finalizers (cr_Meta b)) = set (om_Finalizers (cr_Meta rel)) - {FinalizerName}"
  using run get
proof (cases rule: rel_run_cases)
  case (deleting s2)
  have "deletion_cleanup rel_owned [] P rel s2 = (x, s')"
    using deleting(2) by (simp add: handleReleaseDeletion_eq)
  then have d: "may_release P [] rel" "last (p_Log s') = PatchObject a b"
    "cr_Meta a = cr_Meta rel" "b = without_finalizer (pa_Kube P) a"
    using deletion_cleanup_finalizer patch deleting(3) by (metis new_effects_def)+
  have "last (new_effects s s') = last (p_Log s')"
    using patch unfolding new_effects_def by (metis drop_all empty_iff last_drop linorder_le_less_linear list.set(1))
  then have "last (new_effects s s') = PatchObject a b" using d(2) by simp
  moreover have "set (om_Finalizers (cr_Meta b)) = set (om_Finalizers (cr_Meta rel)) - {FinalizerName}"
    using d(3,4) kube_finalizers.RemoveFinalizer [OF laws]
    by (simp add: without_finalizer_def with_finalizers_def)
  moreover note d(1)
  ultimately show ?thesis
    by (auto simp: may_release_def skip_prune_def orphan_requested_def)
qed (use del fin patch in \<open>auto simp: rel_suspend_event_def\<close>)

subsection \<open>The package path\<close>

lemma TrimPrefix_Clean_root:
  "TrimPrefix (Clean (''/'' @ p)) ''/'' = join_slash (clean_components (''/'' @ p))"
  by (simp add: Clean_def Let_def TrimPrefix_def HasPrefix_def)

lemma join_slash_Nil: "\<forall>c\<in>set cs. plain c \<Longrightarrow> join_slash cs = [] \<longleftrightarrow> cs = []"
  using join_slash_hd [of cs] by auto

text \<open>
  C33: whatever \<open>spec.path\<close> says, the package directory is lexically inside the extraction
  directory: the path is cleaned as a rooted one, so leading \<open>..\<close> components are dropped
  rather than rejected, and the joined path extends the extraction directory by named
  components only.
\<close>

theorem resolvePackagePath_confined:
  assumes "resolvePackagePath FS root relPath w = (Inr target, w')" and "root \<noteq> []"
  shows "within root target \<and> clean_components target = clean_components root @ clean_components (''/'' @ relPath)"
proof -
  let ?cs = "clean_components (''/'' @ relPath)"
  have t: "target = filepath_Join [root, join_slash ?cs]"
    using assms(1)
    by (auto simp: resolvePackagePath_def Let_def TrimPrefix_Clean_root [simplified]
        split: prod.splits sum.splits if_splits)
  have cl: "\<forall>c\<in>set ?cs. plain c" "''..'' \<notin> set ?cs"
    using clean_components_clean [of "''/'' @ relPath"] by (simp_all add: clean_list_rooted)
  have "clean_components target = clean_components root @ ?cs \<and> IsAbs target = IsAbs root"
  proof (cases "?cs = []")
    case True
    then have "target = Clean (root @ ''/'')" using assms(2) by (simp add: t filepath_Join_def)
    moreover have "clean_components (root @ ''/'') = clean_components root"
      using components_append [of root "[]"] assms(2) by (simp add: clean_components_def IsAbs_append)
    ultimately show ?thesis using True assms(2) by (simp add: IsAbs_append)
  next
    case False
    have comp: "components (join_slash ?cs) = ?cs" by (rule components_join [OF cl(1)])
    have "\<not> IsAbs (join_slash ?cs)" using join_slash_hd [OF False cl(1)] by (simp add: IsAbs_iff)
    then show ?thesis
      using Join_components [of "join_slash ?cs" root] join_slash_Nil [OF cl(1)] False comp cl(2) t by simp
  qed
  then show ?thesis using cl(2) by (auto simp: within_def)
qed

subsection \<open>A concrete release\<close>

text \<open>
  The Release of the witnesses: the same cluster as for the ModuleRelease, the package
  coming from a Git source whose archive holds \<open>apps/release.cue\<close>, and an injected renderer.
\<close>

definition stub_cue :: "dval cue_eval" where
  "stub_cue = \<lparr>cv_Lib = demo_cue, cv_Nil = DNone, cv_Fields = (\<lambda>opt v. Inr []), cv_List = (\<lambda>v. Inr []),
     cv_LookupStr = (\<lambda>l v. DNone), cv_LookupSel = (\<lambda>l v. DNone), cv_Kind = (\<lambda>v. StructKind),
     cv_IncompleteKind = (\<lambda>v. StructKind), cv_FillPath = (\<lambda>p x v. v), cv_Unify = (\<lambda>a b. b),
     cv_Allows = (\<lambda>v sel. True), cv_Pos = (\<lambda>v. tree_pos), cv_Validate = (\<lambda>conc v. None),
     cv_Errors = (\<lambda>e. []), cv_Append = (\<lambda>acc e. acc @ [e]), cv_Details = (\<lambda>pos path msg. msg),
     cv_Syntax = (\<lambda>v. \<lparr>an_Type = [], an_IsExpr = True, an_Text = []\<rparr>), cv_BuildExpr = (\<lambda>n. DNone),
     cv_CompileBytes = DStr, cv_EncodeRelease = (\<lambda>d. DNone), cv_EncodeComponent = (\<lambda>d. DNone),
     cv_EncodeString = DStr, cv_DecodeModule = (\<lambda>v. Inl (errors_New ''no module'')),
     cv_DecodeRelease = (\<lambda>v. Inl (errors_New ''no release'')), cv_DecodeProvider = (\<lambda>d v. Inr d)\<rparr>"

definition stub_env :: "('w, dval) render_env" where
  "stub_env = \<lparr>re_FS = demo_fs, re_Abs = Inr, re_Instances = (\<lambda>dir w. ([], w)),
     re_BuildInstance = (\<lambda>i. DNone), re_Cue = stub_cue, re_Poll = (\<lambda>n. None)\<rparr>"

definition stub_provider :: "dval Provider" where
  "stub_provider = \<lparr>pv_Metadata = \<lparr>pmd_Name = [], pmd_Description = [], pmd_Version = [], pmd_Labels = Map.empty,
     pmd_Annotations = Map.empty\<rparr>, pv_Data = DNone\<rparr>"

definition rel_demo_params :: "(Release mem_world, dval) rel_params" where
  "rel_demo_params = \<lparr>pa_Kube = std_kube, pa_Cue = demo_cue, pa_CR = mem_cr, pa_Live = mem_live,
     pa_Ssa = mem_ssa, pa_Auth = mem_auth, pa_Now = mem_now, pa_RestConfig = True,
     pa_ResourceManager = \<lparr>rm_Client = ControllerClient, rm_Field = FieldManager, rm_Group = ''opm-controller''\<rparr>,
     pa_DefaultServiceAccount = [],
     rp_GetSource = (\<lambda>t k w. (Inr \<lparr>src_Conditions = [mk_condition ''Ready'' ConditionTrue [] []],
        src_Artifact = Some \<lparr>fa_URL = ''http://source/a.tgz'', fa_Revision = ''main@1'',
          fa_Digest = digest_of ''tgz''\<rparr>\<rparr>, w)),
     rp_Env = demo_env [Inr (demo_entry ''apps/release.cue'' (CHR ''0'') [])] ''tgz'',
     rp_Fetcher = None, rp_RenderEnv = stub_env, rp_Provider = stub_provider,
     rp_Renderer = Some (\<lambda>dir prov w. (Inr (KindModuleRelease, demo_rr), w))\<rparr>"

definition rel_demo_spec :: ReleaseSpec where
  "rel_demo_spec = \<lparr>sp_Suspend = False, sp_Prune = True, sp_ServiceAccountName = [], sp_Rollout = None,
     sp_SourceRef = \<lparr>sr_Kind = ''GitRepository'', sr_Name = ''apps'', sr_Namespace = []\<rparr>,
     sp_Path = ''apps'', sp_Interval = 0, sp_DependsOn = []\<rparr>"

definition demo_rel :: Release where
  "demo_rel = \<lparr>cr_Meta = demo_meta, cr_Spec = rel_demo_spec,
     cr_Status = empty_release_status\<lparr>st_Inventory := Some demo_inventory\<rparr>\<rparr>"

definition rel_demo_state :: "Release \<Rightarrow> Release mem_world rel_state" where
  "rel_demo_state rel = \<lparr>p_World = \<lparr>mw_Objects = [obj_key web_obj \<mapsto> (demo_labels, ''web-v1''),
        obj_key old_obj \<mapsto> (demo_labels, ''old'')], mw_CR = Some rel, mw_ServiceAccounts = [], mw_Clock = 100\<rparr>,
     p_Log = [], p_Metrics = empty_registry\<rparr>"

lemma rel_demo_params_simps [simp]:
  "pa_Kube rel_demo_params = std_kube" "pa_Cue rel_demo_params = demo_cue" "pa_CR rel_demo_params = mem_cr"
  "pa_Live rel_demo_params = mem_live" "pa_Ssa rel_demo_params = mem_ssa" "pa_Auth rel_demo_params = mem_auth"
  "pa_Now rel_demo_params = mem_now" "pa_RestConfig rel_demo_params" "pa_DefaultServiceAccount rel_demo_params = []"
  "rp_Fetcher rel_demo_params = None"
  "effective_renderer rel_demo_params dir prov w = (Inr (KindModuleRelease, demo_rr), w)"
  by (simp_all add: rel_demo_params_def effective_renderer_def)

lemma demo_rel_simps [simp]:
  "cr_Spec demo_rel = rel_demo_spec" "cr_Meta demo_rel = demo_meta"
  "sp_Prune rel_demo_spec" "\<not> sp_Suspend rel_demo_spec" "sp_ServiceAccountName rel_demo_spec = []"
  "sp_Rollout rel_demo_spec = None" "sp_DependsOn rel_demo_spec = []" "sp_Path rel_demo_spec = ''apps''"
  "sp_Interval rel_demo_spec = 0"
  "st_Inventory (cr_Status demo_rel) = Some demo_inventory" "conds demo_rel = []"
  "st_LastAppliedSourceDigest (cr_Status demo_rel) = []" "st_FailureCounters (cr_Status demo_rel) = None"
  "st_History (cr_Status demo_rel) = []"
  by (simp_all add: demo_rel_def rel_demo_spec_def empty_release_status_def empty_common_def
      CommonStatus.defs ReleaseStatus.defs)

lemma rel_demo_state_simps [simp]:
  "p_Log (rel_demo_state rel) = []" "mw_CR (p_World (rel_demo_state rel)) = Some rel"
  "mw_Objects (p_World (rel_demo_state rel)) (''apps'', ''Deployment'', ''prod'', ''web'') = Some (demo_labels, ''web-v1'')"
  "mw_Objects (p_World (rel_demo_state rel)) ([], ''ConfigMap'', ''prod'', ''old'') = Some (demo_labels, ''old'')"
  "mw_Clock (p_World (rel_demo_state rel)) = 100"
  by (simp_all add: rel_demo_state_def)

lemma rel_demo_get:
  "call (ca_Get (pa_CR rel_demo_params) demo_req) (rel_demo_state rel) = (Inr rel, rel_demo_state rel)"
  by (simp add: call_def)

lemma rel_demo_resolve [simp]:
  "Resolve std_kube (rp_GetSource rel_demo_params) (sp_SourceRef rel_demo_spec) ns w =
     (Inr \<lparr>art_Kind = ''GitRepository'', art_URL = ''http://source/a.tgz'', art_Revision = ''main@1'',
        art_Digest = digest_of ''tgz''\<rparr>, w)"
  by (simp add: Resolve_def rel_demo_params_def rel_demo_spec_def newSourceObject_def Let_def)

lemma rel_demo_fs [simp]: "se_FS (rp_Env rel_demo_params) = demo_fs"
  by (simp add: rel_demo_params_def demo_env_def)

lemma demo_fs_simps [simp]:
  "fs_MkdirTemp demo_fs p w = (Inr ''/tmp/dest'', w)" "fs_RemoveAll demo_fs p w = (None, w)"
  by (simp_all add: demo_fs_def)

lemma rel_demo_fetch [simp]:
  "effective_fetcher rel_demo_params ''http://source/a.tgz'' (digest_of ''tgz'') ''/tmp/dest''
     \<lparr>fo_Format = FormatForKind ''GitRepository'', fo_SkipRootCUEModuleValidation = True\<rparr> w = (None, w)"
  by (simp add: effective_fetcher_def rel_demo_params_def FormatForKind_def source_run max_size_def
      MaxArtifactSize_eq LimitReader_def word_sless_alt)

lemma rel_demo_path [simp]:
  "resolvePackagePath demo_fs ''/tmp/dest'' ''apps'' w = (Inr ''/tmp/dest/apps'', w)"
  by (simp add: resolvePackagePath_def demo_fs_def source_run TrimPrefix_def)

definition rel_demo_effects :: "Release effect list" where
  "rel_demo_effects = [ApplyAll (pa_ResourceManager rel_demo_params) [web_obj] False,
     Event EventTypeNormal AppliedReason ''Apply''
       (applied_note \<lparr>ar_Created = 0, ar_Updated = 1, ar_Unchanged = 0\<rparr>),
     DeleteObject ControllerClient old_obj,
     Event EventTypeNormal PrunedReason ''Prune'' (''Pruned '' @ nat_str 1 @ '' stale resources''),
     Event EventTypeNormal ReconciliationSucceededReason ''Reconcile'' ''Reconciliation succeeded'']"

definition rel_demo_started :: "Release \<Rightarrow> Release mem_world rel_state" where
  "rel_demo_started rel = (rel_demo_state rel)\<lparr>p_World := (p_World (rel_demo_state rel))\<lparr>mw_Clock := 101\<rparr>\<rparr>"

lemma rel_demo_started_simps [simp]:
  "p_Log (rel_demo_started rel) = []"
  "mw_Objects (p_World (rel_demo_started rel)) = mw_Objects (p_World (rel_demo_state rel))"
  "mem_action web_obj (p_World (rel_demo_started rel)) = ConfiguredAction"
  by (simp_all add: rel_demo_started_def mem_action_def)

lemmas rel_run_defs = rel_body_def rel_package_def rel_deploy_def resolveReleaseSource_def
  fetchReleaseArtifact_def navigateReleasePath_def renderReleasePackage_def computeReleaseDigests_def
  applyAndPruneRelease_def release_prune_def buildApplyClient_def resolveEffectiveSA_def
  Apply_def Prune_def prune_entry_def mark_def init_locals_def forceConflicts_def rel_digests_def
  Let_def call_def mcall_def emit_def Eventf_def

lemma rel_demo_body:
  "case rel_body rel_demo_params i (init_locals demo_rel) (rel_demo_started demo_rel) of (x, L, s3) \<Rightarrow>
     x = Returned (requeue_after i) None \<and> l_outcome L = AppliedAndPruned \<and> l_reconciled L
     \<and> p_Log s3 = rel_demo_effects"
  by (simp add: rel_run_defs IsNoOp_def lastApplied_def previousEntries_def rel_demo_effects_def)

lemma rel_demo_active:
  "ReconcileRelease rel_demo_params demo_req (rel_demo_state demo_rel) =
    (case rel_body rel_demo_params DefaultReleaseInterval (init_locals demo_rel) (rel_demo_started demo_rel) of
       (x, L, s3) \<Rightarrow> (x, rel_commit rel_demo_params 100 L s3))"
proof -
  have c: "call mem_now (rel_demo_state demo_rel) = (100, rel_demo_started demo_rel)"
    by (simp add: call_def mem_now_def rel_demo_started_def)
  show ?thesis
    by (simp only: ReconcileRelease_def rel_demo_get)
      (simp add: c rel_active_def resume_event_def checkDependsOn_def release_interval_def Let_def)
qed

lemma rel_demo_run:
  obtains L s' rel' where "ReconcileRelease rel_demo_params demo_req (rel_demo_state demo_rel) =
      (Returned (requeue_after DefaultReleaseInterval) None, s')"
    "new_effects (rel_demo_state demo_rel) s' = rel_demo_effects @ [PatchStatus rel' rel_owned True]"
    "l_reconciled L" "l_outcome L = AppliedAndPruned" "rel_committed std_kube L rel'"
    "rel_frame demo_rel (l_obj L)"
proof -
  obtain x L s3 where b: "rel_body rel_demo_params DefaultReleaseInterval (init_locals demo_rel)
      (rel_demo_started demo_rel) = (x, L, s3)"
    by (metis prod_cases3)
  obtain rel' where "p_Log (rel_commit rel_demo_params 100 L s3) = p_Log s3 @ [PatchStatus rel' rel_owned True]"
    "rel_committed std_kube L rel'"
    using rel_commit_log [of rel_demo_params 100 L s3] by auto
  then show thesis
    using b rel_demo_body [of DefaultReleaseInterval] rel_demo_active rel_body_frame [OF b]
    by (intro that [of "rel_commit rel_demo_params 100 L s3" rel' L]) (auto simp: new_effects_def)
qed

subsection \<open>Witnesses\<close>

theorem rel_deploys_only_verified_witness:
  "\<exists>x s' art rr rs. ReconcileRelease rel_demo_params demo_req (rel_demo_state demo_rel) = (x, s')
     \<and> packaged_run rel_demo_params demo_rel (rel_run_world rel_demo_params demo_rel (rel_demo_state demo_rel)) art rr
     \<and> rel_apply_call rel_demo_params demo_rel rs \<in> set (new_effects (rel_demo_state demo_rel) s')"
proof -
  obtain s' rel' where run: "ReconcileRelease rel_demo_params demo_req (rel_demo_state demo_rel) =
      (Returned (requeue_after DefaultReleaseInterval) None, s')"
    and eff: "new_effects (rel_demo_state demo_rel) s' = rel_demo_effects @ [PatchStatus rel' rel_owned True]"
    by (rule rel_demo_run)
  have "DeleteObject ControllerClient old_obj \<in> set (new_effects (rel_demo_state demo_rel) s')"
    by (simp add: eff rel_demo_effects_def)
  from rel_deploys_only_verified [OF run rel_demo_get _ this] run show ?thesis by auto
qed

theorem rel_deletes_only_stale_managed_witness:
  "\<exists>x s' pre post. ReconcileRelease rel_demo_params demo_req (rel_demo_state demo_rel) = (x, s')
     \<and> new_effects (rel_demo_state demo_rel) s' = pre @ DeleteObject ControllerClient old_obj # post
     \<and> (\<exists>rs. rel_apply_call rel_demo_params demo_rel rs \<in> set pre
          \<and> rel_prune_target rel_demo_params demo_rel [NewEntryFromResource web_obj] old_obj)"
proof -
  obtain s' rel' where run: "ReconcileRelease rel_demo_params demo_req (rel_demo_state demo_rel) =
      (Returned (requeue_after DefaultReleaseInterval) None, s')"
    and eff: "new_effects (rel_demo_state demo_rel) s' = rel_demo_effects @ [PatchStatus rel' rel_owned True]"
    by (rule rel_demo_run)
  have split: "new_effects (rel_demo_state demo_rel) s' = take 2 rel_demo_effects
      @ DeleteObject ControllerClient old_obj # (drop 3 rel_demo_effects @ [PatchStatus rel' rel_owned True])"
    using eff by (simp add: rel_demo_effects_def)
  have "rr = demo_rr" if "packaged_run rel_demo_params demo_rel w art rr" for w art rr
    using that by (auto simp: packaged_run_def)
  with rel_deletes_only_stale_managed [OF run rel_demo_get _ split] run split show ?thesis
    by simp (metis demo_rr_simps(2))
qed


theorem rel_run_reports_outcome_witness:
  "\<exists>s' rel'. ReconcileRelease rel_demo_params demo_req (rel_demo_state demo_rel) =
       (Returned (requeue_after (5 * Minute)) None, s')
     \<and> last (new_effects (rel_demo_state demo_rel) s') = PatchStatus rel' rel_owned True
     \<and> st_ObservedGeneration (cr_Status rel') = 2"
proof -
  obtain s' where run: "ReconcileRelease rel_demo_params demo_req (rel_demo_state demo_rel) =
      (Returned (requeue_after DefaultReleaseInterval) None, s')"
    by (rule rel_demo_run)
  have laws: "flux_conditions (pa_Kube rel_demo_params)" by simp unfold_locales
  have g: "om_Generation demo_meta = 2" by (simp add: demo_meta_def)
  from rel_run_reports_outcome [OF run rel_demo_get _ _ _ _ laws] run g show ?thesis
    by (fastforce simp: DefaultReleaseInterval_def)
qed

lemma rel_demo_deletion_run:
  "let rel = demo_rel\<lparr>cr_Meta := demo_meta\<lparr>om_DeletionTimestamp := Some 5\<rparr>\<rparr> in
   new_effects (rel_demo_state rel) (snd (ReconcileRelease rel_demo_params demo_req (rel_demo_state rel))) =
     [DeleteObject ControllerClient (web_obj\<lparr>u_Content := ''web-v1''\<rparr>), DeleteObject ControllerClient old_obj,
      PatchObject rel (without_finalizer std_kube rel)]"
  by (simp add: ReconcileRelease_def handleReleaseDeletion_eq deletion_cleanup_def deletion_client_def
      resolveEffectiveSA_def finish_deletion_def removeFinalizer_def without_finalizer_def
      Prune_def prune_entry_def Let_def call_def mcall_def emit_def mem_now_def new_effects_def)

theorem rel_finalizer_released_only_when_clean_witness:
  "let rel = demo_rel\<lparr>cr_Meta := demo_meta\<lparr>om_DeletionTimestamp := Some 5\<rparr>\<rparr>;
       s' = snd (ReconcileRelease rel_demo_params demo_req (rel_demo_state rel))
   in \<exists>a b. PatchObject a b \<in> set (new_effects (rel_demo_state rel) s')
        \<and> last (new_effects (rel_demo_state rel) s') = PatchObject a b
        \<and> set (om_Finalizers (cr_Meta b)) = {}"
proof -
  let ?rel = "demo_rel\<lparr>cr_Meta := demo_meta\<lparr>om_DeletionTimestamp := Some 5\<rparr>\<rparr>"
  obtain x s' where run: "ReconcileRelease rel_demo_params demo_req (rel_demo_state ?rel) = (x, s')"
    by fastforce
  have laws: "kube_finalizers (pa_Kube rel_demo_params)" by simp unfold_locales
  have p: "PatchObject ?rel (without_finalizer std_kube ?rel) \<in> set (new_effects (rel_demo_state ?rel) s')"
    using rel_demo_deletion_run run by (simp add: Let_def)
  show ?thesis
    using rel_finalizer_released_only_when_clean [OF run rel_demo_get _ _ laws p] p run
    by (auto simp: Let_def)
qed

theorem resolvePackagePath_confined_witness:
  "fst (resolvePackagePath demo_fs ''/tmp/dest'' ''apps'' ()) = Inr ''/tmp/dest/apps''
   \<and> within ''/tmp/dest'' ''/tmp/dest/apps''"
  using resolvePackagePath_confined [of demo_fs "''/tmp/dest''" "''apps''" "()" "''/tmp/dest/apps''" "()"] by simp

end
