(* ===== verification/Opm_Controller.thy ===== *)
theory Opm_Controller
  imports Opm_Release Opm_ModuleRelease
begin

text \<open>
  \<open>internal/controller\<close>: what the controllers add to the reconcile loops. The reconcilers
  hand their injected dependencies to the loops; the Release controller also watches the Flux
  sources. A source event passes the predicate \<open>sourceArtifactChanged\<close> and is mapped to
  requests by \<open>mapSourceToReleases\<close>. The cached client's \<open>List\<close> is a parameter.
\<close>

subsection \<open>Reconcilers\<close>

text \<open>
  The reconciler structs carry the dependencies that become the parameter records of the
  loops; \<open>Scheme\<close> is used by the manager only and has no counterpart.
\<close>

record ('w, 'v) ReleaseReconciler =
  rc_Params :: "('w, Release, 'v) ReconcileParams"
  rc_GetSource :: "'w get_source"
  rc_Env :: "'w source_env"
  rc_Fetcher :: "(string \<Rightarrow> string \<Rightarrow> string \<Rightarrow> FetchOptions \<Rightarrow> 'w \<Rightarrow> goerr option \<times> 'w) option"
  rc_RenderEnv :: "('w, 'v) render_env"
  rc_Provider :: "'v Provider"
  rc_Renderer :: "(string \<Rightarrow> 'v Provider \<Rightarrow> 'w \<Rightarrow> (goerr + string \<times> 'v RenderResult) \<times> 'w) option"

definition ReleaseReconciler_Reconcile ::
  "('w, 'v) ReleaseReconciler \<Rightarrow> NamespacedName \<Rightarrow> 'w rel_state \<Rightarrow> exit \<times> 'w rel_state" where
  "ReleaseReconciler_Reconcile r req s =
     ReconcileRelease (ReconcileParams.extend (rc_Params r)
       (ReleaseParams.fields (rc_GetSource r) (rc_Env r) (rc_Fetcher r) (rc_RenderEnv r) (rc_Provider r)
         (rc_Renderer r))) req s"

record ('w, 'v) ModuleReleaseReconciler =
  mc_Params :: "('w, ModuleRelease, 'v) ReconcileParams"
  mc_Renderer :: "string \<Rightarrow> string \<Rightarrow> string \<Rightarrow> string \<Rightarrow> RawValues option \<Rightarrow> 'w
    \<Rightarrow> ((goerr + 'v RenderResult) \<times> 'w) option"
  mc_Canon :: "string \<Rightarrow> string option"

definition ModuleReleaseReconciler_Reconcile ::
  "('w, 'v) ModuleReleaseReconciler \<Rightarrow> NamespacedName \<Rightarrow> 'w mr_state \<Rightarrow> exit \<times> 'w mr_state" where
  "ModuleReleaseReconciler_Reconcile r req s =
     ReconcileModuleRelease (ReconcileParams.extend (mc_Params r)
       (ModuleReleaseParams.fields (mc_Renderer r) (mc_Canon r))) req s"

subsection \<open>Source objects and the artifact predicate\<close>

text \<open>
  A watched object: its Go type (\<open>None\<close> for a type the switch of \<open>artifactOf\<close> does not
  list), its key and its artifact pointer.
\<close>

record source_object =
  so_Type :: "source_type option"
  so_Key :: NamespacedName
  so_Artifact :: "fluxArtifact option"

record artifactRef =
  ar_Revision :: string
  ar_Digest :: string

definition artifactRef_of :: "fluxArtifact option \<Rightarrow> artifactRef option" where
  "artifactRef_of p =
     (case p of Some a \<Rightarrow> Some \<lparr>ar_Revision = fa_Revision a, ar_Digest = fa_Digest a\<rparr> | None \<Rightarrow> None)"

definition artifactOf :: "source_object \<Rightarrow> artifactRef option" where
  "artifactOf obj =
     (case so_Type obj of
        Some OCIRepository \<Rightarrow> artifactRef_of (so_Artifact obj)
      | Some GitRepository \<Rightarrow> artifactRef_of (so_Artifact obj)
      | Some Bucket \<Rightarrow> artifactRef_of (so_Artifact obj)
      | None \<Rightarrow> None)"

datatype source_event =
    CreateEvent source_object
  | UpdateEvent source_object source_object
  | DeleteEvent source_object

definition sourceArtifactChanged_Update :: "source_object \<Rightarrow> source_object \<Rightarrow> bool" where
  "sourceArtifactChanged_Update ObjectOld ObjectNew =
     (case (artifactOf ObjectOld, artifactOf ObjectNew) of
        (None, None) \<Rightarrow> False
      | (None, Some _) \<Rightarrow> True
      | (Some _, None) \<Rightarrow> True
      | (Some oldArt, Some newArt) \<Rightarrow>
          ar_Revision oldArt \<noteq> ar_Revision newArt \<or> ar_Digest oldArt \<noteq> ar_Digest newArt)"

definition sourceArtifactChanged :: "source_event \<Rightarrow> bool" where
  "sourceArtifactChanged e =
     (case e of
        UpdateEvent ol nw \<Rightarrow> sourceArtifactChanged_Update ol nw
      | CreateEvent _ \<Rightarrow> True
      | DeleteEvent _ \<Rightarrow> False)"

subsection \<open>From a source to the releases that reference it\<close>

type_synonym 'w list_releases = "string \<Rightarrow> 'w \<Rightarrow> (goerr + Release list) \<times> 'w"

definition release_request :: "Release \<Rightarrow> NamespacedName" where
  "release_request rel = \<lparr>nn_Namespace = obj_namespace rel, nn_Name = obj_name rel\<rparr>"

fun map_source_loop ::
  "string \<Rightarrow> source_object \<Rightarrow> Release list \<Rightarrow> NamespacedName list \<Rightarrow> NamespacedName list" where
  "map_source_loop kind obj [] reqs = reqs"
| "map_source_loop kind obj (rel # rels) reqs =
     (let ref = sp_SourceRef (cr_Spec rel);
          srcNs = (if sr_Namespace ref = [] then obj_namespace rel else sr_Namespace ref)
      in if sr_Kind ref \<noteq> kind then map_source_loop kind obj rels reqs
         else if sr_Name ref \<noteq> nn_Name (so_Key obj) then map_source_loop kind obj rels reqs
         else if srcNs \<noteq> nn_Namespace (so_Key obj) then map_source_loop kind obj rels reqs
         else map_source_loop kind obj rels (reqs @ [release_request rel]))"

definition mapSourceToReleases ::
  "'w list_releases \<Rightarrow> string \<Rightarrow> source_object \<Rightarrow> 'w \<Rightarrow> NamespacedName list \<times> 'w" where
  "mapSourceToReleases lst kind obj w =
     (case lst (nn_Namespace (so_Key obj)) w of
        (Inl e, w1) \<Rightarrow> ([], w1)
      | (Inr items, w1) \<Rightarrow> (map_source_loop kind obj items [], w1))"

text \<open>The watches that \<open>SetupWithManager\<close> registers: the object type and the kind its map function gets.\<close>

definition source_watches :: "(source_type \<times> string) list" where
  "source_watches =
     [(OCIRepository, ''OCIRepository''), (GitRepository, ''GitRepository''), (Bucket, ''Bucket'')]"

subsection \<open>Lemmas\<close>

text \<open>A release refers to an object when \<open>Resolve\<close> would read that object for it.\<close>

definition refers_to :: "Release \<Rightarrow> string \<Rightarrow> NamespacedName \<Rightarrow> bool" where
  "refers_to rel kind key \<longleftrightarrow> sr_Kind (sp_SourceRef (cr_Spec rel)) = kind
     \<and> source_key (sp_SourceRef (cr_Spec rel)) (obj_namespace rel) = key"

lemma map_source_loop_eq:
  "map_source_loop kind obj rels reqs
     = reqs @ map release_request (filter (\<lambda>rel. refers_to rel kind (so_Key obj)) rels)"
proof (induction rels arbitrary: reqs)
  case (Cons rel rels)
  then show ?case
    by (cases "so_Key obj") (auto simp: Let_def refers_to_def source_key_def)
qed simp

lemma artifactOf_typed:
  "artifactOf obj = (if so_Type obj = None then None else artifactRef_of (so_Artifact obj))"
  by (auto simp: artifactOf_def split: option.splits source_type.splits)

lemma Update_iff: "sourceArtifactChanged_Update ol nw \<longleftrightarrow> artifactOf ol \<noteq> artifactOf nw"
  by (auto simp: sourceArtifactChanged_Update_def split: option.splits)

subsection \<open>Properties\<close>

text \<open>
  C35: the watches of the Release controller. They cover exactly the source kinds that
  \<open>Resolve\<close> supports, each on its own type. An update of a source passes the predicate
  exactly when the revision or the digest of its artifact changed or the artifact appeared or
  vanished. A source that passes is mapped to the listed releases for which \<open>Resolve\<close>
  would read that very object, in list order, and to none if listing fails.
\<close>

theorem source_watch_exact:
  "(newSourceObject kind = Inr t \<longleftrightarrow> (t, kind) \<in> set source_watches)
   \<and> (sourceArtifactChanged (UpdateEvent ol nw) \<longleftrightarrow> artifactOf ol \<noteq> artifactOf nw)
   \<and> mapSourceToReleases lst kind obj w =
       (case lst (nn_Namespace (so_Key obj)) w of
          (Inl e, w1) \<Rightarrow> ([], w1)
        | (Inr items, w1) \<Rightarrow>
            (map release_request (filter (\<lambda>rel. refers_to rel kind (so_Key obj)) items), w1))"
  by (auto simp: newSourceObject_def source_watches_def sourceArtifactChanged_def Update_iff
      mapSourceToReleases_def map_source_loop_eq split: prod.splits sum.splits)

text \<open>
  A Release may name a source in another namespace, and \<open>Resolve\<close> reads it there, but
  the map function lists only the namespace of the source: such a release is never
  enqueued when its source changes.
\<close>

theorem cross_namespace_source_not_enqueued:
  assumes list_in_namespace: "\<And>ns w items w1 rel. lst ns w = (Inr items, w1) \<Longrightarrow> rel \<in> set items
      \<Longrightarrow> obj_namespace rel = ns"
    and other: "obj_namespace rel \<noteq> nn_Namespace (so_Key obj)"
  shows "release_request rel \<notin> set (fst (mapSourceToReleases lst kind obj w))"
proof -
  have ns: "nn_Namespace req = nn_Namespace (so_Key obj)"
    if "req \<in> set (fst (mapSourceToReleases lst kind obj w))" for req
    using that list_in_namespace
    by (auto simp: mapSourceToReleases_def map_source_loop_eq release_request_def
        split: prod.splits sum.splits)
  from ns [of "release_request rel"] other show ?thesis by (auto simp: release_request_def)
qed

text \<open>A release in \<open>prod\<close> whose source lives in \<open>flux-system\<close>.\<close>

definition shared_source :: source_object where
  "shared_source = \<lparr>so_Type = Some GitRepository,
     so_Key = \<lparr>nn_Namespace = ''flux-system'', nn_Name = ''apps''\<rparr>, so_Artifact = None\<rparr>"

definition tenant_release :: Release where
  "tenant_release = \<lparr>
     cr_Meta = \<lparr>om_Name = ''web'', om_Namespace = ''prod'', om_Generation = 1, om_Finalizers = [],
       om_DeletionTimestamp = None, om_Annotations = Map.empty\<rparr>,
     cr_Spec = \<lparr>sp_Suspend = False, sp_Prune = True, sp_ServiceAccountName = [], sp_Rollout = None,
       sp_SourceRef = \<lparr>sr_Kind = ''GitRepository'', sr_Name = ''apps'', sr_Namespace = ''flux-system''\<rparr>,
       sp_Path = [], sp_Interval = 0, sp_DependsOn = []\<rparr>,
     cr_Status = empty_release_status\<rparr>"

definition store_list :: "Release list \<Rightarrow> 'w list_releases" where
  "store_list store ns w = (Inr (filter (\<lambda>rel. obj_namespace rel = ns) store), w)"

lemma store_list_in_namespace:
  "store_list store ns w = (Inr items, w1) \<Longrightarrow> rel \<in> set items \<Longrightarrow> obj_namespace rel = ns"
  by (auto simp: store_list_def)

theorem cross_namespace_source_not_enqueued_witness:
  "refers_to tenant_release ''GitRepository'' (so_Key shared_source)
   \<and> release_request tenant_release
       \<notin> set (fst (mapSourceToReleases (store_list [tenant_release]) ''GitRepository'' shared_source ()))"
proof
  show "refers_to tenant_release ''GitRepository'' (so_Key shared_source)"
    by (simp add: refers_to_def source_key_def tenant_release_def shared_source_def)
  show "release_request tenant_release
      \<notin> set (fst (mapSourceToReleases (store_list [tenant_release]) ''GitRepository'' shared_source ()))"
    by (rule cross_namespace_source_not_enqueued [OF store_list_in_namespace])
      (simp_all add: tenant_release_def shared_source_def)
qed

end
