(* ===== verification/Opm_Order.thy ===== *)
theory Opm_Order
  imports Opm_Kube
begin

text \<open>
  \<open>pkg/resourceorder/weights.go\<close>: the weight table of the apply order. The two Go maps
  are association lists with distinct keys, the lookup is the cascade of \<open>GetWeight\<close>. The
  lemmas show that the two tables agree, so the weight is a function of the kind alone.
\<close>

subsection \<open>The tables\<close>

definition WeightCRD :: int where
  "WeightCRD = - 100"

definition WeightNamespace :: int where
  "WeightNamespace = 0"

definition WeightClusterRole :: int where
  "WeightClusterRole = 5"

definition WeightClusterRoleBinding :: int where
  "WeightClusterRoleBinding = 5"

definition WeightServiceAccount :: int where
  "WeightServiceAccount = 10"

definition WeightRole :: int where
  "WeightRole = 10"

definition WeightRoleBinding :: int where
  "WeightRoleBinding = 10"

definition WeightSecret :: int where
  "WeightSecret = 15"

definition WeightConfigMap :: int where
  "WeightConfigMap = 15"

definition WeightStorageClass :: int where
  "WeightStorageClass = 20"

definition WeightPersistentVolume :: int where
  "WeightPersistentVolume = 20"

definition WeightPVC :: int where
  "WeightPVC = 20"

definition WeightService :: int where
  "WeightService = 50"

definition WeightDeployment :: int where
  "WeightDeployment = 100"

definition WeightStatefulSet :: int where
  "WeightStatefulSet = 100"

definition WeightDaemonSet :: int where
  "WeightDaemonSet = 100"

definition WeightJob :: int where
  "WeightJob = 110"

definition WeightCronJob :: int where
  "WeightCronJob = 110"

definition WeightIngress :: int where
  "WeightIngress = 150"

definition WeightNetworkPolicy :: int where
  "WeightNetworkPolicy = 150"

definition WeightHPA :: int where
  "WeightHPA = 200"

definition WeightVPA :: int where
  "WeightVPA = 200"

definition WeightPDB :: int where
  "WeightPDB = 200"

definition WeightWebhook :: int where
  "WeightWebhook = 500"

definition WeightDefault :: int where
  "WeightDefault = 1000"

lemmas weight_defs =
  WeightCRD_def WeightNamespace_def WeightClusterRole_def WeightClusterRoleBinding_def
  WeightServiceAccount_def WeightRole_def WeightRoleBinding_def WeightSecret_def
  WeightConfigMap_def WeightStorageClass_def WeightPersistentVolume_def WeightPVC_def
  WeightService_def WeightDeployment_def WeightStatefulSet_def WeightDaemonSet_def
  WeightJob_def WeightCronJob_def WeightIngress_def WeightNetworkPolicy_def
  WeightHPA_def WeightVPA_def WeightPDB_def WeightWebhook_def
  WeightDefault_def

definition gvk :: "string \<Rightarrow> string \<Rightarrow> string \<Rightarrow> GroupVersionKind" where
  "gvk g v k = \<lparr>gvk_Group = g, gvk_Version = v, gvk_Kind = k\<rparr>"

definition gvkWeights :: "(GroupVersionKind \<times> int) list" where
  "gvkWeights =
    [(gvk ''apiextensions.k8s.io'' ''v1'' ''CustomResourceDefinition'', WeightCRD),
     (gvk [] ''v1'' ''Namespace'', WeightNamespace),
     (gvk [] ''v1'' ''ServiceAccount'', WeightServiceAccount),
     (gvk [] ''v1'' ''Secret'', WeightSecret),
     (gvk [] ''v1'' ''ConfigMap'', WeightConfigMap),
     (gvk [] ''v1'' ''PersistentVolume'', WeightPersistentVolume),
     (gvk [] ''v1'' ''PersistentVolumeClaim'', WeightPVC),
     (gvk [] ''v1'' ''Service'', WeightService),
     (gvk ''rbac.authorization.k8s.io'' ''v1'' ''ClusterRole'', WeightClusterRole),
     (gvk ''rbac.authorization.k8s.io'' ''v1'' ''ClusterRoleBinding'', WeightClusterRoleBinding),
     (gvk ''rbac.authorization.k8s.io'' ''v1'' ''Role'', WeightRole),
     (gvk ''rbac.authorization.k8s.io'' ''v1'' ''RoleBinding'', WeightRoleBinding),
     (gvk ''storage.k8s.io'' ''v1'' ''StorageClass'', WeightStorageClass),
     (gvk ''apps'' ''v1'' ''Deployment'', WeightDeployment),
     (gvk ''apps'' ''v1'' ''StatefulSet'', WeightStatefulSet),
     (gvk ''apps'' ''v1'' ''DaemonSet'', WeightDaemonSet),
     (gvk ''apps'' ''v1'' ''ReplicaSet'', WeightDeployment),
     (gvk ''batch'' ''v1'' ''Job'', WeightJob),
     (gvk ''batch'' ''v1'' ''CronJob'', WeightCronJob),
     (gvk ''networking.k8s.io'' ''v1'' ''Ingress'', WeightIngress),
     (gvk ''networking.k8s.io'' ''v1'' ''NetworkPolicy'', WeightNetworkPolicy),
     (gvk ''autoscaling'' ''v2'' ''HorizontalPodAutoscaler'', WeightHPA),
     (gvk ''autoscaling'' ''v1'' ''HorizontalPodAutoscaler'', WeightHPA),
     (gvk ''autoscaling.k8s.io'' ''v1'' ''VerticalPodAutoscaler'', WeightVPA),
     (gvk ''policy'' ''v1'' ''PodDisruptionBudget'', WeightPDB),
     (gvk ''admissionregistration.k8s.io'' ''v1'' ''ValidatingWebhookConfiguration'', WeightWebhook),
     (gvk ''admissionregistration.k8s.io'' ''v1'' ''MutatingWebhookConfiguration'', WeightWebhook)]"

definition kindWeights :: "(string \<times> int) list" where
  "kindWeights =
    [(''Namespace'', WeightNamespace),
     (''ServiceAccount'', WeightServiceAccount),
     (''Secret'', WeightSecret),
     (''ConfigMap'', WeightConfigMap),
     (''PersistentVolume'', WeightPersistentVolume),
     (''PersistentVolumeClaim'', WeightPVC),
     (''Service'', WeightService),
     (''ClusterRole'', WeightClusterRole),
     (''ClusterRoleBinding'', WeightClusterRoleBinding),
     (''Role'', WeightRole),
     (''RoleBinding'', WeightRoleBinding),
     (''StorageClass'', WeightStorageClass),
     (''Deployment'', WeightDeployment),
     (''StatefulSet'', WeightStatefulSet),
     (''DaemonSet'', WeightDaemonSet),
     (''ReplicaSet'', WeightDeployment),
     (''Job'', WeightJob),
     (''CronJob'', WeightCronJob),
     (''Ingress'', WeightIngress),
     (''NetworkPolicy'', WeightNetworkPolicy),
     (''HorizontalPodAutoscaler'', WeightHPA),
     (''VerticalPodAutoscaler'', WeightVPA),
     (''PodDisruptionBudget'', WeightPDB),
     (''ValidatingWebhookConfiguration'', WeightWebhook),
     (''MutatingWebhookConfiguration'', WeightWebhook),
     (''CustomResourceDefinition'', WeightCRD)]"

definition GetWeight :: "GroupVersionKind \<Rightarrow> int" where
  "GetWeight g =
     (case map_of gvkWeights g of
        Some w \<Rightarrow> w
      | None \<Rightarrow>
          (case map_of kindWeights (gvk_Kind g) of
             Some w \<Rightarrow> w
           | None \<Rightarrow> WeightDefault))"

subsection \<open>Agreement of the tables\<close>

definition kind_weight :: "string \<Rightarrow> int" where
  "kind_weight k = (case map_of kindWeights k of Some w \<Rightarrow> w | None \<Rightarrow> WeightDefault)"

lemma distinct_tables: "distinct (map fst gvkWeights)" "distinct (map fst kindWeights)"
  by code_simp+

lemma tables_agree: "list_all (\<lambda>(g, w). map_of kindWeights (gvk_Kind g) = Some w) gvkWeights"
  by code_simp

lemma GetWeight_kind: "GetWeight g = kind_weight (gvk_Kind g)"
proof (cases "map_of gvkWeights g")
  case (Some w)
  then have "map_of kindWeights (gvk_Kind g) = Some w"
    using tables_agree by (auto simp: list_all_iff dest: map_of_SomeD)
  with Some show ?thesis by (simp add: GetWeight_def kind_weight_def)
qed (simp add: GetWeight_def kind_weight_def)

lemma kind_weight_table:
  "list_all (\<lambda>(k, w). - 100 \<le> w \<and> w \<le> 500 \<and> (w = - 100 \<longleftrightarrow> k = ''CustomResourceDefinition'')
     \<and> (w = 0 \<longleftrightarrow> k = ''Namespace'') \<and> (w \<le> 0 \<longleftrightarrow> w = - 100 \<or> w = 0)
     \<and> (w = 500 \<longleftrightarrow> k = ''ValidatingWebhookConfiguration'' \<or> k = ''MutatingWebhookConfiguration''))
   kindWeights"
  by code_simp

lemma kind_weight_special:
  "kind_weight ''CustomResourceDefinition'' = - 100" "kind_weight ''Namespace'' = 0"
  "kind_weight ''ValidatingWebhookConfiguration'' = 500"
  "kind_weight ''MutatingWebhookConfiguration'' = 500"
  by code_simp+

lemma kind_weight_cases:
  obtains w where "map_of kindWeights k = Some w" "kind_weight k = w" "(k, w) \<in> set kindWeights"
  | "map_of kindWeights k = None" "kind_weight k = 1000"
  by (cases "map_of kindWeights k")
    (auto simp: kind_weight_def WeightDefault_def dest: map_of_SomeD)

lemma kind_weight_facts:
  "- 100 \<le> kind_weight k \<and> kind_weight k \<le> 1000
   \<and> (kind_weight k = - 100 \<longleftrightarrow> k = ''CustomResourceDefinition'')
   \<and> (kind_weight k \<le> 0 \<longleftrightarrow> k = ''CustomResourceDefinition'' \<or> k = ''Namespace'')
   \<and> (kind_weight k = 500 \<longleftrightarrow> k = ''ValidatingWebhookConfiguration'' \<or> k = ''MutatingWebhookConfiguration'')"
proof (cases k rule: kind_weight_cases)
  case (1 w)
  from bspec [OF kind_weight_table [unfolded list_all_iff] 1(3)]
  have "- 100 \<le> w \<and> w \<le> 500 \<and> (w = - 100 \<longleftrightarrow> k = ''CustomResourceDefinition'')
     \<and> (w = 0 \<longleftrightarrow> k = ''Namespace'') \<and> (w \<le> 0 \<longleftrightarrow> w = - 100 \<or> w = 0)
     \<and> (w = 500 \<longleftrightarrow> k = ''ValidatingWebhookConfiguration'' \<or> k = ''MutatingWebhookConfiguration'')"
    by (simp only: prod.case)
  with 1(2) show ?thesis by linarith
next
  case 2
  have other: "k \<noteq> j" if "kind_weight j = w" "w \<noteq> 1000" for j w
    using that 2(2) by auto
  have "k \<noteq> ''CustomResourceDefinition''" by (rule other [OF kind_weight_special(1)]) simp
  moreover have "k \<noteq> ''Namespace''" by (rule other [OF kind_weight_special(2)]) simp
  moreover have "k \<noteq> ''ValidatingWebhookConfiguration''" by (rule other [OF kind_weight_special(3)]) simp
  moreover have "k \<noteq> ''MutatingWebhookConfiguration''" by (rule other [OF kind_weight_special(4)]) simp
  ultimately show ?thesis using 2(2) by linarith
qed

subsection \<open>Property\<close>

text \<open>
  The apply weight of a resource depends on its kind alone, whatever group and version it
  carries: the exact table and the fallback by kind never disagree. Weights lie between -100
  and 1000; custom resource definitions come strictly before everything else, namespaces before
  everything but them, and only the webhook configurations weigh 500, the largest weight
  below that of an unknown kind.
\<close>

theorem GetWeight_by_kind:
  "GetWeight (gvk g v k) = GetWeight (gvk [] [] k)
   \<and> - 100 \<le> GetWeight (gvk g v k) \<and> GetWeight (gvk g v k) \<le> WeightDefault
   \<and> (GetWeight (gvk g v k) = WeightCRD \<longleftrightarrow> k = ''CustomResourceDefinition'')
   \<and> (GetWeight (gvk g v k) \<le> WeightNamespace \<longleftrightarrow> k = ''CustomResourceDefinition'' \<or> k = ''Namespace'')
   \<and> (GetWeight (gvk g v k) = WeightWebhook
        \<longleftrightarrow> k = ''ValidatingWebhookConfiguration'' \<or> k = ''MutatingWebhookConfiguration'')"
  using kind_weight_facts [of k]
  by (simp add: GetWeight_kind gvk_def weight_defs)

end
