(* ===== verification/Opm_System.thy ===== *)
theory Opm_System
  imports Opm_MR_Reach Opm_Rel_Props Opm_Render Opm_Controller Opm_Order
begin

text \<open>
  The reconcile loops and the renderers together. The loops take a renderer as a parameter and
  record the inventory it hands them; the contract \<open>module_renderer\<close> is what makes the
  recorded inventory the list of the applied objects. \<open>RegistryRenderer\<close> keeps it whenever it
  returns.
\<close>

subsection \<open>The contract of a renderer\<close>

locale module_renderer =
  fixes render :: "string \<Rightarrow> string \<Rightarrow> string \<Rightarrow> string \<Rightarrow> RawValues option \<Rightarrow> 'w
      \<Rightarrow> ((goerr + 'v RenderResult) \<times> 'w) option"
    and lib :: "'v cue_lib"
  assumes sound: "render name ns path ver vals w = Some (Inr rr, w') \<Longrightarrow> sound_result lib rr"
begin

lemma rendered_entries:
  assumes "pa_Renderer P = render" and "pa_Cue P = lib" and "applied_result P mr rr rs d"
  shows "rr_InventoryEntries rr = map NewEntryFromResource rs"
  using assms sound sound_resultD
  unfolding applied_result_def rendered_def rendered_at_def render_call_def by metis

end

interpretation production_renderer: module_renderer "RegistryRenderer E prov" "cv_Lib (re_Cue E)" for E prov
  by unfold_locales (auto simp: RegistryRenderer_def dest: RenderModuleFromRegistry_sound)

interpretation demo_renderer: module_renderer "pa_Renderer demo_params" "pa_Cue demo_params"
  by unfold_locales (auto simp: sound_result_def)

subsection \<open>Property\<close>

text \<open>
  C40: the inventory lists what was applied. With a renderer that keeps its contract, as the
  registry renderer does, whenever the handler writes a status with a new inventory for a
  release that is not being deleted, a successful server-side apply of some objects is among the
  effects of the same run, and the inventory's entries are exactly the entries of those
  objects, one by one and in order, with their count and digest.
\<close>

theorem mr_inventory_lists_applied:
  assumes contract: "module_renderer (pa_Renderer P) (pa_Cue P)"
    and run: "ReconcileModuleRelease P req s = (x, s')"
    and get: "call (ca_Get (pa_CR P) req) s = (Inr mr, s1)"
    and live: "om_DeletionTimestamp (cr_Meta mr) = None"
    and patch: "PatchStatus mr' owned g \<in> set (new_effects s s')"
    and changed: "st_Inventory (cr_Status mr') \<noteq> st_Inventory (cr_Status mr)"
  shows "\<exists>rs i. apply_call P mr rs \<in> set (new_effects s s') \<and> apply_succeeds P mr rs
    \<and> st_Inventory (cr_Status mr') = Some i \<and> inv_Entries i = map NewEntryFromResource rs
    \<and> inv_Count i = of_nat (length rs) \<and> inv_Digest i = ComputeDigest (map NewEntryFromResource rs)"
proof -
  obtain rr rs d where a: "applied_result P mr rr rs d" "apply_call P mr rs \<in> set (new_effects s s')"
    "st_Inventory (cr_Status mr') = Some (next_inventory (rr_InventoryEntries rr) (st_Inventory (cr_Status mr)))"
    using mr_ledger_step [OF run get live patch] changed by blast
  have "rr_InventoryEntries rr = map NewEntryFromResource rs"
    using module_renderer.rendered_entries [OF contract refl refl a(1)] .
  with a show ?thesis by (auto simp: next_inventory_def applied_result_def)
qed

theorem mr_inventory_lists_applied_witness:
  "\<exists>x s' mr' rs i. ReconcileModuleRelease demo_params demo_req (demo_state demo_mr) = (x, s')
     \<and> PatchStatus mr' mr_owned True \<in> set (new_effects (demo_state demo_mr) s')
     \<and> apply_call demo_params demo_mr rs \<in> set (new_effects (demo_state demo_mr) s')
     \<and> st_Inventory (cr_Status mr') = Some i \<and> inv_Entries i = map NewEntryFromResource rs"
proof -
  obtain L s3 mr' where b: "mr_body demo_params (init_locals demo_mr) (demo_started demo_mr) =
      (Returned no_requeue None, L, s3)"
    and run: "ReconcileModuleRelease demo_params demo_req (demo_state demo_mr) =
      (Returned no_requeue None, mr_commit demo_params 100 L s3)"
    and L: "l_outcome L = AppliedAndPruned" "l_reconciled L" and c: "committed std_kube L mr'"
    and eff: "new_effects (demo_state demo_mr) (mr_commit demo_params 100 L s3) =
      demo_effects @ [PatchStatus mr' mr_owned True]"
    by (rule demo_run)
  have p: "PatchStatus mr' mr_owned True \<in> set (new_effects (demo_state demo_mr) (mr_commit demo_params 100 L s3))"
    using eff by simp
  have live: "om_DeletionTimestamp (cr_Meta demo_mr) = None" by simp
  have "st_Inventory (cr_Status mr') \<noteq> st_Inventory (cr_Status demo_mr)"
    using mr_ledger_step [OF run demo_get live p] demo_changed(1) [OF b L c]
    by (auto simp: next_inventory_def demo_inventory_def dest: arg_cong [where f = inv_Revision])
  from mr_inventory_lists_applied [OF demo_renderer.module_renderer_axioms run demo_get live p this] run p
  show ?thesis by blast
qed

end
