(* ===== verification/Opm_Refine.thy ===== *)
theory Opm_Refine
  imports Opm_System
begin

text \<open>
  The reconcile loops against the cluster. The API server contract of \<open>Opm_Cluster\<close> is
  extended by what server-side apply does and by the calls that leave the managed objects
  alone. On top of it, a whole run of a handler is a simple operation on the cluster view:
  the rendered objects land, the prunable stale objects go, nothing else changes.
\<close>

subsection \<open>Server-side apply on the view\<close>

type_synonym object_key = "string \<times> string \<times> string \<times> string"

text \<open>
  A call that concerns no managed object: the view is the same, and no object starts to
  terminate. (\<open>terminating\<close> are the objects whose deletion was accepted before and whose
  finalizers still run.)
\<close>

definition steady :: "('w \<Rightarrow> cluster_view) \<Rightarrow> ('w \<Rightarrow> object_key set) \<Rightarrow> 'w \<Rightarrow> 'w \<Rightarrow> bool" where
  "steady view terminating w w' \<longleftrightarrow> view w' = view w \<and> terminating w' \<subseteq> terminating w"

lemma steady_refl [simp]: "steady v t w w"
  by (simp add: steady_def)

lemma steady_trans [trans]: "steady v t w w' \<Longrightarrow> steady v t w' w'' \<Longrightarrow> steady v t w w''"
  by (auto simp: steady_def)

text \<open>
  The object is live with at least the labels of the applied manifest: other field managers
  may own further labels.
\<close>

definition landed :: "cluster_view \<Rightarrow> unstructured \<Rightarrow> bool" where
  "landed v u = (case v (obj_key u) of None \<Rightarrow> False | Some l \<Rightarrow> u_Labels u \<subseteq>\<^sub>m l)"

text \<open>
  The desired cluster after a reconcile of the rendered objects \<open>rs\<close> with the stale keys
  \<open>doomed\<close>, from the view \<open>v\<close> with the terminating objects \<open>t\<close>. Where two rendered
  objects have the same key, the stages of the apply decide which one lands.
\<close>

definition realised ::
  "unstructured list \<Rightarrow> object_key set \<Rightarrow> object_key set \<Rightarrow> cluster_view \<Rightarrow> cluster_view \<Rightarrow> bool" where
  "realised rs doomed t v v' \<longleftrightarrow>
     (\<forall>k. k \<notin> obj_key ` set rs \<longrightarrow> v' k = (if k \<in> doomed then None else v k))
     \<and> (inj_on obj_key (set rs) \<longrightarrow> (\<forall>u\<in>set rs. obj_key u \<notin> t \<longrightarrow> landed v' u))"

lemma p_World_effects [simp]:
  "p_World (emit e s) = p_World s" "p_World (Eventf ty r a n s) = p_World s"
  "p_World (metric f s) = p_World s"
  by (simp_all add: emit_def Eventf_def metric_def)

lemma call_world:
  assumes "call f s = (r, s')" obtains w' where "f (p_World s) = (r, w')" "p_World s' = w'"
  using assms by (auto simp: call_def split: prod.splits)

lemma mcall_world:
  assumes "mcall e f s = (r, s')" obtains w' where "f (p_World s) = (r, w')" "p_World s' = w'"
  using assms by (auto simp: mcall_def call_def split: prod.splits)

locale ssa_cluster = live_cluster "pa_Kube P" "pa_Live P" view
  for P :: "('w, ('a, 'b) release_like, 'v, 'x) ReconcileParams_scheme"
    and view :: "'w \<Rightarrow> cluster_view" +
  fixes terminating :: "'w \<Rightarrow> object_key set"
  assumes Apply_footprint: "sa_ApplyAllStaged (pa_Ssa P) rm us f w = (r, w') \<Longrightarrow>
      k \<notin> obj_key ` set us \<Longrightarrow> view w' k = view w k"
    and Apply_landed: "sa_ApplyAllStaged (pa_Ssa P) rm us f w = (Inr as, w') \<Longrightarrow>
      inj_on obj_key (set us) \<Longrightarrow> u \<in> set us \<Longrightarrow> obj_key u \<notin> terminating w \<Longrightarrow> landed (view w') u"
    and Diff: "sa_Diff (pa_Ssa P) rm u w = (d, w') \<Longrightarrow> steady view terminating w w'"
    and ServiceAccount: "aa_GetServiceAccount (pa_Auth P) n w = (e, w') \<Longrightarrow> steady view terminating w w'"
    and NewClient: "aa_NewClient (pa_Auth P) cfg w = (e, w') \<Longrightarrow> steady view terminating w w'"
    and CR_Get: "ca_Get (pa_CR P) n w = (o1, w') \<Longrightarrow> steady view terminating w w'"
    and CR_Patch: "ca_Patch (pa_CR P) a b w = (e, w') \<Longrightarrow> steady view terminating w w'"
    and CR_PatchStatus: "ca_PatchStatus (pa_CR P) a owned g w = (e, w') \<Longrightarrow> steady view terminating w w'"
    and Now: "pa_Now P w = (i, w') \<Longrightarrow> steady view terminating w w'"
begin

abbreviation quiet :: "('w, ('a, 'b) release_like) pstate \<Rightarrow> ('w, ('a, 'b) release_like) pstate \<Rightarrow> bool" where
  "quiet s s' \<equiv> steady view terminating (p_World s) (p_World s')"

lemma quiet_calls:
  "call (ca_Get (pa_CR P) n) s = (r, s') \<Longrightarrow> quiet s s'"
  "call (pa_Now P) s = (i, s') \<Longrightarrow> quiet s s'"
  "call (sa_Diff (pa_Ssa P) rm u) s = (d, s') \<Longrightarrow> quiet s s'"
  "call (aa_GetServiceAccount (pa_Auth P) n) s = (e, s') \<Longrightarrow> quiet s s'"
  "call (aa_NewClient (pa_Auth P) cfg) s = (e, s') \<Longrightarrow> quiet s s'"
  "mcall x (ca_Patch (pa_CR P) a b) s = (e, s') \<Longrightarrow> quiet s s'"
  by (erule call_world mcall_world; metis CR_Get Now Diff ServiceAccount NewClient CR_Patch)+

lemma patch_status_quiet: "patch_status owned g P o1 s = (e, s') \<Longrightarrow> quiet s s'"
  unfolding patch_status_def by (erule mcall_world) (metis CR_PatchStatus)

lemma since_quiet: "since P start s = (d, s') \<Longrightarrow> quiet s s'"
  by (auto simp: since_def split: prod.splits dest: quiet_calls)

lemma commit_times_quiet:
  "history_time L P s = (t, s') \<Longrightarrow> quiet s s'"
  "next_retry L P s = (t', s') \<Longrightarrow> quiet s s'"
  by (auto simp: history_time_def next_retry_def split: prod.splits if_splits dest: quiet_calls)

lemma drift_loop_quiet: "drift_loop (pa_Ssa P) rm rs acc s = (r, s') \<Longrightarrow> quiet s s'"
proof (induction rs arbitrary: acc s)
  case (Cons u rs)
  obtain d s1 where d: "call (sa_Diff (pa_Ssa P) rm u) s = (d, s1)" by fastforce
  note q = quiet_calls(3) [OF d]
  show ?case
  proof (cases d)
    case (Inl e)
    with Cons.prems d q show ?thesis by auto
  next
    case (Inr a)
    with Cons.prems d have "quiet s1 s'" by (auto intro: Cons.IH)
    with q show ?thesis by (rule steady_trans)
  qed
qed simp

lemma DetectDrift_quiet: "DetectDrift (pa_Ssa P) rm rs s = (r, s') \<Longrightarrow> quiet s s'"
  by (auto simp: DetectDrift_def split: prod.splits sum.splits dest: drift_loop_quiet)

lemma NewImpersonatedClient_quiet:
  assumes "NewImpersonatedClient K (pa_Auth P) cfg ns sa s = (r, s')"
  shows "quiet s s'"
proof -
  obtain e s1 where e: "call (aa_GetServiceAccount (pa_Auth P) \<lparr>nn_Namespace = ns, nn_Name = sa\<rparr>) s = (e, s1)"
    by fastforce
  obtain c s2 where c: "call (aa_NewClient (pa_Auth P) (buildImpersonationConfig ns sa)) s1 = (c, s2)"
    by fastforce
  have "s' = s1 \<or> s' = s2"
    using assms e c unfolding NewImpersonatedClient_def Let_def
    by (cases e; cases c) (simp_all split: if_splits)
  then show ?thesis
    using quiet_calls(4) [OF e] steady_trans [OF quiet_calls(4) [OF e] quiet_calls(5) [OF c]] by metis
qed

lemma buildApplyClient_quiet: "buildApplyClient P o1 s = (r, s') \<Longrightarrow> quiet s s'"
  by (auto simp: buildApplyClient_def split: prod.splits if_splits option.splits sum.splits
      dest: NewImpersonatedClient_quiet)

lemma Apply_view:
  assumes "Apply (pa_Ssa P) rm us f s = (r, s')"
  shows "k \<notin> obj_key ` set us \<Longrightarrow> view (p_World s') k = view (p_World s) k"
    and "r = Inr ar \<Longrightarrow> inj_on obj_key (set us) \<Longrightarrow> u \<in> set us \<Longrightarrow> obj_key u \<notin> terminating (p_World s)
      \<Longrightarrow> landed (view (p_World s')) u"
proof -
  obtain q s1 where q: "mcall (ApplyAll rm us f) (sa_ApplyAllStaged (pa_Ssa P) rm us f) s = (q, s1)"
    by fastforce
  from q obtain w where w: "sa_ApplyAllStaged (pa_Ssa P) rm us f (p_World s) = (q, w)" "p_World s1 = w"
    by (rule mcall_world)
  have s': "p_World s' = w" "r = Inr ar \<Longrightarrow> \<exists>as. q = Inr as"
    using assms q w by (auto simp: Apply_def split: sum.splits)
  show "k \<notin> obj_key ` set us \<Longrightarrow> view (p_World s') k = view (p_World s) k"
    using Apply_footprint [OF w(1)] s'(1) by simp
  show "r = Inr ar \<Longrightarrow> inj_on obj_key (set us) \<Longrightarrow> u \<in> set us \<Longrightarrow> obj_key u \<notin> terminating (p_World s)
      \<Longrightarrow> landed (view (p_World s')) u"
    using s' Apply_landed w(1) by metis
qed

text \<open>Pruning after some calls that concern no managed object.\<close>

lemma Prune_after_quiet:
  assumes q: "quiet s s1"
    and p: "Prune (pa_Kube P) (pa_Live P) c uuid es s1 = (res, err, s2)"
  shows "view (p_World s2) k = view (p_World s) k
      \<or> view (p_World s2) k = None \<and> k \<in> prunable_keys uuid es (view (p_World s))"
    and "err = None \<Longrightarrow> view (p_World s2) =
      (\<lambda>k. if k \<in> prunable_keys uuid es (view (p_World s)) then None else view (p_World s) k)"
proof -
  have v: "view (p_World s1) = view (p_World s)" using q by (simp add: steady_def)
  show "view (p_World s2) k = view (p_World s) k
      \<or> view (p_World s2) k = None \<and> k \<in> prunable_keys uuid es (view (p_World s))"
    using Prune_shrinks [OF p, of k] unfolding v .
  show "view (p_World s2) =
      (\<lambda>k. if k \<in> prunable_keys uuid es (view (p_World s)) then None else view (p_World s) k)"
    if "err = None"
    using Prune_view [OF p [unfolded that]] unfolding v .
qed

lemma finish_deletion_quiet: "finish_deletion P o1 s = (x, s') \<Longrightarrow> quiet s s'"
  by (auto simp: finish_deletion_def removeFinalizer_def Let_def split: prod.splits option.splits
      dest: quiet_calls)

lemma stall_deletion_quiet:
  assumes "stall_deletion owned r m P o1 s = (x, s')" shows "quiet s s'"
  using assms
  by (auto simp: stall_deletion_def Let_def split: prod.splits if_splits dest!: patch_status_quiet)

lemma deletion_impersonation_failure_quiet:
  assumes "deletion_impersonation_failure owned P o1 inven sa e s = (x, s')" shows "quiet s s'"
proof (cases "orphan_requested (pa_Kube P) o1 e")
  case True
  show ?thesis
    using assms True
    by (auto simp: deletion_impersonation_failure_def orphan_requested_def IsServiceAccountNotFound_def
        Let_def split: prod.splits dest!: patch_status_quiet finish_deletion_quiet intro: steady_trans)
next
  case False
  then obtain r m where "stall_deletion owned r m P o1 s = (x, s')"
    using assms
    by (auto simp: deletion_impersonation_failure_def orphan_requested_def IsServiceAccountNotFound_def
        split: if_splits)
  then show ?thesis by (rule stall_deletion_quiet)
qed

lemma deletion_client_quiet: "deletion_client owned P o1 inven sa s = (Inr c, s') \<Longrightarrow> quiet s s'"
  by (auto simp: deletion_client_def split: prod.splits if_splits option.splits sum.splits
      dest: NewImpersonatedClient_quiet)

text \<open>The deletion cleanup on the view, and what it means that the finalizer was given up.\<close>

lemma deletion_cleanup_view:
  assumes run: "deletion_cleanup owned uuid P o1 s = (x, s')"
  defines "doomed \<equiv> prunable_keys uuid (previousEntries (cr_Status o1)) (view (p_World s))"
  shows "view (p_World s') k = view (p_World s) k
      \<or> sp_Prune (cr_Spec o1) \<and> view (p_World s') k = None \<and> k \<in> doomed"
    and "\<lbrakk>PatchObject a b \<in> set (new_effects s s'); sp_Prune (cr_Spec o1);
        map_index (om_Annotations (cr_Meta o1)) AnnotationForceDeleteOrphan \<noteq> ''true''\<rbrakk>
      \<Longrightarrow> view (p_World s') = (\<lambda>k. if k \<in> doomed then None else view (p_World s) k)"
proof -
  have prune: "sp_Prune (cr_Spec o1)" if "\<not> skip_prune o1" using that by (simp add: skip_prune_def)
  have client: "quiet s s1" if "\<exists>inven sa. deletion_client owned P o1 inven sa s = (Inr c, s1)" for c s1
    using that deletion_client_quiet by blast
  show "view (p_World s') k = view (p_World s) k
      \<or> sp_Prune (cr_Spec o1) \<and> view (p_World s') k = None \<and> k \<in> doomed"
    using run
  proof (cases rule: deletion_cleanup_cases)
    case skip
    then show ?thesis using finish_deletion_quiet by (auto simp: steady_def)
  next
    case (imp_fail inven sa e s1)
    then show ?thesis
      using steady_trans [OF NewImpersonatedClient_quiet [OF imp_fail(4)]
          deletion_impersonation_failure_quiet [OF imp_fail(5)]] by (simp add: steady_def)
  next
    case (denied res e s1 s2)
    then show ?thesis
      using Prune_after_quiet(1) [OF client [OF denied(5)] denied(3), of k] stall_deletion_quiet [OF denied(4)]
        prune by (auto simp: steady_def doomed_def)
  next
    case (failed res e s1)
    then show ?thesis
      using Prune_after_quiet(1) [OF client [OF failed(5)] failed(3), of k] prune by (auto simp: doomed_def)
  next
    case (pruned res s1 s2)
    then show ?thesis
      using Prune_after_quiet(1) [OF client [OF pruned(5)] pruned(3), of k] finish_deletion_quiet [OF pruned(4)]
        prune by (auto simp: steady_def doomed_def)
  qed
  show "view (p_World s') = (\<lambda>k. if k \<in> doomed then None else view (p_World s) k)"
    if patch: "PatchObject a b \<in> set (new_effects s s')" and p: "sp_Prune (cr_Spec o1)"
      and no: "map_index (om_Annotations (cr_Meta o1)) AnnotationForceDeleteOrphan \<noteq> ''true''"
    using run
  proof (cases rule: deletion_cleanup_cases)
    case skip
    then have "doomed = {}" using p by (simp add: skip_prune_def doomed_def prunable_keys_def)
    then show ?thesis using finish_deletion_quiet [OF skip(2)] by (simp add: steady_def)
  next
    case (imp_fail inven sa e s1)
    have "log_ext is_report s1 s'"
      using deletion_impersonation_failure_stall [OF imp_fail(5)] no by (simp add: orphan_requested_def)
    then have "PatchObject a b \<notin> set (new_effects s1 s')" unfolding new_effects_def by (rule no_patch_object_ext) simp
    then show ?thesis using patch NewImpersonatedClient_log [OF imp_fail(4)] by (simp add: new_effects_def)
  next
    case (denied res e s1 s2)
    have "log_ext (\<lambda>y. \<not> is_patch_object y) s1 s'"
      by (rule log_ext_trans [OF log_ext_mono [OF Prune_guarded [OF denied(3)]]
            log_ext_mono [OF stall_deletion_log [OF denied(4)]]])
        (auto simp: guarded_delete_def)
    then have "PatchObject a b \<notin> set (new_effects s1 s')" unfolding new_effects_def by (rule no_patch_object_ext) simp
    then show ?thesis using patch denied(2) by (simp add: new_effects_def)
  next
    case (failed res e s1)
    have "PatchObject a b \<notin> set (new_effects s1 s')" unfolding new_effects_def
      by (rule no_patch_object_ext [OF Prune_guarded [OF failed(3)]]) (auto simp: guarded_delete_def)
    then show ?thesis using patch failed(2) by (simp add: new_effects_def)
  next
    case (pruned res s1 s2)
    then show ?thesis
      using Prune_after_quiet(2) [OF client [OF pruned(5)] pruned(3)] finish_deletion_quiet [OF pruned(4)]
      by (simp add: steady_def doomed_def)
  qed
qed

end

text \<open>Stale entries do not name a rendered object, so the apply does not change what is prunable.\<close>

lemma k8s_key_NewEntry [simp]: "k8s_key (NewEntryFromResource u) = obj_key u"
  by (simp add: k8s_key_def NewEntryFromResource_def obj_key_def)

lemma prunable_after_apply:
  assumes "\<And>k. k \<notin> obj_key ` set rs \<Longrightarrow> v1 k = v k"
  shows "prunable_keys uuid (ComputeStaleSet ps (map NewEntryFromResource rs)) v1
    = prunable_keys uuid (ComputeStaleSet ps (map NewEntryFromResource rs)) v"
proof -
  have "v1 (k8s_key e) = v (k8s_key e)" if "e \<in> set (ComputeStaleSet ps (map NewEntryFromResource rs))" for e
    using that assms by (auto simp: stale_iff K8sIdentityEqual_key image_iff)
  then show ?thesis by (auto simp: prunable_keys_def)
qed

lemma stale_prunable_disjoint:
  "k \<in> prunable_keys uuid (ComputeStaleSet ps (map NewEntryFromResource rs)) v \<Longrightarrow> k \<notin> obj_key ` set rs"
  by (auto simp: prunable_keys_def stale_iff K8sIdentityEqual_key)

lemma prunable_keysI:
  "e \<in> set es \<Longrightarrow> isSafeToDelete e \<Longrightarrow> v (k8s_key e) = Some l \<Longrightarrow> prunable_labels uuid l
     \<Longrightarrow> k8s_key e \<in> prunable_keys uuid es v"
  unfolding prunable_keys_def by blast

lemma stale_prunable:
  assumes "k \<in> prunable_keys uuid (ComputeStaleSet ps cs) v1" and "v1 k = v k"
  shows "k \<in> prunable_keys uuid ps v"
proof -
  obtain e l where e: "k = k8s_key e" "e \<in> set ps" "isSafeToDelete e" "v1 k = Some l" "prunable_labels uuid l"
    using assms(1) by (auto simp: prunable_keys_def stale_iff)
  then have "v (k8s_key e) = Some l" using assms(2) by simp
  with e show ?thesis by (simp only: prunable_keysI)
qed

lemma events_no_apply: "list_all is_event es \<Longrightarrow> list_all (\<lambda>e. \<not> is_apply e) es"
  by (auto simp: list_all_iff)

lemma no_apply: "list_all (\<lambda>e. \<not> is_apply e) es \<Longrightarrow> ApplyAll rm rs f \<notin> set es"
  by (auto simp: list_all_iff)

text \<open>
  One apply call and one prune: the view \<open>v1\<close> in between differs from \<open>v\<close> at most in
  the applied objects, and the prune removes nothing but prunable objects. If both succeeded
  (\<open>ok\<close>), the applied objects have landed and the prune has removed all of them.
\<close>

definition applied_and_pruned ::
  "unstructured list \<Rightarrow> bool \<Rightarrow> string \<Rightarrow> InventoryEntry list \<Rightarrow> object_key set \<Rightarrow> bool
     \<Rightarrow> cluster_view \<Rightarrow> cluster_view \<Rightarrow> bool" where
  "applied_and_pruned rs prune uuid stale t ok v v' \<longleftrightarrow>
     (\<exists>v1. (\<forall>k. k \<notin> obj_key ` set rs \<longrightarrow> v1 k = v k)
       \<and> (\<forall>k. v' k = v1 k \<or> prune \<and> v' k = None \<and> k \<in> prunable_keys uuid stale v1)
       \<and> (ok \<longrightarrow> (\<forall>k. v' k = (if prune \<and> k \<in> prunable_keys uuid stale v1 then None else v1 k))
           \<and> (inj_on obj_key (set rs) \<longrightarrow> (\<forall>u\<in>set rs. obj_key u \<notin> t \<longrightarrow> landed v1 u))))"

lemma applied_and_prunedI:
  assumes "\<And>k. k \<notin> obj_key ` set rs \<Longrightarrow> v1 k = v k"
    and "\<And>k. v' k = v1 k \<or> prune \<and> v' k = None \<and> k \<in> prunable_keys uuid stale v1"
    and "\<And>k. ok \<Longrightarrow> v' k = (if prune \<and> k \<in> prunable_keys uuid stale v1 then None else v1 k)"
    and "\<And>u. ok \<Longrightarrow> inj_on obj_key (set rs) \<Longrightarrow> u \<in> set rs \<Longrightarrow> obj_key u \<notin> t \<Longrightarrow> landed v1 u"
  shows "applied_and_pruned rs prune uuid stale t ok v v'"
  unfolding applied_and_pruned_def using assms by (intro exI [of _ v1] conjI allI impI ballI) blast+

lemma applied_and_pruned_mono:
  "applied_and_pruned rs prune uuid stale t ok v v' \<Longrightarrow> t \<subseteq> t' \<Longrightarrow> applied_and_pruned rs prune uuid stale t' ok v v'"
  unfolding applied_and_pruned_def by blast

lemma applied_and_pruned_realised:
  assumes "applied_and_pruned rs prune uuid (ComputeStaleSet ps (map NewEntryFromResource rs)) t True v v'"
  shows "realised rs
    (if prune then prunable_keys uuid (ComputeStaleSet ps (map NewEntryFromResource rs)) v else {}) t v v'"
proof -
  let ?D = "prunable_keys uuid (ComputeStaleSet ps (map NewEntryFromResource rs))"
  obtain v1 where outside: "\<And>k. k \<notin> obj_key ` set rs \<Longrightarrow> v1 k = v k"
    and pruned: "\<And>k. v' k = (if prune \<and> k \<in> ?D v1 then None else v1 k)"
    and lands: "inj_on obj_key (set rs) \<Longrightarrow> \<forall>u\<in>set rs. obj_key u \<notin> t \<longrightarrow> landed v1 u"
    using assms unfolding applied_and_pruned_def by blast
  have D: "?D v1 = ?D v" by (rule prunable_after_apply) (rule outside)
  have "landed v' u" if "u \<in> set rs" "landed v1 u" for u
    using that stale_prunable_disjoint [of "obj_key u" uuid ps rs v] by (auto simp: landed_def pruned D)
  then show ?thesis using outside lands unfolding realised_def pruned D by simp
qed

lemma applied_and_pruned_footprint:
  assumes "applied_and_pruned rs prune uuid (ComputeStaleSet ps cs) t ok v v'" and "v' k \<noteq> v k"
  shows "k \<in> obj_key ` set rs \<or> prune \<and> v' k = None \<and> k \<in> prunable_keys uuid ps v"
  using assms stale_prunable unfolding applied_and_pruned_def by metis

subsection \<open>ModuleRelease runs on the view\<close>

locale mr_cluster = ssa_cluster P view terminating
  for P :: "('w, 'v) mr_params" and view :: "'w \<Rightarrow> cluster_view"
    and terminating :: "'w \<Rightarrow> object_key set" +
  assumes Render: "pa_Renderer P name ns path ver vals w = Some (rr, w') \<Longrightarrow> steady view terminating w w'"
begin

lemma mr_render_quiet:
  assumes "mr_render P L s = (f, L', s')" shows "quiet s s'"
proof -
  let ?mr = "l_obj L"
  let ?call = "call_partial (pa_Renderer P (obj_name ?mr) (obj_namespace ?mr) (mod_Path (sp_Module (cr_Spec ?mr)))
      (mod_Version (sp_Module (cr_Spec ?mr))) (sp_Values (cr_Spec ?mr))) s"
  show ?thesis
  proof (cases ?call)
    case None
    then show ?thesis using assms by (auto simp: mr_render_def Let_def call_partial_def)
  next
    case (Some q)
    obtain r s1 where q: "?call = Some (r, s1)" using Some by (cases q) auto
    have "quiet s s1" using q Render unfolding call_partial_Some by blast
    moreover have "p_World s' = p_World s1"
      using assms q unfolding mr_render_def Let_def stop_retry_def
      by (cases r) (auto split: sum.splits if_splits)
    ultimately show ?thesis by simp
  qed
qed

lemma detectDrift_quiet: "detectDrift P rs L s = (b, L', s') \<Longrightarrow> quiet s s'"
  by (auto simp: detectDrift_def split: flow_splits dest: DetectDrift_quiet)

lemma mr_plan_quiet:
  assumes "mr_plan P rr L s = (f, L', s')" shows "quiet s s'"
proof (cases "toUnstructuredSlice (pa_Cue P) (rr_Resources rr)")
  case (Inl e)
  with assms show ?thesis by (auto simp: mr_plan_def Let_def stop_retry_def)
next
  case (Inr rs)
  let ?L = "(with_uuid rs L)\<lparr>l_phases := (l_phases L)\<lparr>driftRan := True\<rparr>\<rparr>"
  obtain b L2 s1 where d: "detectDrift P rs ?L s = (b, L2, s1)" by (metis prod_cases3)
  have "p_World s' = p_World s1"
    using assms Inr d by (auto simp: mr_plan_def Let_def with_uuid_def [symmetric] split: if_splits)
  with detectDrift_quiet [OF d] show ?thesis by simp
qed

lemma mr_commit_quiet: "quiet s (mr_commit P start L s)"
  unfolding mr_commit_def mr_commit_noop_def Let_def
  by (simp split: prod.splits, intro conjI impI allI;
      (drule quiet_calls(2) since_quiet commit_times_quiet patch_status_quiet)+; force simp: steady_def)

lemma mr_apply_view_cases:
  assumes "mr_apply P rr rs L s = (f, L', s')"
  obtains
    (stop) x where "f = Stop x" "quiet s s'" "p_Log s' = p_Log s"
  | (call) ty r n where
      "p_Log s' = p_Log s @ [apply_call P (l_obj L) rs, Event ty r ''Apply'' n]"
      "\<And>k. k \<notin> obj_key ` set rs \<Longrightarrow> view (p_World s') k = view (p_World s) k"
      "\<And>y u. f = Continue y \<Longrightarrow> inj_on obj_key (set rs) \<Longrightarrow> u \<in> set rs
         \<Longrightarrow> obj_key u \<notin> terminating (p_World s) \<Longrightarrow> landed (view (p_World s')) u"
proof -
  let ?mr = "l_obj L"
  obtain b s1 where b: "buildApplyClient P ?mr s = (b, s1)" by fastforce
  note q = buildApplyClient_quiet [OF b]
  have v: "view (p_World s1) = view (p_World s)" "terminating (p_World s1) \<subseteq> terminating (p_World s)"
    using q by (simp_all add: steady_def)
  show ?thesis
  proof (cases "\<exists>rm c. b = Some (Inr (rm, c))")
    case True
    then obtain rm c where rm: "b = Some (Inr (rm, c))" by blast
    obtain a s2 where ap: "Apply (pa_Ssa P) rm rs (forceConflicts (cr_Spec ?mr)) s1 = (a, s2)" by fastforce
    have w: "p_World s' = p_World s2" "\<And>y. f = Continue y \<Longrightarrow> \<exists>ar. a = Inr ar" "p_Log s' \<noteq> p_Log s2"
      using assms b rm ap
      by (auto simp: mr_apply_def Let_def stop_retry_def effect_simps split: sum.splits prod.splits if_splits)
    have "p_Log s' \<noteq> p_Log s"
      using assms b rm ap buildApplyClient_log [OF b] Apply_log [OF ap]
      by (auto simp: mr_apply_def Let_def stop_retry_def effect_simps split: sum.splits prod.splits if_splits)
    then obtain ty r n where log: "p_Log s' = p_Log s @ [apply_call P ?mr rs, Event ty r ''Apply'' n]"
      using mr_apply_log [OF assms] by blast
    show ?thesis
    proof (rule call [OF log])
      show "view (p_World s') k = view (p_World s) k" if "k \<notin> obj_key ` set rs" for k
        using Apply_view(1) [OF ap that] w(1) v(1) by simp
      show "landed (view (p_World s')) u" if y: "f = Continue y" and u: "inj_on obj_key (set rs)" "u \<in> set rs"
        "obj_key u \<notin> terminating (p_World s)" for y u
        using Apply_view(2) [OF ap _ u(1,2)] w(1) w(2) [OF y] u(3) v(2) by auto
    qed
  next
    case False
    then show ?thesis
      using assms b q buildApplyClient_log [OF b] stop
      by (auto simp: mr_apply_def Let_def stop_retry_def split: option.splits sum.splits)
  qed
qed

lemma mr_apply_stop_exit:
  assumes "mr_apply P rr rs L s = (Stop x, L', s')" shows "x \<noteq> Returned no_requeue None"
proof -
  have "0 \<noteq> backoff_of mr" for mr using ComputeBackoff_pos by (metis backoff_of_def less_irrefl)
  with assms show ?thesis
    by (cases rule: mr_apply_cases) (auto simp: no_requeue_def requeue_after_def delay_defs)
qed

lemma mr_prune_view:
  assumes "mr_prune P c stale sa L s = (x, L', s')"
  defines "doomed \<equiv> prunable_keys (st_ReleaseUUID (cr_Status (l_obj L))) stale (view (p_World s))"
  shows "view (p_World s') k = view (p_World s) k
      \<or> sp_Prune (cr_Spec (l_obj L)) \<and> view (p_World s') k = None \<and> k \<in> doomed"
    and "x = Returned no_requeue None \<Longrightarrow> view (p_World s') k =
      (if sp_Prune (cr_Spec (l_obj L)) \<and> k \<in> doomed then None else view (p_World s) k)"
proof -
  let ?go = "sp_Prune (cr_Spec (l_obj L)) \<and> stale \<noteq> []"
  obtain res err s1 where p: "Prune (pa_Kube P) (pa_Live P) c (st_ReleaseUUID (cr_Status (l_obj L))) stale s
      = (res, err, s1)" by (metis prod_cases3)
  have w: "p_World s' = p_World (if ?go then s1 else s)"
    and ok: "x = Returned no_requeue None \<Longrightarrow> ?go \<Longrightarrow> err = None"
    using assms(1) p ComputeBackoff_pos [THEN less_imp_neq]
    by (auto simp: mr_prune_def pruneStaleResources_def Let_def no_requeue_def requeue_after_def
        delay_defs split: option.splits if_splits)
  note pv = Prune_after_quiet [OF steady_refl p]
  show "view (p_World s') k = view (p_World s) k
      \<or> sp_Prune (cr_Spec (l_obj L)) \<and> view (p_World s') k = None \<and> k \<in> doomed"
    using w pv(1) [of k] by (auto simp: doomed_def)
  show "view (p_World s') k = (if sp_Prune (cr_Spec (l_obj L)) \<and> k \<in> doomed then None else view (p_World s) k)"
    if "x = Returned no_requeue None"
    using w pv(2) [OF ok [OF that]] by (auto simp: doomed_def prunable_keys_def)
qed

lemma mr_phases_before_apply:
  assumes r: "mr_render P (init_locals mr) s = (Continue rr, L1, s1)"
    and p: "mr_plan P rr L1 s1 = (Continue (rs, stale), L2, s2)"
  shows "quiet s s2" "p_Log s2 = p_Log s" "rendered_at P mr (p_World s) rr" "apply_call P (l_obj L2) rs = apply_call P mr rs"
    "stale = ComputeStaleSet (previousEntries (cr_Status mr)) (rr_InventoryEntries rr)"
    "st_ReleaseUUID (cr_Status (l_obj L2)) = owner_uuid mr rs"
    "toUnstructuredSlice (pa_Cue P) (rr_Resources rr) = Inr rs"
proof -
  have fr: "same_ledger mr (l_obj L2)" "same_ledger mr (l_obj L1)"
    using mr_render_frame [OF r] same_ledger_trans [OF mr_render_frame [OF r] mr_plan_frame [OF p]] by simp_all
  show "quiet s s2" using steady_trans [OF mr_render_quiet [OF r] mr_plan_quiet [OF p]] .
  show "p_Log s2 = p_Log s" using mr_plan_continue(2) [OF p] mr_render_continue_log [OF r] by simp
  show "rendered_at P mr (p_World s) rr" using mr_render_rendered [OF r] by simp
  show "apply_call P (l_obj L2) rs = apply_call P mr rs" using expected_cong(2) [OF fr(1)] .
  show "stale = ComputeStaleSet (previousEntries (cr_Status mr)) (rr_InventoryEntries rr)"
    using mr_plan_continue(3) [OF p] same_ledgerD(7) [OF fr(2)] by simp
  show "st_ReleaseUUID (cr_Status (l_obj L2)) = owner_uuid mr rs" using mr_plan_sets_uuid [OF r p] by simp
  show "toUnstructuredSlice (pa_Cue P) (rr_Resources rr) = Inr rs" using mr_plan_continue(1) [OF p] .
qed

text \<open>
  The body: it reaches no apply call and leaves the view alone, or it applies one list of
  objects and then prunes.
\<close>

lemma mr_body_view:
  assumes "mr_body P (init_locals mr) s = (x, L, s')"
  obtains
    (untouched) es where "view (p_World s') = view (p_World s)" "p_Log s' = p_Log s @ es" "list_all is_event es"
  | (applied) rr rs pre post where "rendered_at P mr (p_World s) rr"
      "toUnstructuredSlice (pa_Cue P) (rr_Resources rr) = Inr rs"
      "p_Log s' = p_Log s @ pre @ apply_call P mr rs # post" "list_all (\<lambda>e. \<not> is_apply e) (pre @ post)"
      "applied_and_pruned rs (sp_Prune (cr_Spec mr)) (owner_uuid mr rs)
         (ComputeStaleSet (previousEntries (cr_Status mr)) (rr_InventoryEntries rr))
         (terminating (p_World s)) (x = Returned no_requeue None) (view (p_World s)) (view (p_World s'))"
  using assms
proof (cases rule: mr_body_cases)
  case rendering
  from mr_render_quiet [OF this] mr_render_log [OF this] show ?thesis
    using untouched by (auto simp: steady_def log_ext_def)
next
  case (planning rr L1 s1)
  from steady_trans [OF mr_render_quiet [OF this(1)] mr_plan_quiet [OF this(2)]]
    mr_plan_log [OF this(2)] mr_render_continue_log [OF this(1)]
  show ?thesis using untouched by (auto simp: steady_def log_ext_def)
next
  case (applying rr L1 s1 rs stale L2 s2)
  note before = mr_phases_before_apply [OF applying(1,2)]
  show ?thesis
    using applying(3)
  proof (cases rule: mr_apply_view_cases)
    case (stop y)
    then show ?thesis using untouched [of "[]"] before(1,2) by (auto simp: steady_def)
  next
    case (call ty r n)
    have "p_Log s' = p_Log s @ [] @ apply_call P mr rs # [Event ty r ''Apply'' n]"
      using call(1) before(2,4) by simp
    then show ?thesis
      using before(1,3,7) call(2) mr_apply_stop_exit [OF applying(3)]
      by (intro applied [of rr rs "[]"] applied_and_prunedI [where ?v1.0 = "view (p_World s')"])
        (auto simp: steady_def)
  qed
next
  case (pruning rr L1 s1 rs stale L2 s2 c sa L3 s3)
  note before = mr_phases_before_apply [OF pruning(1,2)]
  have fr: "cr_Spec (l_obj L3) = cr_Spec mr"
    using same_ledgerD(2) [OF same_ledger_trans [OF same_ledger_trans [OF mr_render_frame [OF pruning(1)]
          mr_plan_frame [OF pruning(2)]] mr_apply_frame [OF pruning(3)]]] by simp
  have uuid: "st_ReleaseUUID (cr_Status (l_obj L3)) = owner_uuid mr rs"
    using mr_apply_keeps_uuid [OF pruning(3)] before(6) by simp
  note pv = mr_prune_view [OF pruning(4), unfolded fr uuid before(5)]
  obtain es where es: "p_Log s' = p_Log s3 @ es" "list_all (\<lambda>e. \<not> is_apply e) es"
    using mr_prune_log [OF pruning(4)]
    by (fastforce simp: log_ext_def list_all_iff prune_effect_def guarded_delete_def)
  show ?thesis
    using pruning(3)
  proof (cases rule: mr_apply_view_cases)
    case (call ty r n)
    have log: "p_Log s' = p_Log s @ [] @ apply_call P mr rs # Event ty r ''Apply'' n # es"
      using call(1) before(2,4) es(1) by simp
    have "applied_and_pruned rs (sp_Prune (cr_Spec mr)) (owner_uuid mr rs)
        (ComputeStaleSet (previousEntries (cr_Status mr)) (rr_InventoryEntries rr))
        (terminating (p_World s2)) (x = Returned no_requeue None) (view (p_World s2)) (view (p_World s'))"
      by (rule applied_and_prunedI [where ?v1.0 = "view (p_World s3)"])
        (use call(2) call(3) [OF refl] pv in blast)+
    then show ?thesis
      using before(1) es(2)
      by (intro applied [OF before(3,7) log]) (auto simp: steady_def intro: applied_and_pruned_mono)
  qed simp
qed

lemma mr_run_view_cases:
  assumes run: "ReconcileModuleRelease P req s = (x, s')"
    and get: "call (ca_Get (pa_CR P) req) s = (Inr mr, s0)"
  obtains
    (idle) "quiet s s'" "list_all (\<lambda>e. \<not> is_apply e) (new_effects s s')"
      "k_ContainsFinalizer (pa_Kube P) (om_Finalizers (cr_Meta mr)) FinalizerName \<Longrightarrow>
         om_DeletionTimestamp (cr_Meta mr) = None"
  | (deleting) s2 s3 where "om_DeletionTimestamp (cr_Meta mr) \<noteq> None" "quiet s s2" "p_Log s2 = p_Log s"
      "handleDeletion P mr s2 = (x, s3)" "quiet s3 s'" "p_Log s' = p_Log s3"
  | (active) start L s2 s3 where "om_DeletionTimestamp (cr_Meta mr) = None" "quiet s s2" "log_ext is_event s s2"
      "mr_body P (init_locals mr) s2 = (x, L, s3)" "s' = mr_commit P start L s3" "p_World s2 = run_world P s0"
proof -
  obtain start s1 where now: "call (pa_Now P) s0 = (start, s1)" by fastforce
  have q: "quiet s s1" using steady_trans [OF quiet_calls(1) [OF get] quiet_calls(2) [OF now]] .
  have log: "p_Log s1 = p_Log s" using get now by (simp add: effect_simps)
  note run = run [unfolded ReconcileModuleRelease_def get, simplified, unfolded now, simplified]
  consider (fin) "\<not> k_ContainsFinalizer (pa_Kube P) (om_Finalizers (cr_Meta mr)) FinalizerName"
    | (del) "k_ContainsFinalizer (pa_Kube P) (om_Finalizers (cr_Meta mr)) FinalizerName"
       "om_DeletionTimestamp (cr_Meta mr) \<noteq> None"
    | (susp) "k_ContainsFinalizer (pa_Kube P) (om_Finalizers (cr_Meta mr)) FinalizerName"
       "om_DeletionTimestamp (cr_Meta mr) = None" "sp_Suspend (cr_Spec mr)"
    | (live) "k_ContainsFinalizer (pa_Kube P) (om_Finalizers (cr_Meta mr)) FinalizerName"
       "om_DeletionTimestamp (cr_Meta mr) = None" "\<not> sp_Suspend (cr_Spec mr)" by blast
  then show ?thesis
  proof cases
    case fin
    obtain e where "mcall (PatchObject mr (with_finalizers (\<lambda>fs. k_AddFinalizer (pa_Kube P) fs FinalizerName) mr))
        (ca_Patch (pa_CR P) mr (with_finalizers (\<lambda>fs. k_AddFinalizer (pa_Kube P) fs FinalizerName) mr)) s1 = (e, s')"
      using run fin by (auto simp: addFinalizer_def Let_def split: prod.splits option.splits)
    with q log fin show ?thesis
      by (intro idle) (auto simp: effect_simps dest: quiet_calls(6) intro: steady_trans)
  next
    case del
    obtain y s3 where h: "handleDeletion P mr s1 = (y, s3)" by fastforce
    have "quiet s3 s'" "y = x" "p_Log s' = p_Log s3"
      using run del h
      by (auto split: exit.splits prod.splits dest: quiet_calls(2) simp: since_def effect_simps)
    with h q log del show ?thesis by (intro deleting) simp_all
  next
    case susp
    have s: "mr_suspend P start mr s1 = (x, s')" using run susp by simp
    have "quiet s1 s'"
      using s by (auto simp: mr_suspend_def Let_def split: prod.splits option.splits
          dest!: patch_status_quiet since_quiet intro: steady_trans)
    with q log susp mr_suspend_log [OF s] show ?thesis
      by (intro idle) (auto simp: suspend_event_def intro: steady_trans)
  next
    case live
    let ?s2 = "resume_event P (st_Conditions (cr_Status mr)) s1"
    have w: "p_World ?s2 = p_World s1" "log_ext is_event s1 ?s2"
      by (auto simp: resume_event_def log_ext_def effect_simps split: option.splits)
    obtain L s3 where b: "mr_body P (init_locals mr) ?s2 = (x, L, s3)"
      "s' = (if x = Diverged then s3 else mr_commit P start L s3)"
      using run live by (auto split: prod.splits)
    show ?thesis
    proof (cases "x = Diverged")
      case True
      have r: "mr_render P (init_locals mr) ?s2 = (Stop x, L, s3)"
        using b(1) True by (cases rule: mr_body_cases) (auto dest: phases_return)
      from mr_render_quiet [OF r] mr_render_log [OF r] events_no_apply show ?thesis
        using q w log live b(2) True by (intro idle) (auto simp: log_ext_def intro: steady_trans)
    next
      case False
      then show ?thesis using b q w log live now
        by (intro active [OF _ _ _ b(1)]) (auto simp: log_ext_def run_world_def)
    qed
  qed
qed

text \<open>A run on a release that is not being deleted: the commit adds one status patch.\<close>

lemma mr_live_view_cases:
  assumes run: "ReconcileModuleRelease P req s = (x, s')"
    and get: "call (ca_Get (pa_CR P) req) s = (Inr mr, s0)"
    and live: "om_DeletionTimestamp (cr_Meta mr) = None"
  obtains
    (untouched) "view (p_World s') = view (p_World s)" "list_all (\<lambda>e. \<not> is_apply e) (new_effects s s')"
  | (applied) rr rs pre post where "rendered_at P mr (run_world P s0) rr"
      "toUnstructuredSlice (pa_Cue P) (rr_Resources rr) = Inr rs"
      "new_effects s s' = pre @ apply_call P mr rs # post" "list_all (\<lambda>e. \<not> is_apply e) (pre @ post)"
      "applied_and_pruned rs (sp_Prune (cr_Spec mr)) (owner_uuid mr rs)
         (ComputeStaleSet (previousEntries (cr_Status mr)) (rr_InventoryEntries rr))
         (terminating (p_World s)) (x = Returned no_requeue None) (view (p_World s)) (view (p_World s'))"
  using run get
proof (cases rule: mr_run_view_cases)
  case idle
  then show ?thesis using untouched by (simp add: steady_def)
next
  case deleting
  with live show ?thesis by simp
next
  case (active start L s2 s3)
  have w: "view (p_World s') = view (p_World s3)" "view (p_World s2) = view (p_World s)"
    "terminating (p_World s2) \<subseteq> terminating (p_World s)"
    using mr_commit_quiet [of s3 start L] active(2,5) by (simp_all add: steady_def)
  obtain evs where evs: "p_Log s2 = p_Log s @ evs" "list_all is_event evs"
    using active(3) by (auto simp: log_ext_def)
  obtain mr' where c: "p_Log s' = p_Log s3 @ [PatchStatus mr' mr_owned True]"
    using mr_commit_log [of P start L s3] active(5) by blast
  show ?thesis
    using active(4)
  proof (cases rule: mr_body_view)
    case (untouched es)
    have "new_effects s s' = evs @ es @ [PatchStatus mr' mr_owned True]" using untouched(2) evs(1) c by simp
    then show ?thesis using that(1) untouched(1) w(1,2) events_no_apply [OF untouched(3)] events_no_apply [OF evs(2)] by simp
  next
    case (applied rr rs pre post)
    have "new_effects s s' = (evs @ pre) @ apply_call P mr rs # post @ [PatchStatus mr' mr_owned True]"
      using applied(3) evs(1) c by simp
    then show ?thesis
      by (rule that(2) [OF applied(1) [unfolded active(6)] applied(2)])
        (use applied(4,5) w events_no_apply [OF evs(2)] in \<open>auto intro: applied_and_pruned_mono\<close>)
  qed
qed

lemma mr_deletion_view:
  assumes run: "ReconcileModuleRelease P req s = (x, s')"
    and get: "call (ca_Get (pa_CR P) req) s = (Inr mr, s0)"
    and del: "om_DeletionTimestamp (cr_Meta mr) \<noteq> None"
    and fin: "k_ContainsFinalizer (pa_Kube P) (om_Finalizers (cr_Meta mr)) FinalizerName"
  shows "view (p_World s') k = view (p_World s) k
      \<or> sp_Prune (cr_Spec mr) \<and> view (p_World s') k = None
        \<and> k \<in> prunable_keys (st_ReleaseUUID (cr_Status mr)) (previousEntries (cr_Status mr)) (view (p_World s))"
    and "\<lbrakk>PatchObject a b \<in> set (new_effects s s'); sp_Prune (cr_Spec mr);
        map_index (om_Annotations (cr_Meta mr)) AnnotationForceDeleteOrphan \<noteq> ''true''\<rbrakk>
      \<Longrightarrow> view (p_World s') = (\<lambda>k. if k \<in> prunable_keys (st_ReleaseUUID (cr_Status mr))
        (previousEntries (cr_Status mr)) (view (p_World s)) then None else view (p_World s) k)"
proof -
  obtain s2 s3 where d: "deletion_cleanup mr_owned (st_ReleaseUUID (cr_Status mr)) P mr s2 = (x, s3)"
    and w: "view (p_World s2) = view (p_World s)" "view (p_World s') = view (p_World s3)"
    "new_effects s s' = new_effects s2 s3"
  proof (cases rule: mr_run_view_cases [OF run get, case_names idle deleting active])
    case (deleting s2 s3)
    then show ?thesis by (intro that [of s2 s3]) (simp_all add: steady_def new_effects_def handleDeletion_def)
  qed (use del fin in simp_all)
  note v = deletion_cleanup_view [OF d, unfolded w(1), folded w(2,3)]
  show "view (p_World s') k = view (p_World s) k
      \<or> sp_Prune (cr_Spec mr) \<and> view (p_World s') k = None
        \<and> k \<in> prunable_keys (st_ReleaseUUID (cr_Status mr)) (previousEntries (cr_Status mr)) (view (p_World s))"
    by (rule v(1))
  show "\<lbrakk>PatchObject a b \<in> set (new_effects s s'); sp_Prune (cr_Spec mr);
        map_index (om_Annotations (cr_Meta mr)) AnnotationForceDeleteOrphan \<noteq> ''true''\<rbrakk>
      \<Longrightarrow> view (p_World s') = (\<lambda>k. if k \<in> prunable_keys (st_ReleaseUUID (cr_Status mr))
        (previousEntries (cr_Status mr)) (view (p_World s)) then None else view (p_World s) k)"
    by (rule v(2))
qed

end

subsection \<open>The in-memory API server\<close>

lemma mem_apply_outside:
  "mem_apply us w = (as, w') \<Longrightarrow> k \<notin> obj_key ` set us \<Longrightarrow> mw_Objects w' k = mw_Objects w k"
  by (induction us arbitrary: as w) (fastforce split: prod.splits)+

lemma mem_apply_landed:
  assumes "mem_apply us w = (as, w')" "inj_on obj_key (set us)" "u \<in> set us"
  shows "mw_Objects w' (obj_key u) = Some (u_Labels u, u_Content u)"
  using assms
proof (induction us arbitrary: as w)
  case (Cons v us)
  obtain as1 where m: "mem_apply us (w\<lparr>mw_Objects := (mw_Objects w)(obj_key v \<mapsto> (u_Labels v, u_Content v))\<rparr>)
      = (as1, w')" using Cons.prems(1) by (auto split: prod.splits)
  show ?case
  proof (cases "u \<in> set us")
    case True
    then show ?thesis using Cons.IH [OF m] Cons.prems(2) by (simp add: inj_on_insert)
  next
    case False
    then have "u = v" "obj_key v \<notin> obj_key ` set us" using Cons.prems(2,3) by (auto simp: inj_on_def)
    then show ?thesis using mem_apply_outside [OF m, of "obj_key v"] by simp
  qed
qed simp

lemma mem_ssa_cluster:
  assumes [simp]: "pa_Kube P = std_kube" "pa_Live P = mem_live" "pa_Ssa P = mem_ssa" "pa_Auth P = mem_auth"
    "pa_CR P = mem_cr" "pa_Now P = mem_now"
  shows "ssa_cluster P mem_view (\<lambda>w. {})"
proof (rule ssa_cluster.intro)
  show "live_cluster (pa_Kube P) (pa_Live P) mem_view" by simp unfold_locales
  show "ssa_cluster_axioms P mem_view (\<lambda>w. {})"
  proof (rule ssa_cluster_axioms.intro)
    show "mem_view w' k = mem_view w k" if "sa_ApplyAllStaged (pa_Ssa P) rm us f w = (r, w')"
      "k \<notin> obj_key ` set us" for rm us f w r w' k
      using that mem_apply_outside [of us w _ w' k] by (auto simp: mem_view_def split: prod.splits)
    show "landed (mem_view w') u" if "sa_ApplyAllStaged (pa_Ssa P) rm us f w = (Inr as, w')"
      "inj_on obj_key (set us)" "u \<in> set us" for rm us f w as w' u
      using that mem_apply_landed [of us w _ w' u] by (auto simp: mem_view_def landed_def split: prod.splits)
  qed (auto simp: steady_def mem_view_def fun_eq_iff mem_auth_def mem_now_def split: if_splits option.splits)
qed

interpretation demo_cluster: mr_cluster demo_params mem_view "\<lambda>w. {}"
  by (rule mr_cluster.intro [OF mem_ssa_cluster]; unfold_locales?; simp)

text \<open>The demonstration release on this server.\<close>

lemma demo_prunable:
  "obj_key web_obj \<in> prunable_keys ''u1'' [NewEntryFromResource web_obj, NewEntryFromResource old_obj]
     (mem_view (p_World (demo_state mr)))"
  "obj_key old_obj \<in> prunable_keys ''u1'' [NewEntryFromResource web_obj, NewEntryFromResource old_obj]
     (mem_view (p_World (demo_state mr)))"
  "obj_key old_obj \<in> prunable_keys ''u1'' [NewEntryFromResource old_obj] (mem_view (p_World (demo_state mr)))"
proof -
  have v: "mem_view (p_World (demo_state mr)) (k8s_key (NewEntryFromResource web_obj)) = Some demo_labels"
    "mem_view (p_World (demo_state mr)) (k8s_key (NewEntryFromResource old_obj)) = Some demo_labels"
    by (simp_all add: mem_view_def)
  show "obj_key web_obj \<in> prunable_keys ''u1'' [NewEntryFromResource web_obj, NewEntryFromResource old_obj]
       (mem_view (p_World (demo_state mr)))"
    unfolding k8s_key_NewEntry [symmetric] by (rule prunable_keysI [where l = demo_labels]) (use v in simp_all)
  show "obj_key old_obj \<in> prunable_keys ''u1'' [NewEntryFromResource web_obj, NewEntryFromResource old_obj]
       (mem_view (p_World (demo_state mr)))"
    "obj_key old_obj \<in> prunable_keys ''u1'' [NewEntryFromResource old_obj] (mem_view (p_World (demo_state mr)))"
    unfolding k8s_key_NewEntry [symmetric] by (rule prunable_keysI [where l = demo_labels]; use v in simp)+
qed

lemma demo_pruned:
  "case mr_body demo_params (init_locals demo_mr) (demo_started demo_mr) of (x, L, s3) \<Rightarrow>
     mw_Objects (p_World s3) (obj_key old_obj) = None"
  by (simp add: run_defs IsNoOp_def lastApplied_def previousEntries_def)

subsection \<open>Properties\<close>

text \<open>
  C1: a successful reconcile makes the cluster what the module says. Let the API server
  satisfy its contract and the renderer keep its own. When a run on a release that is not being
  deleted has made an apply call and returns without an error or a requeue, the applied objects
  are the converted resources that the renderer returned to this run, and the cluster after the
  run is the cluster before it in which every applied object has landed with its labels and, with
  \<open>spec.prune\<close>, the objects of stale inventory entries of a deletable kind that carry OPM's
  labels and no other owner's UUID are gone; every other object is untouched.
\<close>

theorem mr_run_realises_module:
  assumes laws: "mr_cluster P view terminating"
    and contract: "module_renderer (pa_Renderer P) (pa_Cue P)"
    and run: "ReconcileModuleRelease P req s = (Returned no_requeue None, s')"
    and get: "call (ca_Get (pa_CR P) req) s = (Inr mr, s0)"
    and live: "om_DeletionTimestamp (cr_Meta mr) = None"
    and ap: "ApplyAll rm rs f \<in> set (new_effects s s')"
  shows "(\<exists>rr w. render_call P mr (run_world P s0) = Some (Inr rr, w)
      \<and> toUnstructuredSlice (pa_Cue P) (rr_Resources rr) = Inr rs)
    \<and> realised rs
    (if sp_Prune (cr_Spec mr) then prunable_keys (owner_uuid mr rs)
       (ComputeStaleSet (previousEntries (cr_Status mr)) (map NewEntryFromResource rs)) (view (p_World s)) else {})
    (terminating (p_World s)) (view (p_World s)) (view (p_World s'))"
proof (cases rule: mr_cluster.mr_live_view_cases [OF laws run get live, case_names untouched applied])
  case untouched
  then show ?thesis using ap by (auto simp: list_all_iff)
next
  case (applied rr rs' pre post)
  have rs: "rs = rs'" using ap applied(3,4) no_apply by (auto simp: apply_call_def)
  have entries: "rr_InventoryEntries rr = map NewEntryFromResource rs'"
    using applied(1,2) module_renderer.sound [OF contract] sound_resultD
    unfolding rendered_at_def render_call_def by metis
  have "\<exists>rr w. render_call P mr (run_world P s0) = Some (Inr rr, w)
      \<and> toUnstructuredSlice (pa_Cue P) (rr_Resources rr) = Inr rs"
    using applied(1,2) rs by (auto simp: rendered_at_def)
  then show ?thesis
    using applied_and_pruned_realised applied(5) unfolding rs entries by simp
qed

theorem mr_run_realises_module_witness:
  "\<exists>s'. ReconcileModuleRelease demo_params demo_req (demo_state demo_mr) = (Returned no_requeue None, s')
     \<and> mem_view (p_World s') (obj_key old_obj) = None \<and> landed (mem_view (p_World s')) web_obj"
proof -
  obtain L s3 mr' where run: "ReconcileModuleRelease demo_params demo_req (demo_state demo_mr) =
      (Returned no_requeue None, mr_commit demo_params 100 L s3)"
    and eff: "new_effects (demo_state demo_mr) (mr_commit demo_params 100 L s3) =
      demo_effects @ [PatchStatus mr' mr_owned True]"
    by (rule demo_run)
  have ap: "ApplyAll (pa_ResourceManager demo_params) [web_obj] (forceConflicts demo_spec)
      \<in> set (new_effects (demo_state demo_mr) (mr_commit demo_params 100 L s3))"
    using eff by (simp add: demo_effects_def)
  show ?thesis
    using mr_run_realises_module [OF demo_cluster.mr_cluster_axioms demo_renderer.module_renderer_axioms run demo_get _ ap]
      run demo_prunable(3) unfolding realised_def by (auto simp: previousEntries_def owner_uuid_def)
qed

text \<open>
  C7: the footprint of a run. Whatever happens in a run on a release that is not being deleted
  (a failed render, a partial apply, a failed prune, a panic), the only objects of the cluster
  that may have changed are those of the apply call the run made, and the ones it has removed
  under \<open>spec.prune\<close>, which were live objects of previous inventory entries of a
  deletable kind with OPM's labels and no other owner's UUID. A run that made no apply call leaves
  the cluster as it was.
\<close>

theorem mr_run_footprint:
  assumes laws: "mr_cluster P view terminating"
    and run: "ReconcileModuleRelease P req s = (x, s')"
    and get: "call (ca_Get (pa_CR P) req) s = (Inr mr, s0)"
    and live: "om_DeletionTimestamp (cr_Meta mr) = None"
    and change: "view (p_World s') k \<noteq> view (p_World s) k"
  shows "\<exists>rs. apply_call P mr rs \<in> set (new_effects s s')
    \<and> (k \<in> obj_key ` set rs
       \<or> sp_Prune (cr_Spec mr) \<and> view (p_World s') k = None
         \<and> k \<in> prunable_keys (owner_uuid mr rs) (previousEntries (cr_Status mr)) (view (p_World s)))"
proof (cases rule: mr_cluster.mr_live_view_cases [OF laws run get live, case_names untouched applied])
  case untouched
  with change show ?thesis by simp
next
  case (applied rr rs pre post)
  then show ?thesis using applied_and_pruned_footprint [OF applied(5) change] by auto
qed

theorem mr_run_footprint_witness:
  "\<exists>x s' rs. ReconcileModuleRelease demo_params demo_req (demo_state demo_mr) = (x, s')
     \<and> apply_call demo_params demo_mr rs \<in> set (new_effects (demo_state demo_mr) s')
     \<and> obj_key old_obj \<in> obj_key ` set rs \<union> prunable_keys (owner_uuid demo_mr rs)
         (previousEntries demo_status) (mem_view (p_World (demo_state demo_mr)))"
proof -
  obtain L s3 where b: "mr_body demo_params (init_locals demo_mr) (demo_started demo_mr) =
      (Returned no_requeue None, L, s3)"
    and run: "ReconcileModuleRelease demo_params demo_req (demo_state demo_mr) =
      (Returned no_requeue None, mr_commit demo_params 100 L s3)"
    by (rule demo_run)
  have "mem_view (p_World (mr_commit demo_params 100 L s3)) (obj_key old_obj) = None"
    using demo_pruned b demo_cluster.mr_commit_quiet [of s3 100 L] by (simp add: steady_def mem_view_def)
  then have "mem_view (p_World (mr_commit demo_params 100 L s3)) (obj_key old_obj)
      \<noteq> mem_view (p_World (demo_state demo_mr)) (obj_key old_obj)"
    by (simp add: mem_view_def)
  from mr_run_footprint [OF demo_cluster.mr_cluster_axioms run demo_get _ this] run show ?thesis
    by simp blast
qed

text \<open>
  C9: deleting a release empties its part of the cluster. A run on a release that is being
  deleted removes nothing but live objects of its inventory of a deletable kind with OPM's labels
  and no other owner's UUID, and only under \<open>spec.prune\<close>; and when it gives up the
  finalizer of a release with \<open>spec.prune\<close> that does not ask to be orphaned, all of them are
  gone and nothing else has changed.
\<close>

theorem mr_deletion_empties_inventory:
  assumes laws: "mr_cluster P view terminating"
    and run: "ReconcileModuleRelease P req s = (x, s')"
    and get: "call (ca_Get (pa_CR P) req) s = (Inr mr, s0)"
    and del: "om_DeletionTimestamp (cr_Meta mr) \<noteq> None"
    and fin: "k_ContainsFinalizer (pa_Kube P) (om_Finalizers (cr_Meta mr)) FinalizerName"
  defines "doomed \<equiv> prunable_keys (st_ReleaseUUID (cr_Status mr)) (previousEntries (cr_Status mr)) (view (p_World s))"
  shows "(\<forall>k. view (p_World s') k = view (p_World s) k
      \<or> sp_Prune (cr_Spec mr) \<and> view (p_World s') k = None \<and> k \<in> doomed)
    \<and> (\<forall>a b. PatchObject a b \<in> set (new_effects s s') \<longrightarrow> sp_Prune (cr_Spec mr)
        \<longrightarrow> map_index (om_Annotations (cr_Meta mr)) AnnotationForceDeleteOrphan \<noteq> ''true''
        \<longrightarrow> view (p_World s') = (\<lambda>k. if k \<in> doomed then None else view (p_World s) k))"
  unfolding doomed_def using mr_cluster.mr_deletion_view [OF laws run get del fin] by blast

theorem mr_deletion_empties_inventory_witness:
  "let mr = demo_mr\<lparr>cr_Meta := demo_meta\<lparr>om_DeletionTimestamp := Some 5\<rparr>\<rparr>;
       s' = snd (ReconcileModuleRelease demo_params demo_req (demo_state mr))
   in mem_view (p_World s') (obj_key old_obj) = None \<and> mem_view (p_World s') (obj_key web_obj) = None"
proof -
  let ?mr = "demo_mr\<lparr>cr_Meta := demo_meta\<lparr>om_DeletionTimestamp := Some 5\<rparr>\<rparr>"
  obtain x s' where run: "ReconcileModuleRelease demo_params demo_req (demo_state ?mr) = (x, s')"
    by fastforce
  have p: "PatchObject ?mr (without_finalizer std_kube ?mr) \<in> set (new_effects (demo_state ?mr) s')"
    using demo_deletion_run run by (simp add: Let_def)
  have no: "map_index (om_Annotations demo_meta) AnnotationForceDeleteOrphan \<noteq> ''true''"
    by (simp add: demo_meta_def)
  show ?thesis
    using mr_deletion_empties_inventory [OF demo_cluster.mr_cluster_axioms run demo_get] p no run
      demo_prunable(1,2) by (auto simp: Let_def previousEntries_def)
qed

end
