(* ===== verification/Opm_Rel_Refine.thy ===== *)
theory Opm_Rel_Refine
  imports Opm_Refine
begin

text \<open>
  The Release loop against the cluster: its extra calls (source, artifact server, file system,
  package renderer) concern no managed object, so a run is the same simple operation on the
  cluster view as a run of the ModuleRelease loop. Release pruning passes no owner UUID.
\<close>

subsection \<open>Downloads keep what their primitive calls keep\<close>

locale source_frame =
  fixes E :: "'w source_env" and I :: "'w \<Rightarrow> bool"
  assumes MkdirAll: "I w \<Longrightarrow> I (snd (fs_MkdirAll (se_FS E) p w))"
    and OpenFile: "I w \<Longrightarrow> I (snd (fs_OpenFile (se_FS E) p m w))"
    and Write: "I w \<Longrightarrow> I (snd (fs_Write (se_FS E) p b w))"
    and Symlink: "I w \<Longrightarrow> I (snd (fs_Symlink (se_FS E) l p w))"
    and CreateTemp: "I w \<Longrightarrow> I (snd (fs_CreateTemp (se_FS E) p w))"
    and MkdirTemp: "I w \<Longrightarrow> I (snd (fs_MkdirTemp (se_FS E) p w))"
    and Remove: "I w \<Longrightarrow> I (snd (fs_Remove (se_FS E) p w))"
    and RemoveAll: "I w \<Longrightarrow> I (snd (fs_RemoveAll (se_FS E) p w))"
    and Stat: "I w \<Longrightarrow> I (snd (fs_Stat (se_FS E) p w))"
    and Open: "I w \<Longrightarrow> I (snd (fs_Open (se_FS E) p w))"
    and Zip: "I w \<Longrightarrow> I (snd (ar_Zip (se_Archive E) p w))"
    and Client: "I w \<Longrightarrow> I (snd (se_DefaultClient E url w))"

sublocale source_frame \<subseteq> files: confined_fs "se_FS E" dest I for dest
  by unfold_locales (auto intro: MkdirAll OpenFile Write Symlink Open)

context source_frame
begin

lemma ValidateCUEModule: "I w \<Longrightarrow> I (snd (ValidateCUEModule (se_FS E) dir w))"
proof -
  assume w: "I w"
  have *: "fs_Stat (se_FS E) p w1 = (r, w2) \<Longrightarrow> I w1 \<Longrightarrow> I w2" for p w1 r w2 using Stat by (metis snd_conv)
  show ?thesis using w
    by (auto simp: ValidateCUEModule_def Let_def split: prod.splits sum.splits dest: *)
qed

lemma fetch_extract: "I w \<Longrightarrow> I (snd (fetch_extract E tmp dir opts w))"
  unfolding fetch_extract_def Let_def
  by (cases "fo_Format opts")
    (auto intro!: files.or_fail files.extractZip files.extractTarGz Zip ValidateCUEModule)

lemma fetch_body: "I w \<Longrightarrow> I (snd (fetch_body E f dg dir opts body tmp w))"
  unfolding fetch_body_def Let_def
  by (rule files.or_fail) (auto simp: io_Copy_def split: prod.splits option.splits intro: fetch_extract
      dest: Write [of w tmp "fst (LimitReader body (max_size f + 1))"])

lemma Fetch:
  assumes "af_HTTPClient f = None" "I w"
  shows "I (snd (Fetch E f url dg dir opts w))"
proof (cases "se_NewRequest E url")
  case (Some e)
  then show ?thesis using assms by (simp add: Fetch_def)
next
  case None
  obtain r w1 where c: "se_DefaultClient E url w = (r, w1)" by fastforce
  then have 1: "I w1" using Client [OF assms(2), of url] by simp
  obtain t w2 where t: "fs_CreateTemp (se_FS E) ''artifact-*'' w1 = (t, w2)" by fastforce
  then have 2: "I w2" using CreateTemp [OF 1, of "''artifact-*''"] by simp
  have 3: "I (snd (fs_Remove (se_FS E) tmp w3))" if "fetch_body E f dg dir opts body tmp w2 = (y, w3)"
    for body tmp y w3
    using Remove fetch_body [OF 2] that by (metis snd_conv)
  show ?thesis
    using 1 2 3 c t None assms(1) by (auto simp: Fetch_def split: sum.splits prod.splits)
qed

end

subsection \<open>Release phases on the view\<close>

locale rel_cluster = ssa_cluster P view terminating
  for P :: "('w, 'v) rel_params" and view :: "'w \<Rightarrow> cluster_view"
    and terminating :: "'w \<Rightarrow> object_key set" +
  assumes GetSource: "rp_GetSource P ty n w = (r, w') \<Longrightarrow> steady view terminating w w'"
    and Env: "source_frame (rp_Env P) (steady view terminating w0)"
    and Fetcher: "rp_Fetcher P = Some fetch \<Longrightarrow> fetch url dg dir opts w = (e, w') \<Longrightarrow> steady view terminating w w'"
    and Render: "effective_renderer P dir prov w = (rr, w') \<Longrightarrow> steady view terminating w w'"
begin

lemma env_calls:
  "fs_MkdirTemp (se_FS (rp_Env P)) p w = (d, w') \<Longrightarrow> steady view terminating w w'"
  "fs_RemoveAll (se_FS (rp_Env P)) p w = (e, w') \<Longrightarrow> steady view terminating w w'"
  "fs_Stat (se_FS (rp_Env P)) p w = (i, w') \<Longrightarrow> steady view terminating w w'"
  using source_frame.MkdirTemp [OF Env, of w w] source_frame.RemoveAll [OF Env, of w w]
    source_frame.Stat [OF Env, of w w] by (metis snd_conv steady_refl)+

lemma effective_fetcher_steady:
  assumes "effective_fetcher P url dg dir opts w = (e, w')" shows "steady view terminating w w'"
proof (cases "rp_Fetcher P")
  case None
  then show ?thesis
    using assms source_frame.Fetch [OF Env, of "\<lparr>af_HTTPClient = None, af_MaxSize = 0\<rparr>" w w url dg dir opts]
    by (simp add: effective_fetcher_def)
next
  case (Some fetch)
  then show ?thesis using assms Fetcher by (simp add: effective_fetcher_def)
qed

lemma Resolve_steady: "Resolve K (rp_GetSource P) ref ns w = (r, w') \<Longrightarrow> steady view terminating w w'"
  by (auto simp: Resolve_def Let_def split: sum.splits prod.splits option.splits if_splits dest: GetSource)

lemma resolvePackagePath_steady:
  "resolvePackagePath (se_FS (rp_Env P)) root path w = (r, w') \<Longrightarrow> steady view terminating w w'"
  by (auto simp: resolvePackagePath_def Let_def split: sum.splits prod.splits if_splits
      dest: env_calls(3) intro: steady_trans)

lemma phase_calls:
  "call (Resolve (pa_Kube P) (rp_GetSource P) ref ns) s = (r, s') \<Longrightarrow> quiet s s'"
  "call (fs_MkdirTemp (se_FS (rp_Env P)) p) s = (d, s') \<Longrightarrow> quiet s s'"
  "call (fs_RemoveAll (se_FS (rp_Env P)) p) s = (e, s') \<Longrightarrow> quiet s s'"
  "call (effective_fetcher P url dg dir opts) s = (e, s') \<Longrightarrow> quiet s s'"
  "call (resolvePackagePath (se_FS (rp_Env P)) root path) s = (t, s') \<Longrightarrow> quiet s s'"
  "call (effective_renderer P dir prov) s = (rr, s') \<Longrightarrow> quiet s s'"
  by (erule call_world; metis Resolve_steady env_calls effective_fetcher_steady resolvePackagePath_steady Render)+

lemma phases_quiet:
  "resolveReleaseSource P rel i s = (q, rel', s') \<Longrightarrow> quiet s s'"
  "navigateReleasePath P rel dir s = (q', rel', s') \<Longrightarrow> quiet s s'"
  "renderReleasePackage P rel dir s = (q'', rel', s') \<Longrightarrow> quiet s s'"
  by (auto simp: resolveReleaseSource_def navigateReleasePath_def renderReleasePackage_def Let_def
      split: sum.splits prod.splits if_splits dest: phase_calls)

lemma fetchReleaseArtifact_quiet:
  assumes "fetchReleaseArtifact P rel art i s = (q, rel', s')" shows "quiet s s'"
proof -
  obtain d s1 where d: "call (fs_MkdirTemp (se_FS (rp_Env P)) ''opm-release-artifact-*'') s = (d, s1)" by fastforce
  note 1 = phase_calls(2) [OF d]
  show ?thesis
  proof (cases d)
    case (Inl e)
    with assms d 1 show ?thesis by (auto simp: fetchReleaseArtifact_def Let_def)
  next
    case (Inr dir)
    obtain g s2 where g: "call (effective_fetcher P (art_URL art) (art_Digest art) dir
        \<lparr>fo_Format = FormatForKind (art_Kind art), fo_SkipRootCUEModuleValidation = True\<rparr>) s1 = (g, s2)" by fastforce
    obtain e s3 where e: "call (fs_RemoveAll (se_FS (rp_Env P)) dir) s2 = (e, s3)" by fastforce
    have 2: "quiet s s2" using steady_trans [OF 1 phase_calls(4) [OF g]] .
    have "p_World s' = p_World s2 \<or> p_World s' = p_World s3"
      using assms d Inr g e by (cases g) (auto simp: fetchReleaseArtifact_def Let_def)
    then show ?thesis using 2 steady_trans [OF 2 phase_calls(3) [OF e]] by metis
  qed
qed

lemma depends_loop_quiet: "depends_loop P ns deps s = (r, s') \<Longrightarrow> quiet s s'"
proof (induction deps arbitrary: s)
  case (Cons dep deps)
  obtain g s1 where g: "call (ca_Get (pa_CR P) \<lparr>nn_Namespace = ns, nn_Name = nn_Name dep\<rparr>) s = (g, s1)" by fastforce
  have "s' = s \<or> s' = s1 \<or> depends_loop P ns deps s1 = (r, s')"
    using Cons.prems g by (auto split: if_splits sum.splits option.splits)
  then show ?case using quiet_calls(1) [OF g] Cons.IH [of s1] steady_trans [OF quiet_calls(1) [OF g]] by auto
qed simp

lemma rel_commit_quiet: "quiet s (rel_commit P start L s)"
proof -
  have p: "quiet s1 (snd (patch_status ow g P o1 s1))" for ow g o1 s1 using patch_status_quiet by (metis prod.collapse)
  show ?thesis
    unfolding rel_commit_def Let_def
    by (simp split: prod.splits, intro conjI impI allI;
        (drule quiet_calls(2) since_quiet commit_times_quiet)+; (intro steady_trans [OF _ p])?; force simp: steady_def)
qed

lemma release_prune_no_apply:
  assumes "release_prune P c stale rr rel ph s = (r, rel', ph', s')"
  shows "log_ext (\<lambda>e. \<not> is_apply e) s s'"
proof -
  obtain res err s1 where p: "Prune (pa_Kube P) (pa_Live P) c [] stale s = (res, err, s1)" by (metis prod_cases3)
  have "log_ext (\<lambda>e. \<not> is_apply e) s s1"
    using Prune_guarded [OF p] by (rule log_ext_mono) (auto simp: guarded_delete_def)
  moreover have "s' = s \<or> s' = s1 \<or> (\<exists>t r a n. s' = Eventf t r a n s1)"
    using assms p by (auto simp: release_prune_def Let_def split: option.splits if_splits)
  moreover have "log_ext (\<lambda>e. \<not> is_apply e) s1 (Eventf t r a n s1)" for t r a n
    by (rule log_ext_Eventf) simp
  ultimately show ?thesis using log_ext_trans by blast
qed

lemma release_prune_view:
  assumes "release_prune P c stale rr rel ph s = (r, rel', ph', s')"
  defines "doomed \<equiv> prunable_keys [] stale (view (p_World s))"
  shows "view (p_World s') k = view (p_World s) k
      \<or> sp_Prune (cr_Spec rel) \<and> view (p_World s') k = None \<and> k \<in> doomed"
    and "r = Some (Inr y) \<Longrightarrow> view (p_World s') k =
      (if sp_Prune (cr_Spec rel) \<and> k \<in> doomed then None else view (p_World s) k)"
proof -
  let ?go = "sp_Prune (cr_Spec rel) \<and> stale \<noteq> []"
  obtain res err s1 where p: "Prune (pa_Kube P) (pa_Live P) c [] stale s = (res, err, s1)" by (metis prod_cases3)
  have w: "p_World s' = p_World (if ?go then s1 else s)" and ok: "r = Some (Inr y) \<Longrightarrow> ?go \<Longrightarrow> err = None"
    using assms(1) p by (auto simp: release_prune_def Let_def split: option.splits if_splits)
  note pv = Prune_after_quiet [OF steady_refl p]
  show "view (p_World s') k = view (p_World s) k
      \<or> sp_Prune (cr_Spec rel) \<and> view (p_World s') k = None \<and> k \<in> doomed"
    using w pv(1) [of k] by (auto simp: doomed_def)
  show "view (p_World s') k = (if sp_Prune (cr_Spec rel) \<and> k \<in> doomed then None else view (p_World s) k)"
    if "r = Some (Inr y)"
    using w pv(2) [OF ok [OF that]] by (auto simp: doomed_def prunable_keys_def)
qed

lemma applyAndPruneRelease_view_cases:
  assumes run: "applyAndPruneRelease P rel rr ph s = (r, rel', ph', s')"
  obtains
    (stop) "quiet s s'" "p_Log s' = p_Log s" "\<And>y. r \<noteq> Some (Inr y)"
  | (call) rs post where "toUnstructuredSlice (pa_Cue P) (rr_Resources rr) = Inr rs"
      "p_Log s' = p_Log s @ rel_apply_call P rel rs # post" "list_all (\<lambda>e. \<not> is_apply e) post"
      "applied_and_pruned rs (sp_Prune (cr_Spec rel)) []
         (ComputeStaleSet (previousEntries (cr_Status rel)) (rr_InventoryEntries rr))
         (terminating (p_World s)) (\<exists>y. r = Some (Inr y)) (view (p_World s)) (view (p_World s'))"
proof (cases "toUnstructuredSlice (pa_Cue P) (rr_Resources rr)")
  case (Inl e)
  with run show ?thesis by (intro stop) (auto simp: applyAndPruneRelease_def Let_def)
next
  case rs: (Inr rs)
  obtain b s1 where b: "buildApplyClient P rel s = (b, s1)" by fastforce
  note q = buildApplyClient_quiet [OF b] and log = buildApplyClient_log [OF b]
  have v: "view (p_World s1) = view (p_World s)" "terminating (p_World s1) \<subseteq> terminating (p_World s)"
    using q by (simp_all add: steady_def)
  consider "b = None" | e where "b = Some (Inl e)" | rm c where "b = Some (Inr (rm, c))"
    by (metis option.exhaust sum.exhaust surj_pair)
  then show ?thesis
  proof cases
    case 3
    let ?stale = "ComputeStaleSet (previousEntries (cr_Status rel)) (rr_InventoryEntries rr)"
    obtain a s2 where a: "Apply (pa_Ssa P) rm rs (forceConflicts (cr_Spec rel)) s1 = (a, s2)" by fastforce
    have l2: "p_Log s2 = p_Log s @ [rel_apply_call P rel rs]"
      using Apply_log [OF a] log buildApplyClient_client b 3 by (metis rel_apply_call_def)
    show ?thesis
    proof (cases a)
      case (Inl e)
      have w: "p_World s' = p_World s2" "\<And>y. r \<noteq> Some (Inr y)"
        "p_Log s' = p_Log s @ rel_apply_call P rel rs # [Event EventTypeWarning ApplyFailedReason ''Apply'' (err_msg e)]"
        using run rs b 3 a Inl l2 by (auto simp: applyAndPruneRelease_def Let_def effect_simps)
      show ?thesis
        by (rule call [OF rs w(3)], simp, rule applied_and_prunedI [where ?v1.0 = "view (p_World s')"])
          (use Apply_view(1) [OF a] w(1,2) v(1) in auto)
    next
      case (Inr ar)
      let ?rel = "on_conditions (ClearDrifted (pa_Kube P)) rel"
      let ?s = "Eventf EventTypeNormal AppliedReason ''Apply'' (applied_note ar) s2"
      have p: "release_prune P c ?stale rr ?rel (ph\<lparr>applyRan := True\<rparr>) ?s = (r, rel', ph', s')"
        using run rs b 3 a Inr by (simp add: applyAndPruneRelease_def Let_def)
      obtain es where es: "p_Log s' = p_Log ?s @ es" "list_all (\<lambda>e. \<not> is_apply e) es"
        using release_prune_no_apply [OF p] by (auto simp: log_ext_def)
      have "applied_and_pruned rs (sp_Prune (cr_Spec rel)) [] ?stale (terminating (p_World s1))
          (\<exists>y. r = Some (Inr y)) (view (p_World s1)) (view (p_World s'))"
        by (rule applied_and_prunedI [where ?v1.0 = "view (p_World s2)"])
          (use Apply_view [OF a] Inr release_prune_view [OF p] in auto)
      then have "applied_and_pruned rs (sp_Prune (cr_Spec rel)) [] ?stale (terminating (p_World s))
          (\<exists>y. r = Some (Inr y)) (view (p_World s)) (view (p_World s'))"
        using v by (auto intro: applied_and_pruned_mono)
      then show ?thesis
        using l2 es by (intro call [OF rs, of "Event EventTypeNormal AppliedReason ''Apply'' (applied_note ar) # es"])
          (auto simp: effect_simps)
    qed
  qed (use run rs b q log in \<open>auto simp: applyAndPruneRelease_def Let_def intro: stop\<close>)
qed

text \<open>
  From the digests to the end of the body. \<open>l_reconciled\<close> says whether apply and prune
  succeeded.
\<close>

definition rel_moved :: "Release \<Rightarrow> 'v RenderResult \<Rightarrow> unstructured list \<Rightarrow> bool \<Rightarrow> 'w \<Rightarrow> 'w \<Rightarrow> bool" where
  "rel_moved rel rr rs ok w w' \<longleftrightarrow> toUnstructuredSlice (pa_Cue P) (rr_Resources rr) = Inr rs
     \<and> applied_and_pruned rs (sp_Prune (cr_Spec rel)) []
         (ComputeStaleSet (previousEntries (cr_Status rel)) (rr_InventoryEntries rr))
         (terminating w) ok (view w) (view w')"

lemma rel_moved_steady:
  assumes "rel_moved rel rr rs ok w1 w2" "steady view terminating w w1" "steady view terminating w2 w'"
  shows "rel_moved rel rr rs ok w w'"
  using assms by (auto simp: rel_moved_def steady_def intro: applied_and_pruned_mono)

lemma rel_moved_frame: "rel_frame a b \<Longrightarrow> rel_moved b = rel_moved a"
  by (simp add: rel_moved_def fun_eq_iff rel_frameD)

lemma rel_deploy_view_cases:
  assumes run: "rel_deploy P rr i L s = (x, L', s')" and nr: "\<not> l_reconciled L"
  obtains
    (untouched) es where "quiet s s'" "p_Log s' = p_Log s @ es" "list_all is_event es" "\<not> l_reconciled L'"
  | (applied) rs post where "p_Log s' = p_Log s @ rel_apply_call P (l_obj L) rs # post"
      "list_all (\<lambda>e. \<not> is_apply e) post" "rel_moved (l_obj L) rr rs (l_reconciled L') (p_World s) (p_World s')"
      "l_reconciled L' \<Longrightarrow> l_newEntries L' = rr_InventoryEntries rr"
proof (cases "RenderDigest (pa_Cue P) (rr_Resources rr)")
  case (Inl e)
  with run nr show ?thesis
    by (intro untouched [of "[]"]) (auto simp: rel_deploy_def computeReleaseDigests_def stop_fail_def)
next
  case (Inr d)
  obtain ds where c: "computeReleaseDigests P (l_obj L) rr (l_digests L) = (None, l_obj L, ds)"
    using Inr by (simp add: computeReleaseDigests_def)
  show ?thesis
  proof (cases "IsNoOp ds (lastApplied (cr_Status (l_obj L)))")
    case True
    with run nr c show ?thesis
      by (intro untouched [of "[Event EventTypeNormal NoOpReason ''Reconcile'' ''No changes detected'']"])
        (auto simp: rel_deploy_def Let_def effect_simps)
  next
    case False
    obtain r rel2 ph s1 where a: "applyAndPruneRelease P (l_obj L) rr (l_phases L) s = (r, rel2, ph, s1)"
      by (metis prod_cases4)
    have fin: "p_World s' = p_World s1" "l_reconciled L' \<longleftrightarrow> (\<exists>y. r = Some (Inr y))"
      "\<exists>es. p_Log s' = p_Log s1 @ es \<and> list_all is_event es"
      using run c False a nr
      by (auto simp: rel_deploy_def Let_def stop_fail_def effect_simps split: option.splits sum.splits)
    have new: "l_newEntries L' = rr_InventoryEntries rr" if rec: "l_reconciled L'"
    proof -
      obtain y where y: "r = Some (Inr y)" using fin(2) rec by blast
      have "l_newEntries L' = ap_entries y" using run c False a y by (auto simp: rel_deploy_def Let_def mark_def)
      moreover have "ap_entries y = rr_InventoryEntries rr"
        using a y by (auto simp: applyAndPruneRelease_def release_prune_def Let_def
            split: sum.splits prod.splits option.splits if_splits)
      ultimately show ?thesis by simp
    qed
    from a show ?thesis
    proof (cases rule: applyAndPruneRelease_view_cases)
      case stop
      then show ?thesis using fin untouched by auto
    next
      case (call rs post)
      obtain es where es: "p_Log s' = p_Log s1 @ es" "list_all is_event es" using fin(3) by blast
      have "p_Log s' = p_Log s @ rel_apply_call P (l_obj L) rs # (post @ es)" using es(1) call(2) by simp
      then show ?thesis
        by (rule applied) (use call(1,3,4) fin(1,2) new events_no_apply [OF es(2)] in \<open>auto simp: rel_moved_def\<close>)
    qed
  qed
qed

lemma rel_package_view_cases:
  assumes run: "rel_package P dir i L s = (x, L', s')" and nr: "\<not> l_reconciled L"
    and fr: "rel_frame rel (l_obj L)" "in_progress (pa_Kube P) rel (l_obj L)"
  obtains
    (untouched) es where "quiet s s'" "p_Log s' = p_Log s @ es" "list_all is_event es" "\<not> l_reconciled L'"
  | (applied) rr rs post pkg w w' where "effective_renderer P pkg (rp_Provider P) w = (Inr (KindModuleRelease, rr), w')"
      "p_Log s' = p_Log s @ rel_apply_call P rel rs # post" "list_all (\<lambda>e. \<not> is_apply e) post"
      "rel_moved rel rr rs (l_reconciled L') (p_World s) (p_World s')"
      "l_reconciled L' \<Longrightarrow> l_newEntries L' = rr_InventoryEntries rr"
proof -
  have stop: thesis if "stop_fail f rel1 L s1 = (x, L', s')" "quiet s s1" "log_ext is_event s s1" for f rel1 s1
    using stop_failD [OF that(1) nr] that(2,3) by (auto simp: log_ext_def failed_with_def intro: untouched)
  obtain q rel1 s1 where q: "navigateReleasePath P (l_obj L) dir s = (q, rel1, s1)" by (metis prod_cases3)
  note q1 = phases_quiet(2) [OF q]
  from q fr(2) show ?thesis
  proof (cases rule: navigateReleasePath_cases [where i = i])
    case (failed f)
    with q run have "stop_fail f rel1 L s1 = (x, L', s')" by (simp add: rel_package_def)
    with failed q1 show ?thesis by (intro stop)
  next
    case (ok pkg)
    obtain q2 rel2 s2 where q2: "renderReleasePackage P rel1 pkg s1 = (q2, rel2, s2)" by (metis prod_cases3)
    have qs: "quiet s s2" using steady_trans [OF q1 phases_quiet(3) [OF q2]] .
    have ipr1: "in_progress (pa_Kube P) rel rel1" using fr(2) ok by simp
    from q2 ipr1 show ?thesis
    proof (cases rule: renderReleasePackage_cases [where i = i])
      case (failed f)
      with q q2 ok run have "stop_fail f rel2 L s2 = (x, L', s')" by (simp add: rel_package_def)
      moreover have "log_ext is_event s s2" using failed(3) ok(3) by (simp add: log_ext_def)
      ultimately show ?thesis using qs by (intro stop)
    next
      case ok2: (ok rr)
      have log: "p_Log s2 = p_Log s" using ok(3) ok2(3) by simp
      have "rel_deploy P rr i L s2 = (x, L', s')" using q q2 ok ok2 run by (simp add: rel_package_def)
      from this nr show ?thesis
      proof (cases rule: rel_deploy_view_cases)
        case (untouched es)
        then show ?thesis using that(1) log steady_trans [OF qs] by simp
      next
        case (applied rs post)
        show ?thesis
          by (rule that(2) [OF ok2(4)])
            (use applied log rel_moved_frame [OF fr(1)] rel_apply_frame(1) [OF fr(1)] rel_moved_steady [OF _ qs]
              in auto)
      qed
    qed
  qed
qed

lemma rel_body_view_cases:
  assumes run: "rel_body P i (init_locals rel) s = (x, L', s')"
  obtains
    (untouched) es where "quiet s s'" "p_Log s' = p_Log s @ es" "list_all is_event es" "\<not> l_reconciled L'"
  | (applied) rr rs post pkg w w' where "effective_renderer P pkg (rp_Provider P) w = (Inr (KindModuleRelease, rr), w')"
      "p_Log s' = p_Log s @ rel_apply_call P rel rs # post" "list_all (\<lambda>e. \<not> is_apply e) post"
      "rel_moved rel rr rs (l_reconciled L') (p_World s) (p_World s')"
      "l_reconciled L' \<Longrightarrow> l_newEntries L' = rr_InventoryEntries rr"
proof -
  let ?L = "mark (MarkReconciling (pa_Kube P) ''Progressing'' ''Reconciliation in progress'') (init_locals rel)"
  have ipr: "in_progress (pa_Kube P) rel (l_obj ?L)" by (simp add: in_progress_def started_def)
  have stop: thesis if "stop_fail f rel1 L s1 = (x, L', s')" "\<not> l_reconciled L" "quiet s s1" "log_ext is_event s s1"
    for f rel1 L s1
    using stop_failD [OF that(1,2)] that(3,4) by (auto simp: log_ext_def failed_with_def intro: untouched)
  obtain q rel1 s1 where q: "resolveReleaseSource P (l_obj ?L) i s = (q, rel1, s1)" by (metis prod_cases3)
  note q1 = phases_quiet(1) [OF q]
  from q ipr show ?thesis
  proof (cases rule: resolveReleaseSource_cases)
    case (failed f)
    with q run have "stop_fail f rel1 ?L s1 = (x, L', s')" by (simp add: rel_body_def Let_def)
    then show ?thesis by (rule stop) (use failed q1 in simp_all)
  next
    case (ok art)
    define L1 where "L1 = ?L\<lparr>l_obj := map_status (\<lambda>st. st\<lparr>st_Source := Some (source_status (cr_Spec rel1) art)\<rparr>) rel1,
        l_digests := (l_digests ?L)\<lparr>ds_Source := art_Digest art\<rparr>\<rparr>"
    have fr: "rel_frame rel (l_obj L1)" "in_progress (pa_Kube P) rel (l_obj L1)" "\<not> l_reconciled L1"
      using ok(2) by (simp_all add: L1_def in_progress_def started_def)
    obtain q2 rel2 s2 where q2: "fetchReleaseArtifact P (l_obj L1) art i s1 = (q2, rel2, s2)" by (metis prod_cases3)
    have qs: "quiet s s2" using steady_trans [OF q1 fetchReleaseArtifact_quiet [OF q2]] .
    from q2 fr(2) show ?thesis
    proof (cases rule: fetchReleaseArtifact_cases)
      case (failed f)
      with q q2 ok run have "stop_fail f rel2 L1 s2 = (x, L', s')" by (simp add: rel_body_def Let_def L1_def)
      moreover have "log_ext is_event s s2" using failed(3) ok(3) by (simp add: log_ext_def)
      ultimately show ?thesis using qs fr(3) by (intro stop)
    next
      case ok2: (ok dir v)
      obtain y L2 s3 where p: "rel_package P dir i (L1\<lparr>l_obj := rel2\<rparr>) s2 = (y, L2, s3)" by (metis prod_cases3)
      obtain e s4 where e: "call (fs_RemoveAll (se_FS (rp_Env P)) dir) s3 = (e, s4)" by fastforce
      have fin: "L' = L2" "s' = s4"
        using q q2 ok ok2 run p e by (auto simp: rel_body_def Let_def L1_def)
      have log: "p_Log s2 = p_Log s" "p_Log s' = p_Log s3"
        using ok(3) ok2(3) e fin(2) by (simp_all add: effect_simps)
      have qe: "quiet s3 s'" using phase_calls(3) [OF e] fin(2) by simp
      have fr2: "rel_frame rel (l_obj (L1\<lparr>l_obj := rel2\<rparr>))" "in_progress (pa_Kube P) rel (l_obj (L1\<lparr>l_obj := rel2\<rparr>))"
        "\<not> l_reconciled (L1\<lparr>l_obj := rel2\<rparr>)" using fr ok2(2) by simp_all
      from p fr2(3,1,2) show ?thesis
      proof (cases rule: rel_package_view_cases)
        case (untouched es)
        then show ?thesis using that(1) log fin(1) steady_trans [OF qs steady_trans [OF untouched(1) qe]] by simp
      next
        case (applied rr rs post pkg v1 v2)
        show ?thesis
          by (rule that(2) [OF applied(1)]) (use applied log fin(1) rel_moved_steady [OF applied(4) qs qe] in auto)
      qed
    qed
  qed
qed

text \<open>
  A run: no apply call and the view as before, or one apply call with a prune; the inventory in
  the written status is the new one exactly when both succeeded.
\<close>

lemma rel_body_reconciled_outcome:
  assumes "rel_body P i (init_locals rel) s = (x, L, s')" "l_reconciled L" shows "l_outcome L \<noteq> NoOp"
  using assms(1)
proof (cases rule: rel_body_cases)
  case (deployed art rr es)
  from deployed(3) show ?thesis
    by (cases rule: deployed.cases) (use assms(2) in \<open>auto simp: failed_with_def idle_def\<close>)
qed (use assms(2) in \<open>simp add: failed_with_def\<close>)

lemma rel_active_view_cases:
  assumes s: "rel_active P start rel s = (x, s')"
  obtains
    (untouched) "view (p_World s') = view (p_World s)" "list_all (\<lambda>e. \<not> is_apply e) (new_effects s s')"
      "\<And>rel' owned g. PatchStatus rel' owned g \<in> set (new_effects s s') \<Longrightarrow>
         st_Inventory (cr_Status rel') = st_Inventory (cr_Status rel)"
  | (applied) rr rs pre post pkg rec w w' where "effective_renderer P pkg (rp_Provider P) w = (Inr (KindModuleRelease, rr), w')"
      "new_effects s s' = pre @ rel_apply_call P rel rs # post" "list_all (\<lambda>e. \<not> is_apply e) (pre @ post)"
      "rel_moved rel rr rs rec (p_World s) (p_World s')"
      "\<And>rel' owned g. PatchStatus rel' owned g \<in> set (new_effects s s') \<Longrightarrow>
         (if rec then st_Inventory (cr_Status rel') =
            Some (next_inventory (rr_InventoryEntries rr) (st_Inventory (cr_Status rel)))
          else st_Inventory (cr_Status rel') = st_Inventory (cr_Status rel))"
proof -
  let ?s1 = "resume_event P (conds rel) s"
  obtain evs where evs: "p_Log ?s1 = p_Log s @ evs" "list_all is_event evs"
    using resume_event_log [of s P "conds rel"] by (auto simp: log_ext_def)
  have w1: "p_World ?s1 = p_World s" by (auto simp: resume_event_def split: option.splits)
  obtain r s2 where r: "checkDependsOn P rel ?s1 = (r, s2)" by fastforce
  then have l2: "p_Log s2 = p_Log s @ evs" and q2: "quiet s s2"
    using evs depends_loop_quiet [of "obj_namespace rel" "sp_DependsOn (cr_Spec rel)" ?s1 r s2] w1
    by (auto simp: checkDependsOn_def depends_loop_log)
  have ps: "quiet t (snd (patch_status ow g P o1 t))" for ow g o1 t using patch_status_quiet by (metis prod.collapse)
  have blocked: thesis if b: "rel_blocked P ty msg (release_interval rel) rel s2 = (x, s')" for ty msg
  proof -
    have "p_Log s' = p_Log s @ evs @ [Event ty DependenciesNotReadyReason ''DependsOn'' msg,
        PatchStatus (blocked_release (pa_Kube P) msg rel) rel_owned True]"
      using b l2 by (auto simp: rel_blocked_def Let_def blocked_release_def snd_patch_status_log effect_simps)
    moreover have "quiet s2 s'"
      using b ps [of "Eventf ty DependenciesNotReadyReason ''DependsOn'' msg s2"] by (auto simp: rel_blocked_def Let_def)
    moreover note events_no_apply [OF evs(2)]
    ultimately show thesis
      using q2 evs(2) by (intro untouched)
        (auto simp: steady_def blocked_release_def observe_def list_all_iff)
  qed
  show ?thesis
  proof (cases "r = Inr []")
    case False
    then show ?thesis
      using s r by (cases r) (auto simp: rel_active_def Let_def split: if_splits intro: blocked)
  next
    case True
    obtain y L s3 where b: "rel_body P (release_interval rel) (init_locals rel) s2 = (y, L, s3)"
      by (metis prod_cases3)
    have fin: "x = y" "s' = rel_commit P start L s3" using s r True b by (auto simp: rel_active_def Let_def)
    have q3: "quiet s3 s'" using rel_commit_quiet fin(2) by simp
    obtain rel' where rel': "p_Log s' = p_Log s3 @ [PatchStatus rel' rel_owned True]"
      "rel_committed (pa_Kube P) L rel'" using rel_commit_log fin(2) by blast
    note c = rel_committedD [OF rel'(2) rel_body_frame [OF b]]
    have kinds: "PatchStatus a ow g \<notin> set es" if "p_Log s3 = p_Log s2 @ es" for a ow g es
      using rel_body_kinds [OF b that] by (auto simp: list_all_iff)
    have evp: "PatchStatus a ow g \<notin> set evs" for a ow g using evs(2) by (auto simp: list_all_iff)
    show ?thesis
      using b
    proof (cases rule: rel_body_view_cases)
      case (untouched es)
      have "new_effects s s' = evs @ es @ [PatchStatus rel' rel_owned True]" using untouched(2) l2 rel'(1) by simp
      then show ?thesis
        using untouched(1,4) q2 q3 c(6) kinds [OF untouched(2)] evp
          events_no_apply [OF untouched(3)] events_no_apply [OF evs(2)]
        by (intro that(1)) (auto simp: steady_def)
    next
      case (applied rr rs post pkg w w')
      have eff: "new_effects s s' = evs @ rel_apply_call P rel rs # (post @ [PatchStatus rel' rel_owned True])"
        using applied(2) l2 rel'(1) by simp
      have only: "a = rel'" if "PatchStatus a ow g \<in> set (new_effects s s')" for a ow g
        using that eff evp kinds [OF applied(2)] by auto
      show ?thesis
        by (rule that(2) [OF applied(1) eff _ rel_moved_steady [OF applied(4) q2 q3]])
          (use applied(3,5) events_no_apply [OF evs(2)] only c(6,7) rel_body_reconciled_outcome [OF b] in auto)
    qed
  qed
qed

lemma rel_run_view_cases:
  assumes run: "ReconcileRelease P req s = (x, s')"
    and get: "call (ca_Get (pa_CR P) req) s = (Inr rel, s0)"
    and live: "om_DeletionTimestamp (cr_Meta rel) = None"
  obtains
    (untouched) "view (p_World s') = view (p_World s)" "list_all (\<lambda>e. \<not> is_apply e) (new_effects s s')"
      "\<And>rel' owned g. PatchStatus rel' owned g \<in> set (new_effects s s') \<Longrightarrow>
         st_Inventory (cr_Status rel') = st_Inventory (cr_Status rel)"
  | (applied) rr rs pre post pkg rec w w' where "effective_renderer P pkg (rp_Provider P) w = (Inr (KindModuleRelease, rr), w')"
      "new_effects s s' = pre @ rel_apply_call P rel rs # post" "list_all (\<lambda>e. \<not> is_apply e) (pre @ post)"
      "rel_moved rel rr rs rec (p_World s) (p_World s')"
      "\<And>rel' owned g. PatchStatus rel' owned g \<in> set (new_effects s s') \<Longrightarrow>
         (if rec then st_Inventory (cr_Status rel') =
            Some (next_inventory (rr_InventoryEntries rr) (st_Inventory (cr_Status rel)))
          else st_Inventory (cr_Status rel') = st_Inventory (cr_Status rel))"
proof -
  obtain start s1 where now: "call (pa_Now P) s0 = (start, s1)" by fastforce
  have q: "quiet s s1" using steady_trans [OF quiet_calls(1) [OF get] quiet_calls(2) [OF now]] .
  have log: "p_Log s1 = p_Log s" using get now by (simp add: effect_simps)
  note run = run [unfolded ReconcileRelease_def get, simplified, unfolded now, simplified]
  consider (fin) "\<not> k_ContainsFinalizer (pa_Kube P) (om_Finalizers (cr_Meta rel)) FinalizerName"
    | (susp) "k_ContainsFinalizer (pa_Kube P) (om_Finalizers (cr_Meta rel)) FinalizerName" "sp_Suspend (cr_Spec rel)"
    | (act) "k_ContainsFinalizer (pa_Kube P) (om_Finalizers (cr_Meta rel)) FinalizerName" "\<not> sp_Suspend (cr_Spec rel)"
    by blast
  then show ?thesis
  proof cases
    case fin
    obtain e where e: "addFinalizer P rel s1 = (e, s')"
      using run fin by (auto split: prod.splits option.splits)
    have "quiet s1 s'" using e unfolding addFinalizer_def Let_def by (rule quiet_calls(6))
    with q e log show ?thesis
      by (intro untouched) (auto simp: steady_def addFinalizer_def Let_def effect_simps)
  next
    case susp
    then have s: "rel_suspend P rel s1 = (x, s')" using run live by simp
    then have "p_Log s' = p_Log s @ [rel_suspend_event, PatchStatus (suspended_release (pa_Kube P) rel) rel_owned True]"
      using log by (auto simp: rel_suspend_def Let_def suspended_release_def rel_suspend_event_def effect_simps
          split: prod.splits dest!: patch_status_log)
    moreover have "quiet s1 s'"
      using s by (auto simp: rel_suspend_def Let_def split: prod.splits dest!: patch_status_quiet)
    ultimately show ?thesis
      using q by (intro untouched)
        (auto simp: steady_def rel_suspend_event_def suspended_release_def observe_def)
  next
    case act
    then have "rel_active P start rel s1 = (x, s')" using run live by simp
    moreover have "new_effects s s' = new_effects s1 s'" using log by (simp add: new_effects_def)
    note eff = this
    from calculation show ?thesis
    proof (cases rule: rel_active_view_cases)
      case untouched
      then show ?thesis using q by (intro that(1)) (simp_all add: eff steady_def)
    next
      case (applied rr rs pre post pkg rec w w')
      show ?thesis
        by (rule that(2) [OF applied(1) _ applied(3) rel_moved_steady [OF applied(4) q steady_refl]])
          (use applied(2,5) eff in simp_all)
    qed
  qed
qed

end

subsection \<open>The package renderer and the in-memory server\<close>

locale package_renderer =
  fixes render :: "string \<Rightarrow> 'v Provider \<Rightarrow> 'w \<Rightarrow> (goerr + string \<times> 'v RenderResult) \<times> 'w" and lib :: "'v cue_lib"
  assumes sound: "render dir prov w = (Inr (KindModuleRelease, rr), w') \<Longrightarrow> sound_result lib rr"

interpretation production_package_renderer: package_renderer "PackageReleaseRenderer E" "cv_Lib (re_Cue E)" for E
proof
  fix dir prov w rr w'
  assume "PackageReleaseRenderer E dir prov w = (Inr (KindModuleRelease, rr), w')"
  then have "package_render E dir prov w = Some (Inr (KindModuleRelease, rr), w')"
    using PackageReleaseRenderer_eq [of E dir prov w] by simp
  then show "sound_result (cv_Lib (re_Cue E)) rr" by (simp add: package_render_sound)
qed

interpretation demo_package_renderer: package_renderer "effective_renderer rel_demo_params" "pa_Cue rel_demo_params"
  by unfold_locales (auto simp: sound_result_def)

interpretation demo_source: source_frame "demo_env entries body" I for entries body I
  by unfold_locales (simp_all add: demo_env_def demo_fs_def)

interpretation rel_demo_cluster: rel_cluster rel_demo_params mem_view "\<lambda>w. {}"
proof (rule rel_cluster.intro [OF mem_ssa_cluster])
  have "rp_Env rel_demo_params = demo_env [Inr (demo_entry ''apps/release.cue'' (CHR ''0'') [])] ''tgz''"
    by (simp add: rel_demo_params_def)
  then show "rel_cluster_axioms rel_demo_params mem_view (\<lambda>w. {})"
    using demo_source.source_frame_axioms
    by (intro rel_cluster_axioms.intro) (auto simp: rel_demo_params_def effective_renderer_def)
qed simp_all

subsection \<open>Properties\<close>

lemma rel_applies_packaged:
  assumes run: "ReconcileRelease P req s = (x, s')"
    and get: "call (ca_Get (pa_CR P) req) s = (Inr rel, s0)"
    and live: "om_DeletionTimestamp (cr_Meta rel) = None"
    and ap: "ApplyAll rm rs f \<in> set (new_effects s s')"
  shows "\<exists>art rr. packaged_run P rel (rel_run_world P rel s0) art rr
    \<and> toUnstructuredSlice (pa_Cue P) (rr_Resources rr) = Inr rs"
  using run get
proof (cases rule: rel_run_cases)
  case (active evs es s2 L s3 rel')
  have "ApplyAll rm rs f \<in> set es" using ap active(4,7) by (auto simp: list_all_iff)
  from active(5,6) show ?thesis
  proof (cases rule: rel_body_effects)
    case quiet
    then show ?thesis using \<open>ApplyAll rm rs f \<in> set es\<close> by (auto simp: list_all_iff)
  next
    case (applies art rr rs' rest)
    then have "rs = rs'"
      using \<open>ApplyAll rm rs f \<in> set es\<close>
      by (auto simp: rel_apply_call_def list_all_iff rel_prune_effect_def guarded_delete_def)
    then show ?thesis using applies(2,3) active(9) by auto
  qed
qed (use live ap in \<open>auto simp: rel_suspend_event_def list_all_iff\<close>)

text \<open>
  C2: a successful Release reconcile makes the cluster what the package says. Let the API
  server satisfy its contract, the source, file system and artifact calls leave the managed
  objects alone and the package renderer keep its contract. When a run on a release that is not
  being deleted writes a status with a new inventory, it has made an apply call of the objects
  rendered from the package that this run fetched, which this inventory lists one by one and in
  order, and the cluster after the run is the cluster before it in which all of them have landed
  and, with \<open>spec.prune\<close>, the objects of
  stale entries of a deletable kind with OPM's labels are gone; every other object is untouched.
\<close>

theorem rel_run_realises_package:
  assumes laws: "rel_cluster P view terminating"
    and contract: "package_renderer (effective_renderer P) (pa_Cue P)"
    and run: "ReconcileRelease P req s = (x, s')"
    and get: "call (ca_Get (pa_CR P) req) s = (Inr rel, s0)"
    and live: "om_DeletionTimestamp (cr_Meta rel) = None"
    and patch: "PatchStatus rel' owned g \<in> set (new_effects s s')"
    and changed: "st_Inventory (cr_Status rel') \<noteq> st_Inventory (cr_Status rel)"
  shows "\<exists>art rr rs i. packaged_run P rel (rel_run_world P rel s0) art rr
    \<and> toUnstructuredSlice (pa_Cue P) (rr_Resources rr) = Inr rs
    \<and> rel_apply_call P rel rs \<in> set (new_effects s s')
    \<and> st_Inventory (cr_Status rel') = Some i \<and> inv_Entries i = map NewEntryFromResource rs
    \<and> realised rs
      (if sp_Prune (cr_Spec rel) then prunable_keys []
         (ComputeStaleSet (previousEntries (cr_Status rel)) (inv_Entries i)) (view (p_World s)) else {})
      (terminating (p_World s)) (view (p_World s)) (view (p_World s'))"
proof (cases rule: rel_cluster.rel_run_view_cases [OF laws run get live, case_names untouched applied])
  case untouched
  with patch changed show ?thesis by simp
next
  case (applied rr rs pre post pkg rec w w')
  have rec: rec using applied(5) [OF patch] changed by (auto split: if_splits)
  note moved = applied(4) [unfolded rel_cluster.rel_moved_def [OF laws]]
  have entries: "rr_InventoryEntries rr = map NewEntryFromResource rs"
    using package_renderer.sound [OF contract applied(1)] moved sound_resultD by blast
  have i: "st_Inventory (cr_Status rel') =
      Some (next_inventory (map NewEntryFromResource rs) (st_Inventory (cr_Status rel)))"
    using applied(5) [OF patch] rec entries by simp
  have ap: "rel_apply_call P rel rs \<in> set (new_effects s s')" using applied(2) by simp
  obtain art rr' where pr: "packaged_run P rel (rel_run_world P rel s0) art rr'"
    "toUnstructuredSlice (pa_Cue P) (rr_Resources rr') = Inr rs"
    using rel_applies_packaged [OF run get live ap [unfolded rel_apply_call_def]] by blast
  have "realised rs (if sp_Prune (cr_Spec rel) then prunable_keys [] (ComputeStaleSet
      (previousEntries (cr_Status rel)) (map NewEntryFromResource rs)) (view (p_World s)) else {})
      (terminating (p_World s)) (view (p_World s)) (view (p_World s'))"
    by (rule applied_and_pruned_realised) (use moved rec entries in simp)
  moreover have "inv_Entries (next_inventory es old) = es" for es old by (simp add: next_inventory_def)
  ultimately show ?thesis
    using i ap pr
    by (intro exI [of _ art] exI [of _ rr'] exI [of _ rs] exI [of _ "next_inventory (map NewEntryFromResource rs) (st_Inventory (cr_Status rel))"]
        conjI) (simp_all only:)
qed

theorem rel_run_realises_package_witness:
  "\<exists>x s' rel' rs i. ReconcileRelease rel_demo_params demo_req (rel_demo_state demo_rel) = (x, s')
     \<and> PatchStatus rel' rel_owned True \<in> set (new_effects (rel_demo_state demo_rel) s')
     \<and> st_Inventory (cr_Status rel') = Some i \<and> inv_Entries i = map NewEntryFromResource rs
     \<and> (\<exists>D. realised rs D {} (mem_view (p_World (rel_demo_state demo_rel))) (mem_view (p_World s')))"
proof -
  obtain L s' rel' where run: "ReconcileRelease rel_demo_params demo_req (rel_demo_state demo_rel) =
      (Returned (requeue_after DefaultReleaseInterval) None, s')"
    and eff: "new_effects (rel_demo_state demo_rel) s' = rel_demo_effects @ [PatchStatus rel' rel_owned True]"
    and L: "l_reconciled L" "l_outcome L = AppliedAndPruned" "rel_committed std_kube L rel'"
      "rel_frame demo_rel (l_obj L)"
    by (rule rel_demo_run)
  have p: "PatchStatus rel' rel_owned True \<in> set (new_effects (rel_demo_state demo_rel) s')" by (simp add: eff)
  have "st_Inventory (cr_Status rel') \<noteq> st_Inventory (cr_Status demo_rel)"
    using rel_committedD(7) [OF L(3,4)] L(1,2)
    by (auto simp: next_inventory_def demo_inventory_def dest: arg_cong [where f = inv_Revision])
  from rel_run_realises_package [OF rel_demo_cluster.rel_cluster_axioms
      demo_package_renderer.package_renderer_axioms run rel_demo_get _ p this] run p
  show ?thesis by fastforce
qed

text \<open>
  C8: the footprint of a Release run: whatever happens in a run on a release that is not being
  deleted, the only objects of the cluster that may have changed are those of the apply call the
  run made and the ones it has removed under \<open>spec.prune\<close>, which were live objects of
  previous inventory entries of a deletable kind with OPM's labels. A run that made no apply
  call leaves the cluster as it was.
\<close>

theorem rel_run_footprint:
  assumes laws: "rel_cluster P view terminating"
    and run: "ReconcileRelease P req s = (x, s')"
    and get: "call (ca_Get (pa_CR P) req) s = (Inr rel, s0)"
    and live: "om_DeletionTimestamp (cr_Meta rel) = None"
    and change: "view (p_World s') k \<noteq> view (p_World s) k"
  shows "\<exists>rs. rel_apply_call P rel rs \<in> set (new_effects s s')
    \<and> (k \<in> obj_key ` set rs
       \<or> sp_Prune (cr_Spec rel) \<and> view (p_World s') k = None
         \<and> k \<in> prunable_keys [] (previousEntries (cr_Status rel)) (view (p_World s)))"
proof (cases rule: rel_cluster.rel_run_view_cases [OF laws run get live, case_names untouched applied])
  case untouched
  with change show ?thesis by simp
next
  case (applied rr rs pre post pkg rec w w')
  note moved = applied(4) [unfolded rel_cluster.rel_moved_def [OF laws], THEN conjunct2]
  then show ?thesis using applied_and_pruned_footprint [OF moved change] applied(2) by auto
qed

lemma rel_demo_pruned:
  "case rel_body rel_demo_params i (init_locals demo_rel) (rel_demo_started demo_rel) of (x, L, s3) \<Rightarrow>
     mw_Objects (p_World s3) (obj_key old_obj) = None"
  by (simp add: rel_run_defs IsNoOp_def lastApplied_def previousEntries_def)

theorem rel_run_footprint_witness:
  "\<exists>x s' rs. ReconcileRelease rel_demo_params demo_req (rel_demo_state demo_rel) = (x, s')
     \<and> rel_apply_call rel_demo_params demo_rel rs \<in> set (new_effects (rel_demo_state demo_rel) s')
     \<and> obj_key old_obj \<in> obj_key ` set rs \<union> prunable_keys []
         (previousEntries (cr_Status demo_rel)) (mem_view (p_World (rel_demo_state demo_rel)))"
proof -
  obtain x L s3 where b: "rel_body rel_demo_params DefaultReleaseInterval (init_locals demo_rel)
      (rel_demo_started demo_rel) = (x, L, s3)"
    by (metis prod_cases3)
  have run: "ReconcileRelease rel_demo_params demo_req (rel_demo_state demo_rel) =
      (x, rel_commit rel_demo_params 100 L s3)" using b rel_demo_active by simp
  have "mem_view (p_World (rel_commit rel_demo_params 100 L s3)) (obj_key old_obj) = None"
    using rel_demo_pruned [of DefaultReleaseInterval] b rel_demo_cluster.rel_commit_quiet [of s3 100 L]
    by (simp add: steady_def mem_view_def)
  then have "mem_view (p_World (rel_commit rel_demo_params 100 L s3)) (obj_key old_obj)
      \<noteq> mem_view (p_World (rel_demo_state demo_rel)) (obj_key old_obj)"
    by (simp add: mem_view_def)
  from rel_run_footprint [OF rel_demo_cluster.rel_cluster_axioms run rel_demo_get _ this] run show ?thesis
    by simp blast
qed

end
