(* ===== verification/Opm_Manager.thy ===== *)
theory Opm_Manager
  imports Opm_Flags Opm_Bundle Opm_Rel_Refine "HOL-Library.Sublist"
begin

text \<open>
  The manager entry point (\<open>cmd/main.go\<close>) and the \<open>SetupWithManager\<close> methods of the three
  controllers. The program parses its flags, builds the options of controller-runtime's manager,
  prepares the environment of the CUE loader, loads the provider, wires the controllers to
  their production dependencies, and starts the manager. Every failure on the way ends the
  process with a non-zero code.
\<close>

subsection \<open>Controllers as the builder receives them\<close>

datatype watched = WatchModuleRelease | WatchBundleRelease | WatchRelease | WatchSource source_type

datatype event_predicate = GenerationChangedPredicate | SourcePredicate "source_event \<Rightarrow> bool"

text \<open>The maximum of an exponential failure limiter and a token bucket.\<close>

record RateLimiter =
  rl_BaseDelay :: duration
  rl_MaxDelay :: duration
  rl_Limit :: nat
  rl_Burst :: nat

definition workqueue_limiter :: RateLimiter where
  "workqueue_limiter =
     \<lparr>rl_BaseDelay = 1 * Second, rl_MaxDelay = 5 * Minute, rl_Limit = 10, rl_Burst = 100\<rparr>"

record 'w source_watch =
  sw_Object :: watched
  sw_Handler :: "source_object \<Rightarrow> 'w \<Rightarrow> NamespacedName list \<times> 'w"
  sw_Predicates :: "event_predicate list"

datatype ('w, 'v) reconciler =
    RunsModuleRelease "('w, 'v) ModuleReleaseReconciler"
  | RunsBundleRelease BundleReleaseReconciler
  | RunsRelease "('w, 'v) ReleaseReconciler"

record ('w, 'v) controller =
  cb_Named :: string
  cb_For :: watched
  cb_ForPredicates :: "event_predicate list"
  cb_Owns :: "watched list"
  cb_Watches :: "'w source_watch list"
  cb_EventFilter :: "event_predicate list"
  cb_RateLimiter :: "RateLimiter option"
  cb_Reconciler :: "('w, 'v) reconciler"

definition ModuleReleaseReconciler_controller :: "('w, 'v) ModuleReleaseReconciler \<Rightarrow> ('w, 'v) controller" where
  "ModuleReleaseReconciler_controller r =
     \<lparr>cb_Named = ''modulerelease'', cb_For = WatchModuleRelease, cb_ForPredicates = [], cb_Owns = [],
      cb_Watches = [], cb_EventFilter = [GenerationChangedPredicate],
      cb_RateLimiter = Some workqueue_limiter, cb_Reconciler = RunsModuleRelease r\<rparr>"

definition BundleReleaseReconciler_controller :: "BundleReleaseReconciler \<Rightarrow> ('w, 'v) controller" where
  "BundleReleaseReconciler_controller r =
     \<lparr>cb_Named = ''bundlerelease'', cb_For = WatchBundleRelease, cb_ForPredicates = [],
      cb_Owns = [WatchModuleRelease], cb_Watches = [], cb_EventFilter = [],
      cb_RateLimiter = None, cb_Reconciler = RunsBundleRelease r\<rparr>"

text \<open>The Release controller lists releases through its client, the first argument.\<close>

definition ReleaseReconciler_controller ::
  "'w list_releases \<Rightarrow> ('w, 'v) ReleaseReconciler \<Rightarrow> ('w, 'v) controller" where
  "ReleaseReconciler_controller lst r =
     \<lparr>cb_Named = ''release'', cb_For = WatchRelease, cb_ForPredicates = [GenerationChangedPredicate], cb_Owns = [],
      cb_Watches = map (\<lambda>(t, kind). \<lparr>sw_Object = WatchSource t, sw_Handler = mapSourceToReleases lst kind,
        sw_Predicates = [SourcePredicate sourceArtifactChanged]\<rparr>) source_watches,
      cb_EventFilter = [], cb_RateLimiter = Some workqueue_limiter, cb_Reconciler = RunsRelease r\<rparr>"

subsection \<open>Options of the manager\<close>

record tls_config =
  tls_NextProtos :: "string list"

definition disableHTTP2 :: "tls_config \<Rightarrow> tls_config" where
  "disableHTTP2 c = c\<lparr>tls_NextProtos := [''http/1.1'']\<rparr>"

definition tlsOpts :: "flags \<Rightarrow> (tls_config \<Rightarrow> tls_config) list" where
  "tlsOpts f = (if \<not> enableHTTP2 f then [disableHTTP2] else [])"

record server_options =
  so_TLSOpts :: "(tls_config \<Rightarrow> tls_config) list"
  so_CertDir :: string
  so_CertName :: string
  so_KeyName :: string

datatype filter_provider = WithAuthenticationAndAuthorization

record metrics_options = server_options +
  mt_BindAddress :: string
  mt_SecureServing :: bool
  mt_FilterProvider :: "filter_provider option"

definition webhookServerOptions :: "flags \<Rightarrow> server_options" where
  "webhookServerOptions f =
     (let o1 = \<lparr>so_TLSOpts = tlsOpts f, so_CertDir = [], so_CertName = [], so_KeyName = []\<rparr> in
      if length (webhookCertPath f) > 0
      then o1\<lparr>so_CertDir := webhookCertPath f, so_CertName := webhookCertName f, so_KeyName := webhookCertKey f\<rparr>
      else o1)"

definition metricsServerOptions :: "flags \<Rightarrow> metrics_options" where
  "metricsServerOptions f =
     (let o1 = \<lparr>so_TLSOpts = tlsOpts f, so_CertDir = [], so_CertName = [], so_KeyName = [],
                mt_BindAddress = metricsAddr f, mt_SecureServing = secureMetrics f, mt_FilterProvider = None\<rparr>;
          o2 = (if secureMetrics f then o1\<lparr>mt_FilterProvider := Some WithAuthenticationAndAuthorization\<rparr> else o1)
      in if length (metricsCertPath f) > 0
         then o2\<lparr>so_CertDir := metricsCertPath f, so_CertName := metricsCertName f, so_KeyName := metricsCertKey f\<rparr>
         else o2)"

record 's manager_options =
  mg_Scheme :: 's
  mg_Metrics :: metrics_options
  mg_WebhookServer :: server_options
  mg_HealthProbeBindAddress :: string
  mg_LeaderElection :: bool
  mg_LeaderElectionID :: string

definition manager_options_of :: "'s \<Rightarrow> flags \<Rightarrow> 's manager_options" where
  "manager_options_of scheme f =
     \<lparr>mg_Scheme = scheme, mg_Metrics = metricsServerOptions f, mg_WebhookServer = webhookServerOptions f,
      mg_HealthProbeBindAddress = probeAddr f, mg_LeaderElection = enableLeaderElection f,
      mg_LeaderElectionID = ''4cc9e43e.opmodel.dev''\<rparr>"

subsection \<open>The libraries behind \<open>main\<close>\<close>

text \<open>
  What a manager hands to the controllers: its clients on the custom resources and on live
  objects, the ServiceAccount read, the clock and the libraries of the reconcile loops.
\<close>

record 'w access =
  ax_Kube :: kube_lib
  ax_ModuleReleases :: "('w, ModuleRelease) cr_api"
  ax_Releases :: "('w, Release) cr_api"
  ax_Live :: "'w live_api"
  ax_Ssa :: "'w ssa_api"
  ax_Auth :: "'w auth_api"
  ax_Now :: "'w \<Rightarrow> instant \<times> 'w"
  ax_GetSource :: "'w get_source"
  ax_Source :: "'w source_env"
  ax_List :: "'w list_releases"
  ax_Canon :: "string \<Rightarrow> string option"

text \<open>
  The calls of \<open>main\<close> on controller-runtime and on the schemes. The CUE loader reads the process
  environment, so the render environment depends on it.
\<close>

type_synonym environ = "string \<Rightarrow> string option"

record ('w, 'v, 'm, 's) manager_lib =
  ml_Flags :: library_flags
  ml_NewScheme :: 's
  ml_AddClientGo :: "'s \<Rightarrow> goerr option \<times> 's"
  ml_AddTypes :: "string \<times> string \<Rightarrow> string list \<Rightarrow> 's \<Rightarrow> goerr option \<times> 's"
  ml_AddSource :: "'s \<Rightarrow> goerr option \<times> 's"
  ml_GetConfig :: "'w \<Rightarrow> goerr option \<times> 'w"
  ml_NewManager :: "'s manager_options \<Rightarrow> 'w \<Rightarrow> (goerr + 'm) \<times> 'w"
  ml_Access :: "'m \<Rightarrow> 'w access"
  ml_Complete :: "'m \<Rightarrow> ('w, 'v) controller \<Rightarrow> 'w \<Rightarrow> goerr option \<times> 'w"
  ml_AddHealthzCheck :: "'m \<Rightarrow> string \<Rightarrow> 'w \<Rightarrow> goerr option \<times> 'w"
  ml_AddReadyzCheck :: "'m \<Rightarrow> string \<Rightarrow> 'w \<Rightarrow> goerr option \<times> 'w"
  ml_Start :: "'m \<Rightarrow> 'w \<Rightarrow> goerr option \<times> 'w"
  ml_Render :: "environ \<Rightarrow> ('w, 'v) render_env"

text \<open>The process: its environment, the world, and the steps it has taken.\<close>

datatype ('w, 'v, 's) boot_step =
    GetConfigOrDie
  | NewManager "'s manager_options"
  | Setenv string string
  | LoadProviderFrom string string
  | SetupWithManager "('w, 'v) controller"
  | AddHealthzCheck string
  | AddReadyzCheck string
  | StartManager

record ('w, 'v, 's) boot =
  bo_Env :: environ
  bo_World :: 'w
  bo_Steps :: "('w, 'v, 's) boot_step list"

datatype process_end = Exited nat | Crashed

definition take_step ::
  "('w, 'v, 's) boot_step \<Rightarrow> ('w \<Rightarrow> 'r \<times> 'w) \<Rightarrow> ('w, 'v, 's) boot \<Rightarrow> 'r \<times> ('w, 'v, 's) boot" where
  "take_step st g s = (let (r, w) = g (bo_World s) in (r, s\<lparr>bo_World := w, bo_Steps := bo_Steps s @ [st]\<rparr>))"

definition os_Getenv :: "environ \<Rightarrow> string \<Rightarrow> string" where
  "os_Getenv env key = (case env key of None \<Rightarrow> [] | Some v \<Rightarrow> v)"

text \<open>\<open>os.Setenv\<close> refuses an empty key, a key with an equals sign, and zero bytes.\<close>

definition os_Setenv :: "string \<Rightarrow> string \<Rightarrow> ('w, 'v, 's) boot \<Rightarrow> goerr option \<times> ('w, 'v, 's) boot" where
  "os_Setenv key v s =
     (let s1 = s\<lparr>bo_Steps := bo_Steps s @ [Setenv key v]\<rparr> in
      if key = [] \<or> CHR ''='' \<in> set key \<or> CHR 0x00 \<in> set key \<or> CHR 0x00 \<in> set v
      then (Some (errors_New ''setenv: invalid argument''), s1)
      else (None, s1\<lparr>bo_Env := (bo_Env s1)(key \<mapsto> v)\<rparr>))"

text \<open>\<open>if err != nil\<close> \<open>os.Exit(1)\<close>.\<close>

definition or_exit :: "goerr option \<times> 'b \<Rightarrow> ('b \<Rightarrow> process_end \<times> 'b) \<Rightarrow> process_end \<times> 'b" where
  "or_exit r k = (case r of (Some _, s) \<Rightarrow> (Exited 1, s) | (None, s) \<Rightarrow> k s)"

subsection \<open>The program\<close>

definition resolveRegistry :: "environ \<Rightarrow> string \<Rightarrow> string" where
  "resolveRegistry env flagValue = (if flagValue \<noteq> [] then flagValue else os_Getenv env ''OPM_REGISTRY'')"

fun set_registry :: "string list \<Rightarrow> string \<Rightarrow> ('w, 'v, 's) boot \<Rightarrow> goerr option \<times> ('w, 'v, 's) boot" where
  "set_registry [] reg s = (None, s)"
| "set_registry (key # keys) reg s =
     (case os_Setenv key reg s of
        (Some e, s1) \<Rightarrow> (Some e, s1)
      | (None, s1) \<Rightarrow> set_registry keys reg s1)"

text \<open>The parameters both loops get: the clients of the manager and the flags.\<close>

definition controller_params ::
  "'w access \<Rightarrow> ('w, 'o) cr_api \<Rightarrow> ('w, 'v) render_env \<Rightarrow> flags \<Rightarrow> ('w, 'o, 'v) ReconcileParams" where
  "controller_params A api E f =
     \<lparr>pa_Kube = ax_Kube A, pa_Cue = cv_Lib (re_Cue E), pa_CR = api, pa_Live = ax_Live A, pa_Ssa = ax_Ssa A,
      pa_Auth = ax_Auth A, pa_Now = ax_Now A, pa_RestConfig = True,
      pa_ResourceManager = NewResourceManager ControllerClient ''opm-controller'',
      pa_DefaultServiceAccount = defaultServiceAccount f\<rparr>"

definition moduleReleaseReconciler ::
  "'w access \<Rightarrow> ('w, 'v) render_env \<Rightarrow> 'v Provider \<Rightarrow> flags \<Rightarrow> ('w, 'v) ModuleReleaseReconciler" where
  "moduleReleaseReconciler A E prov f =
     \<lparr>mc_Params = controller_params A (ax_ModuleReleases A) E f, mc_Renderer = RegistryRenderer E prov,
      mc_Canon = ax_Canon A\<rparr>"

definition releaseReconciler ::
  "'w access \<Rightarrow> ('w, 'v) render_env \<Rightarrow> 'v Provider \<Rightarrow> flags \<Rightarrow> ('w, 'v) ReleaseReconciler" where
  "releaseReconciler A E prov f =
     \<lparr>rc_Params = controller_params A (ax_Releases A) E f, rc_GetSource = ax_GetSource A, rc_Env = ax_Source A,
      rc_Fetcher = Some (Fetch (ax_Source A) \<lparr>af_HTTPClient = None, af_MaxSize = 0\<rparr>),
      rc_RenderEnv = E, rc_Provider = prov, rc_Renderer = Some (PackageReleaseRenderer E)\<rparr>"

definition setup_controller ::
  "('w, 'v, 'm, 's) manager_lib \<Rightarrow> 'm \<Rightarrow> ('w, 'v) controller \<Rightarrow> ('w, 'v, 's) boot
     \<Rightarrow> goerr option \<times> ('w, 'v, 's) boot" where
  "setup_controller L mgr c = take_step (SetupWithManager c) (ml_Complete L mgr c)"

definition main_serve ::
  "('w, 'v, 'm, 's) manager_lib \<Rightarrow> 'm \<Rightarrow> ('w, 'v, 's) boot \<Rightarrow> process_end \<times> ('w, 'v, 's) boot" where
  "main_serve L mgr s =
     or_exit (take_step (AddHealthzCheck ''healthz'') (ml_AddHealthzCheck L mgr ''healthz'') s) (\<lambda>s1.
     or_exit (take_step (AddReadyzCheck ''readyz'') (ml_AddReadyzCheck L mgr ''readyz'') s1) (\<lambda>s2.
     or_exit (take_step StartManager (ml_Start L mgr) s2) (\<lambda>s3. (Exited 0, s3))))"

definition main_controllers ::
  "('w, 'v, 'm, 's) manager_lib \<Rightarrow> flags \<Rightarrow> 'm \<Rightarrow> 'v Provider \<Rightarrow> ('w, 'v, 's) boot
     \<Rightarrow> process_end \<times> ('w, 'v, 's) boot" where
  "main_controllers L f mgr opmProvider s =
     (let A = ml_Access L mgr; E = ml_Render L (bo_Env s) in
      or_exit (setup_controller L mgr
        (ModuleReleaseReconciler_controller (moduleReleaseReconciler A E opmProvider f)) s) (\<lambda>s1.
      or_exit (setup_controller L mgr
        (BundleReleaseReconciler_controller \<lparr>bc_Client = ControllerClient\<rparr>) s1) (\<lambda>s2.
      or_exit (setup_controller L mgr
        (ReleaseReconciler_controller (ax_List A) (releaseReconciler A E opmProvider f)) s2)
      (main_serve L mgr))))"

definition main_environment :: "flags \<Rightarrow> ('w, 'v, 's) boot \<Rightarrow> goerr option \<times> ('w, 'v, 's) boot" where
  "main_environment f s =
     (let reg = resolveRegistry (bo_Env s) (registry f) in
      case (if reg \<noteq> [] then set_registry [''CUE_REGISTRY'', ''OPM_REGISTRY''] reg s else (None, s)) of
        (Some e, s1) \<Rightarrow> (Some e, s1)
      | (None, s1) \<Rightarrow> os_Setenv ''CUE_CACHE_DIR'' (cueCacheDir f) s1)"

definition main_run ::
  "('w, 'v, 'm, 's) manager_lib \<Rightarrow> 's \<Rightarrow> flags \<Rightarrow> ('w, 'v, 's) boot \<Rightarrow> process_end \<times> ('w, 'v, 's) boot" where
  "main_run L scheme f s =
     or_exit (take_step GetConfigOrDie (ml_GetConfig L) s) (\<lambda>s1.
       case take_step (NewManager (manager_options_of scheme f)) (ml_NewManager L (manager_options_of scheme f)) s1 of
         (Inl e, s2) \<Rightarrow> (Exited 1, s2)
       | (Inr mgr, s2) \<Rightarrow>
           or_exit (main_environment f s2) (\<lambda>s3.
             case take_step (LoadProviderFrom (catalogPath f) (providerName f))
                    (LoadProvider (ml_Render L (bo_Env s3)) (catalogPath f) (providerName f)) s3 of
               (Inl e, s4) \<Rightarrow> (Exited 1, s4)
             | (Inr opmProvider, s4) \<Rightarrow> main_controllers L f mgr opmProvider s4))"

text \<open>\<open>flag.CommandLine\<close> exits on error: 0 for a help request, 2 otherwise.\<close>

definition main ::
  "('w, 'v, 'm, 's) manager_lib \<Rightarrow> 's \<Rightarrow> string list \<Rightarrow> ('w, 'v, 's) boot
     \<Rightarrow> process_end \<times> ('w, 'v, 's) boot" where
  "main L scheme args s =
     (case Parse (ml_Flags L) args default_flags of
        Inl e \<Rightarrow> (Exited (if e = ErrHelp then 0 else 2), s)
      | Inr (f, _) \<Rightarrow> main_run L scheme f s)"

text \<open>\<open>init\<close> panics when a scheme cannot be extended.\<close>

definition init_scheme :: "('w, 'v, 'm, 's) manager_lib \<Rightarrow> 's option" where
  "init_scheme L =
     (case ml_AddClientGo L (ml_NewScheme L) of
        (Some e, _) \<Rightarrow> None
      | (None, sc1) \<Rightarrow>
          (case ml_AddTypes L GroupVersion SchemeBuilder sc1 of
             (Some e, _) \<Rightarrow> None
           | (None, sc2) \<Rightarrow> (case ml_AddSource L sc2 of (Some e, _) \<Rightarrow> None | (None, sc3) \<Rightarrow> Some sc3)))"

definition program ::
  "('w, 'v, 'm, 's) manager_lib \<Rightarrow> string list \<Rightarrow> ('w, 'v, 's) boot \<Rightarrow> process_end \<times> ('w, 'v, 's) boot" where
  "program L args s = (case init_scheme L of None \<Rightarrow> (Crashed, s) | Some scheme \<Rightarrow> main L scheme args s)"

subsection \<open>The plan of a start\<close>

definition boot_steps :: "('w, 'v, 's) boot \<Rightarrow> ('w, 'v, 's) boot \<Rightarrow> ('w, 'v, 's) boot_step list" where
  "boot_steps s s' = drop (length (bo_Steps s)) (bo_Steps s')"

text \<open>The environment after the registry and the cache directory are set.\<close>

definition boot_env :: "flags \<Rightarrow> environ \<Rightarrow> environ" where
  "boot_env f env =
     (let reg = resolveRegistry env (registry f);
          env1 = (if reg \<noteq> [] then env(''CUE_REGISTRY'' \<mapsto> reg, ''OPM_REGISTRY'' \<mapsto> reg) else env)
      in env1(''CUE_CACHE_DIR'' \<mapsto> cueCacheDir f))"

definition setenv_plan :: "flags \<Rightarrow> environ \<Rightarrow> ('w, 'v, 's) boot_step list" where
  "setenv_plan f env =
     (let reg = resolveRegistry env (registry f)
      in if reg \<noteq> [] then [Setenv ''CUE_REGISTRY'' reg, Setenv ''OPM_REGISTRY'' reg] else [])
     @ [Setenv ''CUE_CACHE_DIR'' (cueCacheDir f)]"

definition prepare_plan :: "'s \<Rightarrow> flags \<Rightarrow> environ \<Rightarrow> ('w, 'v, 's) boot_step list" where
  "prepare_plan scheme f env =
     [GetConfigOrDie, NewManager (manager_options_of scheme f)] @ setenv_plan f env
     @ [LoadProviderFrom (catalogPath f) (providerName f)]"

definition wired_controllers ::
  "'w access \<Rightarrow> ('w, 'v) render_env \<Rightarrow> flags \<Rightarrow> 'v Provider \<Rightarrow> ('w, 'v) controller list" where
  "wired_controllers A E f prov =
     [ModuleReleaseReconciler_controller (moduleReleaseReconciler A E prov f),
      BundleReleaseReconciler_controller \<lparr>bc_Client = ControllerClient\<rparr>,
      ReleaseReconciler_controller (ax_List A) (releaseReconciler A E prov f)]"

definition serve_plan ::
  "'w access \<Rightarrow> ('w, 'v) render_env \<Rightarrow> flags \<Rightarrow> 'v Provider \<Rightarrow> ('w, 'v, 's) boot_step list" where
  "serve_plan A E f prov =
     map SetupWithManager (wired_controllers A E f prov)
     @ [AddHealthzCheck ''healthz'', AddReadyzCheck ''readyz'', StartManager]"

text \<open>
  The reference: a step is one call of the libraries and succeeds or fails, and a plan is
  carried out step by step up to the first failure. The manager and the render environment are
  those that the later steps get.
\<close>

definition valid_env :: "string \<Rightarrow> string \<Rightarrow> bool" where
  "valid_env key v \<longleftrightarrow> key \<noteq> [] \<and> CHR ''='' \<notin> set key \<and> CHR 0x00 \<notin> set key \<and> CHR 0x00 \<notin> set v"

definition no_error :: "goerr option \<times> 'w \<Rightarrow> bool \<times> 'w" where
  "no_error r = (fst r = None, snd r)"

definition has_value :: "(goerr + 'r) \<times> 'w \<Rightarrow> bool \<times> 'w" where
  "has_value r = (\<not> isl (fst r), snd r)"

fun step_call ::
  "('w, 'v, 'm, 's) manager_lib \<Rightarrow> ('w, 'v) render_env \<Rightarrow> 'm \<Rightarrow> ('w, 'v, 's) boot_step \<Rightarrow> 'w \<Rightarrow> bool \<times> 'w" where
  "step_call L E mgr GetConfigOrDie w = no_error (ml_GetConfig L w)"
| "step_call L E mgr (NewManager opts) w = has_value (ml_NewManager L opts w)"
| "step_call L E mgr (Setenv key v) w = (valid_env key v, w)"
| "step_call L E mgr (LoadProviderFrom path name) w = has_value (LoadProvider E path name w)"
| "step_call L E mgr (SetupWithManager c) w = no_error (ml_Complete L mgr c w)"
| "step_call L E mgr (AddHealthzCheck name) w = no_error (ml_AddHealthzCheck L mgr name w)"
| "step_call L E mgr (AddReadyzCheck name) w = no_error (ml_AddReadyzCheck L mgr name w)"
| "step_call L E mgr StartManager w = no_error (ml_Start L mgr w)"

fun run_plan :: "('st \<Rightarrow> 'w \<Rightarrow> bool \<times> 'w) \<Rightarrow> 'st list \<Rightarrow> 'w \<Rightarrow> 'st list \<times> bool \<times> 'w" where
  "run_plan step [] w = ([], True, w)"
| "run_plan step (st # sts) w =
     (case step st w of
        (False, w1) \<Rightarrow> ([st], False, w1)
      | (True, w1) \<Rightarrow> (case run_plan step sts w1 of (taken, ok, w2) \<Rightarrow> (st # taken, ok, w2)))"

lemma run_plan_prefix:
  "run_plan step plan w = (taken, ok, w') \<Longrightarrow> prefix taken plan \<and> (ok \<longrightarrow> taken = plan)"
  by (induction plan arbitrary: w taken) (fastforce split: prod.splits bool.splits)+

text \<open>
  A piece of the program follows a plan: it takes the steps that the reference takes, leaves the
  world that the reference leaves, and ends with 0 if no step failed and with 1 if one did.
\<close>

definition follows ::
  "(('w, 'v, 's) boot_step \<Rightarrow> 'w \<Rightarrow> bool \<times> 'w) \<Rightarrow> ('w, 'v, 's) boot \<Rightarrow> ('w, 'v, 's) boot_step list
     \<Rightarrow> process_end \<times> ('w, 'v, 's) boot \<Rightarrow> bool" where
  "follows step s plan r \<longleftrightarrow>
     (case run_plan step plan (bo_World s) of
        (taken, ok, w) \<Rightarrow> bo_Steps (snd r) = bo_Steps s @ taken \<and> bo_World (snd r) = w
          \<and> fst r = Exited (if ok then 0 else 1))"

lemma followsD:
  assumes "follows step s plan r"
  shows "\<exists>taken. bo_Steps (snd r) = bo_Steps s @ taken \<and> prefix taken plan
    \<and> (fst r = Exited 1 \<or> fst r = Exited 0 \<and> taken = plan)"
  using assms by (auto simp: follows_def split: prod.splits if_splits dest: run_plan_prefix)

lemma follows_failed:
  assumes "step st (bo_World s) = (False, bo_World s1)" and "bo_Steps s1 = bo_Steps s @ [st]"
  shows "follows step s (st # plan) (Exited 1, s1)"
  using assms by (simp add: follows_def)

lemma follows_step:
  assumes "step st (bo_World s) = (True, bo_World s1)" and "bo_Steps s1 = bo_Steps s @ [st]"
    and "follows step s1 plan r"
  shows "follows step s (st # plan) r"
  using assms by (auto simp: follows_def split: prod.splits)

lemma follows_or_exit:
  assumes "bo_Steps (snd x) = bo_Steps s @ [st]" and "step st (bo_World s) = (fst x = None, bo_World (snd x))"
    and "fst x = None \<Longrightarrow> follows step (snd x) plan (k (snd x))"
  shows "follows step s (st # plan) (or_exit x k)"
proof (cases x)
  case (Pair e s1)
  then show ?thesis
    using assms by (cases e) (auto simp: or_exit_def simp del: One_nat_def intro: follows_failed follows_step)
qed

lemma follows_done: "follows step s [] (Exited 0, s)"
  by (simp add: follows_def)

lemma take_step_world:
  "bo_World (snd (take_step st g s)) = snd (g (bo_World s))" "fst (take_step st g s) = fst (g (bo_World s))"
  by (simp_all add: take_step_def split: prod.splits)

lemma take_step_simps [simp]:
  "bo_Steps (snd (take_step st g s)) = bo_Steps s @ [st]" "bo_Env (snd (take_step st g s)) = bo_Env s"
  by (simp_all add: take_step_def split: prod.splits)

lemma or_exit_env:
  "bo_Env (snd x) = env \<Longrightarrow> (\<And>s1. bo_Env s1 = env \<Longrightarrow> bo_Env (snd (k s1)) = env) \<Longrightarrow> bo_Env (snd (or_exit x k)) = env"
  by (auto simp: or_exit_def split: prod.splits option.splits)

lemma main_controllers_follows:
  "follows (step_call L E mgr) s (serve_plan (ml_Access L mgr) (ml_Render L (bo_Env s)) f prov)
     (main_controllers L f mgr prov s)"
  unfolding main_controllers_def serve_plan_def wired_controllers_def main_serve_def setup_controller_def Let_def
  by (simp, intro follows_or_exit follows_done) (simp_all add: take_step_world no_error_def)

lemma os_Setenv_result:
  assumes "os_Setenv key v s = (e, s1)"
  shows "bo_Steps s1 = bo_Steps s @ [Setenv key v]" "bo_World s1 = bo_World s" "e = None \<longleftrightarrow> valid_env key v"
  using assms by (auto simp: os_Setenv_def valid_env_def Let_def split: if_splits)

lemma main_environment_follows:
  assumes "\<And>s1. main_environment f s = (None, s1) \<Longrightarrow> follows (step_call L E mgr) s1 plan (k s1)"
  shows "follows (step_call L E mgr) s (setenv_plan f (bo_Env s) @ plan) (or_exit (main_environment f s) k)"
proof -
  let ?reg = "resolveRegistry (bo_Env s) (registry f)"
  have last: "follows (step_call L E mgr) t (Setenv ''CUE_CACHE_DIR'' (cueCacheDir f) # plan)
      (or_exit (os_Setenv ''CUE_CACHE_DIR'' (cueCacheDir f) t) k)"
    if "\<And>s1. os_Setenv ''CUE_CACHE_DIR'' (cueCacheDir f) t = (None, s1) \<Longrightarrow> follows (step_call L E mgr) s1 plan (k s1)" for t
    using os_Setenv_result [of "''CUE_CACHE_DIR''" "cueCacheDir f" t] that
    by (intro follows_or_exit) (auto simp: prod_eq_iff)
  show ?thesis
  proof (cases "?reg = []")
    case True
    then show ?thesis using last [of s] assms by (simp add: setenv_plan_def main_environment_def Let_def)
  next
    case False
    obtain e1 s1 where 1: "os_Setenv ''CUE_REGISTRY'' ?reg s = (e1, s1)" by fastforce
    obtain e2 s2 where 2: "os_Setenv ''OPM_REGISTRY'' ?reg s1 = (e2, s2)" by fastforce
    note r1 = os_Setenv_result [OF 1] and r2 = os_Setenv_result [OF 2]
    have run: "or_exit (main_environment f s) k =
        (if e1 \<noteq> None then (Exited 1, s1) else if e2 \<noteq> None then (Exited 1, s2)
         else or_exit (os_Setenv ''CUE_CACHE_DIR'' (cueCacheDir f) s2) k)"
      using False 1 2 by (auto simp: main_environment_def or_exit_def Let_def split: option.splits)
    have l: "follows (step_call L E mgr) s2 (Setenv ''CUE_CACHE_DIR'' (cueCacheDir f) # plan)
        (or_exit (os_Setenv ''CUE_CACHE_DIR'' (cueCacheDir f) s2) k)" if "e1 = None" "e2 = None"
      using that False 1 2 assms by (intro last) (simp add: main_environment_def Let_def)
    have "follows (step_call L E mgr) s (Setenv ''CUE_REGISTRY'' ?reg # Setenv ''OPM_REGISTRY'' ?reg
        # Setenv ''CUE_CACHE_DIR'' (cueCacheDir f) # plan) (or_exit (main_environment f s) k)"
    proof (cases "e1 = None")
      case True
      have "follows (step_call L E mgr) s1 (Setenv ''OPM_REGISTRY'' ?reg # Setenv ''CUE_CACHE_DIR'' (cueCacheDir f) # plan)
          (if e2 \<noteq> None then (Exited 1, s2) else or_exit (os_Setenv ''CUE_CACHE_DIR'' (cueCacheDir f) s2) k)"
        using r2 l True
        by (cases "e2 = None") (auto simp del: One_nat_def simp: follows_failed intro: follows_step [where ?s1.0 = s2])
      then show ?thesis unfolding run using r1 True
        by (simp only: not_True_eq_False if_False simp_thms) (rule follows_step [where ?s1.0 = s1]; simp)
    next
      case False
      with r1 show ?thesis unfolding run by (simp add: follows_failed del: One_nat_def)
    qed
    then show ?thesis using False by (simp add: setenv_plan_def Let_def)
  qed
qed

lemma main_controllers_env: "bo_Env (snd (main_controllers L f mgr prov s)) = bo_Env s"
  by (auto simp: main_controllers_def main_serve_def setup_controller_def Let_def intro!: or_exit_env)

lemma main_controllers_started:
  assumes "main_controllers L f mgr prov s = (Exited 0, s')"
  shows "\<exists>w w'. ml_Start L mgr w = (None, w')"
  using assms
  by (auto simp: main_controllers_def main_serve_def setup_controller_def Let_def or_exit_def take_step_def
      split: prod.splits option.splits)

lemma main_environment_steps:
  assumes "main_environment f s = (e, s1)"
  shows "\<exists>ys. bo_Steps s1 = bo_Steps s @ ys \<and> prefix ys (setenv_plan f (bo_Env s))
    \<and> (e = None \<longrightarrow> ys = setenv_plan f (bo_Env s) \<and> bo_Env s1 = boot_env f (bo_Env s))"
  using assms
  by (auto simp: main_environment_def os_Setenv_def setenv_plan_def boot_env_def Let_def
      split: prod.splits option.splits if_splits)

lemma main_environment_world: "main_environment f s = (e, s1) \<Longrightarrow> bo_World s1 = bo_World s"
  by (auto simp: main_environment_def Let_def split: if_splits prod.splits option.splits dest!: os_Setenv_result(2))

text \<open>The manager and the provider of a start, from the world in which it begins.\<close>

definition boot_manager :: "('w, 'v, 'm, 's) manager_lib \<Rightarrow> 's \<Rightarrow> flags \<Rightarrow> 'w \<Rightarrow> (goerr + 'm) \<times> 'w" where
  "boot_manager L scheme f w = ml_NewManager L (manager_options_of scheme f) (snd (ml_GetConfig L w))"

definition boot_provider ::
  "('w, 'v, 'm, 's) manager_lib \<Rightarrow> ('w, 'v) render_env \<Rightarrow> 's \<Rightarrow> flags \<Rightarrow> 'w \<Rightarrow> goerr + 'v Provider" where
  "boot_provider L E scheme f w = fst (LoadProvider E (catalogPath f) (providerName f) (snd (boot_manager L scheme f w)))"

text \<open>The four calls before the controllers, with the state after each.\<close>

lemma main_run_stages:
  obtains e1 s1 m s2 e3 s3 p s4 where
    "take_step GetConfigOrDie (ml_GetConfig L) s = (e1, s1)"
    "take_step (NewManager (manager_options_of scheme f)) (ml_NewManager L (manager_options_of scheme f)) s1 = (m, s2)"
    "main_environment f s2 = (e3, s3)"
    "take_step (LoadProviderFrom (catalogPath f) (providerName f))
       (LoadProvider (ml_Render L (bo_Env s3)) (catalogPath f) (providerName f)) s3 = (p, s4)"
    "main_run L scheme f s =
       (if e1 \<noteq> None then (Exited 1, s1)
        else case m of Inl _ \<Rightarrow> (Exited 1, s2)
        | Inr mgr \<Rightarrow> if e3 \<noteq> None then (Exited 1, s3)
            else case p of Inl _ \<Rightarrow> (Exited 1, s4) | Inr prov \<Rightarrow> main_controllers L f mgr prov s4)"
proof -
  let ?o = "manager_options_of scheme f"
  obtain e1 s1 where g: "take_step GetConfigOrDie (ml_GetConfig L) s = (e1, s1)" by fastforce
  obtain m s2 where m: "take_step (NewManager ?o) (ml_NewManager L ?o) s1 = (m, s2)" by fastforce
  obtain e3 s3 where e: "main_environment f s2 = (e3, s3)" by fastforce
  obtain p s4 where p: "take_step (LoadProviderFrom (catalogPath f) (providerName f))
      (LoadProvider (ml_Render L (bo_Env s3)) (catalogPath f) (providerName f)) s3 = (p, s4)" by fastforce
  show thesis
    by (rule that [OF g m e p]; cases e1; cases m; cases e3; cases p)
      (simp_all add: main_run_def or_exit_def g m e p)
qed

lemma take_stepD:
  assumes "take_step st g s = (r, s1)"
  shows "bo_Steps s1 = bo_Steps s @ [st]" "bo_Env s1 = bo_Env s" "fst (g (bo_World s)) = r"
    "snd (g (bo_World s)) = bo_World s1"
  using assms by (auto simp: take_step_def split: prod.splits)

lemma main_run_cases:
  assumes "main_run L scheme f s = (x, s')"
  obtains
    (failed) ys where "x = Exited 1" "bo_Steps s' = bo_Steps s @ ys" "prefix ys (prepare_plan scheme f (bo_Env s))"
  | (prepared) mgr prov s4 where "main_controllers L f mgr prov s4 = (x, s')"
      "bo_Steps s4 = bo_Steps s @ prepare_plan scheme f (bo_Env s)" "bo_Env s4 = boot_env f (bo_Env s)"
      "fst (boot_manager L scheme f (bo_World s)) = Inr mgr"
      "boot_provider L (ml_Render L (boot_env f (bo_Env s))) scheme f (bo_World s) = Inr prov"
proof (rule main_run_stages [of L s scheme f])
  let ?o = "manager_options_of scheme f" and ?load = "LoadProviderFrom (catalogPath f) (providerName f)"
  note plan = prepare_plan_def
  fix e1 s1 m s2 e3 s3 p s4
  assume st: "take_step GetConfigOrDie (ml_GetConfig L) s = (e1, s1)"
      "take_step (NewManager ?o) (ml_NewManager L ?o) s1 = (m, s2)"
    and env: "main_environment f s2 = (e3, s3)"
    and ld: "take_step ?load (LoadProvider (ml_Render L (bo_Env s3)) (catalogPath f) (providerName f)) s3 = (p, s4)"
    and run: "main_run L scheme f s = (if e1 \<noteq> None then (Exited 1, s1) else case m of Inl _ \<Rightarrow> (Exited 1, s2)
        | Inr mgr \<Rightarrow> if e3 \<noteq> None then (Exited 1, s3)
            else case p of Inl _ \<Rightarrow> (Exited 1, s4) | Inr prov \<Rightarrow> main_controllers L f mgr prov s4)"
  note s = take_stepD(1,2) [OF st(1)] take_stepD(1,2) [OF st(2)] take_stepD(1,2) [OF ld]
  obtain ys where ys: "bo_Steps s3 = bo_Steps s2 @ ys" "prefix ys (setenv_plan f (bo_Env s))"
    "e3 = None \<longrightarrow> ys = setenv_plan f (bo_Env s) \<and> bo_Env s3 = boot_env f (bo_Env s)"
    using main_environment_steps [OF env] s by auto
  note world = main_environment_world [OF env]
  show thesis
  proof (cases "e1 = None \<and> e3 = None \<and> \<not> isl m \<and> \<not> isl p")
    case True
    then obtain mgr prov where mp: "m = Inr mgr" "p = Inr prov" by (auto simp: isl_def) (metis sum.exhaust)
    then show thesis
      using prepared [of mgr prov s4] True assms run s ys world take_stepD(3) [OF st(2)] take_stepD(3) [OF ld]
        take_stepD(3,4) [OF st(1)] take_stepD(4) [OF st(2)]
      by (simp add: plan boot_manager_def boot_provider_def)
  next
    case False
    then show thesis
      using failed [of "[GetConfigOrDie]"] failed [of "[GetConfigOrDie, NewManager ?o]"]
        failed [of "GetConfigOrDie # NewManager ?o # ys"] failed [of "prepare_plan scheme f (bo_Env s)"] assms run s ys
      by (auto simp: plan intro: prefix_order.trans split: if_splits sum.splits)
  qed
qed

lemma main_run_follows:
  assumes "E = ml_Render L (boot_env f (bo_Env s))"
    and mgr: "\<And>m. fst (boot_manager L scheme f (bo_World s)) = Inr m \<Longrightarrow> m = mgr"
    and prov: "\<And>p. boot_provider L E scheme f (bo_World s) = Inr p \<Longrightarrow> p = prov"
  shows "follows (step_call L E mgr) s
    (prepare_plan scheme f (bo_Env s) @ serve_plan (ml_Access L mgr) E f prov) (main_run L scheme f s)"
proof -
  let ?o = "manager_options_of scheme f" and ?serve = "serve_plan (ml_Access L mgr) E f prov"
  let ?load = "LoadProviderFrom (catalogPath f) (providerName f)"
  let ?f = "follows (step_call L E mgr)"
  define s1 where "s1 = snd (take_step GetConfigOrDie (ml_GetConfig L) s)"
  obtain m s2 where m: "take_step (NewManager ?o) (ml_NewManager L ?o) s1 = (m, s2)" by fastforce
  have w1: "bo_World s1 = snd (ml_GetConfig L (bo_World s))" "bo_Env s1 = bo_Env s"
    by (simp_all add: s1_def take_step_world)
  have s2: "bo_Env s2 = bo_Env s" "bo_Steps s2 = bo_Steps s1 @ [NewManager ?o]"
    "m = fst (boot_manager L scheme f (bo_World s))" "bo_World s2 = snd (boot_manager L scheme f (bo_World s))"
    using m take_step_world [of "NewManager ?o" "ml_NewManager L ?o" s1]
      take_step_simps [of "NewManager ?o" "ml_NewManager L ?o" s1]
    by (simp_all add: boot_manager_def w1)
  have load: "?f s3 (?load # ?serve)
      (case take_step ?load (LoadProvider (ml_Render L (bo_Env s3)) (catalogPath f) (providerName f)) s3 of
         (Inl e, s4) \<Rightarrow> (Exited 1, s4) | (Inr p, s4) \<Rightarrow> main_controllers L f mgr p s4)"
    if env: "main_environment f s2 = (None, s3)" for s3
  proof -
    have E: "ml_Render L (bo_Env s3) = E" using main_environment_steps [OF env] s2(1) assms(1) by auto
    have w3: "bo_World s3 = bo_World s2" using main_environment_world [OF env] .
    obtain p s4 where p: "take_step ?load (LoadProvider E (catalogPath f) (providerName f)) s3 = (p, s4)" by fastforce
    have s4: "bo_Steps s4 = bo_Steps s3 @ [?load]" "bo_Env s4 = bo_Env s3" "p = boot_provider L E scheme f (bo_World s)"
      "step_call L E mgr ?load (bo_World s3) = (\<not> isl p, bo_World s4)"
      using p take_step_world [of ?load "LoadProvider E (catalogPath f) (providerName f)" s3] take_stepD [OF p] w3 s2(4)
      by (simp_all add: boot_provider_def has_value_def)
    show ?thesis
    proof (cases p)
      case (Inl e)
      then show ?thesis unfolding E p using s4 by (auto simp del: One_nat_def intro: follows_failed)
    next
      case (Inr q)
      then have q: "q = prov" using prov s4(3) by simp
      have "?f s4 ?serve (main_controllers L f mgr prov s4)"
        using main_controllers_follows [of L E mgr s4 f prov] s4(2) E by simp
      then show ?thesis unfolding E p Inr q prod.case sum.case
        by (rule follows_step [where ?s1.0 = s4, rotated 2]) (use s4(1,4) Inr in simp_all)
    qed
  qed
  have new: "?f s1 (NewManager ?o # setenv_plan f (bo_Env s) @ ?load # ?serve)
      (case (m, s2) of (Inl e, s2) \<Rightarrow> (Exited 1, s2)
       | (Inr mgr, s2) \<Rightarrow> or_exit (main_environment f s2) (\<lambda>s3.
           case take_step ?load (LoadProvider (ml_Render L (bo_Env s3)) (catalogPath f) (providerName f)) s3 of
             (Inl e, s4) \<Rightarrow> (Exited 1, s4) | (Inr p, s4) \<Rightarrow> main_controllers L f mgr p s4))"
  proof -
    have call: "step_call L E mgr (NewManager ?o) (bo_World s1) = (\<not> isl m, bo_World s2)"
      using s2(3,4) w1(1) by (simp add: has_value_def boot_manager_def)
    show ?thesis
    proof (cases m)
      case (Inl e)
      then show ?thesis using call s2(2) by (auto simp del: One_nat_def intro: follows_failed)
    next
      case (Inr q)
      then have q: "q = mgr" using mgr s2(3) by simp
      show ?thesis
        unfolding Inr q prod.case sum.case
      proof (rule follows_step [OF _ s2(2)])
        show "step_call L E mgr (NewManager ?o) (bo_World s1) = (True, bo_World s2)" using call Inr by simp
      qed (rule main_environment_follows [where s = s2, unfolded s2(1), OF load])
    qed
  qed
  show ?thesis
    unfolding main_run_def prepare_plan_def append_Cons append_Nil append_assoc
    by (rule follows_or_exit) (use new m in \<open>simp_all add: s1_def take_step_world no_error_def\<close>)
qed

lemma main_run_ordered:
  assumes "main_run L scheme f s = (x, s')" and "E = ml_Render L (boot_env f (bo_Env s))"
  shows "\<exists>mgr prov. bo_Steps s' = bo_Steps s @ boot_steps s s'
    \<and> prefix (boot_steps s s') (prepare_plan scheme f (bo_Env s) @ serve_plan (ml_Access L mgr) E f prov)
    \<and> (x = Exited 1 \<or> x = Exited 0 \<and> (\<exists>w w'. ml_Start L mgr w = (None, w'))
        \<and> boot_steps s s' = prepare_plan scheme f (bo_Env s) @ serve_plan (ml_Access L mgr) E f prov)
    \<and> (\<forall>c. SetupWithManager c \<in> set (boot_steps s s') \<longrightarrow> c \<in> set (wired_controllers (ml_Access L mgr) E f prov)
        \<and> bo_Env s' = boot_env f (bo_Env s) \<and> fst (boot_manager L scheme f (bo_World s)) = Inr mgr
        \<and> boot_provider L E scheme f (bo_World s) = Inr prov)"
  using assms(1)
proof (cases rule: main_run_cases)
  case (failed ys)
  have "SetupWithManager c \<notin> set ys" for c
    using set_mono_prefix [OF failed(3)] by (auto simp: prepare_plan_def setenv_plan_def Let_def split: if_splits)
  then show ?thesis using failed by (auto simp: boot_steps_def)
next
  case (prepared mgr prov s4)
  let ?plan = "serve_plan (ml_Access L mgr) E f prov"
  obtain ys where ys: "bo_Steps s' = bo_Steps s4 @ ys" "prefix ys ?plan" "x = Exited 1 \<or> x = Exited 0 \<and> ys = ?plan"
    using followsD [OF main_controllers_follows [of L E mgr s4 f prov]] prepared(1,3) assms(2) by auto
  have env: "bo_Env s' = boot_env f (bo_Env s)" using main_controllers_env [of L f mgr prov s4] prepared(1,3) by simp
  have "c \<in> set (wired_controllers (ml_Access L mgr) E f prov)"
    if "SetupWithManager c \<in> set (prepare_plan scheme f (bo_Env s) @ ys)" for c
    using that set_mono_prefix [OF ys(2)]
    by (auto simp: prepare_plan_def setenv_plan_def serve_plan_def Let_def split: if_splits)
  then show ?thesis
    using ys env prepared assms(2) main_controllers_started by (intro exI [of _ mgr] exI [of _ prov]) (auto simp: boot_steps_def)
qed

subsection \<open>A concrete manager\<close>

text \<open>Every library call succeeds; the catalog holds the provider \<open>kubernetes\<close>.\<close>

definition demo_access :: "unit access" where
  "demo_access =
     \<lparr>ax_Kube = std_kube,
      ax_ModuleReleases = \<lparr>ca_Get = (\<lambda>nn w. (Inl (errors_New ''not found''), w)), ca_Patch = (\<lambda>a b w. (None, w)),
        ca_PatchStatus = (\<lambda>a b c w. (None, w))\<rparr>,
      ax_Releases = \<lparr>ca_Get = (\<lambda>nn w. (Inl (errors_New ''not found''), w)), ca_Patch = (\<lambda>a b w. (None, w)),
        ca_PatchStatus = (\<lambda>a b c w. (None, w))\<rparr>,
      ax_Live = \<lparr>la_Get = (\<lambda>c g nn w. (Inl (errors_New ''not found''), w)), la_Delete = (\<lambda>c u w. (None, w))\<rparr>,
      ax_Ssa = \<lparr>sa_ApplyAllStaged = (\<lambda>rm us force w. (Inr [], w)), sa_Diff = (\<lambda>rm u w. (Inr UnchangedAction, w))\<rparr>,
      ax_Auth = \<lparr>aa_GetServiceAccount = (\<lambda>nn w. (None, w)), aa_NewClient = (\<lambda>c w. (None, w))\<rparr>,
      ax_Now = (\<lambda>w. (0, w)),
      ax_GetSource = (\<lambda>t nn w. (Inl (errors_New ''not found''), w)),
      ax_Source = demo_env [] [],
      ax_List = (\<lambda>ns w. (Inr [], w)),
      ax_Canon = Some\<rparr>"

definition demo_catalog :: cval where
  "demo_catalog = CStruct [(''providers'', CStruct [(''kubernetes'', pv_Data demo_provider)])]"

definition demo_manager :: "(unit, cval, unit, string list) manager_lib" where
  "demo_manager =
     \<lparr>ml_Flags = (\<lambda>name. if name = ''zap-devel'' then Some (True, \<lambda>v. True) else None), ml_NewScheme = [],
      ml_AddClientGo = (\<lambda>sc. (None, ''Pod'' # sc)), ml_AddTypes = (\<lambda>gv kinds sc. (None, kinds @ sc)),
      ml_AddSource = (\<lambda>sc. (None, ''Bucket'' # sc)), ml_GetConfig = (\<lambda>w. (None, w)),
      ml_NewManager = (\<lambda>opts w. (Inr (), w)), ml_Access = (\<lambda>m. demo_access),
      ml_Complete = (\<lambda>m c w. (None, w)), ml_AddHealthzCheck = (\<lambda>m n w. (None, w)),
      ml_AddReadyzCheck = (\<lambda>m n w. (None, w)), ml_Start = (\<lambda>m w. (None, w)),
      ml_Render = (\<lambda>env. (tree_env demo_fs)\<lparr>re_BuildInstance := (\<lambda>i. demo_catalog)\<rparr>)\<rparr>"

definition demo_boot :: "(unit, cval, string list) boot" where
  "demo_boot = \<lparr>bo_Env = [''OPM_REGISTRY'' \<mapsto> ''r.io''], bo_World = (), bo_Steps = []\<rparr>"

text \<open>An empty registry flag, so that the environment decides.\<close>

definition demo_args :: "string list" where
  "demo_args = [''--leader-elect'', ''-registry'', [], ''--zap-devel=false'', ''--metrics-bind-address=:8443'']"

subsection \<open>Properties\<close>

text \<open>
  C20: the manager starts in order and fails fast. Once the flags are parsed, \<open>main\<close> carries
  out one plan: read the configuration, create the manager, set the registry variables (the
  flag, else \<open>OPM_REGISTRY\<close>, else none) and the cache directory, load the provider, set up the
  three controllers with the production dependencies, add the two checks, start. It carries it
  out as the reference interpreter does, which stops at the first step that fails: the steps
  taken, the world they leave and the exit code are the interpreter's, the code being 1 exactly
  if a step failed, which is then the last one taken, and 0 exactly if the whole plan
  succeeded. A controller is set up only under the final environment, with the manager that
  this start created and with the provider that it loaded under that environment.
\<close>

theorem manager_boots_in_order:
  assumes "Parse (ml_Flags L) args default_flags = Inr (f, rest)"
    and "main L scheme args s = (x, s')"
    and "E = ml_Render L (boot_env f (bo_Env s))"
    and mgr: "\<And>m. fst (boot_manager L scheme f (bo_World s)) = Inr m \<Longrightarrow> m = mgr"
    and prov: "\<And>p. boot_provider L E scheme f (bo_World s) = Inr p \<Longrightarrow> p = prov"
  shows "case run_plan (step_call L E mgr)
        (prepare_plan scheme f (bo_Env s) @ serve_plan (ml_Access L mgr) E f prov) (bo_World s) of
      (taken, ok, w) \<Rightarrow> bo_Steps s' = bo_Steps s @ taken \<and> bo_World s' = w \<and> x = Exited (if ok then 0 else 1)
        \<and> (\<forall>c. SetupWithManager c \<in> set taken \<longrightarrow> c \<in> set (wired_controllers (ml_Access L mgr) E f prov)
            \<and> bo_Env s' = boot_env f (bo_Env s) \<and> fst (boot_manager L scheme f (bo_World s)) = Inr mgr
            \<and> boot_provider L E scheme f (bo_World s) = Inr prov)"
proof -
  have run: "main_run L scheme f s = (x, s')" using assms(1,2) by (simp add: main_def)
  obtain taken ok w where t: "run_plan (step_call L E mgr)
      (prepare_plan scheme f (bo_Env s) @ serve_plan (ml_Access L mgr) E f prov) (bo_World s) = (taken, ok, w)"
    by (metis prod_cases3)
  have st: "bo_Steps s' = bo_Steps s @ taken" "bo_World s' = w" "x = Exited (if ok then 0 else 1)"
    using main_run_follows [OF assms(3), of scheme mgr prov, OF mgr prov] t run by (simp_all add: follows_def)
  have "c \<in> set (wired_controllers (ml_Access L mgr) E f prov) \<and> bo_Env s' = boot_env f (bo_Env s)
      \<and> fst (boot_manager L scheme f (bo_World s)) = Inr mgr \<and> boot_provider L E scheme f (bo_World s) = Inr prov"
    if "SetupWithManager c \<in> set taken" for c
  proof -
    have "boot_steps s s' = taken" using st(1) by (simp add: boot_steps_def)
    with main_run_ordered [OF run assms(3)] that obtain m p where "c \<in> set (wired_controllers (ml_Access L m) E f p)"
      "bo_Env s' = boot_env f (bo_Env s)" "fst (boot_manager L scheme f (bo_World s)) = Inr m"
      "boot_provider L E scheme f (bo_World s) = Inr p" by metis
    with mgr prov show ?thesis by metis
  qed
  then show ?thesis using t st by simp
qed

text \<open>The demonstration runs to its end; the environment decides on the registry.\<close>

lemma demo_flags:
  obtains f where "Parse (ml_Flags demo_manager) demo_args default_flags = Inr (f, [])" "registry f = []"
    "metricsAddr f = '':8443''"
proof -
  have "(case Parse (ml_Flags demo_manager) demo_args default_flags of
      Inr (f, r) \<Rightarrow> registry f = [] \<and> r = [] \<and> metricsAddr f = '':8443'' | Inl e \<Rightarrow> False)" by code_simp
  then show thesis using that by (auto split: sum.splits)
qed

lemma demo_main:
  obtains s' where "main demo_manager [] demo_args demo_boot = (Exited 0, s')" "length (bo_Steps s') = 12"
    "bo_Env s' ''CUE_REGISTRY'' = Some ''r.io''"
proof -
  have "(case main demo_manager [] demo_args demo_boot of (x, s') \<Rightarrow>
      x = Exited 0 \<and> length (bo_Steps s') = 12 \<and> bo_Env s' ''CUE_REGISTRY'' = Some ''r.io'')" by code_simp
  then show thesis using that by (auto split: prod.splits)
qed

lemma demo_started:
  obtains f s' mgr prov where "Parse (ml_Flags demo_manager) demo_args default_flags = Inr (f, [])" "registry f = []"
    "metricsAddr f = '':8443''" "main demo_manager [] demo_args demo_boot = (Exited 0, s')"
    "boot_steps demo_boot s' = prepare_plan [] f (bo_Env demo_boot)
       @ serve_plan (ml_Access demo_manager mgr) (ml_Render demo_manager (boot_env f (bo_Env demo_boot))) f prov"
proof (rule demo_flags, rule demo_main)
  fix f s'
  assume f: "Parse (ml_Flags demo_manager) demo_args default_flags = Inr (f, [])" "registry f = []" "metricsAddr f = '':8443''"
    and m: "main demo_manager [] demo_args demo_boot = (Exited 0, s')"
  have "main_run demo_manager [] f demo_boot = (Exited 0, s')" using f(1) m by (simp add: main_def)
  from main_run_ordered [OF this refl] show thesis using that [OF f m] by auto
qed

text \<open>A manager whose controllers cannot be set up.\<close>

definition failing_manager :: "(unit, cval, unit, string list) manager_lib" where
  "failing_manager = demo_manager\<lparr>ml_Complete := (\<lambda>m c w. (Some (errors_New ''no kind is registered''), w))\<rparr>"

lemma failing_main:
  obtains s' where "main failing_manager [] demo_args demo_boot = (Exited 1, s')" "length (bo_Steps s') = 7"
proof -
  have "(case main failing_manager [] demo_args demo_boot of (x, s') \<Rightarrow> x = Exited 1 \<and> length (bo_Steps s') = 7)"
    by code_simp
  then show thesis using that by (auto split: prod.splits)
qed

definition the_provider :: "goerr + cval Provider \<Rightarrow> cval Provider" where
  "the_provider r = (case r of Inl e \<Rightarrow> demo_provider | Inr p \<Rightarrow> p)"

theorem manager_boots_in_order_witness:
  "\<exists>f s' s2 prov. registry f = [] \<and> main demo_manager [] demo_args demo_boot = (Exited 0, s')
     \<and> bo_Steps s' = prepare_plan [] f [''OPM_REGISTRY'' \<mapsto> ''r.io'']
         @ serve_plan (ml_Access demo_manager ()) (ml_Render demo_manager (boot_env f (bo_Env demo_boot))) f prov
     \<and> main failing_manager [] demo_args demo_boot = (Exited 1, s2) \<and> length (bo_Steps s2) = 7
     \<and> bo_Steps s2 = fst (run_plan (step_call failing_manager (ml_Render failing_manager (boot_env f (bo_Env demo_boot))) ())
         (bo_Steps s') ())"
proof -
  obtain f where f: "Parse (ml_Flags demo_manager) demo_args default_flags = Inr (f, [])" "registry f = []"
    by (rule demo_flags)
  obtain s' where m: "main demo_manager [] demo_args demo_boot = (Exited 0, s')" by (rule demo_main)
  obtain s2 where n: "main failing_manager [] demo_args demo_boot = (Exited 1, s2)" "length (bo_Steps s2) = 7"
    by (rule failing_main)
  let ?E = "ml_Render demo_manager (boot_env f (bo_Env demo_boot))"
  define prov where "prov = the_provider (boot_provider demo_manager ?E [] f ())"
  have d: "bo_Steps demo_boot = []" "bo_Env demo_boot = [''OPM_REGISTRY'' \<mapsto> ''r.io'']" "bo_World demo_boot = ()"
    by (simp_all add: demo_boot_def)
  have p: "p = prov" if "boot_provider demo_manager ?E [] f (bo_World demo_boot) = Inr p" for p
    using that by (simp add: prov_def the_provider_def)
  have same: "ml_Flags failing_manager = ml_Flags demo_manager" "ml_Render failing_manager = ml_Render demo_manager"
    "ml_Access failing_manager = ml_Access demo_manager"
    "boot_provider failing_manager ?E [] f w = boot_provider demo_manager ?E [] f w" for w
    by (simp_all add: failing_manager_def boot_provider_def boot_manager_def)
  have q: "p = prov" if "boot_provider failing_manager ?E [] f (bo_World demo_boot) = Inr p" for p
    using that p same(4) by simp
  let ?plan = "prepare_plan [] f (bo_Env demo_boot) @ serve_plan (ml_Access demo_manager ()) ?E f prov"
  have "bo_Steps s' = ?plan"
    using manager_boots_in_order [OF f(1) m refl, of "()" prov] p run_plan_prefix
    by (fastforce simp: d(1,3) split: prod.splits if_splits)
  moreover have "bo_Steps s2 = fst (run_plan (step_call failing_manager ?E ()) ?plan ())"
    using manager_boots_in_order [OF f(1) [folded same(1)] n(1) refl, of "()" prov, unfolded same(2,3)] q
    by (fastforce simp: d(1,3) split: prod.splits)
  ultimately show ?thesis using f(2) m n same(2) by (intro exI [of _ f] exI [of _ s'] exI [of _ s2] exI [of _ prov])
      (simp add: d(2))
qed

text \<open>
  C22: the servers are hardened by default. Whatever else the command line says, the manager is
  created with these options: unless an argument names \<open>enable-http2\<close>, the TLS options of the
  metrics and of the webhook server leave HTTP/1.1 as the only protocol, on every TLS
  configuration; unless an argument names \<open>metrics-secure\<close>, metrics are served securely; and
  metrics are protected by authentication and authorisation exactly when they are served
  securely.
\<close>

theorem manager_servers_hardened:
  assumes run: "main L scheme args s = (x, s')" and new: "NewManager opts \<in> set (boot_steps s s')"
  shows "((\<forall>a\<in>set args. flag_name a \<noteq> ''enable-http2'') \<longrightarrow>
      (\<forall>c. tls_NextProtos (foldl (\<lambda>c g. g c) c (so_TLSOpts (mg_Metrics opts))) = [''http/1.1'']
         \<and> tls_NextProtos (foldl (\<lambda>c g. g c) c (so_TLSOpts (mg_WebhookServer opts))) = [''http/1.1'']))
    \<and> ((\<forall>a\<in>set args. flag_name a \<noteq> ''metrics-secure'') \<longrightarrow> mt_SecureServing (mg_Metrics opts))
    \<and> (mt_FilterProvider (mg_Metrics opts) = Some WithAuthenticationAndAuthorization
         \<longleftrightarrow> mt_SecureServing (mg_Metrics opts))"
proof -
  obtain f rest where f: "Parse (ml_Flags L) args default_flags = Inr (f, rest)" and r: "main_run L scheme f s = (x, s')"
    using run new by (auto simp: main_def boot_steps_def split: sum.splits prod.splits)
  obtain mgr prov where p: "prefix (boot_steps s s') (prepare_plan scheme f (bo_Env s)
      @ serve_plan (ml_Access L mgr) (ml_Render L (boot_env f (bo_Env s))) f prov)"
    using main_run_ordered [OF r refl] by blast
  have o: "opts = manager_options_of scheme f"
    using set_mono_prefix [OF p] new
    by (auto simp: prepare_plan_def setenv_plan_def serve_plan_def Let_def split: if_splits)
  have "enableHTTP2 f = False" if "\<forall>a\<in>set args. flag_name a \<noteq> ''enable-http2''"
    using Parse_default(1) [OF f that] by (simp add: default_flags_def)
  moreover have "secureMetrics f" if "\<forall>a\<in>set args. flag_name a \<noteq> ''metrics-secure''"
    using Parse_default(2) [OF f that] by (simp add: default_flags_def)
  ultimately show ?thesis
    by (simp add: o manager_options_of_def metricsServerOptions_def webhookServerOptions_def tlsOpts_def Let_def
        disableHTTP2_def)
qed

theorem manager_servers_hardened_witness:
  "\<exists>s' opts. main demo_manager [] demo_args demo_boot = (Exited 0, s') \<and> NewManager opts \<in> set (bo_Steps s')
     \<and> mt_BindAddress (mg_Metrics opts) = '':8443'' \<and> mt_FilterProvider (mg_Metrics opts) = Some WithAuthenticationAndAuthorization
     \<and> tls_NextProtos (foldl (\<lambda>c g. g c) \<lparr>tls_NextProtos = [''h2'']\<rparr> (so_TLSOpts (mg_Metrics opts))) = [''http/1.1'']"
proof -
  obtain f s' mgr prov where f: "metricsAddr f = '':8443''" and m: "main demo_manager [] demo_args demo_boot = (Exited 0, s')"
    and st: "boot_steps demo_boot s' = prepare_plan [] f (bo_Env demo_boot)
       @ serve_plan (ml_Access demo_manager mgr) (ml_Render demo_manager (boot_env f (bo_Env demo_boot))) f prov"
    by (rule demo_started)
  let ?opts = "manager_options_of [] f"
  have o: "NewManager ?opts \<in> set (boot_steps demo_boot s')" "mt_BindAddress (mg_Metrics ?opts) = '':8443''"
    using f by (simp_all add: st prepare_plan_def manager_options_of_def metricsServerOptions_def Let_def)
  have b: "boot_steps demo_boot s' = bo_Steps s'" by (simp add: boot_steps_def demo_boot_def)
  have "\<forall>a\<in>set demo_args. flag_name a \<noteq> ''enable-http2''" "\<forall>a\<in>set demo_args. flag_name a \<noteq> ''metrics-secure''"
    by code_simp+
  with manager_servers_hardened [OF m o(1)] m o b show ?thesis by (intro exI [of _ s'] exI [of _ ?opts]) auto
qed

text \<open>The parameter records that the reconcilers hand to their loops.\<close>

definition module_params :: "('w, 'v) ModuleReleaseReconciler \<Rightarrow> ('w, 'v) mr_params" where
  "module_params r = ReconcileParams.extend (mc_Params r) (ModuleReleaseParams.fields (mc_Renderer r) (mc_Canon r))"

definition release_params :: "('w, 'v) ReleaseReconciler \<Rightarrow> ('w, 'v) rel_params" where
  "release_params r = ReconcileParams.extend (rc_Params r)
     (ReleaseParams.fields (rc_GetSource r) (rc_Env r) (rc_Fetcher r) (rc_RenderEnv r) (rc_Provider r) (rc_Renderer r))"

lemma module_params_simps [simp]:
  "pa_Renderer (module_params r) = mc_Renderer r" "pa_Cue (module_params r) = pa_Cue (mc_Params r)"
  "pa_DefaultServiceAccount (module_params r) = pa_DefaultServiceAccount (mc_Params r)"
  "pa_ResourceManager (module_params r) = pa_ResourceManager (mc_Params r)"
  by (simp_all add: module_params_def ReconcileParams.extend_def ModuleReleaseParams.fields_def)

lemma release_params_simps [simp]:
  "rp_Renderer (release_params r) = rc_Renderer r" "rp_Provider (release_params r) = rc_Provider r" "rp_Fetcher (release_params r) = rc_Fetcher r"
  "rp_Env (release_params r) = rc_Env r" "pa_Cue (release_params r) = pa_Cue (rc_Params r)"
  "pa_DefaultServiceAccount (release_params r) = pa_DefaultServiceAccount (rc_Params r)"
  "pa_ResourceManager (release_params r) = pa_ResourceManager (rc_Params r)"
  by (simp_all add: release_params_def ReconcileParams.extend_def ReleaseParams.fields_def)

lemma Reconcile_params:
  "ModuleReleaseReconciler_Reconcile rm req s = ReconcileModuleRelease (module_params rm) req s"
  "ReleaseReconciler_Reconcile rr req t = ReconcileRelease (release_params rr) req t"
  by (simp_all add: ModuleReleaseReconciler_Reconcile_def ReleaseReconciler_Reconcile_def module_params_def release_params_def)

text \<open>A controller is wired as the loops need it.\<close>

definition well_wired :: "string \<Rightarrow> ('w, 'v) controller \<Rightarrow> bool" where
  "well_wired sa c \<longleftrightarrow>
     (case cb_Reconciler c of
        RunsModuleRelease r \<Rightarrow>
          (\<forall>req s. ModuleReleaseReconciler_Reconcile r req s = ReconcileModuleRelease (module_params r) req s)
          \<and> module_renderer (pa_Renderer (module_params r)) (pa_Cue (module_params r))
          \<and> pa_DefaultServiceAccount (module_params r) = sa
          \<and> pa_ResourceManager (module_params r) = NewResourceManager ControllerClient ''opm-controller''
      | RunsRelease r \<Rightarrow>
          (\<forall>req s. ReleaseReconciler_Reconcile r req s = ReconcileRelease (release_params r) req s)
          \<and> package_renderer (effective_renderer (release_params r)) (pa_Cue (release_params r))
          \<and> built_in_fetcher (release_params r)
          \<and> pa_DefaultServiceAccount (release_params r) = sa
          \<and> pa_ResourceManager (release_params r) = NewResourceManager ControllerClient ''opm-controller''
      | RunsBundleRelease r \<Rightarrow>
          (\<forall>req (s :: ('w, BundleRelease) pstate). BundleReleaseReconciler_Reconcile r req s = (Returned no_requeue None, s)))"

lemma wired_controllers_contracts:
  assumes "c \<in> set (wired_controllers A E f prov)"
  shows "well_wired (defaultServiceAccount f) c"
  using assms production_renderer.module_renderer_axioms [of E prov]
    production_package_renderer.package_renderer_axioms [of E]
  by (auto simp: wired_controllers_def well_wired_def ModuleReleaseReconciler_controller_def
      BundleReleaseReconciler_controller_def ReleaseReconciler_controller_def moduleReleaseReconciler_def
      releaseReconciler_def controller_params_def Reconcile_params effective_renderer_def
      BundleReleaseReconciler_Reconcile_def built_in_fetcher_def effective_fetcher_def)

text \<open>
  C21: a started manager runs the loops with the dependencies they rely on, whatever the CUE
  evaluator does. Every controller that \<open>main\<close> sets up is well wired: the ModuleRelease
  controller runs its loop with a renderer that keeps the renderer's contract, the Release
  controller with the package renderer and the verifying artifact fetcher, both with the
  default ServiceAccount of the command line and the operator's own field manager, and the
  BundleRelease controller changes nothing. The manager's process ends with 0 only if all three
  controllers were set up.
\<close>

theorem manager_wires_contracts:
  assumes parse: "Parse (ml_Flags L) args default_flags = Inr (f, rest)"
    and run: "main L scheme args s = (x, s')"
  shows "(\<forall>c. SetupWithManager c \<in> set (boot_steps s s') \<longrightarrow> well_wired (defaultServiceAccount f) c)
    \<and> (x = Exited 0 \<longrightarrow> (\<exists>cs. map cb_For cs = [WatchModuleRelease, WatchBundleRelease, WatchRelease]
        \<and> SetupWithManager ` set cs \<subseteq> set (boot_steps s s')))"
proof -
  have r: "main_run L scheme f s = (x, s')" using parse run by (simp add: main_def)
  from main_run_ordered [OF r refl] obtain mgr prov where
    x: "x = Exited 1 \<or> x = Exited 0 \<and> boot_steps s s' = prepare_plan scheme f (bo_Env s)
        @ serve_plan (ml_Access L mgr) (ml_Render L (boot_env f (bo_Env s))) f prov"
    and c: "\<And>c. SetupWithManager c \<in> set (boot_steps s s') \<Longrightarrow>
        c \<in> set (wired_controllers (ml_Access L mgr) (ml_Render L (boot_env f (bo_Env s))) f prov)"
    by blast
  let ?cs = "wired_controllers (ml_Access L mgr) (ml_Render L (boot_env f (bo_Env s))) f prov"
  have "SetupWithManager ` set ?cs \<subseteq> set (boot_steps s s')" if "x = Exited 0"
    using x that by (auto simp: serve_plan_def)
  moreover have "map cb_For ?cs = [WatchModuleRelease, WatchBundleRelease, WatchRelease]"
    by (simp add: wired_controllers_def ModuleReleaseReconciler_controller_def
        BundleReleaseReconciler_controller_def ReleaseReconciler_controller_def)
  ultimately have "x = Exited 0 \<longrightarrow> (\<exists>cs. map cb_For cs = [WatchModuleRelease, WatchBundleRelease, WatchRelease]
      \<and> SetupWithManager ` set cs \<subseteq> set (boot_steps s s'))" by (intro impI exI [of _ ?cs] conjI)
  with wired_controllers_contracts [OF c] show ?thesis by (intro conjI allI) (rule impI)
qed

theorem manager_wires_contracts_witness:
  "\<exists>s' c. main demo_manager [] demo_args demo_boot = (Exited 0, s') \<and> SetupWithManager c \<in> set (bo_Steps s')
     \<and> well_wired [] c"
proof -
  obtain f s' mgr prov where f: "Parse (ml_Flags demo_manager) demo_args default_flags = Inr (f, [])"
    and m: "main demo_manager [] demo_args demo_boot = (Exited 0, s')"
    by (rule demo_started)
  have "(case Parse (ml_Flags demo_manager) demo_args default_flags of
      Inr (f, r) \<Rightarrow> defaultServiceAccount f = [] | Inl e \<Rightarrow> False)" by code_simp
  then have sa: "defaultServiceAccount f = []" by (simp add: f)
  note w = manager_wires_contracts [OF f m, unfolded sa]
  obtain cs where cs: "map cb_For cs = [WatchModuleRelease, WatchBundleRelease, WatchRelease]"
    "SetupWithManager ` set cs \<subseteq> set (boot_steps demo_boot s')"
    using mp [OF conjunct2 [OF w] refl] by (elim exE conjE)
  then have "hd cs \<in> set cs" by (cases cs) simp_all
  then have hd: "SetupWithManager (hd cs) \<in> set (boot_steps demo_boot s')" using cs(2) by blast
  moreover have "well_wired [] (hd cs)" using conjunct1 [OF w] hd by simp
  ultimately show ?thesis using m by (auto simp: boot_steps_def demo_boot_def)
qed

end
