(* ===== verification/Opm_Rel_Reach.thy ===== *)
theory Opm_Rel_Reach
  imports Opm_MR_Reach Opm_Rel_Props
begin

text \<open>
  The states a Release can reach: it is created with an empty status, users edit its metadata
  and spec at any time, and every status the handler writes in some run on it may become its
  status. The invariant is the one of the ModuleRelease, with the source status.
\<close>

inductive rel_reach :: "('w, 'v) rel_params \<Rightarrow> nat \<Rightarrow> Release \<Rightarrow> bool" for P where
  created: "cr_Status rel = empty_release_status \<Longrightarrow> rel_reach P 0 rel"
| edited: "rel_reach P n rel \<Longrightarrow> cr_Status rel' = cr_Status rel \<Longrightarrow> rel_reach P n rel'"
| reconciled: "rel_reach P n rel \<Longrightarrow> call (ca_Get (pa_CR P) req) s = (Inr rel, s1) \<Longrightarrow>
    ReconcileRelease P req s = (x, s') \<Longrightarrow> PatchStatus rel' owned g \<in> set (new_effects s s') \<Longrightarrow>
    rel_reach P (Suc n) rel'"

inductive_cases rel_reach_0E: "rel_reach P 0 rel"

subsection \<open>One run keeps the invariant\<close>

text \<open>Every mark of the phases keeps one condition per type.\<close>

lemma failing_ok:
  assumes "flux_conditions K" "conditions_ok (conds rel)" "failing K rel i f rel'"
  shows "conditions_ok (conds rel')"
  using assms(2,3) flux_conditions.ok_marks [OF assms(1)]
  by (auto simp: failing_def in_progress_def started_def)

lemma rel_body_ok:
  assumes laws: "flux_conditions (pa_Kube P)" and ok: "conditions_ok (conds rel)"
    and run: "rel_body P i (init_locals rel) s = (x, L, s')"
  shows "conditions_ok (conds (l_obj L))"
  using run
proof (cases rule: rel_body_cases)
  case (early f es)
  then show ?thesis using failing_ok [OF laws ok] by blast
next
  case (deployed art rr es)
  note marks = flux_conditions.ok_marks [OF laws]
  from deployed(3) show ?thesis
    by (cases rule: deployed.cases)
      (use failing_ok [OF laws ok] marks ok in \<open>auto simp: in_progress_def started_def\<close>)
qed

lemma rel_commit_status_inv:
  assumes inv: "history_inv n (st_History (cr_Status (l_obj L)))"
      "inventory_inv n (st_Inventory (cr_Status (l_obj L)))"
    and n: "int n < int64_max" and ok: "conditions_ok (st_Conditions (rel_commit_status K L now t d ra))"
  shows "status_inv (Suc n) (rel_commit_status K L now t d ra)"
proof -
  let ?st = "record_attempt now d (l_digests L)
    ((cr_Status (l_obj L))\<lparr>st_ObservedGeneration := om_Generation (cr_Meta (l_obj L))\<rparr>)"
  have "history_inv n (st_History ?st)" using inv(1) by (simp add: status_simps)
  from record_outcome_history [OF this n, of L now t] history_inv_mono [OF inv(1), of "Suc n"]
  have "history_inv (Suc n) (st_History (rel_commit_status K L now t d ra))"
    by (simp add: rel_commit_status_def Let_def status_simps)
  moreover have "inventory_inv (Suc n) (st_Inventory (rel_commit_status K L now t d ra))"
    using inventory_inv_next [OF inv(2) n] inventory_inv_mono [OF inv(2), of "Suc n"]
    by (simp add: rel_commit_status_def Let_def status_simps)
  ultimately show ?thesis using ok by (simp add: status_inv_def)
qed

lemma rel_reconcile_status_inv:
  assumes laws: "flux_conditions (pa_Kube P)" and n: "int n < int64_max"
    and inv: "status_inv n (cr_Status rel)"
    and get: "call (ca_Get (pa_CR P) req) s = (Inr rel, s1)"
    and run: "ReconcileRelease P req s = (x, s')"
    and patch: "PatchStatus rel' owned g \<in> set (new_effects s s')"
  shows "status_inv (Suc n) (cr_Status rel')"
proof -
  note marks = flux_conditions.ok_marks [OF laws]
  have ok: "conditions_ok (conds rel)" using inv by (simp add: status_inv_def)
  have up: "status_inv (Suc n) (cr_Status rel)" using inv by (rule status_inv_mono) simp
  from run get show ?thesis
  proof (cases rule: rel_run_cases)
    case finalizer
    with patch show ?thesis by simp
  next
    case (deleting s2)
    have "deletion_status_of (pa_Kube P) rel rel'"
      using deletion_cleanup_effects deleting(2,3) patch
      by (fastforce simp: handleReleaseDeletion_eq list_all_iff deletion_effect_def)
    then show ?thesis
      using up ok marks by (auto simp: deletion_status_of_def status_inv_def inventory_inv_def)
  next
    case suspended
    with patch have "rel' = suspended_release (pa_Kube P) rel" by (simp add: rel_suspend_event_def)
    then show ?thesis using up marks ok by (simp add: suspended_release_def observe_def status_inv_def)
  next
    case (blocked evs t msg)
    with patch have "rel' = blocked_release (pa_Kube P) msg rel" by (auto simp: list_all_iff)
    then show ?thesis using up marks ok by (simp add: blocked_release_def observe_def status_inv_def)
  next
    case (active evs es s2 L s3 rel2)
    have rel2: "rel2 = rel'"
      using patch active(4,7) rel_body_kinds [OF active(5,6)] by (auto simp: list_all_iff)
    note frame = rel_body_frame [OF active(5)]
    obtain now t d ra where rel': "rel' = (l_obj L)\<lparr>cr_Status := rel_commit_status (pa_Kube P) L now t d ra\<rparr>"
      using active(8) rel2 by (auto simp: rel_committed_def)
    have "conditions_ok (conds rel')"
      using rel_committedD(4) [OF active(8) frame] rel_body_ok [OF laws ok active(5)] marks rel2 by simp
    then have "status_inv (Suc n) (rel_commit_status (pa_Kube P) L now t d ra)"
      using inv n rel_frameD(3,5) [OF frame] rel' by (intro rel_commit_status_inv) (simp_all add: status_inv_def)
    then show ?thesis by (simp add: rel')
  qed
qed

subsection \<open>Property\<close>

text \<open>
  C28: the status of a Release is well-formed in every reachable state, after fewer than the
  maximal 64-bit number of status writes: at most one condition per type; a history of at most
  ten entries, newest first, with positive and strictly decreasing sequence numbers; and an
  inventory whose digest and count are those of its entries and whose revision is positive and
  at most the number of writes.
\<close>

theorem rel_reach_well_formed:
  assumes "rel_reach P n rel" and "flux_conditions (pa_Kube P)" and "int n < int64_max"
  shows "conditions_ok (conds rel) \<and> history_ok (st_History (cr_Status rel))
    \<and> (case st_Inventory (cr_Status rel) of None \<Rightarrow> True | Some i \<Rightarrow>
         inv_Digest i = ComputeDigest (inv_Entries i) \<and> inv_Count i = of_nat (length (inv_Entries i))
         \<and> 1 \<le> sint (inv_Revision i) \<and> sint (inv_Revision i) \<le> int n)"
proof -
  have "status_inv n (cr_Status rel)"
    using assms
  proof (induction rule: rel_reach.induct)
    case (created rel)
    then show ?case
      by (simp add: status_inv_def history_inv_def history_ok_def inventory_inv_def empty_release_status_def
          empty_common_def CommonStatus.defs)
  next
    case (reconciled n rel req s s1 x s' rel' owned g)
    have "status_inv n (cr_Status rel)" using reconciled by simp
    then show ?case
      using rel_reconcile_status_inv [OF reconciled.prems(1) _ _ reconciled.hyps(2,3,4)] reconciled.prems by simp
  qed simp
  then show ?thesis by (simp add: status_inv_def history_inv_def inventory_inv_def)
qed

theorem rel_reach_well_formed_witness:
  "\<exists>rel. rel_reach rel_demo_params 1 rel \<and> cr_Status rel \<noteq> empty_release_status
     \<and> conditions_ok (conds rel) \<and> history_ok (st_History (cr_Status rel))"
proof -
  let ?rel = "demo_rel\<lparr>cr_Status := empty_release_status, cr_Spec := rel_demo_spec\<lparr>sp_Suspend := True\<rparr>\<rparr>"
  obtain x s' where run: "ReconcileRelease rel_demo_params demo_req (rel_demo_state ?rel) = (x, s')" by fastforce
  let ?new = "suspended_release std_kube ?rel"
  have p: "PatchStatus ?new rel_owned True \<in> set (new_effects (rel_demo_state ?rel) s')"
    using run rel_demo_get
  proof (cases rule: rel_run_cases)
    case suspended
    then show ?thesis by simp
  next
    case finalizer
    from this(1) show ?thesis by simp
  next
    case deleting
    from this(1) show ?thesis by simp
  next
    case blocked
    from this(4) show ?thesis by simp
  next
    case active
    from this(2) show ?thesis by simp
  qed
  have "std_find (conds ?new) ReadyCondition \<noteq> None"
    using std.find_MarkSuspended [of "[]"]
    by (simp add: suspended_release_def observe_def empty_release_status_def empty_common_def CommonStatus.defs
        ReleaseStatus.defs condition_types)
  then have "cr_Status ?new \<noteq> empty_release_status"
    by (auto simp: empty_release_status_def empty_common_def CommonStatus.defs ReleaseStatus.defs)
  moreover have r: "rel_reach rel_demo_params 1 ?new"
    using rel_reach.reconciled [OF rel_reach.created rel_demo_get run p] by simp
  moreover have "flux_conditions (pa_Kube rel_demo_params)" by simp unfold_locales
  ultimately show ?thesis using rel_reach_well_formed [OF r] by (simp add: int64_max_def) blast
qed

end
