(* ===== verification/Opm_Isolation.thy ===== *)
theory Opm_Isolation
  imports Opm_Refine
begin

text \<open>
  Several releases on one cluster. The controller's worker runs the handler for one release
  after the other, users and other controllers change the cluster in between, and every run
  reads whatever release object the API server has at that time. A history is such a sequence;
  the property is that an object another release owns lives through all of it.
\<close>

subsection \<open>Histories\<close>

text \<open>
  A run that has its own identity and no business with the object at key \<open>k\<close>: a deletion
  run knows a release UUID that is not \<open>U\<close>, and a run that applies renders no object at
  \<open>k\<close> and prunes under a UUID that is not \<open>U\<close>.
\<close>

definition foreign_run ::
  "('w, 'v) mr_params \<Rightarrow> object_key \<Rightarrow> string \<Rightarrow> NamespacedName \<Rightarrow> 'w mr_state \<Rightarrow> 'w mr_state \<Rightarrow> bool" where
  "foreign_run P k U req s s' \<longleftrightarrow> (\<forall>mr s0. call (ca_Get (pa_CR P) req) s = (Inr mr, s0) \<longrightarrow>
     (om_DeletionTimestamp (cr_Meta mr) \<noteq> None \<longrightarrow> st_ReleaseUUID (cr_Status mr) \<notin> {[], U})
     \<and> (\<forall>rs. apply_call P mr rs \<in> set (new_effects s s') \<longrightarrow>
          k \<notin> obj_key ` set rs \<and> owner_uuid mr rs \<notin> {[], U}))"

text \<open>
  An external change may touch everything but the object at \<open>k\<close>: the releases, their
  inventories and statuses, every other object, the clock.
\<close>

inductive history ::
  "('w, 'v) mr_params \<Rightarrow> ('w \<Rightarrow> cluster_view) \<Rightarrow> object_key \<Rightarrow> string \<Rightarrow> 'w mr_state \<Rightarrow> 'w mr_state \<Rightarrow> bool"
  for P view k U where
  start: "history P view k U s s"
| external: "history P view k U s s1 \<Longrightarrow> view (p_World s2) k = view (p_World s1) k \<Longrightarrow> history P view k U s s2"
| reconcile: "history P view k U s s1 \<Longrightarrow> ReconcileModuleRelease P req s1 = (x, s2) \<Longrightarrow>
    foreign_run P k U req s1 s2 \<Longrightarrow> history P view k U s s2"

subsection \<open>One run\<close>

lemma prunable_keys_other_owner:
  assumes "v k = Some l" "map_index l LabelModuleReleaseUUID = U" "U \<noteq> []" and "uuid \<notin> {[], U}"
  shows "k \<notin> prunable_keys uuid es v"
  using assms by (auto simp: prunable_keys_def prunable_labels_def)

context mr_cluster
begin

lemma foreign_run_keeps:
  assumes run: "ReconcileModuleRelease P req s = (x, s')"
    and foreign: "foreign_run P k U req s s'"
    and obj: "view (p_World s) k = Some l" "map_index l LabelModuleReleaseUUID = U" "U \<noteq> []"
  shows "view (p_World s') k = Some l"
proof -
  obtain g s0 where g: "call (ca_Get (pa_CR P) req) s = (g, s0)" by fastforce
  note safe = prunable_keys_other_owner [where v = "view (p_World s)", OF obj]
  show ?thesis
  proof (cases g)
    case (Inl e)
    then have "s' = s0" using run g by (simp add: ReconcileModuleRelease_def)
    then show ?thesis using quiet_calls(1) [OF g] obj(1) by (simp add: steady_def)
  next
    case (Inr mr)
    note get = g [unfolded Inr]
    show ?thesis
    proof (cases "om_DeletionTimestamp (cr_Meta mr)")
      case None
      show ?thesis
        using run get None
      proof (cases rule: mr_live_view_cases)
        case untouched
        then show ?thesis using obj(1) by simp
      next
        case (applied rr rs pre post)
        then have "k \<notin> obj_key ` set rs" "owner_uuid mr rs \<notin> {[], U}"
          using foreign get by (auto simp: foreign_run_def)
        then show ?thesis
          using applied_and_pruned_footprint [OF applied(5), of k] safe obj(1) by metis
      qed
    next
      case (Some t)
      show ?thesis
        using run get
      proof (cases rule: mr_run_view_cases)
        case idle
        then show ?thesis using obj(1) by (simp add: steady_def)
      next
        case (deleting s2 s3)
        have "st_ReleaseUUID (cr_Status mr) \<notin> {[], U}"
          using foreign get Some by (auto simp: foreign_run_def)
        then show ?thesis
          using deletion_cleanup_view(1) [of mr_owned _ mr s2 x s3 k] deleting(2,4,5) safe obj(1)
          by (auto simp: handleDeletion_def steady_def)
      qed (use Some in simp)
    qed
  qed
qed

lemma history_keeps:
  assumes "history P view k U s s'"
    and "view (p_World s) k = Some l" "map_index l LabelModuleReleaseUUID = U" "U \<noteq> []"
  shows "view (p_World s') k = Some l"
  using assms by (induction rule: history.induct) (auto intro: foreign_run_keeps)

end

subsection \<open>A takeover\<close>

text \<open>
  Another release has adopted the ConfigMap that the demonstration release still has in its
  inventory: the object carries the UUID \<open>u2\<close> now.
\<close>

definition taken_labels :: "string \<Rightarrow> string option" where
  "taken_labels = demo_labels(LabelModuleReleaseUUID \<mapsto> ''u2'')"

definition taken_state :: "demo_world mr_state" where
  "taken_state = (demo_state demo_mr)\<lparr>p_World := (p_World (demo_state demo_mr))
     \<lparr>mw_Objects := (mw_Objects (p_World (demo_state demo_mr)))(obj_key old_obj \<mapsto> (taken_labels, ''old''))\<rparr>\<rparr>"

definition next_day :: "demo_world mr_state \<Rightarrow> demo_world mr_state" where
  "next_day s = s\<lparr>p_World := (p_World s)\<lparr>mw_CR := Some demo_mr, mw_Clock := mw_Clock (p_World s) + 86400\<rparr>\<rparr>"

lemma demo_foreign_run:
  assumes run: "ReconcileModuleRelease demo_params demo_req s = (x, s')"
    and cr: "mw_CR (p_World s) = Some demo_mr"
  shows "foreign_run demo_params (obj_key old_obj) ''u2'' demo_req s s'"
proof -
  have get: "call (ca_Get (pa_CR demo_params) demo_req) s = (Inr demo_mr, s)"
    using cr by (simp add: call_def)
  have live: "om_DeletionTimestamp (cr_Meta demo_mr) = None" by simp
  have only: "rs = [web_obj]" if ap: "apply_call demo_params demo_mr rs \<in> set (new_effects s s')" for rs
    using run get live
  proof (cases rule: demo_cluster.mr_live_view_cases)
    case untouched
    then show ?thesis using ap no_apply [OF untouched(2)] by (simp only: apply_call_def)
  next
    case (applied rr rs' pre post)
    then have "rs' = [web_obj]" by (auto simp: rendered_at_def render_call_def)
    moreover have "rs = rs'" using ap applied(3) no_apply [OF applied(4)] by (auto simp: apply_call_def)
    ultimately show ?thesis by simp
  qed
  have "obj_key old_obj \<notin> obj_key ` set rs \<and> owner_uuid demo_mr rs \<notin> {[], ''u2''}"
    if "apply_call demo_params demo_mr rs \<in> set (new_effects s s')" for rs
    using only [OF that] by (simp add: owner_uuid_def)
  then show ?thesis unfolding foreign_run_def get prod.inject sum.inject using live by metis
qed

subsection \<open>Property\<close>

text \<open>
  C10: releases do not take each other's objects. In every sequence of ModuleRelease runs and
  external changes on a cluster whose API server keeps its contract, an object that carries the
  UUID of a release \<open>U\<close> stays as it is, whatever inventories and statuses the other
  releases have and however their runs end, as long as nobody writes the object itself: every
  run prunes under a non-empty UUID other than \<open>U\<close> and renders no object at that key, and
  the external changes leave the object alone.
\<close>

theorem releases_isolated:
  assumes laws: "mr_cluster P view terminating"
    and history: "history P view k U s s'"
    and obj: "view (p_World s) k = Some l" "map_index l LabelModuleReleaseUUID = U" "U \<noteq> []"
  shows "view (p_World s') k = Some l"
  using mr_cluster.history_keeps [OF laws history obj] .

theorem releases_isolated_witness:
  "let s1 = snd (ReconcileModuleRelease demo_params demo_req taken_state);
       s2 = snd (ReconcileModuleRelease demo_params demo_req (next_day s1))
   in NewEntryFromResource old_obj \<in> set (previousEntries (cr_Status demo_mr))
     \<and> mem_view (p_World s2) (obj_key old_obj) = Some taken_labels"
proof -
  obtain x s1 where 1: "ReconcileModuleRelease demo_params demo_req taken_state = (x, s1)" by fastforce
  obtain y s2 where 2: "ReconcileModuleRelease demo_params demo_req (next_day s1) = (y, s2)" by fastforce
  have "history demo_params mem_view (obj_key old_obj) ''u2'' taken_state s1"
    by (rule history.reconcile [OF history.start 1 demo_foreign_run [OF 1]]) (simp add: taken_state_def)
  then have "history demo_params mem_view (obj_key old_obj) ''u2'' taken_state (next_day s1)"
    by (rule history.external) (simp add: next_day_def mem_view_def)
  then have h: "history demo_params mem_view (obj_key old_obj) ''u2'' taken_state s2"
    by (rule history.reconcile [OF _ 2 demo_foreign_run [OF 2]]) (simp add: next_day_def)
  have "mem_view (p_World s2) (obj_key old_obj) = Some taken_labels"
    by (rule releases_isolated [OF demo_cluster.mr_cluster_axioms h])
      (simp_all add: taken_state_def mem_view_def taken_labels_def)
  then show ?thesis using 1 2 by (simp add: Let_def previousEntries_def)
qed

end
