(* ===== verification/Opm_Heap.thy ===== *)
theory Opm_Heap
  imports Main
begin

text \<open>
  Memory for the deep copies. The handlers work on values; the generated code works on
  pointers, and a deep copy is what makes the two agree. A heap is a list of cells, an address is
  an index, allocation appends. A copier describes one Go type: how its layout is read back as
  a value, which cells it reaches, and how it is copied. The locale states what a deep copy
  promises; the combinators build copiers of pointers, slices and structs and keep the promise.
\<close>

subsection \<open>Heaps and copiers\<close>

type_synonym addr = nat

record ('c, 'l, 'v) copier =
  cp_View :: "'c list \<Rightarrow> 'l \<Rightarrow> 'v option"
  cp_Reach :: "'c list \<Rightarrow> 'l \<Rightarrow> addr set"
  cp_Copy :: "'l \<Rightarrow> 'c list \<Rightarrow> 'l \<times> 'c list"

text \<open>Two heaps agree on a set of addresses; the first of them may be shorter.\<close>

definition agree :: "addr set \<Rightarrow> 'c list \<Rightarrow> 'c list \<Rightarrow> bool" where
  "agree S h g \<longleftrightarrow> (\<forall>a\<in>S. a < length h \<longrightarrow> a < length g \<and> g ! a = h ! a)"

lemma agree_append [simp]: "agree S h (h @ ys)"
  by (simp add: agree_def nth_append)

lemma agree_mono: "agree S h g \<Longrightarrow> R \<subseteq> S \<Longrightarrow> agree R h g"
  by (auto simp: agree_def)

lemma agree_Un [simp]: "agree (R \<union> S) h g \<longleftrightarrow> agree R h g \<and> agree S h g"
  by (auto simp: agree_def)

lemma agree_insert: "agree (insert a S) h g \<Longrightarrow> a < length h \<Longrightarrow> a < length g \<and> g ! a = h ! a"
  by (simp add: agree_def)

locale deep_copier =
  fixes A :: "('c, 'l, 'v) copier"
  assumes reach: "cp_View A h l = Some v \<Longrightarrow> cp_Reach A h l \<subseteq> {..<length h}"
    and frame: "cp_View A h l = Some v \<Longrightarrow> agree (cp_Reach A h l) h g
      \<Longrightarrow> cp_View A g l = Some v \<and> cp_Reach A g l = cp_Reach A h l"
    and copy: "cp_View A h l = Some v \<Longrightarrow> cp_Copy A l h = (l', h')
      \<Longrightarrow> (\<exists>ys. h' = h @ ys) \<and> cp_View A h' l' = Some v \<and> cp_Reach A h' l' \<subseteq> {length h..}"
begin

lemma view_append:
  assumes "cp_View A h l = Some v"
  shows "cp_View A (h @ ys) l = Some v" "cp_Reach A (h @ ys) l = cp_Reach A h l"
  using frame [OF assms agree_append] by simp_all

text \<open>
  Independence: writes to the memory that existed before the copy do not show in the copy,
  and writes to the memory of the copy do not show in the original.
\<close>

lemma copy_independent:
  assumes "cp_View A h l = Some v" and "cp_Copy A l h = (l', h')"
  shows "agree {length h..} h' g \<Longrightarrow> cp_View A g l' = Some v"
    and "agree {..<length h} h' g \<Longrightarrow> cp_View A g l = Some v"
proof -
  obtain ys where h': "h' = h @ ys" and l': "cp_View A h' l' = Some v" "cp_Reach A h' l' \<subseteq> {length h..}"
    using copy [OF assms] by blast
  show "cp_View A g l' = Some v" if "agree {length h..} h' g"
    using frame [OF l'(1) agree_mono [OF that l'(2)]] by simp
  have "cp_Reach A h' l \<subseteq> {..<length h}" using reach [OF assms(1)] view_append [OF assms(1)] h' by simp
  then show "cp_View A g l = Some v" if "agree {..<length h} h' g"
    using frame [OF view_append(1) [OF assms(1), of ys, folded h'] agree_mono [OF that]] by simp
qed

end

subsection \<open>Combinators\<close>

text \<open>Plain assignment, for types without pointers.\<close>

definition flat :: "('c, 'v, 'v) copier" where
  "flat = \<lparr>cp_View = (\<lambda>h l. Some l), cp_Reach = (\<lambda>h l. {}), cp_Copy = Pair\<rparr>"

text \<open>\<open>if in.F != nil\<close>: a nil pointer or slice stays nil.\<close>

definition copy_opt :: "('l \<Rightarrow> 'c list \<Rightarrow> 'l \<times> 'c list) \<Rightarrow> 'l option \<Rightarrow> 'c list \<Rightarrow> 'l option \<times> 'c list" where
  "copy_opt f p h = (case p of None \<Rightarrow> (None, h) | Some a \<Rightarrow> (case f a h of (a', h') \<Rightarrow> (Some a', h')))"

definition opt :: "('c, 'l, 'v) copier \<Rightarrow> ('c, 'l option, 'v option) copier" where
  "opt A = \<lparr>cp_View = (\<lambda>h p. case p of None \<Rightarrow> Some None | Some l \<Rightarrow> map_option Some (cp_View A h l)),
     cp_Reach = (\<lambda>h p. case p of None \<Rightarrow> {} | Some l \<Rightarrow> cp_Reach A h l), cp_Copy = copy_opt (cp_Copy A)\<rparr>"

text \<open>\<open>*out = new(T)\<close> or \<open>make([]T, n)\<close>, then the contents are copied into the new cell.\<close>

definition copy_new ::
  "'c \<Rightarrow> ('l \<Rightarrow> 'c) \<Rightarrow> ('c \<Rightarrow> 'l option) \<Rightarrow> ('l \<Rightarrow> 'c list \<Rightarrow> 'l \<times> 'c list) \<Rightarrow> addr \<Rightarrow> 'c list \<Rightarrow> addr \<times> 'c list" where
  "copy_new zero wrap unwrap into a h =
     (case unwrap (h ! a) of
        None \<Rightarrow> (a, h)
      | Some l \<Rightarrow> (case into l (h @ [zero]) of (l', h') \<Rightarrow> (length h, h'[length h := wrap l'])))"

definition ref ::
  "'c \<Rightarrow> ('l \<Rightarrow> 'c) \<Rightarrow> ('c \<Rightarrow> 'l option) \<Rightarrow> ('c, 'l, 'v) copier \<Rightarrow> ('c, addr, 'v) copier" where
  "ref zero wrap unwrap A =
     \<lparr>cp_View = (\<lambda>h a. if a < length h then Option.bind (unwrap (h ! a)) (cp_View A h) else None),
      cp_Reach = (\<lambda>h a. insert a (case unwrap (h ! a) of None \<Rightarrow> {} | Some l \<Rightarrow> cp_Reach A h l)),
      cp_Copy = copy_new zero wrap unwrap (cp_Copy A)\<rparr>"

text \<open>\<open>for i := range *in\<close>.\<close>

fun copy_elements :: "('l \<Rightarrow> 'c list \<Rightarrow> 'l \<times> 'c list) \<Rightarrow> 'l list \<Rightarrow> 'c list \<Rightarrow> 'l list \<times> 'c list" where
  "copy_elements f [] h = ([], h)"
| "copy_elements f (l # ls) h =
     (case f l h of (l', h1) \<Rightarrow> (case copy_elements f ls h1 of (ls', h2) \<Rightarrow> (l' # ls', h2)))"

fun view_elements :: "('c, 'l, 'v) copier \<Rightarrow> 'c list \<Rightarrow> 'l list \<Rightarrow> 'v list option" where
  "view_elements A h [] = Some []"
| "view_elements A h (l # ls) =
     Option.bind (cp_View A h l) (\<lambda>v. map_option (Cons v) (view_elements A h ls))"

definition elements :: "('c, 'l, 'v) copier \<Rightarrow> ('c, 'l list, 'v list) copier" where
  "elements A = \<lparr>cp_View = view_elements A, cp_Reach = (\<lambda>h ls. \<Union>l\<in>set ls. cp_Reach A h l),
     cp_Copy = copy_elements (cp_Copy A)\<rparr>"

text \<open>Two fields, one after the other.\<close>

definition both :: "('c, 'l, 'v) copier \<Rightarrow> ('c, 'k, 'u) copier \<Rightarrow> ('c, 'l \<times> 'k, 'v \<times> 'u) copier" where
  "both A B =
     \<lparr>cp_View = (\<lambda>h (l, k). Option.bind (cp_View A h l) (\<lambda>v. map_option (Pair v) (cp_View B h k))),
      cp_Reach = (\<lambda>h (l, k). cp_Reach A h l \<union> cp_Reach B h k),
      cp_Copy = (\<lambda>(l, k) h. case cp_Copy A l h of (l', h1) \<Rightarrow> (case cp_Copy B k h1 of (k', h2) \<Rightarrow> ((l', k'), h2)))\<rparr>"

text \<open>
  A struct: \<open>*out = *in\<close> followed by the copies of some fields, which \<open>get\<close> reads and
  \<open>put\<close> stores; \<open>build\<close> makes the value from the layout and the values of these fields.
\<close>

definition struct ::
  "('l \<Rightarrow> 'k) \<Rightarrow> ('k \<Rightarrow> 'l \<Rightarrow> 'l) \<Rightarrow> ('l \<Rightarrow> 'v \<Rightarrow> 'u) \<Rightarrow> ('c, 'k, 'v) copier \<Rightarrow> ('c, 'l, 'u) copier" where
  "struct get put build A =
     \<lparr>cp_View = (\<lambda>h l. map_option (build l) (cp_View A h (get l))), cp_Reach = (\<lambda>h l. cp_Reach A h (get l)),
      cp_Copy = (\<lambda>l h. case cp_Copy A (get l) h of (k, h') \<Rightarrow> (put k l, h'))\<rparr>"

subsection \<open>The combinators keep the promise\<close>

lemma flat_copier: "deep_copier flat"
  by unfold_locales (auto simp: flat_def)

lemma opt_copier:
  assumes A: "deep_copier A"
  shows "deep_copier (opt A)"
proof
  fix h p v g p' h'
  assume v: "cp_View (opt A) h p = Some v"
  show "cp_Reach (opt A) h p \<subseteq> {..<length h}"
    using v deep_copier.reach [OF A] by (auto simp: opt_def split: option.splits)
  show "cp_View (opt A) g p = Some v \<and> cp_Reach (opt A) g p = cp_Reach (opt A) h p"
    if "agree (cp_Reach (opt A) h p) h g"
  proof (cases p)
    case (Some l)
    then obtain x where x: "cp_View A h l = Some x" "v = Some x" using v by (auto simp: opt_def)
    then show ?thesis using deep_copier.frame [OF A x(1)] that Some by (simp add: opt_def)
  qed (use v in \<open>simp add: opt_def\<close>)
  show "(\<exists>ys. h' = h @ ys) \<and> cp_View (opt A) h' p' = Some v \<and> cp_Reach (opt A) h' p' \<subseteq> {length h..}"
    if c: "cp_Copy (opt A) p h = (p', h')"
  proof (cases p)
    case None
    then show ?thesis using v c by (simp add: opt_def copy_opt_def)
  next
    case (Some l)
    obtain x where x: "cp_View A h l = Some x" "v = Some x" using v Some by (auto simp: opt_def)
    obtain l' where l': "cp_Copy A l h = (l', h')" "p' = Some l'"
      using c Some by (auto simp: opt_def copy_opt_def split: prod.splits)
    show ?thesis using deep_copier.copy [OF A x(1) l'(1)] by (simp add: opt_def l' x)
  qed
qed

lemma ref_copier:
  assumes A: "deep_copier A" and wrap: "\<And>l. unwrap (wrap l) = Some l"
  shows "deep_copier (ref zero wrap unwrap A)"
proof
  fix h a v g a' h'
  assume "cp_View (ref zero wrap unwrap A) h a = Some v"
  then obtain l where a: "a < length h" "unwrap (h ! a) = Some l" and v: "cp_View A h l = Some v"
    by (auto simp: ref_def split: if_splits Option.bind_splits)
  show "cp_Reach (ref zero wrap unwrap A) h a \<subseteq> {..<length h}"
    using a deep_copier.reach [OF A v] by (auto simp: ref_def)
  show "cp_View (ref zero wrap unwrap A) g a = Some v
      \<and> cp_Reach (ref zero wrap unwrap A) g a = cp_Reach (ref zero wrap unwrap A) h a"
    if g: "agree (cp_Reach (ref zero wrap unwrap A) h a) h g"
  proof -
    have "a < length g \<and> g ! a = h ! a" using g a by (intro agree_insert) (simp_all add: ref_def)
    moreover have "agree (cp_Reach A h l) h g" using g a(2) by (intro agree_mono [OF g]) (auto simp: ref_def)
    ultimately show ?thesis using deep_copier.frame [OF A v] a by (simp add: ref_def)
  qed
  show "(\<exists>ys. h' = h @ ys) \<and> cp_View (ref zero wrap unwrap A) h' a' = Some v
      \<and> cp_Reach (ref zero wrap unwrap A) h' a' \<subseteq> {length h..}"
    if c: "cp_Copy (ref zero wrap unwrap A) a h = (a', h')"
  proof -
    obtain l' h1 where into: "cp_Copy A l (h @ [zero]) = (l', h1)" by fastforce
    have a': "a' = length h" and h': "h' = h1[length h := wrap l']"
      using c a into by (auto simp: ref_def copy_new_def)
    have v1: "cp_View A (h @ [zero]) l = Some v" by (rule deep_copier.view_append(1) [OF A v])
    obtain ys where h1: "h1 = (h @ [zero]) @ ys" and l': "cp_View A h1 l' = Some v"
      "cp_Reach A h1 l' \<subseteq> {length (h @ [zero])..}"
      using deep_copier.copy [OF A v1 into] by blast
    have eq: "h' = h @ wrap l' # ys" by (simp add: h' h1 list_update_append)
    have "h' ! b = h1 ! b" if "length h < b" for b using that by (simp add: h' nth_list_update)
    then have "agree (cp_Reach A h1 l') h1 h'" using l'(2) by (auto simp: agree_def h' Suc_le_eq)
    from deep_copier.frame [OF A l'(1) this] l'(2) show ?thesis
      by (auto simp: ref_def a' eq wrap nth_append)
  qed
qed

lemma both_copier:
  assumes A: "deep_copier A" and B: "deep_copier B"
  shows "deep_copier (both A B)"
proof
  fix h lk v g lk' h'
  assume "cp_View (both A B) h lk = Some v"
  then obtain l k x y where lk: "lk = (l, k)" "v = (x, y)" and x: "cp_View A h l = Some x" and y: "cp_View B h k = Some y"
    by (cases lk) (auto simp: both_def split: Option.bind_splits)
  show "cp_Reach (both A B) h lk \<subseteq> {..<length h}"
    using deep_copier.reach [OF A x] deep_copier.reach [OF B y] by (auto simp: both_def lk)
  show "cp_View (both A B) g lk = Some v \<and> cp_Reach (both A B) g lk = cp_Reach (both A B) h lk"
    if "agree (cp_Reach (both A B) h lk) h g"
    using that deep_copier.frame [OF A x] deep_copier.frame [OF B y] by (simp add: both_def lk)
  show "(\<exists>ys. h' = h @ ys) \<and> cp_View (both A B) h' lk' = Some v \<and> cp_Reach (both A B) h' lk' \<subseteq> {length h..}"
    if c: "cp_Copy (both A B) lk h = (lk', h')"
  proof -
    obtain l' h1 k' where l': "cp_Copy A l h = (l', h1)" and k': "cp_Copy B k h1 = (k', h')" and "lk' = (l', k')"
      using c by (auto simp: both_def lk split: prod.splits)
    obtain ys where h1: "h1 = h @ ys" and v1: "cp_View A h1 l' = Some x" "cp_Reach A h1 l' \<subseteq> {length h..}"
      using deep_copier.copy [OF A x l'] by blast
    have "cp_View B h1 k = Some y" using deep_copier.view_append [OF B y] by (simp add: h1)
    then obtain zs where h2: "h' = h1 @ zs" and v2: "cp_View B h' k' = Some y" "cp_Reach B h' k' \<subseteq> {length h1..}"
      using deep_copier.copy [OF B _ k'] by blast
    show ?thesis
      using deep_copier.view_append [OF A v1(1), of zs] v1(2) v2 h1 h2
      by (auto simp: both_def lk \<open>lk' = (l', k')\<close>)
  qed
qed

lemma struct_copier:
  assumes "deep_copier A" and "\<And>k l. get (put k l) = k" and "\<And>k l. build (put k l) = build l"
  shows "deep_copier (struct get put build A)"
proof
  fix h l u g l' h'
  assume "cp_View (struct get put build A) h l = Some u"
  then obtain v where v: "cp_View A h (get l) = Some v" and u: "u = build l v" by (auto simp: struct_def)
  show "cp_Reach (struct get put build A) h l \<subseteq> {..<length h}"
    using deep_copier.reach [OF assms(1) v] by (simp add: struct_def)
  show "cp_View (struct get put build A) g l = Some u
      \<and> cp_Reach (struct get put build A) g l = cp_Reach (struct get put build A) h l"
    if "agree (cp_Reach (struct get put build A) h l) h g"
    using that deep_copier.frame [OF assms(1) v] by (simp add: struct_def u)
  show "(\<exists>ys. h' = h @ ys) \<and> cp_View (struct get put build A) h' l' = Some u
      \<and> cp_Reach (struct get put build A) h' l' \<subseteq> {length h..}"
    if c: "cp_Copy (struct get put build A) l h = (l', h')"
  proof -
    obtain k where "cp_Copy A (get l) h = (k, h')" "l' = put k l" using c by (auto simp: struct_def split: prod.splits)
    then show ?thesis using deep_copier.copy [OF assms(1) v] by (simp add: struct_def u assms(2,3))
  qed
qed

lemma elements_frame:
  assumes A: "deep_copier A" and "cp_View (elements A) h ls = Some vs" and "agree (cp_Reach (elements A) h ls) h g"
  shows "cp_View (elements A) g ls = Some vs \<and> cp_Reach (elements A) g ls = cp_Reach (elements A) h ls"
  using assms(2,3)
proof (induction ls arbitrary: vs)
  case (Cons l ls)
  then obtain x xs where l: "cp_View A h l = Some x" and ls: "cp_View (elements A) h ls = Some xs" and vs: "vs = x # xs"
    by (auto simp: elements_def split: Option.bind_splits)
  have "agree (cp_Reach A h l) h g" "agree (cp_Reach (elements A) h ls) h g"
    using Cons.prems(2) by (simp_all add: elements_def)
  then show ?case using deep_copier.frame [OF A l] Cons.IH [OF ls] vs by (auto simp: elements_def)
qed (simp add: elements_def)

lemma elements_copy:
  assumes A: "deep_copier A" and "cp_View (elements A) h ls = Some vs" and "cp_Copy (elements A) ls h = (ls', h')"
  shows "(\<exists>ys. h' = h @ ys) \<and> cp_View (elements A) h' ls' = Some vs \<and> cp_Reach (elements A) h' ls' \<subseteq> {length h..}"
  using assms(2,3)
proof (induction ls arbitrary: h vs ls')
  case (Cons l ls)
  obtain l' h1 xs' where c: "cp_Copy A l h = (l', h1)" "cp_Copy (elements A) ls h1 = (xs', h')" "ls' = l' # xs'"
    using Cons.prems(2) by (auto simp: elements_def split: prod.splits)
  obtain x xs where l: "cp_View A h l = Some x" and ls: "cp_View (elements A) h ls = Some xs" and vs: "vs = x # xs"
    using Cons.prems(1) by (auto simp: elements_def split: Option.bind_splits)
  obtain ys where h1: "h1 = h @ ys" and l': "cp_View A h1 l' = Some x" "cp_Reach A h1 l' \<subseteq> {length h..}"
    using deep_copier.copy [OF A l c(1)] by blast
  have "cp_View (elements A) h1 ls = Some xs" using elements_frame [OF A ls agree_append] by (simp add: h1)
  from Cons.IH [OF this c(2)] obtain zs where h': "h' = h1 @ zs" and xs: "cp_View (elements A) h' xs' = Some xs"
    "cp_Reach (elements A) h' xs' \<subseteq> {length h1..}" by blast
  have "cp_View A h' l' = Some x" "cp_Reach A h' l' \<subseteq> {length h..}"
    using deep_copier.view_append [OF A l'(1)] l'(2) by (simp_all add: h')
  moreover have "cp_Reach (elements A) h' xs' \<subseteq> {length h..}" using xs(2) by (auto simp: h1)
  ultimately show ?case using xs(1) h' h1 by (auto simp: elements_def c(3) vs)
qed (simp add: elements_def)

lemma elements_copier:
  assumes A: "deep_copier A"
  shows "deep_copier (elements A)"
proof (rule deep_copier.intro, goal_cases)
  case (1 h ls vs)
  then show ?case
  proof (induction ls arbitrary: vs)
    case (Cons l ls)
    then show ?case using deep_copier.reach [OF A, of h l] by (fastforce simp: elements_def split: Option.bind_splits)
  qed (simp add: elements_def)
next
  case 2
  then show ?case by (rule elements_frame [OF A])
next
  case 3
  then show ?case by (rule elements_copy [OF A])
qed

end
