(* ===== verification/Opm_DeepCopy.thy ===== *)
theory Opm_DeepCopy
  imports Opm_Heap Opm_Bundle
begin

text \<open>
  The generated deep copies (\<open>api/v1alpha1/zz_generated.deepcopy.go\<close>) on an explicit heap. The
  rest of the development treats API objects as values; the Go code passes pointers and calls
  \<open>DeepCopy\<close> before it changes an object that is still needed, as for the base of a merge
  patch. Here every \<open>DeepCopyInto\<close> and \<open>DeepCopy\<close> is translated, and a copy is shown to have
  the value of the original and to share no memory with it.

  A layout is what a struct occupies in memory: its scalar fields, in a record of the API type
  whose pointer and slice fields are not used, and the addresses in its pointer and slice
  fields (\<open>None\<close> for nil). The slice header and the array it points to are one cell. Type
  metadata consists of strings and has no counterpart in the values.
\<close>

subsection \<open>Layouts\<close>

record source_mem =
  sm_Flat :: SourceStatus
  sm_Ref :: "addr option"

record inventory_mem =
  im_Flat :: Inventory
  im_Entries :: "addr option"

record history_mem =
  hm_Flat :: HistoryEntry
  hm_StartedAt :: "addr option"
  hm_FinishedAt :: "addr option"

record raw_mem =
  ra_JSON :: "addr option"

record mr_spec_mem =
  msp_Flat :: ModuleReleaseSpec
  msp_Values :: "addr option"
  msp_Rollout :: "addr option"

record rel_spec_mem =
  rsp_Flat :: ReleaseSpec
  rsp_SourceRef :: SourceReference
  rsp_DependsOn :: "addr option"
  rsp_Rollout :: "addr option"

record br_spec_mem =
  bsm_Flat :: BundleReleaseSpec
  bsm_SourceRef :: SourceReference
  bsm_Values :: "addr option"

record mr_status_mem =
  mst_Flat :: ModuleReleaseStatus
  mst_Conditions :: "addr option"
  mst_LastAttemptedAt :: "addr option"
  mst_LastAttemptedDuration :: "addr option"
  mst_LastAppliedAt :: "addr option"
  mst_FailureCounters :: "addr option"
  mst_Inventory :: "addr option"
  mst_History :: "addr option"
  mst_NextRetryAt :: "addr option"

record rel_status_mem =
  rst_Flat :: ReleaseStatus
  rst_Conditions :: "addr option"
  rst_Source :: "addr option"
  rst_LastAttemptedAt :: "addr option"
  rst_LastAttemptedDuration :: "addr option"
  rst_LastAppliedAt :: "addr option"
  rst_FailureCounters :: "addr option"
  rst_Inventory :: "addr option"
  rst_History :: "addr option"
  rst_NextRetryAt :: "addr option"

record br_status_mem =
  bsx_Flat :: BundleReleaseStatus
  bsx_Conditions :: "addr option"
  bsx_Source :: "addr option"
  bsx_LastAttemptedAt :: "addr option"
  bsx_LastAppliedAt :: "addr option"
  bsx_Inventory :: "addr option"
  bsx_Modules :: "addr option"
  bsx_History :: "addr option"

record ('m, 'sp, 'st) object_mem =
  ob_Meta :: 'm
  ob_Spec :: 'sp
  ob_Status :: 'st

type_synonym 'm mr_mem = "('m, mr_spec_mem, mr_status_mem) object_mem"
type_synonym 'm rel_mem = "('m, rel_spec_mem, rel_status_mem) object_mem"
type_synonym 'm br_mem = "('m, br_spec_mem, br_status_mem) object_mem"

record 'm list_mem =
  li_ListMeta :: 'm
  li_Items :: "addr option"

text \<open>A cell holds one variable or the array of one slice; \<open>'m\<close> is the layout of the metadata.\<close>

datatype (discs_sels) 'm cell =
    Zeroed
  | TimeC instant | DurationC duration | BytesC string | SourceRefC SourceReference | RefsC "NamespacedName list"
  | CountersC FailureCounters | EntryC InventoryEntry | EntriesC "InventoryEntry list"
  | ModuleRefC ModuleReference | RolloutC RolloutSpec | SummaryC ModuleStatusSummary
  | SummariesC "ModuleStatusSummary list" | ConditionsC "Condition list"
  | SourceStatusC source_mem | InventoryC inventory_mem | EntryHistoryC history_mem | HistoryC "history_mem list"
  | RawValuesC raw_mem
  | MRSpecC mr_spec_mem | RelSpecC rel_spec_mem | BRSpecC br_spec_mem
  | MRStatusC mr_status_mem | RelStatusC rel_status_mem | BRStatusC br_status_mem
  | MRC "'m mr_mem" | RelC "'m rel_mem" | BRC "'m br_mem"
  | MRsC "'m mr_mem list" | RelsC "'m rel_mem list" | BRsC "'m br_mem list"
  | MRListC "'m list_mem" | RelListC "'m list_mem" | BRListC "'m list_mem"

type_synonym 'm heap = "'m cell list"

definition cast :: "('m cell \<Rightarrow> bool) \<Rightarrow> ('m cell \<Rightarrow> 'l) \<Rightarrow> 'm cell \<Rightarrow> 'l option" where
  "cast is un c = (if is c then Some (un c) else None)"

definition copy_cell ::
  "('l \<Rightarrow> 'm cell) \<Rightarrow> ('m cell \<Rightarrow> bool) \<Rightarrow> ('m cell \<Rightarrow> 'l) \<Rightarrow> ('l \<Rightarrow> 'm heap \<Rightarrow> 'l \<times> 'm heap)
     \<Rightarrow> addr \<Rightarrow> 'm heap \<Rightarrow> addr \<times> 'm heap" where
  "copy_cell C is un into = copy_new Zeroed C (cast is un) into"

definition cell_ref ::
  "('l \<Rightarrow> 'm cell) \<Rightarrow> ('m cell \<Rightarrow> bool) \<Rightarrow> ('m cell \<Rightarrow> 'l) \<Rightarrow> ('m cell, 'l, 'v) copier \<Rightarrow> ('m cell, addr, 'v) copier" where
  "cell_ref C is un A = ref Zeroed C (cast is un) A"

text \<open>The deep copies of apimachinery and Flux types that the generated code calls.\<close>

record 'm deps =
  dp_ObjectMeta :: "('m cell, 'm, ObjectMeta) copier"
  dp_ListMeta :: "('m cell, 'm, unit) copier"
  dp_JSON :: "('m cell, addr option, string option) copier"
  dp_Condition :: "('m cell, Condition, Condition) copier"
  dp_Time :: "('m cell, addr, instant) copier"
  dp_SourceRef :: "('m cell, SourceReference, SourceReference) copier"

subsection \<open>\<open>DeepCopyInto\<close>\<close>

text \<open>Types without pointers are copied by assignment.\<close>

definition FailureCounters_DeepCopyInto :: "FailureCounters \<Rightarrow> 'm heap \<Rightarrow> FailureCounters \<times> 'm heap" where
  "FailureCounters_DeepCopyInto inp h = (inp, h)"

definition InventoryEntry_DeepCopyInto :: "InventoryEntry \<Rightarrow> 'm heap \<Rightarrow> InventoryEntry \<times> 'm heap" where
  "InventoryEntry_DeepCopyInto inp h = (inp, h)"

definition ModuleReference_DeepCopyInto :: "ModuleReference \<Rightarrow> 'm heap \<Rightarrow> ModuleReference \<times> 'm heap" where
  "ModuleReference_DeepCopyInto inp h = (inp, h)"

definition RolloutSpec_DeepCopyInto :: "RolloutSpec \<Rightarrow> 'm heap \<Rightarrow> RolloutSpec \<times> 'm heap" where
  "RolloutSpec_DeepCopyInto inp h = (inp, h)"

definition ModuleStatusSummary_DeepCopyInto :: "ModuleStatusSummary \<Rightarrow> 'm heap \<Rightarrow> ModuleStatusSummary \<times> 'm heap" where
  "ModuleStatusSummary_DeepCopyInto inp h = (inp, h)"

text \<open>Structs: \<open>*out = *in\<close>, then the fields that need more, in the order of the code.\<close>

definition SourceStatus_DeepCopyInto ::
  "source_mem \<Rightarrow> 'm heap \<Rightarrow> source_mem \<times> 'm heap" where
  "SourceStatus_DeepCopyInto inp h0 =
     (let (f1, h1) = copy_opt (copy_cell SourceRefC is_SourceRefC un_SourceRefC Pair) (sm_Ref inp) h0
      in (inp\<lparr>sm_Ref := f1\<rparr>, h1))"

definition Inventory_DeepCopyInto ::
  "inventory_mem \<Rightarrow> 'm heap \<Rightarrow> inventory_mem \<times> 'm heap" where
  "Inventory_DeepCopyInto inp h0 =
     (let (f1, h1) = copy_opt (copy_cell EntriesC is_EntriesC un_EntriesC Pair) (im_Entries inp) h0
      in (inp\<lparr>im_Entries := f1\<rparr>, h1))"

definition HistoryEntry_DeepCopyInto ::
  "'m deps \<Rightarrow> history_mem \<Rightarrow> 'm heap \<Rightarrow> history_mem \<times> 'm heap" where
  "HistoryEntry_DeepCopyInto D inp h0 =
     (let (f1, h1) = copy_opt (cp_Copy (dp_Time D)) (hm_StartedAt inp) h0;
          (f2, h2) = copy_opt (cp_Copy (dp_Time D)) (hm_FinishedAt inp) h1
      in (inp\<lparr>hm_StartedAt := f1, hm_FinishedAt := f2\<rparr>, h2))"

definition RawValues_DeepCopyInto ::
  "'m deps \<Rightarrow> raw_mem \<Rightarrow> 'm heap \<Rightarrow> raw_mem \<times> 'm heap" where
  "RawValues_DeepCopyInto D inp h0 =
     (let (f1, h1) = cp_Copy (dp_JSON D) (ra_JSON inp) h0
      in (inp\<lparr>ra_JSON := f1\<rparr>, h1))"

definition ModuleReleaseSpec_DeepCopyInto ::
  "'m deps \<Rightarrow> mr_spec_mem \<Rightarrow> 'm heap \<Rightarrow> mr_spec_mem \<times> 'm heap" where
  "ModuleReleaseSpec_DeepCopyInto D inp h0 =
     (let (f1, h1) = copy_opt (copy_cell RawValuesC is_RawValuesC un_RawValuesC
            (RawValues_DeepCopyInto D)) (msp_Values inp) h0;
          (f2, h2) = copy_opt (copy_cell RolloutC is_RolloutC un_RolloutC Pair) (msp_Rollout inp) h1
      in (inp\<lparr>msp_Values := f1, msp_Rollout := f2\<rparr>, h2))"

definition ReleaseSpec_DeepCopyInto ::
  "'m deps \<Rightarrow> rel_spec_mem \<Rightarrow> 'm heap \<Rightarrow> rel_spec_mem \<times> 'm heap" where
  "ReleaseSpec_DeepCopyInto D inp h0 =
     (let (f1, h1) = cp_Copy (dp_SourceRef D) (rsp_SourceRef inp) h0;
          (f2, h2) = copy_opt (copy_cell RefsC is_RefsC un_RefsC Pair) (rsp_DependsOn inp) h1;
          (f3, h3) = copy_opt (copy_cell RolloutC is_RolloutC un_RolloutC Pair) (rsp_Rollout inp) h2
      in (inp\<lparr>rsp_SourceRef := f1, rsp_DependsOn := f2, rsp_Rollout := f3\<rparr>, h3))"

definition BundleReleaseSpec_DeepCopyInto ::
  "'m deps \<Rightarrow> br_spec_mem \<Rightarrow> 'm heap \<Rightarrow> br_spec_mem \<times> 'm heap" where
  "BundleReleaseSpec_DeepCopyInto D inp h0 =
     (let (f1, h1) = cp_Copy (dp_SourceRef D) (bsm_SourceRef inp) h0;
          (f2, h2) = copy_opt (copy_cell RawValuesC is_RawValuesC un_RawValuesC
            (RawValues_DeepCopyInto D)) (bsm_Values inp) h1
      in (inp\<lparr>bsm_SourceRef := f1, bsm_Values := f2\<rparr>, h2))"

definition ModuleReleaseStatus_DeepCopyInto ::
  "'m deps \<Rightarrow> mr_status_mem \<Rightarrow> 'm heap \<Rightarrow> mr_status_mem \<times> 'm heap" where
  "ModuleReleaseStatus_DeepCopyInto D inp h0 =
     (let (f1, h1) = copy_opt (copy_cell ConditionsC is_ConditionsC un_ConditionsC
            (copy_elements (cp_Copy (dp_Condition D)))) (mst_Conditions inp) h0;
          (f2, h2) = copy_opt (cp_Copy (dp_Time D)) (mst_LastAttemptedAt inp) h1;
          (f3, h3) = copy_opt (copy_cell DurationC is_DurationC un_DurationC Pair) (mst_LastAttemptedDuration inp) h2;
          (f4, h4) = copy_opt (cp_Copy (dp_Time D)) (mst_LastAppliedAt inp) h3;
          (f5, h5) = copy_opt (copy_cell CountersC is_CountersC un_CountersC Pair) (mst_FailureCounters inp) h4;
          (f6, h6) = copy_opt (copy_cell InventoryC is_InventoryC un_InventoryC
            Inventory_DeepCopyInto) (mst_Inventory inp) h5;
          (f7, h7) = copy_opt (copy_cell HistoryC is_HistoryC un_HistoryC
            (copy_elements (HistoryEntry_DeepCopyInto D))) (mst_History inp) h6;
          (f8, h8) = copy_opt (cp_Copy (dp_Time D)) (mst_NextRetryAt inp) h7
      in (inp\<lparr>mst_Conditions := f1, mst_LastAttemptedAt := f2, mst_LastAttemptedDuration := f3,
         mst_LastAppliedAt := f4, mst_FailureCounters := f5, mst_Inventory := f6, mst_History := f7,
         mst_NextRetryAt := f8\<rparr>, h8))"

definition ReleaseStatus_DeepCopyInto ::
  "'m deps \<Rightarrow> rel_status_mem \<Rightarrow> 'm heap \<Rightarrow> rel_status_mem \<times> 'm heap" where
  "ReleaseStatus_DeepCopyInto D inp h0 =
     (let (f1, h1) = copy_opt (copy_cell ConditionsC is_ConditionsC un_ConditionsC
            (copy_elements (cp_Copy (dp_Condition D)))) (rst_Conditions inp) h0;
          (f2, h2) = copy_opt (copy_cell SourceStatusC is_SourceStatusC un_SourceStatusC
            SourceStatus_DeepCopyInto) (rst_Source inp) h1;
          (f3, h3) = copy_opt (cp_Copy (dp_Time D)) (rst_LastAttemptedAt inp) h2;
          (f4, h4) = copy_opt (copy_cell DurationC is_DurationC un_DurationC Pair) (rst_LastAttemptedDuration inp) h3;
          (f5, h5) = copy_opt (cp_Copy (dp_Time D)) (rst_LastAppliedAt inp) h4;
          (f6, h6) = copy_opt (copy_cell CountersC is_CountersC un_CountersC Pair) (rst_FailureCounters inp) h5;
          (f7, h7) = copy_opt (copy_cell InventoryC is_InventoryC un_InventoryC
            Inventory_DeepCopyInto) (rst_Inventory inp) h6;
          (f8, h8) = copy_opt (copy_cell HistoryC is_HistoryC un_HistoryC
            (copy_elements (HistoryEntry_DeepCopyInto D))) (rst_History inp) h7;
          (f9, h9) = copy_opt (cp_Copy (dp_Time D)) (rst_NextRetryAt inp) h8
      in (inp\<lparr>rst_Conditions := f1, rst_Source := f2, rst_LastAttemptedAt := f3,
         rst_LastAttemptedDuration := f4, rst_LastAppliedAt := f5, rst_FailureCounters := f6,
         rst_Inventory := f7, rst_History := f8, rst_NextRetryAt := f9\<rparr>, h9))"

definition BundleReleaseStatus_DeepCopyInto ::
  "'m deps \<Rightarrow> br_status_mem \<Rightarrow> 'm heap \<Rightarrow> br_status_mem \<times> 'm heap" where
  "BundleReleaseStatus_DeepCopyInto D inp h0 =
     (let (f1, h1) = copy_opt (copy_cell ConditionsC is_ConditionsC un_ConditionsC
            (copy_elements (cp_Copy (dp_Condition D)))) (bsx_Conditions inp) h0;
          (f2, h2) = copy_opt (copy_cell SourceStatusC is_SourceStatusC un_SourceStatusC
            SourceStatus_DeepCopyInto) (bsx_Source inp) h1;
          (f3, h3) = copy_opt (cp_Copy (dp_Time D)) (bsx_LastAttemptedAt inp) h2;
          (f4, h4) = copy_opt (cp_Copy (dp_Time D)) (bsx_LastAppliedAt inp) h3;
          (f5, h5) = copy_opt (copy_cell InventoryC is_InventoryC un_InventoryC
            Inventory_DeepCopyInto) (bsx_Inventory inp) h4;
          (f6, h6) = copy_opt (copy_cell SummariesC is_SummariesC un_SummariesC Pair) (bsx_Modules inp) h5;
          (f7, h7) = copy_opt (copy_cell HistoryC is_HistoryC un_HistoryC
            (copy_elements (HistoryEntry_DeepCopyInto D))) (bsx_History inp) h6
      in (inp\<lparr>bsx_Conditions := f1, bsx_Source := f2, bsx_LastAttemptedAt := f3,
         bsx_LastAppliedAt := f4, bsx_Inventory := f5, bsx_Modules := f6, bsx_History := f7\<rparr>, h7))"

definition ModuleRelease_DeepCopyInto ::
  "'m deps \<Rightarrow> 'm mr_mem \<Rightarrow> 'm heap \<Rightarrow> 'm mr_mem \<times> 'm heap" where
  "ModuleRelease_DeepCopyInto D inp h0 =
     (let (f1, h1) = cp_Copy (dp_ObjectMeta D) (ob_Meta inp) h0;
          (f2, h2) = ModuleReleaseSpec_DeepCopyInto D (ob_Spec inp) h1;
          (f3, h3) = ModuleReleaseStatus_DeepCopyInto D (ob_Status inp) h2
      in (inp\<lparr>ob_Meta := f1, ob_Spec := f2, ob_Status := f3\<rparr>, h3))"

definition Release_DeepCopyInto ::
  "'m deps \<Rightarrow> 'm rel_mem \<Rightarrow> 'm heap \<Rightarrow> 'm rel_mem \<times> 'm heap" where
  "Release_DeepCopyInto D inp h0 =
     (let (f1, h1) = cp_Copy (dp_ObjectMeta D) (ob_Meta inp) h0;
          (f2, h2) = ReleaseSpec_DeepCopyInto D (ob_Spec inp) h1;
          (f3, h3) = ReleaseStatus_DeepCopyInto D (ob_Status inp) h2
      in (inp\<lparr>ob_Meta := f1, ob_Spec := f2, ob_Status := f3\<rparr>, h3))"

definition BundleRelease_DeepCopyInto ::
  "'m deps \<Rightarrow> 'm br_mem \<Rightarrow> 'm heap \<Rightarrow> 'm br_mem \<times> 'm heap" where
  "BundleRelease_DeepCopyInto D inp h0 =
     (let (f1, h1) = cp_Copy (dp_ObjectMeta D) (ob_Meta inp) h0;
          (f2, h2) = BundleReleaseSpec_DeepCopyInto D (ob_Spec inp) h1;
          (f3, h3) = BundleReleaseStatus_DeepCopyInto D (ob_Status inp) h2
      in (inp\<lparr>ob_Meta := f1, ob_Spec := f2, ob_Status := f3\<rparr>, h3))"

definition ModuleReleaseList_DeepCopyInto ::
  "'m deps \<Rightarrow> 'm list_mem \<Rightarrow> 'm heap \<Rightarrow> 'm list_mem \<times> 'm heap" where
  "ModuleReleaseList_DeepCopyInto D inp h0 =
     (let (f1, h1) = cp_Copy (dp_ListMeta D) (li_ListMeta inp) h0;
          (f2, h2) = copy_opt (copy_cell MRsC is_MRsC un_MRsC (copy_elements (ModuleRelease_DeepCopyInto D))) (li_Items inp) h1
      in (inp\<lparr>li_ListMeta := f1, li_Items := f2\<rparr>, h2))"

definition ReleaseList_DeepCopyInto ::
  "'m deps \<Rightarrow> 'm list_mem \<Rightarrow> 'm heap \<Rightarrow> 'm list_mem \<times> 'm heap" where
  "ReleaseList_DeepCopyInto D inp h0 =
     (let (f1, h1) = cp_Copy (dp_ListMeta D) (li_ListMeta inp) h0;
          (f2, h2) = copy_opt (copy_cell RelsC is_RelsC un_RelsC (copy_elements (Release_DeepCopyInto D))) (li_Items inp) h1
      in (inp\<lparr>li_ListMeta := f1, li_Items := f2\<rparr>, h2))"

definition BundleReleaseList_DeepCopyInto ::
  "'m deps \<Rightarrow> 'm list_mem \<Rightarrow> 'm heap \<Rightarrow> 'm list_mem \<times> 'm heap" where
  "BundleReleaseList_DeepCopyInto D inp h0 =
     (let (f1, h1) = cp_Copy (dp_ListMeta D) (li_ListMeta inp) h0;
          (f2, h2) = copy_opt (copy_cell BRsC is_BRsC un_BRsC (copy_elements (BundleRelease_DeepCopyInto D))) (li_Items inp) h1
      in (inp\<lparr>li_ListMeta := f1, li_Items := f2\<rparr>, h2))"

subsection \<open>\<open>DeepCopy\<close> and \<open>DeepCopyObject\<close>\<close>

text \<open>A nil receiver gives nil; otherwise a new variable is copied into.\<close>

definition FailureCounters_DeepCopy :: "addr option \<Rightarrow> 'm heap \<Rightarrow> addr option \<times> 'm heap" where
  "FailureCounters_DeepCopy inp h = copy_opt (copy_cell CountersC is_CountersC un_CountersC FailureCounters_DeepCopyInto) inp h"

definition InventoryEntry_DeepCopy :: "addr option \<Rightarrow> 'm heap \<Rightarrow> addr option \<times> 'm heap" where
  "InventoryEntry_DeepCopy inp h = copy_opt (copy_cell EntryC is_EntryC un_EntryC InventoryEntry_DeepCopyInto) inp h"

definition ModuleReference_DeepCopy :: "addr option \<Rightarrow> 'm heap \<Rightarrow> addr option \<times> 'm heap" where
  "ModuleReference_DeepCopy inp h = copy_opt (copy_cell ModuleRefC is_ModuleRefC un_ModuleRefC ModuleReference_DeepCopyInto) inp h"

definition RolloutSpec_DeepCopy :: "addr option \<Rightarrow> 'm heap \<Rightarrow> addr option \<times> 'm heap" where
  "RolloutSpec_DeepCopy inp h = copy_opt (copy_cell RolloutC is_RolloutC un_RolloutC RolloutSpec_DeepCopyInto) inp h"

definition ModuleStatusSummary_DeepCopy :: "addr option \<Rightarrow> 'm heap \<Rightarrow> addr option \<times> 'm heap" where
  "ModuleStatusSummary_DeepCopy inp h = copy_opt (copy_cell SummaryC is_SummaryC un_SummaryC ModuleStatusSummary_DeepCopyInto) inp h"

definition SourceStatus_DeepCopy :: "addr option \<Rightarrow> 'm heap \<Rightarrow> addr option \<times> 'm heap" where
  "SourceStatus_DeepCopy inp h = copy_opt (copy_cell SourceStatusC is_SourceStatusC un_SourceStatusC SourceStatus_DeepCopyInto) inp h"

definition Inventory_DeepCopy :: "addr option \<Rightarrow> 'm heap \<Rightarrow> addr option \<times> 'm heap" where
  "Inventory_DeepCopy inp h = copy_opt (copy_cell InventoryC is_InventoryC un_InventoryC Inventory_DeepCopyInto) inp h"

definition HistoryEntry_DeepCopy :: "'m deps \<Rightarrow> addr option \<Rightarrow> 'm heap \<Rightarrow> addr option \<times> 'm heap" where
  "HistoryEntry_DeepCopy D inp h = copy_opt (copy_cell EntryHistoryC is_EntryHistoryC un_EntryHistoryC (HistoryEntry_DeepCopyInto D)) inp h"

definition RawValues_DeepCopy :: "'m deps \<Rightarrow> addr option \<Rightarrow> 'm heap \<Rightarrow> addr option \<times> 'm heap" where
  "RawValues_DeepCopy D inp h = copy_opt (copy_cell RawValuesC is_RawValuesC un_RawValuesC (RawValues_DeepCopyInto D)) inp h"

definition ModuleReleaseSpec_DeepCopy :: "'m deps \<Rightarrow> addr option \<Rightarrow> 'm heap \<Rightarrow> addr option \<times> 'm heap" where
  "ModuleReleaseSpec_DeepCopy D inp h = copy_opt (copy_cell MRSpecC is_MRSpecC un_MRSpecC (ModuleReleaseSpec_DeepCopyInto D)) inp h"

definition ReleaseSpec_DeepCopy :: "'m deps \<Rightarrow> addr option \<Rightarrow> 'm heap \<Rightarrow> addr option \<times> 'm heap" where
  "ReleaseSpec_DeepCopy D inp h = copy_opt (copy_cell RelSpecC is_RelSpecC un_RelSpecC (ReleaseSpec_DeepCopyInto D)) inp h"

definition BundleReleaseSpec_DeepCopy :: "'m deps \<Rightarrow> addr option \<Rightarrow> 'm heap \<Rightarrow> addr option \<times> 'm heap" where
  "BundleReleaseSpec_DeepCopy D inp h = copy_opt (copy_cell BRSpecC is_BRSpecC un_BRSpecC (BundleReleaseSpec_DeepCopyInto D)) inp h"

definition ModuleReleaseStatus_DeepCopy :: "'m deps \<Rightarrow> addr option \<Rightarrow> 'm heap \<Rightarrow> addr option \<times> 'm heap" where
  "ModuleReleaseStatus_DeepCopy D inp h = copy_opt (copy_cell MRStatusC is_MRStatusC un_MRStatusC (ModuleReleaseStatus_DeepCopyInto D)) inp h"

definition ReleaseStatus_DeepCopy :: "'m deps \<Rightarrow> addr option \<Rightarrow> 'm heap \<Rightarrow> addr option \<times> 'm heap" where
  "ReleaseStatus_DeepCopy D inp h = copy_opt (copy_cell RelStatusC is_RelStatusC un_RelStatusC (ReleaseStatus_DeepCopyInto D)) inp h"

definition BundleReleaseStatus_DeepCopy :: "'m deps \<Rightarrow> addr option \<Rightarrow> 'm heap \<Rightarrow> addr option \<times> 'm heap" where
  "BundleReleaseStatus_DeepCopy D inp h = copy_opt (copy_cell BRStatusC is_BRStatusC un_BRStatusC (BundleReleaseStatus_DeepCopyInto D)) inp h"

definition ModuleRelease_DeepCopy :: "'m deps \<Rightarrow> addr option \<Rightarrow> 'm heap \<Rightarrow> addr option \<times> 'm heap" where
  "ModuleRelease_DeepCopy D inp h = copy_opt (copy_cell MRC is_MRC un_MRC (ModuleRelease_DeepCopyInto D)) inp h"

definition Release_DeepCopy :: "'m deps \<Rightarrow> addr option \<Rightarrow> 'm heap \<Rightarrow> addr option \<times> 'm heap" where
  "Release_DeepCopy D inp h = copy_opt (copy_cell RelC is_RelC un_RelC (Release_DeepCopyInto D)) inp h"

definition BundleRelease_DeepCopy :: "'m deps \<Rightarrow> addr option \<Rightarrow> 'm heap \<Rightarrow> addr option \<times> 'm heap" where
  "BundleRelease_DeepCopy D inp h = copy_opt (copy_cell BRC is_BRC un_BRC (BundleRelease_DeepCopyInto D)) inp h"

definition ModuleReleaseList_DeepCopy :: "'m deps \<Rightarrow> addr option \<Rightarrow> 'm heap \<Rightarrow> addr option \<times> 'm heap" where
  "ModuleReleaseList_DeepCopy D inp h = copy_opt (copy_cell MRListC is_MRListC un_MRListC (ModuleReleaseList_DeepCopyInto D)) inp h"

definition ReleaseList_DeepCopy :: "'m deps \<Rightarrow> addr option \<Rightarrow> 'm heap \<Rightarrow> addr option \<times> 'm heap" where
  "ReleaseList_DeepCopy D inp h = copy_opt (copy_cell RelListC is_RelListC un_RelListC (ReleaseList_DeepCopyInto D)) inp h"

definition BundleReleaseList_DeepCopy :: "'m deps \<Rightarrow> addr option \<Rightarrow> 'm heap \<Rightarrow> addr option \<times> 'm heap" where
  "BundleReleaseList_DeepCopy D inp h = copy_opt (copy_cell BRListC is_BRListC un_BRListC (BundleReleaseList_DeepCopyInto D)) inp h"

definition ModuleRelease_DeepCopyObject :: "'m deps \<Rightarrow> addr option \<Rightarrow> 'm heap \<Rightarrow> addr option \<times> 'm heap" where
  "ModuleRelease_DeepCopyObject D inp h =
     (case ModuleRelease_DeepCopy D inp h of (Some c, h1) \<Rightarrow> (Some c, h1) | (None, h1) \<Rightarrow> (None, h1))"

definition Release_DeepCopyObject :: "'m deps \<Rightarrow> addr option \<Rightarrow> 'm heap \<Rightarrow> addr option \<times> 'm heap" where
  "Release_DeepCopyObject D inp h =
     (case Release_DeepCopy D inp h of (Some c, h1) \<Rightarrow> (Some c, h1) | (None, h1) \<Rightarrow> (None, h1))"

definition BundleRelease_DeepCopyObject :: "'m deps \<Rightarrow> addr option \<Rightarrow> 'm heap \<Rightarrow> addr option \<times> 'm heap" where
  "BundleRelease_DeepCopyObject D inp h =
     (case BundleRelease_DeepCopy D inp h of (Some c, h1) \<Rightarrow> (Some c, h1) | (None, h1) \<Rightarrow> (None, h1))"

definition ModuleReleaseList_DeepCopyObject :: "'m deps \<Rightarrow> addr option \<Rightarrow> 'm heap \<Rightarrow> addr option \<times> 'm heap" where
  "ModuleReleaseList_DeepCopyObject D inp h =
     (case ModuleReleaseList_DeepCopy D inp h of (Some c, h1) \<Rightarrow> (Some c, h1) | (None, h1) \<Rightarrow> (None, h1))"

definition ReleaseList_DeepCopyObject :: "'m deps \<Rightarrow> addr option \<Rightarrow> 'm heap \<Rightarrow> addr option \<times> 'm heap" where
  "ReleaseList_DeepCopyObject D inp h =
     (case ReleaseList_DeepCopy D inp h of (Some c, h1) \<Rightarrow> (Some c, h1) | (None, h1) \<Rightarrow> (None, h1))"

definition BundleReleaseList_DeepCopyObject :: "'m deps \<Rightarrow> addr option \<Rightarrow> 'm heap \<Rightarrow> addr option \<times> 'm heap" where
  "BundleReleaseList_DeepCopyObject D inp h =
     (case BundleReleaseList_DeepCopy D inp h of (Some c, h1) \<Rightarrow> (Some c, h1) | (None, h1) \<Rightarrow> (None, h1))"

subsection \<open>The copiers\<close>

text \<open>A nil slice and an empty one have the same value.\<close>

definition nonnil :: "'a list option \<Rightarrow> 'a list" where
  "nonnil xs = (case xs of None \<Rightarrow> [] | Some ys \<Rightarrow> ys)"

definition sourceStatus_copier :: "('m cell, source_mem, SourceStatus) copier" where
  "sourceStatus_copier = struct
     sm_Ref
     (\<lambda>p1 l. l\<lparr>sm_Ref := p1\<rparr>)
     (\<lambda>l x1. (sm_Flat l)\<lparr>ss_Ref := x1\<rparr>)
     (opt (cell_ref SourceRefC is_SourceRefC un_SourceRefC flat))"

definition inventory_copier :: "('m cell, inventory_mem, Inventory) copier" where
  "inventory_copier = struct
     im_Entries
     (\<lambda>p1 l. l\<lparr>im_Entries := p1\<rparr>)
     (\<lambda>l x1. (im_Flat l)\<lparr>inv_Entries := nonnil x1\<rparr>)
     (opt (cell_ref EntriesC is_EntriesC un_EntriesC flat))"

definition historyEntry_copier :: "'m deps \<Rightarrow> ('m cell, history_mem, HistoryEntry) copier" where
  "historyEntry_copier D = struct
     (\<lambda>l. (hm_StartedAt l, hm_FinishedAt l))
     (\<lambda>(p1, p2) l. l\<lparr>hm_StartedAt := p1, hm_FinishedAt := p2\<rparr>)
     (\<lambda>l (x1, x2). (hm_Flat l)\<lparr>he_StartedAt := x1, he_FinishedAt := x2\<rparr>)
     (both (opt (dp_Time D))
       (opt (dp_Time D)))"

definition rawValues_copier :: "'m deps \<Rightarrow> ('m cell, raw_mem, RawValues) copier" where
  "rawValues_copier D = struct
     ra_JSON
     (\<lambda>p1 l. l\<lparr>ra_JSON := p1\<rparr>)
     (\<lambda>l x1. \<lparr>rv_Raw = x1\<rparr>)
     (dp_JSON D)"

definition moduleReleaseSpec_copier :: "'m deps \<Rightarrow> ('m cell, mr_spec_mem,
         ModuleReleaseSpec) copier" where
  "moduleReleaseSpec_copier D = struct
     (\<lambda>l. (msp_Values l, msp_Rollout l))
     (\<lambda>(p1, p2) l. l\<lparr>msp_Values := p1, msp_Rollout := p2\<rparr>)
     (\<lambda>l (x1, x2). (msp_Flat l)\<lparr>sp_Values := x1, sp_Rollout := x2\<rparr>)
     (both (opt (cell_ref RawValuesC is_RawValuesC un_RawValuesC (rawValues_copier D)))
       (opt (cell_ref RolloutC is_RolloutC un_RolloutC flat)))"

definition releaseSpec_copier :: "'m deps \<Rightarrow> ('m cell, rel_spec_mem, ReleaseSpec) copier" where
  "releaseSpec_copier D = struct
     (\<lambda>l. (rsp_SourceRef l, rsp_DependsOn l, rsp_Rollout l))
     (\<lambda>(p1, p2, p3) l. l\<lparr>rsp_SourceRef := p1, rsp_DependsOn := p2, rsp_Rollout := p3\<rparr>)
     (\<lambda>l (x1, x2, x3). (rsp_Flat l)\<lparr>sp_SourceRef := x1, sp_DependsOn := nonnil x2,
         sp_Rollout := x3\<rparr>)
     (both (dp_SourceRef D)
       (both (opt (cell_ref RefsC is_RefsC un_RefsC flat))
       (opt (cell_ref RolloutC is_RolloutC un_RolloutC flat))))"

definition bundleReleaseSpec_copier :: "'m deps \<Rightarrow> ('m cell, br_spec_mem,
         BundleReleaseSpec) copier" where
  "bundleReleaseSpec_copier D = struct
     (\<lambda>l. (bsm_SourceRef l, bsm_Values l))
     (\<lambda>(p1, p2) l. l\<lparr>bsm_SourceRef := p1, bsm_Values := p2\<rparr>)
     (\<lambda>l (x1, x2). (bsm_Flat l)\<lparr>bsp_SourceRef := x1, bsp_Values := x2\<rparr>)
     (both (dp_SourceRef D)
       (opt (cell_ref RawValuesC is_RawValuesC un_RawValuesC (rawValues_copier D))))"

definition moduleReleaseStatus_copier :: "'m deps \<Rightarrow> ('m cell, mr_status_mem,
         ModuleReleaseStatus) copier" where
  "moduleReleaseStatus_copier D = struct
     (\<lambda>l. (mst_Conditions l, mst_LastAttemptedAt l, mst_LastAttemptedDuration l, mst_LastAppliedAt l,
         mst_FailureCounters l, mst_Inventory l, mst_History l, mst_NextRetryAt l))
     (\<lambda>(p1, p2, p3, p4, p5, p6, p7, p8) l. l\<lparr>mst_Conditions := p1, mst_LastAttemptedAt := p2,
         mst_LastAttemptedDuration := p3, mst_LastAppliedAt := p4, mst_FailureCounters := p5,
         mst_Inventory := p6, mst_History := p7, mst_NextRetryAt := p8\<rparr>)
     (\<lambda>l (x1, x2, x3, x4, x5, x6, x7, x8). (mst_Flat l)\<lparr>st_Conditions := nonnil x1,
         st_LastAttemptedAt := x2, st_LastAttemptedDuration := x3, st_LastAppliedAt := x4,
         st_FailureCounters := x5, st_Inventory := x6, st_History := nonnil x7, st_NextRetryAt := x8\<rparr>)
     (both (opt (cell_ref ConditionsC is_ConditionsC un_ConditionsC (elements (dp_Condition D))))
       (both (opt (dp_Time D))
       (both (opt (cell_ref DurationC is_DurationC un_DurationC flat))
       (both (opt (dp_Time D))
       (both (opt (cell_ref CountersC is_CountersC un_CountersC flat))
       (both (opt (cell_ref InventoryC is_InventoryC un_InventoryC inventory_copier))
       (both (opt (cell_ref HistoryC is_HistoryC un_HistoryC (elements (historyEntry_copier D))))
       (opt (dp_Time D)))))))))"

definition releaseStatus_copier :: "'m deps \<Rightarrow> ('m cell, rel_status_mem, ReleaseStatus) copier" where
  "releaseStatus_copier D = struct
     (\<lambda>l. (rst_Conditions l, rst_Source l, rst_LastAttemptedAt l, rst_LastAttemptedDuration l,
         rst_LastAppliedAt l, rst_FailureCounters l, rst_Inventory l, rst_History l, rst_NextRetryAt l))
     (\<lambda>(p1, p2, p3, p4, p5, p6, p7, p8, p9) l. l\<lparr>rst_Conditions := p1, rst_Source := p2,
         rst_LastAttemptedAt := p3, rst_LastAttemptedDuration := p4, rst_LastAppliedAt := p5,
         rst_FailureCounters := p6, rst_Inventory := p7, rst_History := p8, rst_NextRetryAt := p9\<rparr>)
     (\<lambda>l (x1, x2, x3, x4, x5, x6, x7, x8, x9). (rst_Flat l)\<lparr>st_Conditions := nonnil x1,
         st_Source := x2, st_LastAttemptedAt := x3, st_LastAttemptedDuration := x4, st_LastAppliedAt := x5,
         st_FailureCounters := x6, st_Inventory := x7, st_History := nonnil x8, st_NextRetryAt := x9\<rparr>)
     (both (opt (cell_ref ConditionsC is_ConditionsC un_ConditionsC (elements (dp_Condition D))))
       (both (opt (cell_ref SourceStatusC is_SourceStatusC un_SourceStatusC sourceStatus_copier))
       (both (opt (dp_Time D))
       (both (opt (cell_ref DurationC is_DurationC un_DurationC flat))
       (both (opt (dp_Time D))
       (both (opt (cell_ref CountersC is_CountersC un_CountersC flat))
       (both (opt (cell_ref InventoryC is_InventoryC un_InventoryC inventory_copier))
       (both (opt (cell_ref HistoryC is_HistoryC un_HistoryC (elements (historyEntry_copier D))))
       (opt (dp_Time D))))))))))"

definition bundleReleaseStatus_copier :: "'m deps \<Rightarrow> ('m cell, br_status_mem,
         BundleReleaseStatus) copier" where
  "bundleReleaseStatus_copier D = struct
     (\<lambda>l. (bsx_Conditions l, bsx_Source l, bsx_LastAttemptedAt l, bsx_LastAppliedAt l,
         bsx_Inventory l, bsx_Modules l, bsx_History l))
     (\<lambda>(p1, p2, p3, p4, p5, p6, p7) l. l\<lparr>bsx_Conditions := p1, bsx_Source := p2,
         bsx_LastAttemptedAt := p3, bsx_LastAppliedAt := p4, bsx_Inventory := p5, bsx_Modules := p6,
         bsx_History := p7\<rparr>)
     (\<lambda>l (x1, x2, x3, x4, x5, x6, x7). (bsx_Flat l)\<lparr>bst_Conditions := nonnil x1,
         bst_Source := x2, bst_LastAttemptedAt := x3, bst_LastAppliedAt := x4, bst_Inventory := x5,
         bst_Modules := nonnil x6, bst_History := nonnil x7\<rparr>)
     (both (opt (cell_ref ConditionsC is_ConditionsC un_ConditionsC (elements (dp_Condition D))))
       (both (opt (cell_ref SourceStatusC is_SourceStatusC un_SourceStatusC sourceStatus_copier))
       (both (opt (dp_Time D))
       (both (opt (dp_Time D))
       (both (opt (cell_ref InventoryC is_InventoryC un_InventoryC inventory_copier))
       (both (opt (cell_ref SummariesC is_SummariesC un_SummariesC flat))
       (opt (cell_ref HistoryC is_HistoryC un_HistoryC (elements (historyEntry_copier D))))))))))"

definition object_copier ::
  "'m deps \<Rightarrow> ('m cell, 'a, 'sp) copier \<Rightarrow> ('m cell, 'b, 'st) copier
     \<Rightarrow> ('m cell, ('m, 'a, 'b) object_mem, ('sp, 'st) CustomResource) copier" where
  "object_copier D SP ST = struct
     (\<lambda>l. (ob_Meta l, ob_Spec l, ob_Status l))
     (\<lambda>(p1, p2, p3) l. l\<lparr>ob_Meta := p1, ob_Spec := p2, ob_Status := p3\<rparr>)
     (\<lambda>l (x1, x2, x3). \<lparr>cr_Meta = x1, cr_Spec = x2, cr_Status = x3\<rparr>)
     (both (dp_ObjectMeta D) (both SP ST))"

definition list_copier ::
  "'m deps \<Rightarrow> ('m cell, addr, 'o list) copier \<Rightarrow> ('m cell, 'm list_mem, 'o list) copier" where
  "list_copier D IT = struct
     (\<lambda>l. (li_ListMeta l, li_Items l))
     (\<lambda>(p1, p2) l. l\<lparr>li_ListMeta := p1, li_Items := p2\<rparr>)
     (\<lambda>l (x1, x2). nonnil x2)
     (both (dp_ListMeta D) (opt IT))"

definition moduleRelease_copier :: "'m deps \<Rightarrow> ('m cell, 'm mr_mem, ModuleRelease) copier" where
  "moduleRelease_copier D = object_copier D (moduleReleaseSpec_copier D) (moduleReleaseStatus_copier D)"

definition release_copier :: "'m deps \<Rightarrow> ('m cell, 'm rel_mem, Release) copier" where
  "release_copier D = object_copier D (releaseSpec_copier D) (releaseStatus_copier D)"

definition bundleRelease_copier :: "'m deps \<Rightarrow> ('m cell, 'm br_mem, BundleRelease) copier" where
  "bundleRelease_copier D = object_copier D (bundleReleaseSpec_copier D) (bundleReleaseStatus_copier D)"

definition moduleReleaseList_copier :: "'m deps \<Rightarrow> ('m cell, 'm list_mem, ModuleRelease list) copier" where
  "moduleReleaseList_copier D = list_copier D (cell_ref MRsC is_MRsC un_MRsC (elements (moduleRelease_copier D)))"

definition releaseList_copier :: "'m deps \<Rightarrow> ('m cell, 'm list_mem, Release list) copier" where
  "releaseList_copier D = list_copier D (cell_ref RelsC is_RelsC un_RelsC (elements (release_copier D)))"

definition bundleReleaseList_copier :: "'m deps \<Rightarrow> ('m cell, 'm list_mem, BundleRelease list) copier" where
  "bundleReleaseList_copier D = list_copier D (cell_ref BRsC is_BRsC un_BRsC (elements (bundleRelease_copier D)))"

subsection \<open>The copiers copy as the code does\<close>

lemma cp_Copy_simps [simp]:
  "cp_Copy flat = Pair" "cp_Copy (opt A) = copy_opt (cp_Copy A)" "cp_Copy (elements A) = copy_elements (cp_Copy A)"
  "cp_Copy (cell_ref C is un A) = copy_cell C is un (cp_Copy A)"
  "cp_Copy (both A B) (l, k) h =
     (case cp_Copy A l h of (l', h1) \<Rightarrow> (case cp_Copy B k h1 of (k', h2) \<Rightarrow> ((l', k'), h2)))"
  "cp_Copy (struct get put build A) s h = (case cp_Copy A (get s) h of (k, h') \<Rightarrow> (put k s, h'))"
  by (simp_all add: flat_def opt_def elements_def cell_ref_def ref_def copy_cell_def both_def struct_def)

lemma value_copies [simp]:
  "cp_Copy sourceStatus_copier = SourceStatus_DeepCopyInto"
  "cp_Copy inventory_copier = Inventory_DeepCopyInto"
  "cp_Copy (historyEntry_copier D) = HistoryEntry_DeepCopyInto D"
  "cp_Copy (rawValues_copier D) = RawValues_DeepCopyInto D"
  by (intro ext; simp add: Let_def case_prod_beta
      sourceStatus_copier_def SourceStatus_DeepCopyInto_def
      inventory_copier_def Inventory_DeepCopyInto_def
      historyEntry_copier_def HistoryEntry_DeepCopyInto_def
      rawValues_copier_def RawValues_DeepCopyInto_def)+

lemma spec_copies [simp]:
  "cp_Copy (moduleReleaseSpec_copier D) = ModuleReleaseSpec_DeepCopyInto D"
  "cp_Copy (releaseSpec_copier D) = ReleaseSpec_DeepCopyInto D"
  "cp_Copy (bundleReleaseSpec_copier D) = BundleReleaseSpec_DeepCopyInto D"
  by (intro ext; simp add: Let_def case_prod_beta
      moduleReleaseSpec_copier_def ModuleReleaseSpec_DeepCopyInto_def
      releaseSpec_copier_def ReleaseSpec_DeepCopyInto_def
      bundleReleaseSpec_copier_def BundleReleaseSpec_DeepCopyInto_def)+

lemma status_copies [simp]:
  "cp_Copy (moduleReleaseStatus_copier D) = ModuleReleaseStatus_DeepCopyInto D"
  "cp_Copy (releaseStatus_copier D) = ReleaseStatus_DeepCopyInto D"
  "cp_Copy (bundleReleaseStatus_copier D) = BundleReleaseStatus_DeepCopyInto D"
  by (intro ext; simp add: Let_def case_prod_beta
      moduleReleaseStatus_copier_def ModuleReleaseStatus_DeepCopyInto_def
      releaseStatus_copier_def ReleaseStatus_DeepCopyInto_def
      bundleReleaseStatus_copier_def BundleReleaseStatus_DeepCopyInto_def)+

lemma object_copies [simp]:
  "cp_Copy (moduleRelease_copier D) = ModuleRelease_DeepCopyInto D"
  "cp_Copy (release_copier D) = Release_DeepCopyInto D"
  "cp_Copy (bundleRelease_copier D) = BundleRelease_DeepCopyInto D"
  by (intro ext; simp add: Let_def case_prod_beta object_copier_def
      moduleRelease_copier_def ModuleRelease_DeepCopyInto_def
      release_copier_def Release_DeepCopyInto_def
      bundleRelease_copier_def BundleRelease_DeepCopyInto_def)+

lemma list_copies [simp]:
  "cp_Copy (moduleReleaseList_copier D) = ModuleReleaseList_DeepCopyInto D"
  "cp_Copy (releaseList_copier D) = ReleaseList_DeepCopyInto D"
  "cp_Copy (bundleReleaseList_copier D) = BundleReleaseList_DeepCopyInto D"
  by (intro ext; simp add: Let_def case_prod_beta list_copier_def
      moduleReleaseList_copier_def ModuleReleaseList_DeepCopyInto_def
      releaseList_copier_def ReleaseList_DeepCopyInto_def
      bundleReleaseList_copier_def BundleReleaseList_DeepCopyInto_def)+

subsection \<open>The copiers are deep\<close>

text \<open>What the generated code relies on: the deep copies it calls are deep.\<close>

locale copy_deps =
  fixes D :: "'m deps"
  assumes ObjectMeta: "deep_copier (dp_ObjectMeta D)"
    and ListMeta: "deep_copier (dp_ListMeta D)"
    and JSON: "deep_copier (dp_JSON D)"
    and Condition: "deep_copier (dp_Condition D)"
    and Time: "deep_copier (dp_Time D)"
    and SourceRef: "deep_copier (dp_SourceRef D)"

lemma cell_ref_copier:
  assumes "deep_copier A" and "\<And>l. is (C l)" and "\<And>l. un (C l) = l"
  shows "deep_copier (cell_ref C is un A)"
  unfolding cell_ref_def using assms by (intro ref_copier) (simp_all add: cast_def)

lemmas copier_intros = flat_copier opt_copier both_copier elements_copier struct_copier cell_ref_copier

lemma plain_copiers: "deep_copier sourceStatus_copier" "deep_copier inventory_copier"
  unfolding sourceStatus_copier_def inventory_copier_def by (intro copier_intros; simp)+

interpretation inventory_copy: deep_copier inventory_copier
  by (rule plain_copiers(2))

context copy_deps
begin

lemmas part_intros = copier_intros plain_copiers ObjectMeta ListMeta JSON Condition Time SourceRef

lemma value_copiers: "deep_copier (historyEntry_copier D)" "deep_copier (rawValues_copier D)"
  unfolding historyEntry_copier_def rawValues_copier_def by (intro part_intros; auto)+

lemma spec_copiers:
  "deep_copier (moduleReleaseSpec_copier D)" "deep_copier (releaseSpec_copier D)" "deep_copier (bundleReleaseSpec_copier D)"
  unfolding moduleReleaseSpec_copier_def releaseSpec_copier_def bundleReleaseSpec_copier_def
  by (intro part_intros value_copiers; auto)+

lemma status_copiers:
  "deep_copier (moduleReleaseStatus_copier D)" "deep_copier (releaseStatus_copier D)"
  "deep_copier (bundleReleaseStatus_copier D)"
  unfolding moduleReleaseStatus_copier_def releaseStatus_copier_def bundleReleaseStatus_copier_def
  by (intro part_intros value_copiers; auto)+

lemma object_copiers:
  "deep_copier (moduleRelease_copier D)" "deep_copier (release_copier D)" "deep_copier (bundleRelease_copier D)"
  unfolding moduleRelease_copier_def release_copier_def bundleRelease_copier_def object_copier_def
  by (intro part_intros spec_copiers status_copiers; auto)+

lemma list_copiers:
  "deep_copier (moduleReleaseList_copier D)" "deep_copier (releaseList_copier D)"
  "deep_copier (bundleReleaseList_copier D)"
  unfolding moduleReleaseList_copier_def releaseList_copier_def bundleReleaseList_copier_def list_copier_def
  by (intro part_intros object_copiers; auto)+

end

subsection \<open>Property\<close>

text \<open>
  What a deep copy promises to its caller: the copy has the value of the original; whatever
  is written later to memory that existed before, the copy keeps it; whatever is
  written to newer memory, the original keeps it.
\<close>

definition deep_copied :: "('c, 'l, 'v) copier \<Rightarrow> 'l \<Rightarrow> 'c list \<Rightarrow> 'l \<times> 'c list \<Rightarrow> bool" where
  "deep_copied A p h r \<longleftrightarrow>
     (\<forall>v. cp_View A h p = Some v \<longrightarrow> (case r of (q, h') \<Rightarrow>
        cp_View A h' q = Some v \<and> cp_View A h' p = Some v
        \<and> (\<forall>g. agree {length h..} h' g \<longrightarrow> cp_View A g q = Some v)
        \<and> (\<forall>g. agree {..<length h} h' g \<longrightarrow> cp_View A g p = Some v)))"

lemma deep_copier_copied:
  assumes A: "deep_copier A"
  shows "deep_copied A p h (cp_Copy A p h)"
proof (cases "cp_Copy A p h")
  case (Pair q h')
  have self: "agree S h' h'" for S by (simp add: agree_def)
  show ?thesis
    unfolding deep_copied_def Pair prod.case
  proof (intro allI impI conjI)
    fix v g
    assume "cp_View A h p = Some v"
    note independent = deep_copier.copy_independent [OF A this Pair]
    show "cp_View A h' q = Some v" "cp_View A h' p = Some v" by (rule independent [OF self])+
    show "agree {length h..} h' g \<Longrightarrow> cp_View A g q = Some v" by (rule independent)
    show "agree {..<length h} h' g \<Longrightarrow> cp_View A g p = Some v" by (rule independent)
  qed
qed

abbreviation moduleRelease_at :: "'m deps \<Rightarrow> ('m cell, addr option, ModuleRelease option) copier" where
  "moduleRelease_at D \<equiv> opt (cell_ref MRC is_MRC un_MRC (moduleRelease_copier D))"

abbreviation release_at :: "'m deps \<Rightarrow> ('m cell, addr option, Release option) copier" where
  "release_at D \<equiv> opt (cell_ref RelC is_RelC un_RelC (release_copier D))"

abbreviation bundleRelease_at :: "'m deps \<Rightarrow> ('m cell, addr option, BundleRelease option) copier" where
  "bundleRelease_at D \<equiv> opt (cell_ref BRC is_BRC un_BRC (bundleRelease_copier D))"

abbreviation moduleReleaseList_at :: "'m deps \<Rightarrow> ('m cell, addr option, ModuleRelease list option) copier" where
  "moduleReleaseList_at D \<equiv> opt (cell_ref MRListC is_MRListC un_MRListC (moduleReleaseList_copier D))"

abbreviation releaseList_at :: "'m deps \<Rightarrow> ('m cell, addr option, Release list option) copier" where
  "releaseList_at D \<equiv> opt (cell_ref RelListC is_RelListC un_RelListC (releaseList_copier D))"

abbreviation bundleReleaseList_at :: "'m deps \<Rightarrow> ('m cell, addr option, BundleRelease list option) copier" where
  "bundleReleaseList_at D \<equiv> opt (cell_ref BRListC is_BRListC un_BRListC (bundleReleaseList_copier D))"

context copy_deps
begin

lemma pointer_copiers:
  "deep_copier (moduleRelease_at D)" "deep_copier (release_at D)" "deep_copier (bundleRelease_at D)"
  "deep_copier (moduleReleaseList_at D)" "deep_copier (releaseList_at D)" "deep_copier (bundleReleaseList_at D)"
  by (intro part_intros object_copiers list_copiers; simp)+

end

text \<open>
  C11: deep copies are copies. Let the deep copies of the library types be deep. The generated
  \<open>DeepCopy\<close> of a ModuleRelease, a Release, a BundleRelease and of their lists returns, for a
  pointer to a well-formed object, a pointer to an object with the same value that shares no
  memory with the original: later writes to memory of the original do not show in the
  copy, and writes through the copy do not show in the original. \<open>DeepCopyObject\<close> does the same.
\<close>

theorem api_copies_independent:
  assumes "copy_deps D"
  shows "deep_copied (moduleRelease_at D) p h (ModuleRelease_DeepCopy D p h)
    \<and> deep_copied (release_at D) p h (Release_DeepCopy D p h)
    \<and> deep_copied (bundleRelease_at D) p h (BundleRelease_DeepCopy D p h)
    \<and> deep_copied (moduleReleaseList_at D) p h (ModuleReleaseList_DeepCopyObject D p h)
    \<and> deep_copied (releaseList_at D) p h (ReleaseList_DeepCopyObject D p h)
    \<and> deep_copied (bundleReleaseList_at D) p h (BundleReleaseList_DeepCopyObject D p h)"
proof -
  have object: "ModuleReleaseList_DeepCopyObject D p h = ModuleReleaseList_DeepCopy D p h"
    "ReleaseList_DeepCopyObject D p h = ReleaseList_DeepCopy D p h"
    "BundleReleaseList_DeepCopyObject D p h = BundleReleaseList_DeepCopy D p h"
    by (auto simp: ModuleReleaseList_DeepCopyObject_def ReleaseList_DeepCopyObject_def
        BundleReleaseList_DeepCopyObject_def split: prod.splits option.splits)
  show ?thesis
    unfolding object
    using copy_deps.pointer_copiers [OF assms, THEN deep_copier_copied, of p h]
    by (simp add: ModuleRelease_DeepCopy_def Release_DeepCopy_def BundleRelease_DeepCopy_def
        ModuleReleaseList_DeepCopy_def ReleaseList_DeepCopy_def BundleReleaseList_DeepCopy_def)
qed

text \<open>Library copies for the witness: metadata without pointers, times and bytes in cells of their own.\<close>

definition demo_deps :: "ObjectMeta deps" where
  "demo_deps =
     \<lparr>dp_ObjectMeta = flat,
      dp_ListMeta = \<lparr>cp_View = (\<lambda>h l. Some ()), cp_Reach = (\<lambda>h l. {}), cp_Copy = Pair\<rparr>,
      dp_JSON = opt (cell_ref BytesC is_BytesC un_BytesC flat),
      dp_Condition = flat,
      dp_Time = cell_ref TimeC is_TimeC un_TimeC flat,
      dp_SourceRef = flat\<rparr>"

interpretation demo_deps: copy_deps demo_deps
proof (rule copy_deps.intro)
  show "deep_copier (dp_ListMeta demo_deps)" by unfold_locales (auto simp: demo_deps_def)
qed (simp add: demo_deps_def, intro copier_intros; simp)+

text \<open>A release with an inventory of one entry: three cells.\<close>

definition demo_object :: "ObjectMeta mr_mem" where
  "demo_object =
     \<lparr>ob_Meta = \<lparr>om_Name = ''web'', om_Namespace = ''prod'', om_Generation = 1, om_Finalizers = [],
        om_DeletionTimestamp = None, om_Annotations = Map.empty\<rparr>,
      ob_Spec = \<lparr>msp_Flat = \<lparr>sp_Suspend = False, sp_Prune = True, sp_ServiceAccountName = [], sp_Rollout = None,
          sp_Module = \<lparr>mod_Path = ''m@v0'', mod_Version = ''v1''\<rparr>, sp_Values = None\<rparr>,
        msp_Values = None, msp_Rollout = None\<rparr>,
      ob_Status = \<lparr>mst_Flat = empty_mr_status, mst_Conditions = None, mst_LastAttemptedAt = None,
        mst_LastAttemptedDuration = None, mst_LastAppliedAt = None, mst_FailureCounters = None,
        mst_Inventory = Some 1, mst_History = None, mst_NextRetryAt = None\<rparr>\<rparr>"

definition demo_heap :: "ObjectMeta heap" where
  "demo_heap =
     [MRC demo_object,
      InventoryC \<lparr>im_Flat = \<lparr>inv_Revision = 1, inv_Digest = ''d'', inv_Count = 1, inv_Entries = []\<rparr>, im_Entries = Some 2\<rparr>,
      EntriesC [\<lparr>ie_Group = [], ie_Kind = ''ConfigMap'', ie_Namespace = ''prod'', ie_Name = ''old'', ie_Version = ''v1'',
        ie_Component = []\<rparr>]]"

lemmas demo_defs = demo_heap_def demo_object_def demo_deps_def moduleRelease_copier_def object_copier_def
  moduleReleaseSpec_copier_def moduleReleaseStatus_copier_def inventory_copier_def rawValues_copier_def
  opt_def both_def struct_def cell_ref_def ref_def cast_def flat_def nonnil_def

lemma demo_view:
  obtains mr where "cp_View (moduleRelease_at demo_deps) demo_heap (Some 0) = Some (Some mr)"
    "map_option (map ie_Name \<circ> inv_Entries) (st_Inventory (cr_Status mr)) = Some [''old'']"
  by (simp add: demo_defs)

text \<open>The original's entries are overwritten after the copy; the copy still has them.\<close>

theorem api_copies_independent_witness:
  "\<exists>q h' mr. ModuleRelease_DeepCopy demo_deps (Some 0) demo_heap = (q, h')
     \<and> map_option (map ie_Name \<circ> inv_Entries) (st_Inventory (cr_Status mr)) = Some [''old'']
     \<and> cp_View (moduleRelease_at demo_deps) (h'[2 := EntriesC []]) q = Some (Some mr)"
proof -
  obtain mr where mr: "cp_View (moduleRelease_at demo_deps) demo_heap (Some 0) = Some (Some mr)"
    "map_option (map ie_Name \<circ> inv_Entries) (st_Inventory (cr_Status mr)) = Some [''old'']" by (rule demo_view)
  obtain q h' where c: "ModuleRelease_DeepCopy demo_deps (Some 0) demo_heap = (q, h')" by fastforce
  have "deep_copied (moduleRelease_at demo_deps) (Some 0) demo_heap (q, h')"
    using api_copies_independent [OF demo_deps.copy_deps_axioms, of "Some 0" demo_heap] c by simp
  moreover have "agree {length demo_heap..} h' (h'[2 := EntriesC []])"
    by (auto simp: agree_def demo_heap_def nth_list_update)
  ultimately show ?thesis using c mr by (auto simp: deep_copied_def)
qed

end
