(* ===== verification/Spec2Isabelle.thy ===== *)
theory Spec2Isabelle
  imports Opm_Manager Opm_Rel_Reach Opm_Isolation Opm_DeepCopy
begin

text \<open>
  A verification development for the OPM operator, a Kubernetes controller in Go that deploys
  releases of Open Platform Model modules. This theory is the root and the guide; the
  models and the proofs are in the theories it imports.

  \<^bold>\<open>The program.\<close> Two custom resources drive it. A ModuleRelease names a CUE module in an OCI
  registry; a Release names a package in an artifact of a Flux source. Each has a reconcile loop
  that renders Kubernetes objects from CUE, applies them with server-side apply under the
  effective identity, prunes the objects it no longer renders, and commits status, history,
  failure counters, metrics and events. Deletion is held by a finalizer until the inventory is
  pruned or the operator orphans it. The manager loads the provider of transformers from a
  catalog, wires the loops to their dependencies and starts.

  \<^bold>\<open>Theories and sources.\<close>
  \<^item> \<open>Opm_Prelude\<close>: the Go runtime in use (errors with wrapping chains, quoting, sorting, int64),
    and the locale of comparison functions. \<open>Opm_Sha256\<close>: SHA-256, executable. \<open>Opm_Json\<close>:
    the JSON text of inventory entries.
  \<^item> \<open>Opm_Api\<close>: \<open>api/v1alpha1\<close>. \<open>Opm_Kube\<close>: the API server, events and the effect log,
    with the laws of apimachinery and Flux helpers as locales, interpreted by \<open>std_kube\<close>.
  \<^item> \<open>Opm_Core\<close>: \<open>pkg/core\<close>. \<open>Opm_Inventory\<close>: \<open>internal/inventory\<close>. \<open>Opm_Status\<close>:
    \<open>internal/status\<close>. \<open>Opm_Apply\<close> and \<open>Opm_Cluster\<close>: \<open>internal/apply\<close>, and the
    refinement of pruning to a filter on the objects of a cluster. \<open>Opm_Metrics\<close>:
    \<open>internal/metrics\<close>. \<open>Opm_Outcome\<close>: outcomes and backoff.
  \<^item> \<open>Opm_Reconcile\<close>, \<open>Opm_ModuleRelease\<close>: \<open>internal/reconcile/modulerelease.go\<close>, what
    it shares with the Release loop first. \<open>Opm_MR_Props\<close> has its properties,
    \<open>Opm_MR_Reach\<close> the invariant of all reachable statuses, \<open>Opm_Demo\<close> the concrete system
    of the witnesses.
  \<^item> \<open>Opm_Path\<close>, \<open>Opm_Source\<close>: \<open>internal/source\<close>, resolution, verified download and
    extraction. \<open>Opm_Release\<close>, \<open>Opm_Rel_Body\<close>, \<open>Opm_Rel_Props\<close>:
    \<open>internal/reconcile/release.go\<close>, its phases and its properties.
  \<^item> \<open>Opm_Errors\<close>: \<open>pkg/errors\<close>. \<open>Opm_Cue\<close>: the CUE evaluator as a record of operations
    with the locale \<open>cue_laws\<close> and the data trees that interpret it, and the types of
    \<open>pkg/module\<close> and \<open>pkg/provider\<close>. \<open>Opm_Match\<close>, \<open>Opm_Execute\<close>: \<open>pkg/render\<close>.
    \<open>Opm_Validate\<close>: \<open>pkg/validate\<close> and \<open>pkg/module/parse.go\<close>. \<open>Opm_Synthesis\<close>:
    \<open>internal/synthesis\<close>, \<open>pkg/loader\<close>, \<open>internal/catalog\<close>. \<open>Opm_Render\<close>:
    \<open>internal/render\<close>.
  \<^item> \<open>Opm_Controller\<close>: \<open>internal/controller\<close>. \<open>Opm_Order\<close>: \<open>pkg/resourceorder\<close>.
    \<open>Opm_System\<close>: the loops and the renderers together. \<open>Opm_Refine\<close>,
    \<open>Opm_Rel_Refine\<close>: what a run does to the objects of the cluster. \<open>Opm_Isolation\<close>:
    several releases on one cluster, as interleaved runs and external changes.
    \<open>Opm_Rel_Reach\<close>: the reachable statuses of a Release.
  \<^item> \<open>Opm_Bundle\<close>: the BundleRelease types and its stub controller, and the scheme. \<open>Opm_Flags\<close>,
    \<open>Opm_Manager\<close>: \<open>cmd/main.go\<close>, the command line, the options of the manager, the wiring of
    the three controllers (\<open>SetupWithManager\<close>) and the start of the process.
  \<^item> \<open>Opm_Heap\<close>, \<open>Opm_DeepCopy\<close>: \<open>zz_generated.deepcopy.go\<close> on an explicit heap.

  \<^bold>\<open>How the code is modelled.\<close> A handler is a function on a process state: the outside world, of
  an abstract type, the log of effects on the API server, and the metrics registry. Every call
  that leaves the process is an argument, so a theorem holds for every behaviour of the
  server, the clock, the renderer and the network. Early returns and panics are values
  (\<open>exit\<close>, \<open>flow\<close>, sums), the deferred commit is applied to the locals the body leaves
  behind, int64 counters are 64-bit words. Loops over slices are structural recursions. The one
  recursion that is not structural, the walk over the fields of a CUE value, is a
  \<open>partial_function\<close> in the option type. It follows optional fields too, so it does not end on
  a recursive definition such as \<open>#L: {next?: #L}\<close>: the model says exactly when it returns
  (\<open>walk_ends\<close>), the renderers of modules return in option, and a handler whose renderer does not
  return ends in \<open>Diverged\<close>, without its deferred commit. Whether the walk is ever given such a
  value is proved where the code decides it: a package is validated with no values, so its
  renderer always returns; the registry renderer passes \<open>#config\<close> itself when a release gives
  none, and returns exactly when the walks it starts end. A Go map that is iterated is an association list in the order of one iteration, and
  where the code sorts afterwards the result is proved not to depend on that order. No fuel is
  used.

  \<^bold>\<open>Interfaces.\<close> What one part relies on in another is a locale, interpreted by the part that
  provides it: \<open>flux_conditions\<close> and the other laws of \<open>Opm_Kube\<close> by \<open>std_kube\<close>,
  \<open>live_cluster\<close>, \<open>ssa_cluster\<close>, \<open>mr_cluster\<close> and \<open>rel_cluster\<close> (what the API server
  promises about its objects) by the in-memory server, \<open>cue_laws\<close> by data trees and by an
  evaluator with a recursive definition, its extension \<open>finite_cue\<close> (no recursive definitions)
  by data trees only, \<open>module_renderer\<close> and \<open>package_renderer\<close> (what the loops need of a
  renderer) by the production renderers over every evaluator, \<open>deep_copier\<close> (what a
  deep copy promises) by the combinators the generated copies are made of.

  \<^bold>\<open>What is shown.\<close> Refinement: a run that applies and succeeds turns the cluster into the
  one the module or the package describes, with the objects that its own call of the renderer
  returned; whatever happens in a run, only the objects it applied
  and the stale ones it owns can change; a deletion that gives up the finalizer has emptied the
  inventory; over any interleaving of runs and external changes an object of another release
  survives. Safety of deletion: both loops delete only deletable objects that carry
  OPM's label, read in the same run, after a successful apply, and that the objects rendered in
  this very run no longer contain. The ledger: inventory and
  last-applied digests change only after a successful apply, and then to what was applied; with
  the production renderer the inventory lists the applied objects one by one. Convergence:
  a run with unchanged inputs after a successful one does nothing. Supply chain: a Release
  deploys only bytes whose digest and size were checked; extraction stays lexically inside its
  directory. Rendering: matching decides its specification exactly, execution is all or
  nothing, each resource comes from a matching pair, values are accepted exactly if they are
  allowed, the renderers return exactly when their walks end and leave no temporary directory. Reporting: exit, requeue
  delay, conditions, history, counters and backoff agree with the outcome. Finalizers: given up
  only when nothing is left to prune or the operator asked to orphan; the copies of the deletion
  helpers in the two loops differ in one check, the owner UUID, and the objects on which they
  part are named. Start-up: the manager is a plan of calls run by an interpreter that stops at
  the first failing call with exit code 1; it sets the CUE environment before it loads the provider, hardens its servers unless a flag says
  otherwise, and runs the loops with dependencies that keep the contracts. Values and pointers: the
  models treat API objects as values; the generated deep copies, on a heap, are shown to
  return equal objects that share no memory with the original, which is what this relies on
  where the code keeps a copy as the base of a patch. Each property stands
  after a text with its number; a property with hypotheses has a witness that runs the models
  on concrete data.

  \<^bold>\<open>Not modelled.\<close> BundleRelease has no behaviour yet: its controller is a stub and its
  renderer a placeholder type. CUE, Flux, the Kubernetes client,
  controller-runtime with its work queue, archive decoders, HTTP and the file system are
  parameters with the documented laws the proofs name. Logging has no model. Time is an integer
  clock that may behave in any way. Whole runs are interleaved with each other and with external
  changes; runs that overlap in time are outside: controller-runtime serialises the requests
  of one object.
\<close>

end
